(* ===== verification/Prelude.thy ===== *)
theory Prelude
  imports Main "HOL-Library.Sublist" "HOL-Library.Word"
begin

text \<open>
  What every component of the development shares: Rust's \<open>Result\<close> and the
  \<open>?\<close> operator as a sum type with \<open>attempt\<close>; the checked and saturating
  unsigned arithmetic of the standard library; and the loops the sources write over fallible
  steps.

  Integers. A \<open>u64\<close> or (64-bit) \<open>usize\<close> is a \<^typ>\<open>nat\<close>; wherever the
  source can overflow it calls \<open>checked_add\<close>, \<open>saturating_add\<close> or
  \<open>saturating_sub\<close>, whose bounds are written out below.
\<close>

named_theorems result_simps \<open>rewriting of \<open>attempt\<close>, \<open>map_err\<close> and their kin\<close>
named_theorems text_simps \<open>unfolding of the string and path functions\<close>

section \<open>Results\<close>

type_synonym ('e, 'a) result = "'e + 'a"

text \<open>\<open>attempt r k\<close> is \<open>let x = r?; k(x)\<close>.\<close>

definition attempt :: "'e + 'a \<Rightarrow> ('a \<Rightarrow> 'e + 'b) \<Rightarrow> 'e + 'b" where
  "attempt r k = (case r of Inl e \<Rightarrow> Inl e | Inr x \<Rightarrow> k x)"

definition map_err :: "('e \<Rightarrow> 'f) \<Rightarrow> 'e + 'a \<Rightarrow> 'f + 'a" where
  "map_err f r = (case r of Inl e \<Rightarrow> Inl (f e) | Inr x \<Rightarrow> Inr x)"

definition ok_or :: "'e \<Rightarrow> 'a option \<Rightarrow> 'e + 'a" where
  "ok_or e x = (case x of None \<Rightarrow> Inl e | Some y \<Rightarrow> Inr y)"

definition is_ok :: "'e + 'a \<Rightarrow> bool" where
  "is_ok r = (case r of Inl _ \<Rightarrow> False | Inr _ \<Rightarrow> True)"

lemma attempt_simps [simp, result_simps]:
  "attempt (Inl e) k = Inl e"
  "attempt (Inr x) k = k x"
  by (simp_all add: attempt_def)

lemma map_err_simps [simp, result_simps]:
  "map_err f (Inl e) = Inl (f e)"
  "map_err f (Inr x) = Inr x"
  by (simp_all add: map_err_def)

lemma ok_or_simps [simp, result_simps]:
  "ok_or e None = Inl e"
  "ok_or e (Some x) = Inr x"
  by (simp_all add: ok_or_def)

lemma is_ok_simps [simp, result_simps]:
  "\<not> is_ok (Inl e)"
  "is_ok (Inr x)"
  by (simp_all add: is_ok_def)

lemma is_ok_iff: "is_ok r \<longleftrightarrow> (\<exists>x. r = Inr x)"
  by (cases r) auto

lemma attempt_Inr_iff [result_simps]:
  "attempt r k = Inr y \<longleftrightarrow> (\<exists>x. r = Inr x \<and> k x = Inr y)"
  by (cases r) auto

lemma attempt_Inl_iff [result_simps]:
  "attempt r k = Inl e \<longleftrightarrow> r = Inl e \<or> (\<exists>x. r = Inr x \<and> k x = Inl e)"
  by (cases r) auto

lemma map_err_Inr_iff [simp, result_simps]: "map_err f r = Inr x \<longleftrightarrow> r = Inr x"
  by (cases r) auto

lemma map_err_Inl_iff [result_simps]: "map_err f r = Inl e \<longleftrightarrow> (\<exists>d. r = Inl d \<and> f d = e)"
  by (cases r) auto

lemma ok_or_Inr_iff [simp, result_simps]: "ok_or e x = Inr y \<longleftrightarrow> x = Some y"
  by (cases x) auto

lemma ok_or_Inl_iff [result_simps]: "ok_or e x = Inl d \<longleftrightarrow> x = None \<and> d = e"
  by (cases x) auto

text \<open>Guards that only reject, and steps whose value is not used.\<close>

lemma attempt_unit_iff: "attempt r (\<lambda>_. k) = Inr x \<longleftrightarrow> is_ok r \<and> k = Inr x"
  by (cases r) auto

lemma is_ok_unit_iff: "is_ok (r :: 'e + unit) \<longleftrightarrow> r = Inr ()"
  by (cases r) auto

lemma if_Inl_eq_Inr: "(if b then Inl e else r) = Inr x \<longleftrightarrow> \<not> b \<and> r = Inr x"
  by simp

text \<open>Evaluation of a closed term should not enter a continuation before its value is known.\<close>

lemma attempt_weak_cong: "r = r' \<Longrightarrow> attempt r k = attempt r' k"
  by simp

lemma attempt_cong [fundef_cong]:
  "r = r' \<Longrightarrow> (\<And>x. r' = Inr x \<Longrightarrow> k x = k' x) \<Longrightarrow> attempt r k = attempt r' k'"
  by (cases r') auto

text \<open>\<open>iter.map(f).collect::<Result<Vec<_>, _>>()\<close> and \<open>for x in xs { f(x)?; }\<close>.\<close>

fun try_map :: "('a \<Rightarrow> 'e + 'b) \<Rightarrow> 'a list \<Rightarrow> 'e + 'b list" where
  "try_map f [] = Inr []"
| "try_map f (x # xs) = attempt (f x) (\<lambda>y. attempt (try_map f xs) (\<lambda>ys. Inr (y # ys)))"

fun try_each :: "('a \<Rightarrow> 'e + unit) \<Rightarrow> 'a list \<Rightarrow> 'e + unit" where
  "try_each f [] = Inr ()"
| "try_each f (x # xs) = attempt (f x) (\<lambda>_. try_each f xs)"

fun try_fold :: "('a \<Rightarrow> 's \<Rightarrow> 'e + 's) \<Rightarrow> 'a list \<Rightarrow> 's \<Rightarrow> 'e + 's" where
  "try_fold f [] s = Inr s"
| "try_fold f (x # xs) s = attempt (f x s) (\<lambda>s'. try_fold f xs s')"

lemma try_map_Inr_iff: "try_map f xs = Inr ys \<longleftrightarrow> list_all2 (\<lambda>x y. f x = Inr y) xs ys"
  by (induction xs arbitrary: ys) (auto simp: attempt_Inr_iff list_all2_Cons1)

lemma try_each_Inr_iff: "try_each f xs = Inr () \<longleftrightarrow> (\<forall>x\<in>set xs. f x = Inr ())"
  by (induction xs) (auto simp: attempt_Inr_iff)

lemma try_fold_append:
  "try_fold f (xs @ ys) s = attempt (try_fold f xs s) (\<lambda>t. try_fold f ys t)"
proof (induction xs arbitrary: s)
  case Nil
  show ?case by simp
next
  case (Cons x xs)
  then show ?case by (cases "f x s") simp_all
qed

lemma try_map_id:
  "(\<And>x. x \<in> set xs \<Longrightarrow> P x) \<Longrightarrow> try_map (\<lambda>x. if P x then Inr x else Inl e) xs = Inr xs"
  by (induction xs) simp_all

text \<open>A loop keeps what its body keeps; the form every loop invariant below takes.\<close>

lemma try_fold_invariant:
  assumes "try_fold f xs s = Inr t" and "P s"
    and "\<And>x s s'. x \<in> set xs \<Longrightarrow> f x s = Inr s' \<Longrightarrow> P s \<Longrightarrow> P s'"
  shows "P t"
  using assms
proof (induction xs arbitrary: s)
  case Nil
  then show ?case by simp
next
  case (Cons x xs)
  from Cons.prems(1) obtain u where u: "f x s = Inr u" "try_fold f xs u = Inr t"
    by (auto simp: attempt_Inr_iff)
  from u(1) Cons.prems(2,3) have "P u" by auto
  with u(2) Cons show ?case by auto
qed

section \<open>Operations cut short\<close>

text \<open>\<open>cut_short e r r'\<close>: \<open>r\<close> is the outcome \<open>r'\<close> of the same operation
  run without interruption, or the operation stopped with the error \<open>e\<close>.\<close>

definition cut_short :: "'e \<Rightarrow> 'e + 'a \<Rightarrow> 'e + 'a \<Rightarrow> bool" where
  "cut_short e r r' \<longleftrightarrow> r = Inl e \<or> r = r'"

lemma cut_short_refl [simp]: "cut_short e r r"
  by (simp add: cut_short_def)

lemma cut_short_attempt:
  assumes "cut_short e r r'" and "\<And>x. r' = Inr x \<Longrightarrow> cut_short e (k x) (k' x)"
  shows "cut_short e (attempt r k) (attempt r' k')"
  using assms by (cases r') (auto simp: cut_short_def)

lemma cut_short_if:
  "(\<not> b \<Longrightarrow> cut_short e r r') \<Longrightarrow> cut_short e (if b then x else r) (if b then x else r')"
  by simp

lemma cut_short_branch:
  "(b \<Longrightarrow> cut_short e r r') \<Longrightarrow> (\<not> b \<Longrightarrow> cut_short e s s') \<Longrightarrow>
     cut_short e (if b then r else s) (if b then r' else s')"
  by simp

lemma cut_short_try_fold:
  assumes "\<And>x s. cut_short e (f x s) (g x s)"
  shows "cut_short e (try_fold f xs s) (try_fold g xs s)"
proof (induction xs arbitrary: s)
  case (Cons x xs)
  from cut_short_attempt [OF assms [of x s] Cons.IH] show ?case by simp
qed simp

lemma cut_short_Inr: "cut_short e r r' \<Longrightarrow> r = Inr x \<Longrightarrow> r' = Inr x"
  by (auto simp: cut_short_def)

section \<open>Unsigned arithmetic\<close>

definition u64_max :: nat where
  "u64_max = 2 ^ 64 - 1"

definition u32_max :: nat where
  "u32_max = 2 ^ 32 - 1"

definition checked_add_u64 :: "nat \<Rightarrow> nat \<Rightarrow> nat option" where
  "checked_add_u64 a b = (if a + b \<le> u64_max then Some (a + b) else None)"

definition checked_add_u32 :: "nat \<Rightarrow> nat \<Rightarrow> nat option" where
  "checked_add_u32 a b = (if a + b \<le> u32_max then Some (a + b) else None)"

definition saturating_add_u64 :: "nat \<Rightarrow> nat \<Rightarrow> nat" where
  "saturating_add_u64 a b = min (a + b) u64_max"

text \<open>\<open>a.saturating_sub(b)\<close> is subtraction on \<^typ>\<open>nat\<close>.\<close>

lemma checked_add_u64_Some_iff [simp]:
  "checked_add_u64 a b = Some c \<longleftrightarrow> c = a + b \<and> a + b \<le> u64_max"
  by (auto simp: checked_add_u64_def)

lemma checked_add_u64_None_iff: "checked_add_u64 a b = None \<longleftrightarrow> u64_max < a + b"
  by (auto simp: checked_add_u64_def)

lemma checked_add_u32_Some_iff [simp]:
  "checked_add_u32 a b = Some c \<longleftrightarrow> c = a + b \<and> a + b \<le> u32_max"
  by (auto simp: checked_add_u32_def)

lemma saturating_add_u64_ge: "b \<le> u64_max \<Longrightarrow> b \<le> saturating_add_u64 a b"
  by (simp add: saturating_add_u64_def)

section \<open>Byte budgets\<close>

text \<open>A running total that a request may not drive past a limit: \<open>charge a t\<close> adds
  \<open>a\<close> to the total \<open>t\<close> or fails.\<close>

locale byte_budget =
  fixes charge :: "nat \<Rightarrow> nat \<Rightarrow> 'e + nat"
    and limit :: nat
  assumes charge_Inr_iff: "charge a t = Inr t' \<longleftrightarrow> t' = t + a \<and> t + a \<le> limit"
begin

lemma charge_all:
  "try_fold charge xs t = Inr t' \<Longrightarrow> t' = t + sum_list xs \<and> (xs = [] \<or> t' \<le> limit)"
proof (induction xs arbitrary: t)
  case Nil
  then show ?case by simp
next
  case (Cons x xs)
  then obtain u where u: "charge x t = Inr u" "try_fold charge xs u = Inr t'"
    by (auto simp: attempt_Inr_iff)
  from Cons.IH [OF u(2)] u(1) show ?case by (auto simp: charge_Inr_iff)
qed

lemma charge_le: "charge a t = Inr t' \<Longrightarrow> t' \<le> limit"
  by (simp add: charge_Inr_iff)

lemma charge_exact: "charge a t = Inr t' \<Longrightarrow> t' = t + a"
  by (simp add: charge_Inr_iff)

end

lemma try_each_cong: "(\<And>x. x \<in> set xs \<Longrightarrow> f x = g x) \<Longrightarrow> try_each f xs = try_each g xs"
  by (induction xs) simp_all

end
