(* ===== verification/Rust_Text.thy ===== *)
theory Rust_Text
  imports Prelude
begin

text \<open>
  The parts of \<open>std::str\<close>, \<open>std::fmt\<close> and \<open>std::path\<close> that the
  sources use. A \<open>&str\<close>, \<open>String\<close>, \<open>&[u8]\<close> or \<open>Vec<u8>\<close> is a
  \<^typ>\<open>string\<close>, one \<^typ>\<open>char\<close> per byte; \<open>len()\<close> is therefore \<^const>\<open>length\<close>.
  Whether bytes are a \<open>str\<close> is \<open>is_utf8\<close>, and \<open>chars\<close> lists the
  Unicode scalar values.
\<close>

section \<open>UTF-8\<close>

definition code :: "char \<Rightarrow> nat" where
  "code c = of_char c"

definition is_continuation :: "nat \<Rightarrow> bool" where
  "is_continuation b \<longleftrightarrow> 128 \<le> b \<and> b \<le> 191"

text \<open>
  The well-formed byte sequences of Unicode Table 3-7: no overlong forms, no
  surrogates, nothing above \<open>U+10FFFF\<close>.
\<close>

fun utf8_decode :: "nat list \<Rightarrow> nat list option" where
  "utf8_decode [] = Some []"
| "utf8_decode (a # rest) =
     (if a < 128 then map_option (Cons a) (utf8_decode rest)
      else if 194 \<le> a \<and> a \<le> 223 then
        (case rest of
           b # rest' \<Rightarrow>
             if is_continuation b
             then map_option (Cons ((a - 192) * 64 + (b - 128))) (utf8_decode rest') else None
         | _ \<Rightarrow> None)
      else if 224 \<le> a \<and> a \<le> 239 then
        (case rest of
           b # c # rest' \<Rightarrow>
             if is_continuation b \<and> is_continuation c
                \<and> (a = 224 \<longrightarrow> 160 \<le> b) \<and> (a = 237 \<longrightarrow> b \<le> 159)
             then map_option (Cons ((a - 224) * 4096 + (b - 128) * 64 + (c - 128)))
                    (utf8_decode rest') else None
         | _ \<Rightarrow> None)
      else if 240 \<le> a \<and> a \<le> 244 then
        (case rest of
           b # c # d # rest' \<Rightarrow>
             if is_continuation b \<and> is_continuation c \<and> is_continuation d
                \<and> (a = 240 \<longrightarrow> 144 \<le> b) \<and> (a = 244 \<longrightarrow> b \<le> 143)
             then map_option (Cons ((a - 240) * 262144 + (b - 128) * 4096
                                     + (c - 128) * 64 + (d - 128)))
                    (utf8_decode rest') else None
         | _ \<Rightarrow> None)
      else None)"

definition is_utf8 :: "string \<Rightarrow> bool" where
  "is_utf8 s \<longleftrightarrow> utf8_decode (map code s) \<noteq> None"

definition chars :: "string \<Rightarrow> nat list" where
  "chars s = (case utf8_decode (map code s) of None \<Rightarrow> [] | Some cs \<Rightarrow> cs)"

definition is_ascii :: "string \<Rightarrow> bool" where
  "is_ascii s \<longleftrightarrow> list_all (\<lambda>c. code c < 128) s"

text \<open>\<open>char::is_control\<close> (general category Cc) and \<open>char::is_whitespace\<close>.\<close>

definition is_control :: "nat \<Rightarrow> bool" where
  "is_control c \<longleftrightarrow> c < 32 \<or> (127 \<le> c \<and> c < 160)"

definition is_whitespace :: "nat \<Rightarrow> bool" where
  "is_whitespace c \<longleftrightarrow>
     (9 \<le> c \<and> c \<le> 13) \<or> c = 32 \<or> c = 133 \<or> c = 160 \<or> c = 5760
     \<or> (8192 \<le> c \<and> c \<le> 8202) \<or> c = 8232 \<or> c = 8233 \<or> c = 8239 \<or> c = 8287 \<or> c = 12288"

definition trim :: "nat list \<Rightarrow> nat list" where
  "trim cs = rev (dropWhile is_whitespace (rev (dropWhile is_whitespace cs)))"

lemmas text_eval = chars_def code_def trim_def is_whitespace_def is_control_def

lemma utf8_decode_ascii: "list_all (\<lambda>b. b < 128) bs \<Longrightarrow> utf8_decode bs = Some bs"
  by (induction bs) auto

lemma ascii_is_utf8: "is_ascii s \<Longrightarrow> is_utf8 s"
  by (simp add: is_ascii_def is_utf8_def utf8_decode_ascii list_all_length)

lemma ascii_chars: "is_ascii s \<Longrightarrow> chars s = map code s"
  by (simp add: is_ascii_def chars_def utf8_decode_ascii list_all_length)

lemma utf8_decode_cut:
  assumes "c < 128"
  shows "utf8_decode (xs @ c # ys) \<noteq> None \<longleftrightarrow> utf8_decode xs \<noteq> None \<and> utf8_decode ys \<noteq> None"
proof (induction xs rule: utf8_decode.induct)
  case 1
  with assms show ?case by simp
next
  case (2 a rest)
  have nc: "\<not> is_continuation c" using assms by (simp add: is_continuation_def)
  consider "a < 128" | "194 \<le> a \<and> a \<le> 223" | "224 \<le> a \<and> a \<le> 239" | "240 \<le> a \<and> a \<le> 244"
    | "\<not> a < 128 \<and> \<not> (194 \<le> a \<and> a \<le> 223) \<and> \<not> (224 \<le> a \<and> a \<le> 239) \<and> \<not> (240 \<le> a \<and> a \<le> 244)"
    by blast
  then show ?case
  proof cases
    case 1
    with 2 show ?thesis by simp
  next
    case two: 2
    with 2 nc show ?thesis by (cases rest; simp; blast)
  next
    case three: 3
    show ?thesis
    proof (cases rest)
      case Nil
      with three nc show ?thesis by (cases ys) simp_all
    next
      case (Cons b r)
      with 2 three nc show ?thesis by (cases r; simp; blast)
    qed
  next
    case four: 4
    show ?thesis
    proof (cases rest)
      case Nil
      with four nc show ?thesis by (cases ys; cases "tl ys") simp_all
    next
      case b: (Cons b r)
      show ?thesis
      proof (cases r)
        case Nil
        with four nc b show ?thesis by (cases ys) simp_all
      next
        case (Cons d r')
        with 2 four nc b show ?thesis by (cases r'; simp; blast)
      qed
    qed
  next
    case 5
    then have "utf8_decode (a # zs) = None" for zs by (simp only: utf8_decode.simps if_False)
    then show ?thesis by simp
  qed
qed

lemma is_utf8_cut: "code c < 128 \<Longrightarrow> is_utf8 (s @ c # t) \<longleftrightarrow> is_utf8 s \<and> is_utf8 t"
  using utf8_decode_cut [of "code c" "map code s" "map code t"] by (simp add: is_utf8_def)

lemma is_utf8_Nil [simp]: "is_utf8 []"
  by (simp add: is_utf8_def)

lemma trim_eq_Nil_iff: "trim cs = [] \<longleftrightarrow> (\<forall>c\<in>set cs. is_whitespace c)"
proof -
  have "trim cs = [] \<longleftrightarrow> (\<forall>c\<in>set (rev (dropWhile is_whitespace cs)). is_whitespace c)"
    by (simp add: trim_def dropWhile_eq_Nil_conv)
  also have "\<dots> \<longleftrightarrow> dropWhile is_whitespace cs = []"
  proof
    assume all: "\<forall>c\<in>set (rev (dropWhile is_whitespace cs)). is_whitespace c"
    show "dropWhile is_whitespace cs = []"
    proof (rule ccontr)
      assume ne: "dropWhile is_whitespace cs \<noteq> []"
      then have "\<not> is_whitespace (hd (dropWhile is_whitespace cs))" by (rule hd_dropWhile)
      with all ne show False by simp
    qed
  qed (auto dest: set_dropWhileD)
  finally show ?thesis by (simp add: dropWhile_eq_Nil_conv)
qed

section \<open>Character classes\<close>

definition is_ascii_digit :: "char \<Rightarrow> bool" where
  "is_ascii_digit c \<longleftrightarrow> 48 \<le> code c \<and> code c \<le> 57"

definition is_ascii_lowercase :: "char \<Rightarrow> bool" where
  "is_ascii_lowercase c \<longleftrightarrow> 97 \<le> code c \<and> code c \<le> 122"

section \<open>Prefixes, suffixes and splitting\<close>

definition strip_prefix :: "string \<Rightarrow> string \<Rightarrow> string option" where
  "strip_prefix p s = (if prefix p s then Some (drop (length p) s) else None)"

definition strip_suffix_char :: "char \<Rightarrow> string \<Rightarrow> string option" where
  "strip_suffix_char c s = (if s \<noteq> [] \<and> last s = c then Some (butlast s) else None)"

definition starts_with_char :: "char \<Rightarrow> string \<Rightarrow> bool" where
  "starts_with_char c s \<longleftrightarrow> s \<noteq> [] \<and> hd s = c"

definition ends_with_char :: "char \<Rightarrow> string \<Rightarrow> bool" where
  "ends_with_char c s \<longleftrightarrow> s \<noteq> [] \<and> last s = c"

lemma strip_prefix_Some_iff: "strip_prefix p s = Some r \<longleftrightarrow> s = p @ r"
  by (auto simp: strip_prefix_def prefix_def)

lemma strip_prefix_None_iff: "strip_prefix p s = None \<longleftrightarrow> (\<forall>r. s \<noteq> p @ r)"
  by (auto simp: strip_prefix_def prefix_def)

lemma strip_suffix_char_Some_iff: "strip_suffix_char c s = Some r \<longleftrightarrow> s = r @ [c]"
  by (cases s rule: rev_cases) (auto simp: strip_suffix_char_def)

text \<open>\<open>str::split(c)\<close>: one piece more than there are separators.\<close>

fun split_on :: "char \<Rightarrow> string \<Rightarrow> string list" where
  "split_on d [] = [[]]"
| "split_on d (c # s) =
     (if c = d then [] # split_on d s
      else (case split_on d s of [] \<Rightarrow> [[c]] | p # ps \<Rightarrow> (c # p) # ps))"

fun join_with :: "char \<Rightarrow> string list \<Rightarrow> string" where
  "join_with d [] = []"
| "join_with d [p] = p"
| "join_with d (p # q # ps) = p @ d # join_with d (q # ps)"

lemma split_on_not_Nil [simp]: "split_on d s \<noteq> []"
  by (induction s) (auto split: list.splits)

lemma join_split_on: "join_with d (split_on d s) = s"
proof (induction s)
  case Nil
  show ?case by simp
next
  case (Cons c s)
  show ?case
  proof (cases "split_on d s")
    case Nil
    then show ?thesis by simp
  next
    case (Cons p ps)
    with Cons.IH show ?thesis by (cases ps) auto
  qed
qed

lemma split_on_no_sep: "p \<in> set (split_on d s) \<Longrightarrow> d \<notin> set p"
  by (induction s arbitrary: p) (auto split: if_splits list.splits)

lemma split_on_single: "d \<notin> set s \<Longrightarrow> split_on d s = [s]"
  by (induction s) auto

lemma split_on_append: "d \<notin> set p \<Longrightarrow> split_on d (p @ d # s) = p # split_on d s"
  by (induction p) auto

lemma split_join_with:
  "ps \<noteq> [] \<Longrightarrow> (\<And>p. p \<in> set ps \<Longrightarrow> d \<notin> set p) \<Longrightarrow> split_on d (join_with d ps) = ps"
  by (induction d ps rule: join_with.induct) (auto simp: split_on_single split_on_append)

text \<open>\<open>str::split_inclusive('\n')\<close>: lines with their terminators.\<close>

fun split_inclusive :: "char \<Rightarrow> string \<Rightarrow> string list" where
  "split_inclusive d [] = []"
| "split_inclusive d (c # s) =
     (if c = d then [c] # split_inclusive d s
      else (case split_inclusive d s of [] \<Rightarrow> [[c]] | l # ls \<Rightarrow> (c # l) # ls))"

lemma concat_split_inclusive: "concat (split_inclusive d s) = s"
  by (induction s) (auto split: list.splits)

lemma split_inclusive_append:
  "d \<notin> set l \<Longrightarrow> split_inclusive d (l @ d # s) = (l @ [d]) # split_inclusive d s"
  by (induction l) auto

fun inclusive_lines :: "char \<Rightarrow> string list \<Rightarrow> bool" where
  "inclusive_lines d [] = True"
| "inclusive_lines d (l # ls) =
     (l \<noteq> [] \<and> d \<notin> set (butlast l) \<and> (ls \<noteq> [] \<longrightarrow> last l = d) \<and> inclusive_lines d ls)"

lemma inclusive_lines_split: "inclusive_lines d (split_inclusive d s)"
  by (induction s) (auto split: list.splits)

lemma inclusive_lines_append:
  "inclusive_lines d (xs @ ys) \<Longrightarrow> inclusive_lines d xs \<and> inclusive_lines d ys"
  by (induction xs) auto

lemma split_inclusive_line:
  "l \<noteq> [] \<Longrightarrow> d \<notin> set (butlast l) \<Longrightarrow> split_inclusive d l = [l]"
  by (induction l) (auto split: if_splits list.splits)

lemma split_inclusive_concat: "inclusive_lines d ls \<Longrightarrow> split_inclusive d (concat ls) = ls"
proof (induction ls)
  case Nil
  show ?case by simp
next
  case (Cons l ls)
  show ?case
  proof (cases "ls = []")
    case True
    with Cons.prems show ?thesis by (simp add: split_inclusive_line)
  next
    case False
    with Cons.prems obtain b where "l = b @ [d]" "d \<notin> set b"
      by (metis append_butlast_last_id inclusive_lines.simps(2))
    then have "split_inclusive d (l @ concat ls) = l # split_inclusive d (concat ls)"
      by (simp add: split_inclusive_append)
    with Cons show ?thesis by simp
  qed
qed

lemma split_inclusive_parts:
  assumes "split_inclusive d s = xs @ ys"
  shows "split_inclusive d (concat xs) = xs" and "split_inclusive d (concat ys) = ys"
  using inclusive_lines_split [of d s] assms inclusive_lines_append split_inclusive_concat
  by metis+

lemma split_inclusive_ends_append:
  assumes "ends_with_char d s"
  shows "split_inclusive d (s @ t) = split_inclusive d s @ split_inclusive d t"
  using assms
proof (induction s)
  case Nil
  then show ?case by (simp add: ends_with_char_def)
next
  case (Cons c s)
  show ?case
  proof (cases "s = []")
    case True
    with Cons.prems show ?thesis by (simp add: ends_with_char_def)
  next
    case False
    with Cons have IH: "split_inclusive d (s @ t) = split_inclusive d s @ split_inclusive d t"
      by (simp add: ends_with_char_def)
    have "split_inclusive d s \<noteq> []"
      using False concat_split_inclusive [of d s] by auto
    with IH show ?thesis by (auto split: list.splits)
  qed
qed

section \<open>Decimal formatting\<close>

definition digit_char :: "nat \<Rightarrow> char" where
  "digit_char n = char_of (48 + n)"

fun show_nat :: "nat \<Rightarrow> string" where
  "show_nat n = (if n < 10 then [digit_char n] else show_nat (n div 10) @ [digit_char (n mod 10)])"

declare show_nat.simps [simp del]

definition pad_zero :: "nat \<Rightarrow> string \<Rightarrow> string" where
  "pad_zero w s = replicate (w - length s) (CHR ''0'') @ s"

text \<open>\<open>{:02}\<close> and \<open>{:04}\<close>; the width counts a leading minus sign.\<close>

definition format_02 :: "nat \<Rightarrow> string" where
  "format_02 n = pad_zero 2 (show_nat n)"

definition format_04 :: "int \<Rightarrow> string" where
  "format_04 i = (if i < 0 then CHR ''-'' # pad_zero 3 (show_nat (nat (- i)))
                  else pad_zero 4 (show_nat (nat i)))"

lemma code_digit_char [simp]: "n < 10 \<Longrightarrow> code (digit_char n) = 48 + n"
  by (simp add: code_def digit_char_def)

lemma digit_char_eval [simp]:
  "digit_char 0 = CHR ''0''" "digit_char (Suc 0) = CHR ''1''" "digit_char 1 = CHR ''1''"
  "digit_char 2 = CHR ''2''" "digit_char 3 = CHR ''3''" "digit_char 4 = CHR ''4''"
  "digit_char 5 = CHR ''5''" "digit_char 6 = CHR ''6''" "digit_char 7 = CHR ''7''"
  "digit_char 8 = CHR ''8''" "digit_char 9 = CHR ''9''"
  by code_simp+

lemma show_nat_not_Nil [simp]: "show_nat n \<noteq> []"
  by (subst show_nat.simps) simp

lemma show_nat_digits: "c \<in> set (show_nat n) \<Longrightarrow> is_ascii_digit c"
proof (induction n rule: show_nat.induct)
  case (1 n)
  show ?case
  proof (cases "n < 10")
    case True
    with "1.prems" show ?thesis by (simp add: show_nat.simps [of n] is_ascii_digit_def)
  next
    case False
    with "1" show ?thesis by (auto simp: show_nat.simps [of n] is_ascii_digit_def)
  qed
qed

text \<open>\<open>str::parse::<u64>\<close> on a string of digits.\<close>

fun digits_value :: "nat \<Rightarrow> string \<Rightarrow> nat" where
  "digits_value acc [] = acc"
| "digits_value acc (c # s) = digits_value (10 * acc + (code c - 48)) s"

lemma digits_value_append:
  "digits_value acc (s @ t) = digits_value (digits_value acc s) t"
  by (induction s arbitrary: acc) auto

lemma digits_value_show_nat: "digits_value 0 (show_nat n) = n"
proof (induction n rule: show_nat.induct)
  case (1 n)
  show ?case
  proof (cases "n < 10")
    case True
    then show ?thesis by (simp add: show_nat.simps [of n])
  next
    case False
    with "1" show ?thesis by (simp add: show_nat.simps [of n] digits_value_append)
  qed
qed

lemma show_nat_inject [simp]: "show_nat m = show_nat n \<longleftrightarrow> m = n"
  by (metis digits_value_show_nat)

lemma show_nat_hd: "0 < n \<Longrightarrow> hd (show_nat n) \<noteq> CHR ''0''"
proof (induction n rule: show_nat.induct)
  case (1 n)
  show ?case
  proof (cases "n < 10")
    case True
    have "digit_char n \<noteq> CHR ''0''"
    proof
      assume "digit_char n = CHR ''0''"
      then have "code (digit_char n) = 48" by (simp add: code_def)
      with True "1.prems" show False by simp
    qed
    with True show ?thesis by (simp add: show_nat.simps [of n])
  next
    case False
    with "1" have "hd (show_nat (n div 10)) \<noteq> CHR ''0''" by simp
    with False show ?thesis by (simp add: show_nat.simps [of n])
  qed
qed

lemma ascii_digits: "list_all is_ascii_digit s \<Longrightarrow> is_ascii s"
  by (auto simp: is_ascii_def is_ascii_digit_def code_def list_all_iff)

lemma is_ascii_append [simp]: "is_ascii (s @ t) \<longleftrightarrow> is_ascii s \<and> is_ascii t"
  by (auto simp: is_ascii_def)

lemma is_ascii_Cons: "is_ascii (c # s) \<longleftrightarrow> code c < 128 \<and> is_ascii s"
  by (simp add: is_ascii_def)

lemma ascii_show_nat: "is_ascii (show_nat n)"
  by (rule ascii_digits) (simp add: list_all_iff show_nat_digits)

lemma ascii_pad_zero: "is_ascii (pad_zero w s) \<longleftrightarrow> is_ascii s"
  by (auto simp: pad_zero_def is_ascii_def code_def list_all_iff)

lemma ascii_formats [simp]: "is_ascii (format_02 n)" "is_ascii (format_04 i)"
  by (auto simp: format_02_def format_04_def ascii_pad_zero ascii_show_nat is_ascii_Cons code_def)


section \<open>Paths\<close>

text \<open>
  A relative \<open>Path\<close> is the list of its components. The sources build paths by
  \<open>join\<close> from single components, so \<open>join\<close> appends.
\<close>

type_synonym path = "string list"

definition parent :: "path \<Rightarrow> path option" where
  "parent p = (if p = [] then None else Some (butlast p))"

definition file_name :: "path \<Rightarrow> string option" where
  "file_name p = (if p = [] then None else Some (last p))"

text \<open>
  \<open>Path::extension\<close> of a file name: the part after the last dot, unless there is no
  dot or nothing stands before the only dot.
\<close>

definition extension :: "string \<Rightarrow> string option" where
  "extension name =
     (if name = ''..'' \<or> CHR ''.'' \<notin> set name then None
      else let after = rev (takeWhile (\<lambda>c. c \<noteq> CHR ''.'') (rev name));
               before = take (length name - length after - 1) name
           in if before = [] then None else Some after)"

definition path_extension :: "path \<Rightarrow> string option" where
  "path_extension p = Option.bind (file_name p) extension"

lemma parent_snoc [simp]: "parent (p @ [c]) = Some p"
  by (simp add: parent_def)

lemma file_name_snoc [simp]: "file_name (p @ [c]) = Some c"
  by (simp add: file_name_def)

lemma path_extension_snoc [simp]: "path_extension (p @ [c]) = extension c"
  by (simp add: path_extension_def)

end
