(* ===== verification/Core_Identifiers.thy ===== *)
theory Core_Identifiers
  imports Rust_Text "HOL-Library.List_Lexorder" "HOL-Library.Char_ord"
begin

text \<open>
  \<open>crates/core\<close>: the typed identifiers (\<open>id.rs\<close>), path types
  (\<open>path.rs\<close>), content revisions (\<open>revision.rs\<close>) and stable error codes
  (\<open>error_code.rs\<close>). Each newtype over a string is a datatype with one constructor;
  its \<open>FromStr\<close> is a function into a sum, \<open>Inl\<close> the error. The locale
  \<open>canonical_text\<close> states what all of them promise: the text of a parsed value is the
  parsed text. The \<open>ulid\<close> crate is the pair of parameters \<open>uparse\<close>,
  \<open>ushow\<close>.
\<close>

section \<open>The contract of a canonical text type\<close>

locale canonical_text =
  fixes from_str :: "string \<Rightarrow> 'e + 'a"
    and to_str :: "'a \<Rightarrow> string"
    and valid :: "'a \<Rightarrow> bool"
  assumes from_str_canonical: "from_str s = Inr x \<Longrightarrow> to_str x = s"
    and from_str_valid: "from_str s = Inr x \<Longrightarrow> valid x"
    and from_str_to_str: "valid x \<Longrightarrow> from_str (to_str x) = Inr x"
begin

lemma from_str_inject: "from_str s = Inr x \<Longrightarrow> from_str t = Inr x \<Longrightarrow> s = t"
  using from_str_canonical by blast

lemma to_str_inject: "valid x \<Longrightarrow> valid y \<Longrightarrow> to_str x = to_str y \<Longrightarrow> x = y"
  using from_str_to_str by (metis sum.inject(2))

lemma from_str_Inr_iff: "from_str s = Inr x \<longleftrightarrow> valid x \<and> to_str x = s"
  using from_str_canonical from_str_valid from_str_to_str by blast

lemma reparse: "from_str s = Inr x \<Longrightarrow> from_str (to_str x) = Inr x"
  using from_str_valid from_str_to_str by blast

lemma accepts_iff: "is_ok (from_str s) \<longleftrightarrow> (\<exists>x. valid x \<and> to_str x = s)"
  by (auto simp: is_ok_iff from_str_Inr_iff)

end

section \<open>Stable error codes (error\_code.rs)\<close>

datatype document_status = Active | Completed | Deprecated | Archived

datatype error_code =
    InvalidProtocol | InvalidRequest | InvalidFrontMatter | InvalidPath
  | UnsupportedFileType | LimitExceeded | RequestIdReused | RequestNotFound
  | DocumentIdConflict | DocumentNotFound | RevisionConflict | OperationForbidden
  | ContentValidationFailed | QuartzBuildFailed | TemporaryFailure | InternalError

fun display_error_code :: "error_code \<Rightarrow> string" where
  "display_error_code InvalidProtocol = ''INVALID_PROTOCOL''"
| "display_error_code InvalidRequest = ''INVALID_REQUEST''"
| "display_error_code InvalidFrontMatter = ''INVALID_FRONT_MATTER''"
| "display_error_code InvalidPath = ''INVALID_PATH''"
| "display_error_code UnsupportedFileType = ''UNSUPPORTED_FILE_TYPE''"
| "display_error_code LimitExceeded = ''LIMIT_EXCEEDED''"
| "display_error_code RequestIdReused = ''REQUEST_ID_REUSED''"
| "display_error_code RequestNotFound = ''REQUEST_NOT_FOUND''"
| "display_error_code DocumentIdConflict = ''DOCUMENT_ID_CONFLICT''"
| "display_error_code DocumentNotFound = ''DOCUMENT_NOT_FOUND''"
| "display_error_code RevisionConflict = ''REVISION_CONFLICT''"
| "display_error_code OperationForbidden = ''OPERATION_FORBIDDEN''"
| "display_error_code ContentValidationFailed = ''CONTENT_VALIDATION_FAILED''"
| "display_error_code QuartzBuildFailed = ''QUARTZ_BUILD_FAILED''"
| "display_error_code TemporaryFailure = ''TEMPORARY_FAILURE''"
| "display_error_code InternalError = ''INTERNAL_ERROR''"

lemma display_error_code_inject: "display_error_code a = display_error_code b \<longleftrightarrow> a = b"
  by (cases a; cases b) simp_all

section \<open>Identifiers (id.rs)\<close>

text \<open>A \<open>Ulid\<close> is a 128-bit integer; the four identifier types wrap it.\<close>

type_synonym ulid = "128 word"

datatype decode_error = InvalidChar | OtherDecodeError

datatype request_id = RequestId (request_ulid: ulid)
datatype batch_id = BatchId (batch_ulid: ulid)
datatype document_id = DocumentId (document_ulid: ulid)
datatype session_id = SessionId (session_ulid: ulid)

definition id_from_str ::
  "(string \<Rightarrow> decode_error + ulid) \<Rightarrow> (ulid \<Rightarrow> string) \<Rightarrow> string \<Rightarrow> decode_error + ulid" where
  "id_from_str uparse ushow value =
     attempt (uparse value) (\<lambda>parsed.
       if ushow parsed \<noteq> value then Inl InvalidChar else Inr parsed)"

definition request_id_from_str ::
  "(string \<Rightarrow> decode_error + ulid) \<Rightarrow> (ulid \<Rightarrow> string) \<Rightarrow> string \<Rightarrow> decode_error + request_id" where
  "request_id_from_str uparse ushow value =
     attempt (id_from_str uparse ushow value) (\<lambda>u. Inr (RequestId u))"

definition request_id_to_string :: "(ulid \<Rightarrow> string) \<Rightarrow> request_id \<Rightarrow> string" where
  "request_id_to_string ushow r = ushow (request_ulid r)"

interpretation request_id_text: canonical_text
  "request_id_from_str uparse ushow" "request_id_to_string ushow"
  "\<lambda>r. uparse (ushow (request_ulid r)) = Inr (request_ulid r)"
  for uparse ushow
proof
  fix s r
  assume "request_id_from_str uparse ushow s = Inr r"
  then show "request_id_to_string ushow r = s"
    and "uparse (ushow (request_ulid r)) = Inr (request_ulid r)"
    by (auto simp: request_id_from_str_def id_from_str_def request_id_to_string_def
        attempt_Inr_iff split: if_splits)
next
  fix r
  assume "uparse (ushow (request_ulid r)) = Inr (request_ulid r)"
  then show "request_id_from_str uparse ushow (request_id_to_string ushow r) = Inr r"
    by (simp add: request_id_from_str_def id_from_str_def request_id_to_string_def)
qed

text \<open>Request identifiers are ordered by their integer, as the derived \<open>Ord\<close> does.\<close>

instantiation request_id :: linorder
begin

definition less_eq_request_id :: "request_id \<Rightarrow> request_id \<Rightarrow> bool" where
  "less_eq_request_id a b \<longleftrightarrow> request_ulid a \<le> request_ulid b"

definition less_request_id :: "request_id \<Rightarrow> request_id \<Rightarrow> bool" where
  "less_request_id a b \<longleftrightarrow> request_ulid a < request_ulid b"

instance
proof
  fix a b c :: request_id
  show "(a < b) = (a \<le> b \<and> \<not> b \<le> a)"
    by (auto simp: less_eq_request_id_def less_request_id_def)
  show "a \<le> a" by (simp add: less_eq_request_id_def)
  show "a \<le> b \<Longrightarrow> b \<le> c \<Longrightarrow> a \<le> c" by (auto simp: less_eq_request_id_def)
  show "a \<le> b \<Longrightarrow> b \<le> a \<Longrightarrow> a = b"
    by (auto simp: less_eq_request_id_def intro: request_id.expand)
  show "a \<le> b \<or> b \<le> a" by (auto simp: less_eq_request_id_def)
qed

end

section \<open>Path types (path.rs)\<close>

definition MAX_PATH_LENGTH :: nat where "MAX_PATH_LENGTH = 4096"
definition MAX_COMPONENT_LENGTH :: nat where "MAX_COMPONENT_LENGTH = 255"
definition MAX_PROJECT_LENGTH :: nat where "MAX_PROJECT_LENGTH = 63"

datatype path_validation_error =
    EmptyValue | EmptyComponent | Absolute | Traversal | Backslash | Separator
  | ControlCharacterInPath | HiddenComponent | InvalidProjectId | TooLong nat nat

datatype project_id = ProjectId (project_str: string)
datatype payload_path = PayloadPath (payload_str: string)
datatype attachment_name = AttachmentName (attachment_str: string)

definition validate_project_id :: "string \<Rightarrow> path_validation_error + unit" where
  "validate_project_id value =
     (if value = [] then Inl EmptyValue
      else if length value > MAX_PROJECT_LENGTH then Inl (TooLong MAX_PROJECT_LENGTH (length value))
      else if starts_with_char (CHR ''-'') value \<or> ends_with_char (CHR ''-'') value
        then Inl InvalidProjectId
      else if \<not> list_all (\<lambda>b. is_ascii_lowercase b \<or> is_ascii_digit b \<or> b = CHR ''-'') value
        then Inl InvalidProjectId
      else Inr ())"

definition validate_component :: "string \<Rightarrow> path_validation_error + unit" where
  "validate_component value =
     (if value = [] then Inl EmptyComponent
      else if value = ''.'' \<or> value = ''..'' then Inl Traversal
      else if length value > MAX_COMPONENT_LENGTH
        then Inl (TooLong MAX_COMPONENT_LENGTH (length value))
      else if list_ex is_control (chars value) then Inl ControlCharacterInPath
      else Inr ())"

definition validate_relative_path :: "string \<Rightarrow> path_validation_error + unit" where
  "validate_relative_path value =
     (if value = [] then Inl EmptyValue
      else if length value > MAX_PATH_LENGTH then Inl (TooLong MAX_PATH_LENGTH (length value))
      else if starts_with_char (CHR ''/'') value then Inl Absolute
      else if CHR 0x5C \<in> set value then Inl Backslash
      else try_each validate_component (split_on (CHR ''/'') value))"

definition project_id_from_str :: "string \<Rightarrow> path_validation_error + project_id" where
  "project_id_from_str value =
     attempt (validate_project_id value) (\<lambda>_. Inr (ProjectId value))"

definition payload_path_from_str :: "string \<Rightarrow> path_validation_error + payload_path" where
  "payload_path_from_str value =
     attempt (validate_relative_path value) (\<lambda>_. Inr (PayloadPath value))"

definition attachment_name_from_str :: "string \<Rightarrow> path_validation_error + attachment_name" where
  "attachment_name_from_str value =
     (if CHR ''/'' \<in> set value \<or> CHR 0x5C \<in> set value then Inl Separator
      else attempt (validate_component value) (\<lambda>_.
        if starts_with_char (CHR ''.'') value then Inl HiddenComponent
        else Inr (AttachmentName value)))"

interpretation project_text: canonical_text
  project_id_from_str project_str "\<lambda>p. validate_project_id (project_str p) = Inr ()"
  by unfold_locales (auto simp: project_id_from_str_def attempt_Inr_iff)

interpretation payload_text: canonical_text
  payload_path_from_str payload_str "\<lambda>p. validate_relative_path (payload_str p) = Inr ()"
  by unfold_locales (auto simp: payload_path_from_str_def attempt_Inr_iff)

interpretation attachment_text: canonical_text
  attachment_name_from_str attachment_str "\<lambda>a. is_ok (attachment_name_from_str (attachment_str a))"
  by unfold_locales
    (auto simp: attachment_name_from_str_def attempt_Inr_iff is_ok_iff split: if_splits)

section \<open>Client identifiers (crates/protocol/src/lib.rs)\<close>

definition MAXIMUM_CLIENT_ID_BYTES :: nat where "MAXIMUM_CLIENT_ID_BYTES = 63"

datatype client_id = ClientId (client_str: string)

datatype client_id_error = ClientIdEmpty | ClientIdTooLong nat nat | ClientIdInvalidCharacter

definition client_id_from_str :: "string \<Rightarrow> client_id_error + client_id" where
  "client_id_from_str value =
     (if value = [] then Inl ClientIdEmpty
      else if length value > MAXIMUM_CLIENT_ID_BYTES
        then Inl (ClientIdTooLong MAXIMUM_CLIENT_ID_BYTES (length value))
      else if starts_with_char (CHR ''-'') value \<or> ends_with_char (CHR ''-'') value \<or>
          \<not> list_all (\<lambda>b. is_ascii_lowercase b \<or> is_ascii_digit b \<or> b = CHR ''-'') value
        then Inl ClientIdInvalidCharacter
      else Inr (ClientId value))"

interpretation client_text: canonical_text
  client_id_from_str client_str "\<lambda>c. is_ok (client_id_from_str (client_str c))"
  by unfold_locales (auto simp: client_id_from_str_def is_ok_iff split: if_splits)

section \<open>Revisions (revision.rs)\<close>

definition PREFIX :: string where "PREFIX = ''sha256:''"
definition DIGEST_BYTES :: nat where "DIGEST_BYTES = 32"
definition DIGEST_HEX_LENGTH :: nat where "DIGEST_HEX_LENGTH = DIGEST_BYTES * 2"

text \<open>The array \<open>[u8; 32]\<close> is a list; \<open>wf_revision\<close> is its length.\<close>

datatype revision = Revision (revision_bytes: "8 word list")

definition wf_revision :: "revision \<Rightarrow> bool" where
  "wf_revision r \<longleftrightarrow> length (revision_bytes r) = DIGEST_BYTES"

datatype revision_parse_error = MissingPrefix | InvalidLength nat | InvalidHex

text \<open>\<open>{byte:02x}\<close>.\<close>

definition hex_char :: "nat \<Rightarrow> char" where
  "hex_char n = ''0123456789abcdef'' ! n"

definition format_02x :: "8 word \<Rightarrow> string" where
  "format_02x b = [hex_char (unat b div 16), hex_char (unat b mod 16)]"

text \<open>\<open>u8::from_str_radix(s, 16)\<close>: an optional \<open>+\<close>, then hexadecimal digits of either
  case with a value below 256.\<close>

definition hex_value :: "char \<Rightarrow> nat option" where
  "hex_value c =
     (if is_ascii_digit c then Some (code c - 48)
      else if 97 \<le> code c \<and> code c \<le> 102 then Some (code c - 87)
      else if 65 \<le> code c \<and> code c \<le> 70 then Some (code c - 55)
      else None)"

fun radix_16 :: "nat \<Rightarrow> string \<Rightarrow> nat option" where
  "radix_16 acc [] = Some acc"
| "radix_16 acc (c # cs) =
     (case hex_value c of
        None \<Rightarrow> None
      | Some d \<Rightarrow> if acc * 16 + d < 256 then radix_16 (acc * 16 + d) cs else None)"

definition u8_from_str_radix_16 :: "string \<Rightarrow> 8 word option" where
  "u8_from_str_radix_16 s =
     (let digits = (if starts_with_char (CHR ''+'') s \<and> length s > 1 then tl s else s) in
      if digits = [] then None else map_option of_nat (radix_16 0 digits))"

fun chunks_exact_2 :: "string \<Rightarrow> string list" where
  "chunks_exact_2 (a # b # cs) = [a, b] # chunks_exact_2 cs"
| "chunks_exact_2 _ = []"

definition is_lower_hex :: "char \<Rightarrow> bool" where
  "is_lower_hex c \<longleftrightarrow> is_ascii_digit c \<or> 97 \<le> code c \<and> code c \<le> 102"

definition display_revision :: "revision \<Rightarrow> string" where
  "display_revision r = PREFIX @ concat (map format_02x (revision_bytes r))"

definition revision_from_str :: "string \<Rightarrow> revision_parse_error + revision" where
  "revision_from_str value =
     (case strip_prefix PREFIX value of
        None \<Rightarrow> Inl MissingPrefix
      | Some digest \<Rightarrow>
          if length digest \<noteq> DIGEST_HEX_LENGTH then Inl (InvalidLength (length digest))
          else if \<not> list_all is_lower_hex digest then Inl InvalidHex
          else attempt
            (try_map (\<lambda>pair. ok_or InvalidHex (u8_from_str_radix_16 pair)) (chunks_exact_2 digest))
            (\<lambda>bytes. Inr (Revision bytes)))"

lemma lower_hex_eq_hex_char:
  assumes "is_lower_hex c"
  obtains n where "n < 16" "c = hex_char n" "hex_value c = Some n"
proof -
  have lt: "code c < 256" by (simp add: code_def)
  have "c = char_of (code c)" by (simp add: code_def)
  moreover have "code c \<in> set [48..<58] \<union> set [97..<103]"
    using assms by (simp only: is_lower_hex_def is_ascii_digit_def set_upt Un_iff
        atLeastLessThan_iff) linarith
  moreover have "\<forall>k \<in> set [48..<58] \<union> set [97..<103]. \<exists>n \<in> set [0..<16].
      char_of k = hex_char n \<and> hex_value (char_of k) = Some n"
    by code_simp
  ultimately show thesis using that by (metis atLeastLessThan_iff set_upt)
qed

lemma hex_char_facts:
  assumes "n < 16"
  shows "is_lower_hex (hex_char n)" and "hex_value (hex_char n) = Some n"
    and "hex_char n \<noteq> CHR ''+''"
proof -
  have "\<forall>n \<in> set [0..<16]. is_lower_hex (hex_char n) \<and> hex_value (hex_char n) = Some n
      \<and> hex_char n \<noteq> CHR ''+''"
    by code_simp
  with assms show "is_lower_hex (hex_char n)" and "hex_value (hex_char n) = Some n"
    and "hex_char n \<noteq> CHR ''+''" by auto
qed

lemma radix_pair:
  assumes "m < 16" "n < 16"
  shows "u8_from_str_radix_16 [hex_char m, hex_char n] = Some (of_nat (m * 16 + n))"
  using assms hex_char_facts [OF assms(1)] hex_char_facts [OF assms(2)]
  by (simp add: u8_from_str_radix_16_def starts_with_char_def)

lemma unat_less_256: "unat (b :: 8 word) < 256"
proof -
  have "unat b < 2 ^ LENGTH(8)" by (rule unsigned_less)
  then show ?thesis by simp
qed

lemma radix_format_02x [simp]: "u8_from_str_radix_16 (format_02x b) = Some b"
proof -
  have "unat b < 256" by (rule unat_less_256)
  then have "unat b div 16 < 16" "unat b mod 16 < 16" by auto
  from radix_pair [OF this] show ?thesis by (simp add: format_02x_def)
qed

lemma format_02x_radix:
  assumes "is_lower_hex a" "is_lower_hex b" "u8_from_str_radix_16 [a, b] = Some w"
  shows "format_02x w = [a, b]"
proof -
  from assms(1) obtain m where m: "m < 16" "a = hex_char m" by (rule lower_hex_eq_hex_char)
  from assms(2) obtain n where n: "n < 16" "b = hex_char n" by (rule lower_hex_eq_hex_char)
  have "w = of_nat (m * 16 + n)" using assms(3) m n radix_pair by simp
  moreover have "unat (of_nat (m * 16 + n) :: 8 word) = m * 16 + n"
    using m(1) n(1) by (simp only: unat_of_nat) simp
  ultimately show ?thesis using m n by (simp add: format_02x_def)
qed

lemma chunks_exact_2_concat_format:
  "chunks_exact_2 (concat (map format_02x bs)) = map format_02x bs"
  by (induction bs) (simp_all add: format_02x_def)

lemma concat_format_lower_hex: "list_all is_lower_hex (concat (map format_02x bs))"
proof (induction bs)
  case (Cons b bs)
  have "unat b < 256" by (rule unat_less_256)
  then have "unat b div 16 < 16" by auto
  with Cons show ?case by (simp add: format_02x_def hex_char_facts)
qed simp

lemma length_concat_format: "length (concat (map format_02x bs)) = 2 * length bs"
  by (induction bs) (simp_all add: format_02x_def)

lemma try_map_radix_format:
  "try_map (\<lambda>pair. ok_or InvalidHex (u8_from_str_radix_16 pair)) (map format_02x bs) = Inr bs"
  by (induction bs) simp_all

lemma try_map_radix_chunks:
  assumes "try_map (\<lambda>pair. ok_or InvalidHex (u8_from_str_radix_16 pair)) (chunks_exact_2 d) = Inr bs"
    and "even (length d)" and "list_all is_lower_hex d"
  shows "concat (map format_02x bs) = d"
  using assms
proof (induction d arbitrary: bs rule: chunks_exact_2.induct)
  case (1 a b cs)
  then obtain w ws where "u8_from_str_radix_16 [a, b] = Some w" "bs = w # ws"
    "try_map (\<lambda>pair. ok_or InvalidHex (u8_from_str_radix_16 pair)) (chunks_exact_2 cs) = Inr ws"
    by (auto simp: attempt_Inr_iff)
  with 1 show ?case by (simp add: format_02x_radix)
qed auto

lemmas revision_defs =
  revision_from_str_def display_revision_def wf_revision_def DIGEST_HEX_LENGTH_def DIGEST_BYTES_def

interpretation revision_text: canonical_text revision_from_str display_revision wf_revision
proof
  fix s r
  assume r: "revision_from_str s = Inr r"
  then obtain d bs where d: "strip_prefix PREFIX s = Some d" "length d = 64"
    "list_all is_lower_hex d" "r = Revision bs"
    "try_map (\<lambda>pair. ok_or InvalidHex (u8_from_str_radix_16 pair)) (chunks_exact_2 d) = Inr bs"
    by (auto simp: revision_defs attempt_Inr_iff split: option.splits if_splits)
  then have c: "concat (map format_02x bs) = d" by (auto intro: try_map_radix_chunks)
  with d show "display_revision r = s" by (simp add: display_revision_def strip_prefix_Some_iff)
  from c d have "2 * length bs = 64" by (metis length_concat_format)
  with d show "wf_revision r" by (simp add: revision_defs)
next
  fix r
  assume "wf_revision r"
  then have "strip_prefix PREFIX (display_revision r) = Some (concat (map format_02x (revision_bytes r)))"
    by (simp add: display_revision_def strip_prefix_Some_iff)
  with \<open>wf_revision r\<close> show "revision_from_str (display_revision r) = Inr r"
    by (simp add: revision_defs concat_format_lower_hex length_concat_format
        chunks_exact_2_concat_format try_map_radix_format del: map_concat)
qed

section \<open>Properties\<close>

text \<open>How a kernel resolves a slash-separated name from a directory: an empty component or
  \<open>.\<close> stays, \<open>..\<close> goes to the parent, and any other component descends.\<close>

fun resolve_from :: "path \<Rightarrow> string list \<Rightarrow> path" where
  "resolve_from base [] = base"
| "resolve_from base (c # cs) =
     (if c = [] \<or> c = ''.'' then resolve_from base cs
      else if c = ''..'' then resolve_from (butlast base) cs
      else resolve_from (base @ [c]) cs)"

lemma resolve_from_plain:
  assumes "\<And>c. c \<in> set cs \<Longrightarrow> c \<noteq> [] \<and> c \<noteq> ''.'' \<and> c \<noteq> ''..''"
  shows "resolve_from base cs = base @ cs"
  using assms by (induction cs arbitrary: base) auto

lemma validate_component_ok_iff:
  "validate_component c = Inr () \<longleftrightarrow>
     c \<noteq> [] \<and> c \<noteq> ''.'' \<and> c \<noteq> ''..'' \<and> length c \<le> MAX_COMPONENT_LENGTH \<and>
     (\<forall>x\<in>set (chars c). \<not> is_control x)"
  by (auto simp: validate_component_def list_ex_iff)

lemma split_on_subset: "p \<in> set (split_on d s) \<Longrightarrow> set p \<subseteq> set s"
  by (induction d s arbitrary: p rule: split_on.induct)
    (auto split: if_splits list.splits, blast)

text \<open>An accepted payload path resolves, from any directory, to exactly its own components
  below that directory: no component is empty, a traversal, over-long, or holds a separator, a
  backslash or a control character.\<close>

theorem payload_path_resolves_inside:
  assumes "payload_path_from_str s = Inr p"
  shows "resolve_from base (split_on (CHR ''/'') (payload_str p)) = base @ split_on (CHR ''/'') s \<and>
    payload_str p = s \<and> length s \<le> MAX_PATH_LENGTH \<and>
    (\<forall>c\<in>set (split_on (CHR ''/'') s).
       c \<noteq> [] \<and> length c \<le> MAX_COMPONENT_LENGTH \<and>
       CHR ''/'' \<notin> set c \<and> CHR 0x5C \<notin> set c \<and> (\<forall>x\<in>set (chars c). \<not> is_control x))"
proof -
  have p: "payload_str p = s" using assms by (rule payload_text.from_str_canonical)
  have "validate_relative_path s = Inr ()"
    using payload_text.from_str_valid [OF assms] by (simp add: p)
  then have c: "validate_component c = Inr ()" if "c \<in> set (split_on (CHR ''/'') s)" for c
    using that by (auto simp: validate_relative_path_def try_each_Inr_iff split: if_splits)
  moreover have "length s \<le> MAX_PATH_LENGTH" "CHR 0x5C \<notin> set s"
    using \<open>validate_relative_path s = Inr ()\<close>
    by (auto simp: validate_relative_path_def split: if_splits)
  ultimately show ?thesis
    using split_on_no_sep split_on_subset [of _ "CHR ''/''" s]
    by (fastforce simp: p validate_component_ok_iff intro!: resolve_from_plain)
qed

theorem payload_path_resolves_inside_witness:
  "payload_path_from_str ''documents/a.md'' = Inr (PayloadPath ''documents/a.md'') \<and>
   resolve_from [''payload''] (split_on (CHR ''/'') ''documents/a.md'')
     = [''payload'', ''documents'', ''a.md'']"
proof
  show p: "payload_path_from_str ''documents/a.md'' = Inr (PayloadPath ''documents/a.md'')"
    by code_simp
  show "resolve_from [''payload''] (split_on (CHR ''/'') ''documents/a.md'')
     = [''payload'', ''documents'', ''a.md'']"
    using payload_path_resolves_inside [OF p, of "[''payload'']"] by simp
qed

lemma slug_char_facts:
  assumes "is_ascii_lowercase b \<or> is_ascii_digit b \<or> b = CHR ''-''"
  shows "code b < 128" "\<not> is_control (code b)" "b \<noteq> CHR ''/''" "b \<noteq> CHR 0x5C" "b \<noteq> CHR ''.''"
  using assms
  by (auto simp: is_ascii_lowercase_def is_ascii_digit_def is_control_def code_def)

lemma project_is_utf8:
  assumes "project_id_from_str s = Inr p"
  shows "is_utf8 s"
proof -
  have "project_str p = s" "validate_project_id (project_str p) = Inr ()"
    using assms project_text.from_str_canonical project_text.from_str_valid by auto
  then have "is_ascii_lowercase b \<or> is_ascii_digit b \<or> b = CHR ''-''" if "b \<in> set s" for b
    using that by (auto simp: validate_project_id_def list_all_iff split: if_splits)
  then have "is_ascii s"
    by (simp add: is_ascii_def list_all_iff slug_char_facts(1))
  then show ?thesis by (rule ascii_is_utf8)
qed

text \<open>Every accepted project identifier is also an accepted attachment name and a payload path
  with one component, so joining it to a directory adds exactly one visible component.\<close>

theorem project_id_is_single_component:
  assumes "project_id_from_str s = Inr p"
  shows "p = ProjectId s \<and> attachment_name_from_str s = Inr (AttachmentName s) \<and>
    payload_path_from_str s = Inr (PayloadPath s) \<and> split_on (CHR ''/'') s = [s]"
proof -
  have p: "project_str p = s" using assms by (rule project_text.from_str_canonical)
  have v: "validate_project_id s = Inr ()"
    using project_text.from_str_valid [OF assms] by (simp add: p)
  then have all: "is_ascii_lowercase b \<or> is_ascii_digit b \<or> b = CHR ''-''" if "b \<in> set s" for b
    using that by (auto simp: validate_project_id_def list_all_iff split: if_splits)
  note chr = slug_char_facts [OF all]
  have "is_ascii s" using chr(1) by (auto simp: is_ascii_def list_all_iff)
  then have ctl: "\<not> list_ex is_control (chars s)" using chr(2) by (auto simp: ascii_chars list_ex_iff)
  have ne: "s \<noteq> []" "length s \<le> 63" using v
    by (auto simp: validate_project_id_def MAX_PROJECT_LENGTH_def split: if_splits)
  have hd: "hd s \<noteq> CHR ''.''" "hd s \<noteq> CHR ''/''" using chr ne(1) by auto
  then have comp: "validate_component s = Inr ()"
    using ne ctl by (auto simp: validate_component_def MAX_COMPONENT_LENGTH_def)
  have sep: "CHR ''/'' \<notin> set s" "CHR 0x5C \<notin> set s" using chr by auto
  with comp hd ne show ?thesis using p
    by (cases p) (auto simp: attachment_name_from_str_def payload_path_from_str_def
        validate_relative_path_def starts_with_char_def split_on_single MAX_PATH_LENGTH_def
        split: list.splits)
qed

theorem project_id_is_single_component_witness:
  "project_id_from_str ''agent-knowledge'' = Inr (ProjectId ''agent-knowledge'') \<and>
   attachment_name_from_str ''agent-knowledge'' = Inr (AttachmentName ''agent-knowledge'')"
proof
  show p: "project_id_from_str ''agent-knowledge'' = Inr (ProjectId ''agent-knowledge'')"
    by code_simp
  show "attachment_name_from_str ''agent-knowledge'' = Inr (AttachmentName ''agent-knowledge'')"
    using project_id_is_single_component [OF p] by simp
qed

text \<open>Revision text and digest correspond one to one: parsing accepts exactly the printed form
  of a 32-byte digest and gives that digest back.\<close>

theorem revision_round_trip:
  "revision_from_str s = Inr r \<longleftrightarrow> wf_revision r \<and> display_revision r = s"
  by (rule revision_text.from_str_Inr_iff)

text \<open>An identifier is accepted only in its canonical spelling, whatever aliases the ULID
  decoder accepts; so a request has one name on disk.\<close>

theorem request_id_one_spelling:
  assumes "request_id_from_str uparse ushow s = Inr r"
    and "request_id_from_str uparse ushow t = Inr r"
  shows "s = t \<and> request_id_to_string ushow r = s"
  using request_id_text.from_str_inject [OF assms] request_id_text.from_str_canonical [OF assms(1)]
  by simp

theorem request_id_one_spelling_witness:
  "request_id_to_string (\<lambda>u. show_nat (unat u)) (RequestId 7) = ''7''"
proof -
  have p: "request_id_from_str (\<lambda>s. if s = ''7'' \<or> s = ''07'' then Inr 7 else Inl InvalidChar)
      (\<lambda>u. show_nat (unat u)) ''7'' = Inr (RequestId 7)"
    by (simp add: request_id_from_str_def id_from_str_def show_nat.simps)
  show ?thesis using request_id_one_spelling [OF p p] by simp
qed

end
