(* ===== verification/Core_Requests.thy ===== *)
theory Core_Requests
  imports Core_Identifiers
begin

text \<open>
  \<open>crates/core/src/request.rs\<close>: the change request, its wire form, the conversion that
  gives every path field its checked type, and the request-level validation. The JSON decoder is
  the parameter \<open>from_slice\<close>.
\<close>

section \<open>Data\<close>

definition CURRENT_PROTOCOL_VERSION :: nat where "CURRENT_PROTOCOL_VERSION = 1"

text \<open>\<open>time::OffsetDateTime\<close> through what the sources observe of it: comparison and equality
  are those of the instant (nanoseconds), whatever the offset; the calendar fields are those of
  the value's own offset.\<close>

record offset_datetime =
  dt_instant :: int
  dt_year :: int
  dt_month :: nat
  dt_day :: nat
  dt_hour :: nat
  dt_minute :: nat
  dt_second :: nat

definition same_instant :: "offset_datetime \<Rightarrow> offset_datetime \<Rightarrow> bool" where
  "same_instant a b \<longleftrightarrow> dt_instant a = dt_instant b"

definition before_instant :: "offset_datetime \<Rightarrow> offset_datetime \<Rightarrow> bool" where
  "before_instant a b \<longleftrightarrow> dt_instant a < dt_instant b"

datatype document_type = Index | Log | Experiment | Decision | Runbook | Reference

datatype operation =
    CreateDocument (op_document_id: document_id) payload_path
  | UpdateDocument (op_document_id: document_id) revision payload_path
  | MoveDocument (op_document_id: document_id) revision "project_id option" document_type
  | ArchiveDocument (op_document_id: document_id) revision
  | AddAttachment (op_document_id: document_id) payload_path attachment_name

record change_request =
  cr_protocol_version :: nat
  cr_request_id :: request_id
  cr_title :: string
  cr_project :: "project_id option"
  cr_document_type :: document_type
  cr_node :: "string option"
  cr_agent :: "string option"
  cr_session :: "session_id option"
  cr_created_at :: offset_datetime
  cr_operations :: "operation list"

record request_limits =
  rl_maximum_title_characters :: nat
  rl_maximum_operations :: nat

definition default_request_limits :: request_limits where
  "default_request_limits =
     \<lparr>rl_maximum_title_characters = 200, rl_maximum_operations = 100\<rparr>"

datatype request_validation_error =
    UnsupportedProtocolVersion nat
  | EmptyTitle
  | TitleContainsControlCharacter
  | TitleTooLong nat nat
  | EmptyOperations
  | TooManyOperations nat nat
  | MissingLogMetadata string
  | InvalidMetadata string
  | DuplicateCreatedDocument document_id

section \<open>The wire form\<close>

datatype wire_operation =
    WireCreateDocument document_id string
  | WireUpdateDocument document_id revision string
  | WireMoveDocument document_id revision "string option" document_type
  | WireArchiveDocument document_id revision
  | WireAddAttachment document_id string string

record wire_change_request =
  wire_protocol_version :: nat
  wire_request_id :: request_id
  wire_title :: string
  wire_project :: "string option"
  wire_document_type :: document_type
  wire_node :: "string option"
  wire_agent :: "string option"
  wire_session :: "session_id option"
  wire_created_at :: offset_datetime
  wire_operations :: "wire_operation list"

datatype 'j request_decode_error =
    RequestJson 'j
  | RequestInvalidPath string path_validation_error

definition parse_path ::
  "(string \<Rightarrow> path_validation_error + 'a) \<Rightarrow> string \<Rightarrow> string \<Rightarrow> 'j request_decode_error + 'a" where
  "parse_path try_from field value = map_err (RequestInvalidPath field) (try_from value)"

definition parse_optional_path ::
  "(string \<Rightarrow> path_validation_error + 'a) \<Rightarrow> string \<Rightarrow> string option \<Rightarrow>
   'j request_decode_error + 'a option" where
  "parse_optional_path try_from field value =
     (case value of
        None \<Rightarrow> Inr None
      | Some v \<Rightarrow> attempt (parse_path try_from field v) (\<lambda>x. Inr (Some x)))"

fun operation_try_from :: "wire_operation \<Rightarrow> 'j request_decode_error + operation" where
  "operation_try_from (WireCreateDocument d content) =
     attempt (parse_path payload_path_from_str ''content'' content)
       (\<lambda>c. Inr (CreateDocument d c))"
| "operation_try_from (WireUpdateDocument d r content) =
     attempt (parse_path payload_path_from_str ''content'' content)
       (\<lambda>c. Inr (UpdateDocument d r c))"
| "operation_try_from (WireMoveDocument d r project ty) =
     attempt (parse_optional_path project_id_from_str ''project'' project)
       (\<lambda>p. Inr (MoveDocument d r p ty))"
| "operation_try_from (WireArchiveDocument d r) = Inr (ArchiveDocument d r)"
| "operation_try_from (WireAddAttachment d source name) =
     attempt (parse_path payload_path_from_str ''source'' source) (\<lambda>s.
     attempt (parse_path attachment_name_from_str ''name'' name) (\<lambda>n.
       Inr (AddAttachment d s n)))"

definition change_request_try_from ::
  "wire_change_request \<Rightarrow> 'j request_decode_error + change_request" where
  "change_request_try_from wire =
     attempt (parse_optional_path project_id_from_str ''project'' (wire_project wire)) (\<lambda>project.
     attempt (try_map operation_try_from (wire_operations wire)) (\<lambda>operations.
       Inr \<lparr>cr_protocol_version = wire_protocol_version wire,
            cr_request_id = wire_request_id wire,
            cr_title = wire_title wire,
            cr_project = project,
            cr_document_type = wire_document_type wire,
            cr_node = wire_node wire,
            cr_agent = wire_agent wire,
            cr_session = wire_session wire,
            cr_created_at = wire_created_at wire,
            cr_operations = operations\<rparr>))"

definition decode_json ::
  "(string \<Rightarrow> 'j + wire_change_request) \<Rightarrow> string \<Rightarrow> 'j request_decode_error + change_request" where
  "decode_json from_slice input =
     attempt (map_err RequestJson (from_slice input)) change_request_try_from"

section \<open>Validation\<close>

definition validate_optional_metadata ::
  "string \<Rightarrow> string option \<Rightarrow> request_validation_error + unit" where
  "validate_optional_metadata field value =
     (case value of
        None \<Rightarrow> Inr ()
      | Some v \<Rightarrow>
          if trim (chars v) = [] \<or> list_ex is_control (chars v)
          then Inl (InvalidMetadata field) else Inr ())"

definition check_created ::
  "operation \<Rightarrow> document_id set \<Rightarrow> request_validation_error + document_id set" where
  "check_created op created_documents =
     (case op of
        CreateDocument d _ \<Rightarrow>
          if d \<in> created_documents then Inl (DuplicateCreatedDocument d)
          else Inr (insert d created_documents)
      | _ \<Rightarrow> Inr created_documents)"

definition validate_request ::
  "change_request \<Rightarrow> request_limits \<Rightarrow> request_validation_error + unit" where
  "validate_request r limits =
     (let title = trim (chars (cr_title r));
          title_characters = length (chars (cr_title r));
          n = length (cr_operations r) in
      if cr_protocol_version r \<noteq> CURRENT_PROTOCOL_VERSION
        then Inl (UnsupportedProtocolVersion (cr_protocol_version r))
      else if title = [] then Inl EmptyTitle
      else if list_ex is_control title then Inl TitleContainsControlCharacter
      else if title_characters > rl_maximum_title_characters limits
        then Inl (TitleTooLong (rl_maximum_title_characters limits) title_characters)
      else if cr_operations r = [] then Inl EmptyOperations
      else if n > rl_maximum_operations limits
        then Inl (TooManyOperations (rl_maximum_operations limits) n)
      else
        attempt (validate_optional_metadata ''node'' (cr_node r)) (\<lambda>_.
        attempt (validate_optional_metadata ''agent'' (cr_agent r)) (\<lambda>_.
          if cr_document_type r = Log \<and> cr_node r = None then Inl (MissingLogMetadata ''node'')
          else if cr_document_type r = Log \<and> cr_agent r = None
            then Inl (MissingLogMetadata ''agent'')
          else if cr_document_type r = Log \<and> cr_session r = None
            then Inl (MissingLogMetadata ''session'')
          else attempt (try_fold check_created (cr_operations r) {}) (\<lambda>_. Inr ()))))"

section \<open>Lemmas\<close>

fun created_ids :: "operation list \<Rightarrow> document_id list" where
  "created_ids [] = []"
| "created_ids (CreateDocument d _ # ops) = d # created_ids ops"
| "created_ids (_ # ops) = created_ids ops"

lemma try_fold_check_created:
  "is_ok (try_fold check_created ops s) \<longleftrightarrow>
     distinct (created_ids ops) \<and> s \<inter> set (created_ids ops) = {}"
proof (induction ops arbitrary: s)
  case Nil
  show ?case by simp
next
  case (Cons op ops)
  then show ?case by (cases op) (auto simp: check_created_def)
qed

lemma attempt_unit_ok_iff: "attempt r (\<lambda>_. Inr ()) = Inr () \<longleftrightarrow> is_ok r"
  by (cases r) auto

lemma validate_optional_metadata_ok_iff:
  "validate_optional_metadata f v = Inr () \<longleftrightarrow>
     (\<forall>t. v = Some t \<longrightarrow> trim (chars t) \<noteq> [] \<and> (\<forall>c\<in>set (chars t). \<not> is_control c))"
  by (auto simp: validate_optional_metadata_def list_ex_iff split: option.splits)

definition operation_paths_valid :: "operation \<Rightarrow> bool" where
  "operation_paths_valid op =
     (case op of
        CreateDocument _ c \<Rightarrow> payload_path_from_str (payload_str c) = Inr c
      | UpdateDocument _ _ c \<Rightarrow> payload_path_from_str (payload_str c) = Inr c
      | MoveDocument _ _ p _ \<Rightarrow>
          (\<forall>x. p = Some x \<longrightarrow> project_id_from_str (project_str x) = Inr x)
      | ArchiveDocument _ _ \<Rightarrow> True
      | AddAttachment _ s n \<Rightarrow> payload_path_from_str (payload_str s) = Inr s \<and>
          attachment_name_from_str (attachment_str n) = Inr n)"

definition request_paths_valid :: "change_request \<Rightarrow> bool" where
  "request_paths_valid r \<longleftrightarrow>
     (\<forall>x. cr_project r = Some x \<longrightarrow> project_id_from_str (project_str x) = Inr x) \<and>
     list_all operation_paths_valid (cr_operations r)"

lemma parse_path_Inr_iff [simp]: "parse_path f field v = Inr x \<longleftrightarrow> f v = Inr x"
  by (simp add: parse_path_def)

lemma parse_optional_path_Some:
  "parse_optional_path f field v = Inr (Some x) \<Longrightarrow> \<exists>t. v = Some t \<and> f t = Inr x"
  by (auto simp: parse_optional_path_def attempt_Inr_iff split: option.splits)

lemma operation_try_from_valid: "operation_try_from w = Inr op \<Longrightarrow> operation_paths_valid op"
  by (cases w)
    (auto simp: attempt_Inr_iff operation_paths_valid_def
      dest!: parse_optional_path_Some
      intro: payload_text.reparse attachment_text.reparse project_text.reparse)

lemma decode_request_paths_valid:
  fixes from_slice :: "string \<Rightarrow> 'j + wire_change_request"
  assumes "decode_json from_slice input = Inr r"
  shows "request_paths_valid r"
proof -
  from assms obtain project ops and wire :: wire_change_request where w:
    "parse_optional_path project_id_from_str ''project'' (wire_project wire)
       = (Inr project :: 'j request_decode_error + project_id option)"
    "try_map operation_try_from (wire_operations wire)
       = (Inr ops :: 'j request_decode_error + operation list)"
    "cr_project r = project" "cr_operations r = ops"
    by (auto simp: decode_json_def change_request_try_from_def attempt_Inr_iff)
  from w(2) have "list_all operation_paths_valid (cr_operations r)"
    by (auto simp: try_map_Inr_iff list_all_length list_all2_conv_all_nth w(4)
        intro: operation_try_from_valid)
  moreover have "project_id_from_str (project_str x) = Inr x" if "cr_project r = Some x" for x
    using that w(1,3) by (auto dest!: parse_optional_path_Some intro: project_text.reparse)
  ultimately show ?thesis by (simp add: request_paths_valid_def)
qed

section \<open>Properties\<close>


text \<open>Decoding cannot smuggle an unchecked path: every path, name and project of a decoded
  request is one its own validator accepts, whatever the JSON decoder returns.\<close>

theorem decode_json_paths_valid:
  fixes from_slice :: "string \<Rightarrow> 'j + wire_change_request"
  assumes "decode_json from_slice input = Inr r"
  shows "request_paths_valid r \<and>
    (\<exists>wire. from_slice input = Inr wire \<and> cr_title r = wire_title wire \<and>
       cr_request_id r = wire_request_id wire \<and>
       list_all2 (\<lambda>w op. operation_try_from w = (Inr op :: 'j request_decode_error + operation))
         (wire_operations wire) (cr_operations r))"
  using decode_request_paths_valid [OF assms] assms
  by (auto simp: decode_json_def change_request_try_from_def attempt_Inr_iff try_map_Inr_iff)

definition sample_datetime :: offset_datetime where
  "sample_datetime = \<lparr>dt_instant = 1, dt_year = 2026, dt_month = 7, dt_day = 4, dt_hour = 9,
     dt_minute = 30, dt_second = 5\<rparr>"

definition sample_wire :: wire_change_request where
  "sample_wire = \<lparr>wire_protocol_version = 1, wire_request_id = RequestId 1, wire_title = ''t'',
     wire_project = Some ''demo'', wire_document_type = Runbook, wire_node = None,
     wire_agent = None, wire_session = None, wire_created_at = sample_datetime,
     wire_operations = [WireCreateDocument (DocumentId 2) ''a.md'']\<rparr>"

lemma sample_wire_decodes:
  "decode_json (\<lambda>_. Inr sample_wire) ''{}'' =
     (Inr \<lparr>cr_protocol_version = 1, cr_request_id = RequestId 1, cr_title = ''t'',
       cr_project = Some (ProjectId ''demo''), cr_document_type = Runbook, cr_node = None,
       cr_agent = None, cr_session = None, cr_created_at = sample_datetime,
       cr_operations = [CreateDocument (DocumentId 2) (PayloadPath ''a.md'')]\<rparr>
      :: unit request_decode_error + change_request)"
  by code_simp

theorem decode_json_paths_valid_witness:
  "request_paths_valid \<lparr>cr_protocol_version = 1, cr_request_id = RequestId 1, cr_title = ''t'',
     cr_project = Some (ProjectId ''demo''), cr_document_type = Runbook, cr_node = None,
     cr_agent = None, cr_session = None, cr_created_at = sample_datetime,
     cr_operations = [CreateDocument (DocumentId 2) (PayloadPath ''a.md'')]\<rparr>"
  using decode_json_paths_valid [OF sample_wire_decodes] by (rule conjunct1)

definition sample_request :: change_request where
  "sample_request = \<lparr>cr_protocol_version = 1, cr_request_id = RequestId 1, cr_title = ''t'',
     cr_project = Some (ProjectId ''demo''), cr_document_type = Log, cr_node = Some ''n'',
     cr_agent = Some ''a'', cr_session = Some (SessionId 3), cr_created_at = sample_datetime,
     cr_operations = [CreateDocument (DocumentId 2) (PayloadPath ''a.md'')]\<rparr>"


end
