(* ===== verification/Core_Documents.thy ===== *)
theory Core_Documents
  imports Core_Requests
begin

text \<open>
  \<open>crates/core/src/document.rs\<close> and \<open>markdown.rs\<close>: the front-matter metadata of a
  document with its validation, and the scanner that separates YAML front matter from the
  Markdown body. The YAML decoder is the parameter \<open>yaml_decode\<close>; its first argument is
  the byte budget the source passes to it.
\<close>

section \<open>Metadata (document.rs)\<close>

definition CURRENT_DOCUMENT_SCHEMA_VERSION :: nat where "CURRENT_DOCUMENT_SCHEMA_VERSION = 1"

record document_metadata =
  md_schema_version :: nat
  md_document_id :: document_id
  md_title :: string
  md_created :: offset_datetime
  md_updated :: "offset_datetime option"
  md_node :: "string option"
  md_agent :: "string option"
  md_session :: "session_id option"
  md_request_id :: request_id
  md_tags :: "string list"
  md_status :: document_status
  md_superseded_by :: "document_id option"

record document_limits =
  dl_maximum_title_characters :: nat
  dl_maximum_metadata_characters :: nat
  dl_maximum_tags :: nat
  dl_maximum_tag_characters :: nat

definition default_document_limits :: document_limits where
  "default_document_limits =
     \<lparr>dl_maximum_title_characters = 200, dl_maximum_metadata_characters = 200,
      dl_maximum_tags = 64, dl_maximum_tag_characters = 64\<rparr>"

datatype document_validation_error =
    UnsupportedSchemaVersion nat
  | EmptyText string
  | ControlCharacter string
  | TextTooLong string nat nat
  | UpdatedBeforeCreated
  | SelfSuperseded
  | TooManyTags nat nat
  | DuplicateTag string
  | MissingLogFrontMatter string

definition validate_text ::
  "string \<Rightarrow> string \<Rightarrow> nat \<Rightarrow> document_validation_error + unit" where
  "validate_text field value maximum =
     (if trim (chars value) = [] then Inl (EmptyText field)
      else if list_ex is_control (chars value) then Inl (ControlCharacter field)
      else if length (chars value) > maximum
        then Inl (TextTooLong field maximum (length (chars value)))
      else Inr ())"

definition validate_optional_text ::
  "string \<Rightarrow> string option \<Rightarrow> nat \<Rightarrow> document_validation_error + unit" where
  "validate_optional_text field value maximum =
     (case value of None \<Rightarrow> Inr () | Some v \<Rightarrow> validate_text field v maximum)"

definition check_tag ::
  "document_limits \<Rightarrow> string \<Rightarrow> string set \<Rightarrow> document_validation_error + string set" where
  "check_tag limits tag tags =
     attempt (validate_text ''tag'' tag (dl_maximum_tag_characters limits)) (\<lambda>_.
       if tag \<in> tags then Inl (DuplicateTag tag) else Inr (insert tag tags))"

definition validate_common ::
  "document_metadata \<Rightarrow> document_limits \<Rightarrow> document_validation_error + unit" where
  "validate_common m limits =
     (if md_schema_version m \<noteq> CURRENT_DOCUMENT_SCHEMA_VERSION
        then Inl (UnsupportedSchemaVersion (md_schema_version m))
      else
        attempt (validate_text ''title'' (md_title m) (dl_maximum_title_characters limits)) (\<lambda>_.
        attempt (validate_optional_text ''node'' (md_node m)
                   (dl_maximum_metadata_characters limits)) (\<lambda>_.
        attempt (validate_optional_text ''agent'' (md_agent m)
                   (dl_maximum_metadata_characters limits)) (\<lambda>_.
          if (case md_updated m of None \<Rightarrow> False
              | Some updated \<Rightarrow> before_instant updated (md_created m))
            then Inl UpdatedBeforeCreated
          else if md_superseded_by m = Some (md_document_id m) then Inl SelfSuperseded
          else if length (md_tags m) > dl_maximum_tags limits
            then Inl (TooManyTags (dl_maximum_tags limits) (length (md_tags m)))
          else attempt (try_fold (check_tag limits) (md_tags m) {}) (\<lambda>_. Inr ())))))"

definition validate_metadata ::
  "document_metadata \<Rightarrow> document_type \<Rightarrow> document_limits \<Rightarrow> document_validation_error + unit" where
  "validate_metadata m document_type limits =
     attempt (validate_common m limits) (\<lambda>_.
       if document_type = Log \<and> md_node m = None then Inl (MissingLogFrontMatter ''node'')
       else if document_type = Log \<and> md_agent m = None
         then Inl (MissingLogFrontMatter ''agent'')
       else if document_type = Log \<and> md_session m = None
         then Inl (MissingLogFrontMatter ''session'')
       else Inr ())"

section \<open>Front matter (markdown.rs)\<close>

datatype 'y document_parse_error =
    InvalidUtf8
  | MissingOpeningDelimiter
  | MissingClosingDelimiter
  | FrontMatterTooLarge nat nat
  | InvalidYaml 'y

abbreviation lf :: char where "lf \<equiv> CHR 0x0A"
abbreviation cr :: char where "cr \<equiv> CHR 0x0D"

text \<open>\<open>strip_suffix(c).unwrap_or(line)\<close>, and the content of one line of
  \<open>split_inclusive\<close>.\<close>

definition strip_or_self :: "char \<Rightarrow> string \<Rightarrow> string" where
  "strip_or_self c s = (case strip_suffix_char c s of None \<Rightarrow> s | Some r \<Rightarrow> r)"

definition line_content :: "string \<Rightarrow> string" where
  "line_content line = strip_or_self cr (strip_or_self lf line)"

definition is_delimiter :: "string \<Rightarrow> bool" where
  "is_delimiter line \<longleftrightarrow> line_content line = ''---''"

definition strip_opening :: "string \<Rightarrow> 'y document_parse_error + string" where
  "strip_opening markdown =
     ok_or MissingOpeningDelimiter
       (case strip_prefix (''---'' @ [lf]) markdown of
          Some r \<Rightarrow> Some r
        | None \<Rightarrow> strip_prefix (''---'' @ [cr, lf]) markdown)"

fun scan_front_matter ::
  "nat \<Rightarrow> string \<Rightarrow> nat \<Rightarrow> string list \<Rightarrow> 'y document_parse_error + string" where
  "scan_front_matter maximum remainder offset [] = Inl MissingClosingDelimiter"
| "scan_front_matter maximum remainder offset (line # lines) =
     (if is_delimiter line then
        if offset > maximum then Inl (FrontMatterTooLarge maximum offset)
        else Inr (take offset remainder)
      else if offset + length line > maximum
        then Inl (FrontMatterTooLarge maximum (offset + length line))
      else scan_front_matter maximum remainder (offset + length line) lines)"

definition extract_front_matter :: "string \<Rightarrow> nat \<Rightarrow> 'y document_parse_error + string" where
  "extract_front_matter markdown maximum =
     attempt (strip_opening markdown) (\<lambda>remainder.
       scan_front_matter maximum remainder 0 (split_inclusive lf remainder))"

fun scan_body :: "string \<Rightarrow> nat \<Rightarrow> string list \<Rightarrow> 'y document_parse_error + string" where
  "scan_body remainder body_offset [] = Inl MissingClosingDelimiter"
| "scan_body remainder body_offset (line # lines) =
     (if is_delimiter line then Inr (drop (body_offset + length line) remainder)
      else scan_body remainder (body_offset + length line) lines)"

definition markdown_body :: "string \<Rightarrow> 'y document_parse_error + string" where
  "markdown_body markdown =
     (if \<not> is_utf8 markdown then Inl InvalidUtf8
      else attempt (strip_opening markdown) (\<lambda>remainder.
        scan_body remainder 0 (split_inclusive lf remainder)))"

definition decode_document_metadata ::
  "(nat \<Rightarrow> string \<Rightarrow> 'y + document_metadata) \<Rightarrow> string \<Rightarrow> nat \<Rightarrow>
   'y document_parse_error + document_metadata" where
  "decode_document_metadata yaml_decode markdown maximum_front_matter_bytes =
     (if \<not> is_utf8 markdown then Inl InvalidUtf8
      else attempt (extract_front_matter markdown maximum_front_matter_bytes) (\<lambda>yaml.
        map_err InvalidYaml (yaml_decode maximum_front_matter_bytes yaml)))"

section \<open>Lemmas\<close>

lemma validate_text_ok_iff:
  "validate_text field v n = Inr () \<longleftrightarrow>
     trim (chars v) \<noteq> [] \<and> (\<forall>c\<in>set (chars v). \<not> is_control c) \<and> length (chars v) \<le> n"
  by (auto simp: validate_text_def list_ex_iff)

lemma try_fold_check_tag:
  "is_ok (try_fold (check_tag limits) tags s) \<longleftrightarrow>
     (\<forall>t\<in>set tags. validate_text ''tag'' t (dl_maximum_tag_characters limits) = Inr ()) \<and>
     distinct tags \<and> s \<inter> set tags = {}"
proof (induction tags arbitrary: s)
  case Nil
  show ?case by simp
next
  case (Cons t tags)
  then show ?case
    by (cases "validate_text ''tag'' t (dl_maximum_tag_characters limits)")
      (auto simp: check_tag_def)
qed

lemma validate_optional_text_ok_iff:
  "validate_optional_text f v n = Inr () \<longleftrightarrow> (\<forall>t. v = Some t \<longrightarrow> validate_text f t n = Inr ())"
  by (auto simp: validate_optional_text_def split: option.splits)

lemma updated_before_iff:
  "(case v of None \<Rightarrow> False | Some u \<Rightarrow> before_instant u c) \<longleftrightarrow>
     \<not> (\<forall>u. v = Some u \<longrightarrow> dt_instant c \<le> dt_instant u)"
  by (auto simp: before_instant_def split: option.splits)

lemma validate_common_ok_iff:
  "validate_common m limits = Inr () \<longleftrightarrow>
     md_schema_version m = CURRENT_DOCUMENT_SCHEMA_VERSION \<and>
     validate_text ''title'' (md_title m) (dl_maximum_title_characters limits) = Inr () \<and>
     validate_optional_text ''node'' (md_node m) (dl_maximum_metadata_characters limits) = Inr () \<and>
     validate_optional_text ''agent'' (md_agent m) (dl_maximum_metadata_characters limits) = Inr () \<and>
     (\<forall>u. md_updated m = Some u \<longrightarrow> dt_instant (md_created m) \<le> dt_instant u) \<and>
     md_superseded_by m \<noteq> Some (md_document_id m) \<and>
     length (md_tags m) \<le> dl_maximum_tags limits \<and>
     is_ok (try_fold (check_tag limits) (md_tags m) {})"
  unfolding validate_common_def updated_before_iff
  by (simp only: if_Inl_eq_Inr attempt_unit_iff is_ok_unit_iff not_less not_not simp_thms conj_assoc)

lemma validate_metadata_log_iff:
  "validate_metadata m ty limits = Inr () \<longleftrightarrow> validate_common m limits = Inr () \<and>
     (ty = Log \<longrightarrow> md_node m \<noteq> None \<and> md_agent m \<noteq> None \<and> md_session m \<noteq> None)"
  unfolding validate_metadata_def
  by (simp only: if_Inl_eq_Inr attempt_unit_iff is_ok_unit_iff) auto

text \<open>Both scanners stop at the first delimiter line.\<close>

definition first_delimiter :: "string list \<Rightarrow> string list \<Rightarrow> string \<Rightarrow> string list \<Rightarrow> bool" where
  "first_delimiter lines before line after \<longleftrightarrow>
     lines = before @ line # after \<and> is_delimiter line \<and> (\<forall>l\<in>set before. \<not> is_delimiter l)"

lemma first_delimiter_Nil [simp]: "\<not> first_delimiter [] before line after"
  by (simp add: first_delimiter_def)

lemma first_delimiter_Cons:
  "first_delimiter (l # lines) before line after \<longleftrightarrow>
     (if is_delimiter l then before = [] \<and> line = l \<and> after = lines
      else (\<exists>b. before = l # b \<and> first_delimiter lines b line after))"
  by (cases before) (auto simp: first_delimiter_def)

lemma scan_front_matter_Inr_iff:
  assumes "remainder = pre @ concat lines" and "offset = length pre"
  shows "scan_front_matter maximum remainder offset lines = Inr fm \<longleftrightarrow>
    (\<exists>before line after. first_delimiter lines before line after \<and>
       fm = pre @ concat before \<and> length fm \<le> maximum)"
  using assms
proof (induction lines arbitrary: pre offset)
  case Nil
  then show ?case by simp
next
  case (Cons l lines)
  have "remainder = (pre @ l) @ concat lines" "offset + length l = length (pre @ l)"
    using Cons.prems by simp_all
  note IH = Cons.IH [OF this]
  show ?case
  proof (cases "is_delimiter l")
    case True
    with Cons.prems show ?thesis by (auto simp: first_delimiter_Cons)
  next
    case False
    have "(\<exists>before line after. first_delimiter (l # lines) before line after \<and>
         fm = pre @ concat before \<and> length fm \<le> maximum) \<longleftrightarrow>
       (\<exists>before line after. first_delimiter lines before line after \<and>
         fm = (pre @ l) @ concat before \<and> length fm \<le> maximum)"
      using False by (auto simp: first_delimiter_Cons) (metis concat.simps(2))+
    with False IH show ?thesis using Cons.prems by auto
  qed
qed

lemma scan_body_Inr_iff:
  assumes "remainder = pre @ concat lines" and "offset = length pre"
  shows "scan_body remainder offset lines = Inr body \<longleftrightarrow>
    (\<exists>before line after. first_delimiter lines before line after \<and> body = concat after)"
  using assms
proof (induction lines arbitrary: pre offset)
  case Nil
  then show ?case by simp
next
  case (Cons l lines)
  have "remainder = (pre @ l) @ concat lines" "offset + length l = length (pre @ l)"
    using Cons.prems by simp_all
  note IH = Cons.IH [OF this]
  show ?case
    using IH Cons.prems by (cases "is_delimiter l") (auto simp: first_delimiter_Cons)
qed

definition front_matter_parts :: "string \<Rightarrow> string \<Rightarrow> string \<Rightarrow> string \<Rightarrow> string \<Rightarrow> bool" where
  "front_matter_parts markdown opening yaml closing body \<longleftrightarrow>
     markdown = opening @ yaml @ closing @ body \<and>
     opening \<in> {''---'' @ [lf], ''---'' @ [cr, lf]} \<and>
     is_delimiter closing \<and> (\<forall>l\<in>set (split_inclusive lf yaml). \<not> is_delimiter l)"

lemma strip_opening_Inr_iff:
  "strip_opening markdown = Inr r \<longleftrightarrow>
     markdown = ''---'' @ [lf] @ r \<or> markdown = ''---'' @ [cr, lf] @ r"
  by (auto simp: strip_opening_def strip_prefix_Some_iff strip_prefix_None_iff split: option.splits)

lemma markdown_body_utf8:
  assumes "markdown_body markdown = Inr body"
  shows "is_utf8 body"
proof -
  from assms obtain r where r: "is_utf8 markdown" "strip_opening markdown = (Inr r :: 'a document_parse_error + _)"
    "scan_body r 0 (split_inclusive lf r) = (Inr body :: 'a document_parse_error + _)"
    by (auto simp: markdown_body_def attempt_Inr_iff split: if_splits)
  have c: "r = [] @ concat (split_inclusive lf r)" by (simp add: concat_split_inclusive)
  from r(3) obtain before line after where
    f: "first_delimiter (split_inclusive lf r) before line after" "body = concat after"
    unfolding scan_body_Inr_iff [OF c list.size(3) [symmetric]] by blast
  show ?thesis
  proof (cases after)
    case Nil
    with f(2) show ?thesis by simp
  next
    case (Cons x xs)
    have "inclusive_lines lf (before @ line # after)"
      using inclusive_lines_split [of lf r] f(1) by (simp add: first_delimiter_def)
    then have "inclusive_lines lf (line # after)" using inclusive_lines_append by blast
    with Cons have "line = butlast line @ [lf]"
      by (metis append_butlast_last_id inclusive_lines.simps(2) list.discI)
    then obtain z where "line = z @ [lf]" by blast
    moreover have "r = concat before @ line @ body"
      using c f by (simp add: first_delimiter_def)
    moreover obtain opn where "markdown = opn @ r"
      using r(2) unfolding strip_opening_Inr_iff by (metis append_assoc)
    ultimately have "markdown = (opn @ concat before @ z) @ lf # body" by simp
    with r(1) show ?thesis
      using is_utf8_cut [of lf "opn @ concat before @ z" body] by (simp add: code_def)
  qed
qed

lemma written_front_matter_reads:
  assumes "yaml = [] \<or> ends_with_char lf yaml"
    and "\<forall>l\<in>set (split_inclusive lf yaml). \<not> is_delimiter l"
    and "length yaml \<le> maximum"
    and "markdown = ''---'' @ [lf] @ yaml @ ''---'' @ [lf] @ body"
  shows "extract_front_matter markdown maximum = (Inr yaml :: 'y document_parse_error + string) \<and>
    (is_utf8 markdown \<longrightarrow> markdown_body markdown = (Inr body :: 'y document_parse_error + string))"
proof -
  let ?r = "yaml @ ''---'' @ [lf] @ body"
  have "strip_opening markdown = (Inr ?r :: 'y document_parse_error + _)"
    using assms(4) by (simp add: strip_opening_Inr_iff)
  moreover have lines: "split_inclusive lf ?r
      = split_inclusive lf yaml @ (''---'' @ [lf]) # split_inclusive lf body"
    using assms(1) split_inclusive_ends_append [of lf yaml "''---'' @ [lf] @ body"]
      split_inclusive_append [of lf "''---''" body] by auto
  have f: "first_delimiter (split_inclusive lf ?r) (split_inclusive lf yaml) (''---'' @ [lf])
      (split_inclusive lf body)"
    unfolding first_delimiter_def lines using assms(2)
    by (simp add: is_delimiter_def line_content_def strip_or_self_def strip_suffix_char_def)
  have c: "?r = [] @ concat (split_inclusive lf ?r)" by (simp only: concat_split_inclusive append_Nil)
  have "scan_front_matter maximum ?r 0 (split_inclusive lf ?r)
      = (Inr yaml :: 'y document_parse_error + _)"
    unfolding scan_front_matter_Inr_iff [OF c list.size(3) [symmetric]]
    using f assms(3) by (metis append_Nil concat_split_inclusive)
  moreover have "scan_body ?r 0 (split_inclusive lf ?r) = (Inr body :: 'y document_parse_error + _)"
    unfolding scan_body_Inr_iff [OF c list.size(3) [symmetric]]
    using f by (metis concat_split_inclusive)
  ultimately show ?thesis by (simp add: extract_front_matter_def markdown_body_def)
qed

section \<open>Properties\<close>

text \<open>C38: extracted front matter is the part between the opening delimiter and the first
  delimiter line, within the byte limit, and what follows that line is exactly what
  \<open>markdown_body\<close> returns: nothing of a document is lost or read twice.\<close>

theorem extract_front_matter_splits:
  assumes "extract_front_matter markdown maximum = (Inr yaml :: 'y document_parse_error + string)"
  shows "\<exists>opening closing body. front_matter_parts markdown opening yaml closing body \<and>
    length yaml \<le> maximum \<and>
    (is_utf8 markdown \<longrightarrow> markdown_body markdown = (Inr body :: 'y document_parse_error + string))"
proof -
  from assms obtain r where r: "strip_opening markdown = (Inr r :: 'y document_parse_error + _)"
    "scan_front_matter maximum r 0 (split_inclusive lf r) = (Inr yaml :: 'y document_parse_error + _)"
    by (auto simp: extract_front_matter_def attempt_Inr_iff)
  have c: "r = [] @ concat (split_inclusive lf r)" by (simp add: concat_split_inclusive)
  from r(2) obtain before line after where
    f: "first_delimiter (split_inclusive lf r) before line after"
    and y: "yaml = concat before" "length yaml \<le> maximum"
    unfolding scan_front_matter_Inr_iff [OF c list.size(3) [symmetric]] by auto
  have "r = yaml @ line @ concat after"
    using f y(1) concat_split_inclusive [of lf r] by (simp add: first_delimiter_def)
  moreover have "split_inclusive lf yaml = before"
    using f split_inclusive_parts(1) unfolding first_delimiter_def y(1) by blast
  moreover obtain opn where "opn \<in> {''---'' @ [lf], ''---'' @ [cr, lf]}" "markdown = opn @ r"
    using r(1) unfolding strip_opening_Inr_iff by (metis append_assoc insertI1 insertI2)
  ultimately have "front_matter_parts markdown opn yaml line (concat after)"
    using f by (simp add: front_matter_parts_def first_delimiter_def)
  moreover have "scan_body r 0 (split_inclusive lf r)
      = (Inr (concat after) :: 'y document_parse_error + _)"
    unfolding scan_body_Inr_iff [OF c list.size(3) [symmetric]] using f by blast
  then have "is_utf8 markdown \<longrightarrow>
      markdown_body markdown = (Inr (concat after) :: 'y document_parse_error + _)"
    by (simp add: markdown_body_def r(1))
  ultimately show ?thesis using y(2) by blast
qed

theorem extract_front_matter_splits_witness:
  "\<exists>opening closing body.
     front_matter_parts (''---'' @ [lf] @ ''a: b'' @ [lf] @ ''---'' @ [lf] @ ''text'')
       opening (''a: b'' @ [lf]) closing body \<and> length (''a: b'' @ [lf]) \<le> 5"
proof -
  have "extract_front_matter (''---'' @ [lf] @ ''a: b'' @ [lf] @ ''---'' @ [lf] @ ''text'') 5
      = (Inr (''a: b'' @ [lf]) :: unit document_parse_error + string)" by code_simp
  from extract_front_matter_splits [OF this] show ?thesis by blast
qed

text \<open>Front matter that is written between delimiters is read back unchanged, with the body
  after it, as long as it ends its last line and holds no delimiter line itself.\<close>

theorem front_matter_round_trip:
  assumes "yaml = [] \<or> ends_with_char lf yaml"
    and "\<forall>l\<in>set (split_inclusive lf yaml). \<not> is_delimiter l"
    and "length yaml \<le> maximum"
    and "markdown = ''---'' @ [lf] @ yaml @ ''---'' @ [lf] @ body"
  shows "extract_front_matter markdown maximum = (Inr yaml :: 'y document_parse_error + string) \<and>
    (is_utf8 markdown \<longrightarrow> markdown_body markdown = (Inr body :: 'y document_parse_error + string))"
  using assms by (rule written_front_matter_reads)

theorem front_matter_round_trip_witness:
  "extract_front_matter (''---'' @ [lf] @ (''a: b'' @ [lf]) @ ''---'' @ [lf] @ ''text'') 9
     = (Inr (''a: b'' @ [lf]) :: unit document_parse_error + string)"
proof -
  have "''a: b'' @ [lf] = [] \<or> ends_with_char lf (''a: b'' @ [lf])"
    "\<forall>l\<in>set (split_inclusive lf (''a: b'' @ [lf])). \<not> is_delimiter l"
    "length (''a: b'' @ [lf]) \<le> 9" by code_simp+
  from front_matter_round_trip [OF this refl] show ?thesis by blast
qed


definition sample_metadata :: document_metadata where
  "sample_metadata = \<lparr>md_schema_version = 1, md_document_id = DocumentId 2, md_title = ''Doc'',
     md_created = sample_datetime, md_updated = None, md_node = Some ''n'', md_agent = Some ''a'',
     md_session = Some (SessionId 3), md_request_id = RequestId 1, md_tags = [''x'', ''y''],
     md_status = Active, md_superseded_by = None\<rparr>"


end
