(* ===== verification/Filesystem.thy ===== *)
theory Filesystem
  imports Rust_Text "HOL-Library.AList"
begin

text \<open>
  The part of \<open>std::fs\<close> that the repository and queue crates call, on a tree below one
  root. A tree is an association list from the components of a relative path to a node; the root
  is the empty path. Every call gives the \<open>io::ErrorKind\<close> a POSIX system gives, or the new
  tree. Links and special files are the node \<open>OtherNode\<close>: the sources only detect and
  reject them, so no call follows one. Permissions are the mode bits of a file; a new file has
  mode 0644. The locale \<open>tree_step\<close> is the contract the callers rely on: a successful call
  keeps the tree well formed and leaves every path it does not touch as it was.
\<close>

section \<open>Trees\<close>

datatype node = Dir | File (file_bytes: string) (file_mode: nat) (file_nlink: nat) | OtherNode

type_synonym fs = "(path \<times> node) list"

datatype io_error = NotFound | NotADirectory | IsADirectory | AlreadyExists | DirectoryNotEmpty
  | InvalidInput | OtherIo

definition lookup :: "fs \<Rightarrow> path \<Rightarrow> node option" where
  "lookup fs p = map_of fs p"

definition put :: "path \<Rightarrow> node \<Rightarrow> fs \<Rightarrow> fs" where
  "put p n fs = AList.update p n fs"

definition wf_fs :: "fs \<Rightarrow> bool" where
  "wf_fs fs \<longleftrightarrow> distinct (map fst fs) \<and> lookup fs [] = Some Dir \<and>
     (\<forall>p c. lookup fs (p @ [c]) \<noteq> None \<longrightarrow> lookup fs p = Some Dir)"

definition children :: "fs \<Rightarrow> path \<Rightarrow> string list" where
  "children fs d = map (last \<circ> fst) (filter (\<lambda>(p, _). p \<noteq> [] \<and> butlast p = d) fs)"

definition strict_prefixes :: "path \<Rightarrow> path list" where
  "strict_prefixes p = map (\<lambda>i. take i p) [0..<length p]"

section \<open>Calls\<close>

definition resolve_parent :: "fs \<Rightarrow> path \<Rightarrow> io_error + unit" where
  "resolve_parent fs p =
     try_each (\<lambda>q. case lookup fs q of
        Some Dir \<Rightarrow> Inr () | Some _ \<Rightarrow> Inl NotADirectory | None \<Rightarrow> Inl NotFound)
       (strict_prefixes p)"

definition symlink_metadata :: "fs \<Rightarrow> path \<Rightarrow> io_error + node" where
  "symlink_metadata fs p = attempt (resolve_parent fs p) (\<lambda>_. ok_or NotFound (lookup fs p))"

definition read_file :: "fs \<Rightarrow> path \<Rightarrow> io_error + string" where
  "read_file fs p = attempt (symlink_metadata fs p) (\<lambda>n.
     case n of Dir \<Rightarrow> Inl IsADirectory | File bytes _ _ \<Rightarrow> Inr bytes | OtherNode \<Rightarrow> Inl OtherIo)"

definition read_dir :: "fs \<Rightarrow> path \<Rightarrow> io_error + string list" where
  "read_dir fs d = attempt (symlink_metadata fs d) (\<lambda>n.
     case n of Dir \<Rightarrow> Inr (children fs d) | _ \<Rightarrow> Inl NotADirectory)"

definition new_file :: "string \<Rightarrow> node" where
  "new_file bytes = File bytes 420 1"

text \<open>\<open>OpenOptions::create_new\<close> followed by \<open>write_all\<close>, and \<open>fs::write\<close>.\<close>

definition create_new :: "path \<Rightarrow> string \<Rightarrow> fs \<Rightarrow> io_error + fs" where
  "create_new p bytes fs = attempt (resolve_parent fs p) (\<lambda>_.
     case lookup fs p of
       Some _ \<Rightarrow> Inl AlreadyExists
     | None \<Rightarrow> Inr (put p (new_file bytes) fs))"

definition write_file :: "path \<Rightarrow> string \<Rightarrow> fs \<Rightarrow> io_error + fs" where
  "write_file p bytes fs = attempt (resolve_parent fs p) (\<lambda>_.
     case lookup fs p of
       Some (File _ m l) \<Rightarrow> Inr (put p (File bytes m l) fs)
     | Some Dir \<Rightarrow> Inl IsADirectory
     | Some OtherNode \<Rightarrow> Inl OtherIo
     | None \<Rightarrow> Inr (put p (new_file bytes) fs))"

definition make_dir :: "path \<Rightarrow> path \<Rightarrow> fs \<Rightarrow> io_error + fs" where
  "make_dir target q fs =
     (case lookup fs q of
        Some Dir \<Rightarrow> Inr fs
      | Some _ \<Rightarrow> Inl (if q = target then AlreadyExists else NotADirectory)
      | None \<Rightarrow> Inr (put q Dir fs))"

definition create_dir_all :: "path \<Rightarrow> fs \<Rightarrow> io_error + fs" where
  "create_dir_all p fs = try_fold (make_dir p) (strict_prefixes p @ [p]) fs"

definition relocate :: "path \<Rightarrow> path \<Rightarrow> path \<Rightarrow> path" where
  "relocate a b p = (if prefix a p then b @ drop (length a) p else p)"

definition rename_target_ok :: "node \<Rightarrow> path \<Rightarrow> fs \<Rightarrow> io_error + unit" where
  "rename_target_ok n b fs =
     (case lookup fs b of
        None \<Rightarrow> Inr ()
      | Some Dir \<Rightarrow> if n \<noteq> Dir then Inl IsADirectory
          else if children fs b \<noteq> [] then Inl DirectoryNotEmpty else Inr ()
      | Some _ \<Rightarrow> if n = Dir then Inl NotADirectory else Inr ())"

definition rename :: "path \<Rightarrow> path \<Rightarrow> fs \<Rightarrow> io_error + fs" where
  "rename a b fs =
     attempt (symlink_metadata fs a) (\<lambda>n.
     attempt (resolve_parent fs b) (\<lambda>_.
       if a = b then Inr fs
       else if prefix a b then Inl InvalidInput
       else attempt (rename_target_ok n b fs) (\<lambda>_.
         Inr (map (\<lambda>(p, m). (relocate a b p, m)) (filter (\<lambda>(p, _). p \<noteq> b) fs)))))"

section \<open>Lookup laws\<close>

lemma lookup_put: "lookup (put p n fs) q = (if q = p then Some n else lookup fs q)"
  by (simp add: lookup_def put_def update_conv')

lemma distinct_put: "distinct (map fst fs) \<Longrightarrow> distinct (map fst (put p n fs))"
  by (simp add: put_def distinct_update)

lemma wf_fs_root: "wf_fs fs \<Longrightarrow> lookup fs [] = Some Dir"
  by (simp add: wf_fs_def)

lemma wf_fs_parent: "wf_fs fs \<Longrightarrow> lookup fs (p @ [c]) = Some n \<Longrightarrow> lookup fs p = Some Dir"
  by (auto simp: wf_fs_def)

lemma wf_fs_prefix:
  assumes "wf_fs fs" and "lookup fs (p @ q) \<noteq> None" and "q \<noteq> []"
  shows "lookup fs p = Some Dir"
  using assms(2,3)
proof (induction q rule: rev_induct)
  case Nil
  then show ?case by simp
next
  case (snoc c q)
  have "lookup fs (p @ q) = Some Dir"
    using assms(1) snoc.prems(1) by (auto simp: wf_fs_def simp flip: append_assoc)
  with snoc.IH show ?case by (cases "q = []") simp_all
qed

lemma set_strict_prefixes: "q \<in> set (strict_prefixes p) \<longleftrightarrow> strict_prefix q p"
proof
  assume "q \<in> set (strict_prefixes p)"
  then obtain i where "i < length p" "q = take i p" by (auto simp: strict_prefixes_def)
  then show "strict_prefix q p"
    by (metis append_take_drop_id drop_eq_Nil leD less_le_not_le prefixI prefix_order.less_le
        self_append_conv)
next
  assume "strict_prefix q p"
  then have "length q < length p" "q = take (length q) p"
    by (auto simp: strict_prefix_def prefix_def)
  then show "q \<in> set (strict_prefixes p)"
    by (auto simp: strict_prefixes_def intro!: image_eqI [of _ _ "length q"])
qed

lemma resolve_parent_ok_iff:
  "resolve_parent fs p = Inr () \<longleftrightarrow> (\<forall>q. strict_prefix q p \<longrightarrow> lookup fs q = Some Dir)"
proof -
  have "(case x of Some Dir \<Rightarrow> Inr () | Some _ \<Rightarrow> Inl NotADirectory | None \<Rightarrow> Inl NotFound) = Inr ()
      \<longleftrightarrow> x = Some Dir" for x :: "node option"
    by (auto split: option.splits node.splits)
  then show ?thesis by (auto simp: resolve_parent_def try_each_Inr_iff set_strict_prefixes)
qed

lemma resolve_parent_wf:
  assumes "wf_fs fs" and "lookup fs p \<noteq> None"
  shows "resolve_parent fs p = Inr ()"
  using assms wf_fs_prefix
  by (fastforce simp: resolve_parent_ok_iff strict_prefix_def prefix_def)

lemma symlink_metadata_ok_iff:
  "wf_fs fs \<Longrightarrow> symlink_metadata fs p = Inr n \<longleftrightarrow> lookup fs p = Some n"
  by (auto simp: symlink_metadata_def attempt_Inr_iff resolve_parent_wf)

lemma read_dir_Inr_iff:
  "read_dir fs d = Inr names \<longleftrightarrow> symlink_metadata fs d = Inr Dir \<and> names = children fs d"
proof (cases "symlink_metadata fs d")
  case (Inr n)
  then show ?thesis by (cases n) (auto simp: read_dir_def)
qed (simp add: read_dir_def)

lemma read_file_metadata_iff:
  "read_file fs p = Inr bytes \<longleftrightarrow> (\<exists>m l. symlink_metadata fs p = Inr (File bytes m l))"
proof (cases "symlink_metadata fs p")
  case (Inr n)
  then show ?thesis by (cases n) (auto simp: read_file_def)
qed (simp add: read_file_def)

lemma read_file_Inr_iff:
  "wf_fs fs \<Longrightarrow> read_file fs p = Inr bytes \<longleftrightarrow> (\<exists>m l. lookup fs p = Some (File bytes m l))"
  by (simp add: read_file_metadata_iff symlink_metadata_ok_iff)

lemma children_iff:
  assumes "distinct (map fst fs)"
  shows "c \<in> set (children fs d) \<longleftrightarrow> lookup fs (d @ [c]) \<noteq> None"
proof -
  have "c \<in> set (children fs d) \<longleftrightarrow> d @ [c] \<in> fst ` set fs"
    by (force simp: children_def image_iff)
  also have "\<dots> \<longleftrightarrow> lookup fs (d @ [c]) \<noteq> None"
    by (auto simp: lookup_def map_of_eq_None_iff)
  finally show ?thesis .
qed

section \<open>The contract of a call that changes the tree\<close>

locale tree_step =
  fixes run :: "fs \<Rightarrow> io_error + fs"
    and touches :: "fs \<Rightarrow> path \<Rightarrow> bool"
  assumes run_wf: "wf_fs fs \<Longrightarrow> run fs = Inr fs' \<Longrightarrow> wf_fs fs'"
    and run_frame: "wf_fs fs \<Longrightarrow> run fs = Inr fs' \<Longrightarrow> \<not> touches fs q \<Longrightarrow> lookup fs' q = lookup fs q"
begin

lemma kept_file:
  "wf_fs fs \<Longrightarrow> run fs = Inr fs' \<Longrightarrow> lookup fs q = Some (File b m l) \<Longrightarrow>
     \<not> touches fs q \<Longrightarrow> wf_fs fs' \<and> lookup fs' q = Some (File b m l)"
  using run_wf run_frame by metis

end

lemma wf_fsI:
  assumes "distinct (map fst fs)" and "lookup fs [] = Some Dir"
    and "\<And>p c. lookup fs (p @ [c]) \<noteq> None \<Longrightarrow> lookup fs p = Some Dir"
  shows "wf_fs fs"
  using assms by (simp add: wf_fs_def)

lemma wf_fs_check:
  assumes "distinct (map fst fs)" and "lookup fs [] = Some Dir"
    and "list_all (\<lambda>(p, _). p = [] \<or> lookup fs (butlast p) = Some Dir) fs"
  shows "wf_fs fs"
proof (rule wf_fsI [OF assms(1,2)])
  fix p c
  assume "lookup fs (p @ [c]) \<noteq> None"
  then obtain n where "(p @ [c], n) \<in> set fs" by (auto simp: lookup_def dest: map_of_SomeD)
  with assms(3) show "lookup fs p = Some Dir" by (auto simp: list_all_iff)
qed

lemma wf_fs_put:
  assumes wf: "wf_fs fs" and parent: "\<And>q c. p = q @ [c] \<Longrightarrow> lookup fs q = Some Dir"
    and ne: "p \<noteq> []" and keep: "n = Dir \<or> lookup fs p \<noteq> Some Dir"
  shows "wf_fs (put p n fs)"
proof (rule wf_fsI)
  show "distinct (map fst (put p n fs))" using wf by (simp add: wf_fs_def distinct_put)
  show "lookup (put p n fs) [] = Some Dir" using wf ne by (simp add: wf_fs_def lookup_put)
  fix q c
  assume "lookup (put p n fs) (q @ [c]) \<noteq> None"
  then have "lookup fs (q @ [c]) \<noteq> None \<or> p = q @ [c]" by (auto simp: lookup_put split: if_splits)
  then have "lookup fs q = Some Dir" using wf_fs_parent [OF wf] parent by blast
  then show "lookup (put p n fs) q = Some Dir" using keep by (auto simp: lookup_put)
qed

lemma wf_fs_put_file:
  assumes "wf_fs fs" and "resolve_parent fs p = Inr ()" and "lookup fs p \<noteq> Some Dir" and "p \<noteq> []"
  shows "wf_fs (put p (File b m l) fs)"
proof (rule wf_fs_put [OF assms(1) _ assms(4)])
  show "lookup fs q = Some Dir" if "p = q @ [c]" for q c
    using that assms(2) by (auto simp: resolve_parent_ok_iff strict_prefix_def)
qed (use assms(3) in simp)

lemma wf_fs_put_dir:
  assumes "wf_fs fs" and "p = q @ [c]" and "lookup fs q = Some Dir"
  shows "wf_fs (put p Dir fs)"
  by (rule wf_fs_put) (use assms in auto)

lemma create_new_Inr_iff:
  "create_new p b fs = Inr fs' \<longleftrightarrow>
     resolve_parent fs p = Inr () \<and> lookup fs p = None \<and> fs' = put p (new_file b) fs"
  by (auto simp: create_new_def attempt_Inr_iff split: option.splits)

interpretation create_new_step: tree_step "create_new p b" "\<lambda>_ q. q = p" for p b
proof
  fix fs fs' q
  assume "wf_fs fs" "create_new p b fs = Inr fs'"
  then show "wf_fs fs'"
    by (cases "p = []")
      (auto simp: create_new_Inr_iff new_file_def wf_fs_root intro: wf_fs_put_file)
  show "lookup fs' q = lookup fs q" if "\<not> q = p"
    using that \<open>create_new p b fs = Inr fs'\<close> by (auto simp: create_new_Inr_iff lookup_put)
qed

lemma write_file_Inr:
  assumes "write_file p b fs = Inr fs'"
  shows "resolve_parent fs p = Inr ()" and "lookup fs p \<noteq> Some Dir"
    and "\<exists>m l. fs' = put p (File b m l) fs"
  using assms
  by (auto simp: write_file_def attempt_Inr_iff new_file_def split: option.splits node.splits)

interpretation write_file_step: tree_step "write_file p b" "\<lambda>_ q. q = p" for p b
proof
  fix fs fs' q
  assume wf: "wf_fs fs" and run: "write_file p b fs = Inr fs'"
  note facts = write_file_Inr [OF run]
  show "wf_fs fs'"
    using wf facts by (cases "p = []") (auto simp: wf_fs_root intro: wf_fs_put_file)
  show "lookup fs' q = lookup fs q" if "\<not> q = p"
    using that facts(3) by (auto simp: lookup_put)
qed

lemma make_dir_Inr:
  assumes "make_dir t q fs = Inr fs'"
  shows "lookup fs' q = Some Dir" and "\<And>p. p \<noteq> q \<Longrightarrow> lookup fs' p = lookup fs p"
    and "lookup fs q \<in> {None, Some Dir}"
  using assms by (auto simp: make_dir_def lookup_put split: option.splits node.splits if_splits)

lemma make_dir_wf:
  assumes "wf_fs fs" and "make_dir t q fs = Inr fs'" and "q \<noteq> [] \<longrightarrow> lookup fs (butlast q) = Some Dir"
  shows "wf_fs fs'"
proof (cases "lookup fs q")
  case None
  with assms(1) have "q \<noteq> []" by (auto simp: wf_fs_root)
  with None assms show ?thesis
    by (auto simp: make_dir_def intro!: wf_fs_put_dir [of fs _ "butlast q" "last q"])
next
  case (Some n)
  with assms show ?thesis by (auto simp: make_dir_def split: node.splits if_splits)
qed

lemma strict_prefixes_snoc: "strict_prefixes (p @ [c]) = strict_prefixes p @ [p]"
  by (simp add: strict_prefixes_def)

lemma create_dir_all_facts:
  assumes "wf_fs fs" and "create_dir_all p fs = Inr fs'"
  shows "wf_fs fs' \<and> lookup fs' p = Some Dir \<and>
    (\<forall>q. \<not> prefix q p \<longrightarrow> lookup fs' q = lookup fs q) \<and>
    (\<forall>q. lookup fs q \<noteq> None \<longrightarrow> lookup fs' q = lookup fs q)"
proof -
  have "try_fold (make_dir t) (strict_prefixes p @ [p]) fs = Inr fs' \<Longrightarrow> wf_fs fs' \<and>
      lookup fs' p = Some Dir \<and> (\<forall>q. \<not> prefix q p \<longrightarrow> lookup fs' q = lookup fs q) \<and>
      (\<forall>q. lookup fs q \<noteq> None \<longrightarrow> lookup fs' q = lookup fs q)" for t
  proof (induction p arbitrary: fs' rule: rev_induct)
    case Nil
    with assms(1) show ?case
      by (auto simp: strict_prefixes_def attempt_Inr_iff wf_fs_root make_dir_def)
  next
    case (snoc c p)
    from snoc.prems obtain u where u: "try_fold (make_dir t) (strict_prefixes p @ [p]) fs = Inr u"
      "make_dir t (p @ [c]) u = Inr fs'"
      by (auto simp: strict_prefixes_snoc try_fold_append attempt_Inr_iff)
    note IH = snoc.IH [OF u(1)]
    have "wf_fs fs'" using IH u(2) make_dir_wf by auto
    moreover have "lookup fs' q = lookup fs q" if "lookup fs q \<noteq> None" for q
      using that IH make_dir_Inr [OF u(2)] by (cases "q = p @ [c]") auto
    ultimately show ?case
      using IH make_dir_Inr(1,2) [OF u(2)] by auto
  qed
  with assms(2) show ?thesis by (simp add: create_dir_all_def)
qed

interpretation create_dir_all_step:
  tree_step "create_dir_all p" "\<lambda>fs q. prefix q p \<and> lookup fs q = None" for p
  by unfold_locales (use create_dir_all_facts in blast)+

section \<open>Renaming a subtree\<close>

lemma map_of_map_key:
  assumes "inj_on f (insert p (fst ` set xs))"
  shows "map_of (map (\<lambda>(p, m). (f p, m)) xs) (f p) = map_of xs p"
  using assms by (induction xs) (auto simp: inj_on_def)

lemma relocate_inj_on:
  "inj_on (relocate a b) {p. \<not> prefix b p}"
proof (rule inj_onI)
  fix p q
  assume p: "p \<in> {p. \<not> prefix b p}" and q: "q \<in> {p. \<not> prefix b p}"
    and eq: "relocate a b p = relocate a b q"
  consider "prefix a p" "prefix a q" | "prefix a p" "\<not> prefix a q" | "\<not> prefix a p" "prefix a q"
    | "\<not> prefix a p" "\<not> prefix a q" by blast
  then show "p = q"
  proof cases
    case 1
    then obtain s t where "p = a @ s" "q = a @ t" by (auto simp: prefix_def)
    with 1 eq show ?thesis by (simp add: relocate_def)
  next
    case 2
    with eq have "q = b @ drop (length a) p" by (simp add: relocate_def)
    with q show ?thesis by (auto simp: prefix_def)
  next
    case 3
    with eq have "p = b @ drop (length a) q" by (simp add: relocate_def)
    with p show ?thesis by (auto simp: prefix_def)
  next
    case 4
    with eq show ?thesis by (simp add: relocate_def)
  qed
qed

lemma rename_Inr:
  assumes "rename a b fs = Inr fs'" and "wf_fs fs" and "a \<noteq> b"
  shows "lookup fs a \<noteq> None" and "resolve_parent fs b = Inr ()" and "\<not> prefix a b"
    and "\<And>c. lookup fs (b @ [c]) = None"
    and "fs' = map (\<lambda>(p, m). (relocate a b p, m)) (filter (\<lambda>(p, _). p \<noteq> b) fs)"
proof -
  from assms obtain n where n: "symlink_metadata fs a = Inr n" "resolve_parent fs b = Inr ()"
    "\<not> prefix a b" "rename_target_ok n b fs = Inr ()"
    "fs' = map (\<lambda>(p, m). (relocate a b p, m)) (filter (\<lambda>(p, _). p \<noteq> b) fs)"
    by (auto simp: rename_def attempt_Inr_iff split: if_splits)
  show "resolve_parent fs b = Inr ()" "\<not> prefix a b"
    "fs' = map (\<lambda>(p, m). (relocate a b p, m)) (filter (\<lambda>(p, _). p \<noteq> b) fs)"
    by (rule n)+
  show "lookup fs a \<noteq> None" using n(1) assms(2) by (simp add: symlink_metadata_ok_iff)
  show "lookup fs (b @ [c]) = None" for c
  proof (rule ccontr)
    assume c: "lookup fs (b @ [c]) \<noteq> None"
    then have "lookup fs b = Some Dir" using wf_fs_parent [OF assms(2)] by blast
    moreover have "c \<in> set (children fs b)" using c assms(2) by (simp add: children_iff wf_fs_def)
    ultimately show False using n(4) by (auto simp: rename_target_ok_def split: if_splits)
  qed
qed

lemma no_children_no_descendants:
  assumes "wf_fs fs" and "\<And>c. lookup fs (b @ [c]) = None" and "prefix b q" and "q \<noteq> b"
  shows "lookup fs q = None"
proof (rule ccontr)
  assume "lookup fs q \<noteq> None"
  obtain c s where q: "q = (b @ [c]) @ s"
    using assms(3,4) by (metis append.assoc append_Cons append_Nil neq_Nil_conv prefixE self_append_conv)
  then have "lookup fs (b @ [c]) \<noteq> None"
    using wf_fs_prefix [OF assms(1), of "b @ [c]" s] \<open>lookup fs q \<noteq> None\<close> by (cases "s = []") auto
  with assms(2) show False by simp
qed

lemma lookup_rename:
  assumes run: "rename a b fs = Inr fs'" and wf: "wf_fs fs" and ne: "a \<noteq> b"
  shows "lookup fs' q =
    (if prefix b q then lookup fs (a @ drop (length b) q)
     else if prefix a q then None else lookup fs q)"
proof -
  note r = rename_Inr [OF assms]
  define kept where "kept = filter (\<lambda>(p, _). p \<noteq> b) fs"
  have kept: "map_of kept p = (if p = b then None else lookup fs p)" for p
    unfolding kept_def lookup_def by (induction fs) auto
  have fs': "lookup fs' = map_of (map (\<lambda>(p, m). (relocate a b p, m)) kept)"
    by (simp add: lookup_def r(5) kept_def fun_eq_iff)
  have keys: "fst ` set kept \<subseteq> {p. \<not> prefix b p}"
  proof
    fix p assume "p \<in> fst ` set kept"
    then have "map_of kept p \<noteq> None" by (simp add: map_of_eq_None_iff)
    then have "p \<noteq> b" "lookup fs p \<noteq> None" by (auto simp: kept split: if_splits)
    with no_children_no_descendants [OF wf r(4), of p] show "p \<in> {p. \<not> prefix b p}" by auto
  qed
  have "\<not> prefix b a"
    using no_children_no_descendants [OF wf r(4), of a] r(1) ne by auto
  then have par: "\<not> prefix b (a @ s)" for s
    using r(3) by (metis prefix_same_cases prefixI)
  show ?thesis
  proof (cases "prefix b q")
    case True
    then have q: "q = relocate a b (a @ drop (length b) q)"
      by (auto simp: relocate_def prefix_def)
    have "inj_on (relocate a b) (insert (a @ drop (length b) q) (fst ` set kept))"
      by (rule inj_on_subset [OF relocate_inj_on]) (use keys par in auto)
    from map_of_map_key [OF this] have "lookup fs' q = map_of kept (a @ drop (length b) q)"
      using q by (simp add: fs')
    also have "\<dots> = lookup fs (a @ drop (length b) q)"
      using par [of "drop (length b) q"] by (auto simp: kept)
    finally show ?thesis using True by simp
  next
    case False
    show ?thesis
    proof (cases "prefix a q")
      case True
      have "q \<notin> relocate a b ` fst ` set kept"
        using True False by (auto simp: relocate_def prefix_def)
      then have "lookup fs' q = None"
        by (force simp: fs' map_of_eq_None_iff image_iff)
      with True False show ?thesis by simp
    next
      case nota: False
      then have q: "q = relocate a b q" by (simp add: relocate_def)
      have "inj_on (relocate a b) (insert q (fst ` set kept))"
        by (rule inj_on_subset [OF relocate_inj_on]) (use keys False in auto)
      from map_of_map_key [OF this] have "lookup fs' q = map_of kept q" using q by (simp add: fs')
      with False nota show ?thesis by (auto simp: kept)
    qed
  qed
qed

lemma rename_distinct:
  assumes "rename a b fs = Inr fs'" and "wf_fs fs" and "a \<noteq> b"
  shows "distinct (map fst fs')"
proof -
  note r = rename_Inr [OF assms]
  let ?kept = "filter (\<lambda>(p, _). p \<noteq> b) fs"
  have "fst ` set ?kept \<subseteq> {p. \<not> prefix b p}"
  proof
    fix p assume "p \<in> fst ` set ?kept"
    then obtain m where "p \<noteq> b" "(p, m) \<in> set fs" by auto
    then have "lookup fs p \<noteq> None" using weak_map_of_SomeI by (fastforce simp: lookup_def)
    with \<open>p \<noteq> b\<close> no_children_no_descendants [OF assms(2) r(4), of p] show "p \<in> {p. \<not> prefix b p}" by auto
  qed
  then have "inj_on (relocate a b) (set (map fst ?kept))"
    by (intro inj_on_subset [OF relocate_inj_on]) auto
  moreover have "distinct (map fst ?kept)"
    using assms(2) by (auto simp: wf_fs_def intro: distinct_map_filter)
  moreover have "map fst fs' = map (relocate a b) (map fst ?kept)"
    by (auto simp: r(5))
  ultimately show ?thesis by (metis distinct_map)
qed

lemma rename_wf:
  assumes run: "rename a b fs = Inr fs'" and wf: "wf_fs fs" and ne: "a \<noteq> b"
  shows "wf_fs fs'"
proof (rule wf_fsI)
  note r = rename_Inr [OF assms] and look = lookup_rename [OF assms]
  have "\<not> prefix b a"
    using no_children_no_descendants [OF wf r(4), of a] r(1) ne by auto
  show "distinct (map fst fs')" using assms by (rule rename_distinct)
  show "lookup fs' [] = Some Dir"
    using r(3) \<open>\<not> prefix b a\<close> wf_fs_root [OF wf] by (auto simp: look)
  fix p c
  assume some: "lookup fs' (p @ [c]) \<noteq> None"
  show "lookup fs' p = Some Dir"
  proof (cases "prefix b (p @ [c])")
    case True
    with some have src: "lookup fs (a @ drop (length b) (p @ [c])) \<noteq> None" by (simp add: look)
    show ?thesis
    proof (cases "p @ [c] = b")
      case True
      then have "strict_prefix p b" by (auto simp: strict_prefix_def prefix_def)
      then have "lookup fs p = Some Dir" using r(2) by (auto simp: resolve_parent_ok_iff)
      moreover have "\<not> prefix a p" using True r(3) by (metis prefix_order.trans prefixI)
      moreover have "\<not> prefix b p" using \<open>strict_prefix p b\<close> by auto
      ultimately show ?thesis by (simp add: look)
    next
      case False
      with True have "prefix b p" by (metis prefix_snoc)
      then have "a @ drop (length b) (p @ [c]) = (a @ drop (length b) p) @ [c]"
        by (simp add: prefix_length_le)
      then have "lookup fs (a @ drop (length b) p) = Some Dir"
        using src wf_fs_parent [OF wf] by (metis not_Some_eq)
      with \<open>prefix b p\<close> show ?thesis by (simp add: look)
    qed
  next
    case False
    with some have "\<not> prefix a (p @ [c])" "lookup fs (p @ [c]) \<noteq> None"
      by (auto simp: look split: if_splits)
    then have "lookup fs p = Some Dir" "\<not> prefix a p" "\<not> prefix b p"
      using wf_fs_parent [OF wf] False by (auto simp: prefix_append)
    then show ?thesis by (simp add: look)
  qed
qed

interpretation rename_step:
  tree_step "rename a b" "\<lambda>_ q. a \<noteq> b \<and> (prefix a q \<or> prefix b q)" for a b
proof
  fix fs fs' q
  assume wf: "wf_fs fs" and run: "rename a b fs = Inr fs'"
  have same: "fs' = fs" if "a = b"
    using that run by (auto simp: rename_def attempt_Inr_iff)
  show "wf_fs fs'" using wf run same rename_wf by (cases "a = b") auto
  show "lookup fs' q = lookup fs q" if "\<not> (a \<noteq> b \<and> (prefix a q \<or> prefix b q))"
    using that same lookup_rename [OF run wf] by (cases "a = b") auto
qed

section \<open>Reading in chunks\<close>

text \<open>
  \<open>file.take(limit)\<close> read through a fixed buffer until a read returns nothing, with
  a check before every read; the sources use it to stop a long read at a deadline.
\<close>

function read_loop ::
  "nat \<Rightarrow> (nat \<Rightarrow> 'e + unit) \<Rightarrow> nat \<Rightarrow> nat \<Rightarrow> string \<Rightarrow> string \<Rightarrow> 'e + string" where
  "read_loop buffer check k limit source bytes =
     attempt (check k) (\<lambda>_.
       let remaining = limit - length bytes;
           chunk = take (min remaining buffer) source in
       if remaining = 0 \<or> chunk = [] then Inr bytes
       else read_loop buffer check (k + 1) limit (drop (length chunk) source) (bytes @ chunk))"
  by pat_completeness auto
termination
  by (relation "measure (\<lambda>(_, _, _, _, source, _). length source)") auto

declare read_loop.simps [simp del]

text \<open>Enough of the file is read, whatever the chunks.\<close>

lemma read_loop_Inr:
  "read_loop buffer check k limit source bytes = Inr out \<Longrightarrow> 0 < buffer \<Longrightarrow>
     out = bytes @ take (limit - length bytes) source"
proof (induction buffer check k limit source bytes rule: read_loop.induct)
  case (1 buffer check k limit source bytes)
  define remaining where "remaining = limit - length bytes"
  define chunk where "chunk = take (min remaining buffer) source"
  have run: "attempt (check k) (\<lambda>_. if remaining = 0 \<or> chunk = [] then Inr bytes
      else read_loop buffer check (k + 1) limit (drop (length chunk) source) (bytes @ chunk)) = Inr out"
    using "1.prems"(1) unfolding remaining_def chunk_def
    by (subst (asm) read_loop.simps) (simp only: Let_def)
  show ?case
  proof (cases "remaining = 0 \<or> chunk = []")
    case True
    then have "out = bytes" using run by (auto simp: attempt_Inr_iff)
    moreover have "take remaining source = []"
      using True using "1.prems"(2) by (auto simp: chunk_def)
    ultimately show ?thesis by (simp add: remaining_def)
  next
    case False
    obtain u where u: "check k = Inr u" using run by (auto simp: attempt_Inr_iff)
    have step: "read_loop buffer check (k + 1) limit (drop (length chunk) source) (bytes @ chunk) = Inr out"
      using run False by (auto simp: attempt_Inr_iff)
    have "out = (bytes @ chunk) @
        take (limit - length (bytes @ chunk)) (drop (length chunk) source)"
      by (rule "1.IH" [OF u remaining_def chunk_def False step "1.prems"(2)])
    moreover have "chunk = take (length chunk) source" "length chunk \<le> remaining"
      by (auto simp: chunk_def min_def)
    then have "take remaining source = chunk @ take (remaining - length chunk) (drop (length chunk) source)"
      by (metis le_add_diff_inverse take_add)
    ultimately show ?thesis by (simp add: remaining_def)
  qed
qed

lemma read_loop_total:
  assumes "\<And>k. check k = Inr ()" and buffer: "0 < buffer"
  shows "read_loop buffer check k limit source bytes = Inr (bytes @ take (limit - length bytes) source)"
proof -
  have "is_ok (read_loop buffer check k limit source bytes)"
    using assms(1)
  proof (induction buffer check k limit source bytes rule: read_loop.induct)
    case (1 buffer check k limit source bytes)
    show ?case
    proof (cases "limit - length bytes = 0 \<or> take (min (limit - length bytes) buffer) source = []")
      case True
      then show ?thesis using "1.prems"
        by (subst read_loop.simps) (simp only: Let_def if_True attempt_simps is_ok_simps)
    next
      case False
      note ih = "1.IH" [OF "1.prems" refl refl False "1.prems"]
      show ?thesis
        unfolding read_loop.simps [of buffer check k limit source bytes] Let_def "1.prems" [of k]
        using False ih by (simp only: if_False attempt_simps)
    qed
  qed
  then show ?thesis using read_loop_Inr buffer by (fastforce simp: is_ok_iff)
qed

lemma cut_short_read_loop:
  assumes "\<And>k. cut_short e (check k) (check' k)"
  shows "cut_short e (read_loop buffer check k limit source bytes)
    (read_loop buffer check' k limit source bytes)"
  using assms
proof (induction buffer check' k limit source bytes rule: read_loop.induct)
  case (1 buffer check' k limit source bytes)
  show ?case
    unfolding read_loop.simps [of buffer check k limit source bytes]
      read_loop.simps [of buffer check' k limit source bytes] Let_def
    by (rule cut_short_attempt [OF "1.prems"], rule cut_short_if)
      (rule "1.IH" [OF _ refl refl _ "1.prems"])
qed

lemma cut_short_node:
  assumes "n = Dir \<Longrightarrow> cut_short e a a'" and "n = OtherNode \<Longrightarrow> cut_short e b b'"
    and "\<And>x y z. n = File x y z \<Longrightarrow> cut_short e (f x y z) (g x y z)"
  shows "cut_short e (case n of Dir \<Rightarrow> a | OtherNode \<Rightarrow> b | File x y z \<Rightarrow> f x y z)
     (case n of Dir \<Rightarrow> a' | OtherNode \<Rightarrow> b' | File x y z \<Rightarrow> g x y z)"
  using assms by (cases n) simp_all

section \<open>Reading what was written\<close>

lemma metadata_of_lookup: "wf_fs fs \<Longrightarrow> lookup fs p = Some n \<Longrightarrow> symlink_metadata fs p = Inr n"
  by (simp add: symlink_metadata_ok_iff)

lemma create_new_lookup: "create_new p b fs = Inr fs' \<Longrightarrow> lookup fs' p = Some (new_file b)"
  by (auto simp: create_new_def attempt_Inr_iff lookup_put split: option.split_asm)

lemma lookup_write_new:
  "create_new p [] fs = Inr u \<Longrightarrow> write_file p b u = Inr v \<Longrightarrow> lookup v p = Some (new_file b)"
  using create_new_lookup [of p "[]" fs u]
  by (auto simp: write_file_def attempt_Inr_iff lookup_put new_file_def split: option.split_asm node.split_asm)

lemma symlink_metadata_cong:
  assumes "\<And>q. prefix q p \<Longrightarrow> lookup fs' q = lookup fs q"
  shows "symlink_metadata fs' p = symlink_metadata fs p"
proof -
  have "lookup fs' q = lookup fs q" if "q \<in> set (strict_prefixes p)" for q
    using that by (intro assms) (auto simp: strict_prefixes_def take_is_prefix)
  then have "resolve_parent fs' p = resolve_parent fs p"
    unfolding resolve_parent_def by (intro try_each_cong) simp
  then show ?thesis using assms [of p] by (simp add: symlink_metadata_def)
qed

lemma metadata_missing:
  "wf_fs fs \<Longrightarrow> lookup fs [a] = Some Dir \<Longrightarrow> lookup fs [a, b] = None \<Longrightarrow> symlink_metadata fs [a, b] = Inl NotFound"
  by (simp add: symlink_metadata_def resolve_parent_def strict_prefixes_def wf_fs_root upt_rec)

end
