(* ===== verification/Package_Validation.thy ===== *)
theory Package_Validation
  imports Core_Documents Filesystem
begin

text \<open>
  \<open>crates/queue/src/package.rs\<close> and \<open>package/markdown.rs\<close>: the validation of one
  request package, incoming or accepted, up to its digest. The package directory is a tree whose
  root is the package root. What is not in the repository is a field of \<open>externals\<close>:
  the JSON and YAML codecs, SHA-256 and the text form of a ULID; their errors are opaque strings.
  A deadline is the answer it gives at each point where the source asks, so that one value of
  \<open>deadline\<close> stands for any passage of time and any cancellation.
\<close>

section \<open>Policy and limits\<close>

definition REQUEST_FILE_NAME :: string where "REQUEST_FILE_NAME = ''request.json''"
definition PAYLOAD_DIRECTORY_NAME :: string where "PAYLOAD_DIRECTORY_NAME = ''payload''"
definition DIGEST_FILE_NAME :: string where "DIGEST_FILE_NAME = ''digest''"
definition ACCEPTANCE_FILE_NAME :: string where "ACCEPTANCE_FILE_NAME = ''acceptance.json''"
definition PHASE_FILE_NAME :: string where "PHASE_FILE_NAME = ''phase.json''"
definition RESULT_FILE_NAME :: string where "RESULT_FILE_NAME = ''result.json''"
definition DIGEST_DOMAIN :: string where
  "DIGEST_DOMAIN = ''agent-knowledge-request-package-v1'' @ [CHR 0x00]"
definition HASH_BUFFER_LENGTH :: nat where "HASH_BUFFER_LENGTH = 65536"
definition MAXIMUM_DIGEST_FILE_BYTES :: nat where "MAXIMUM_DIGEST_FILE_BYTES = 72"
definition MAXIMUM_ACCEPTANCE_FILE_BYTES :: nat where "MAXIMUM_ACCEPTANCE_FILE_BYTES = 256"

lemma HASH_BUFFER_LENGTH_pos [simp]: "0 < HASH_BUFFER_LENGTH"
  by (simp add: HASH_BUFFER_LENGTH_def)

record acceptance_metadata =
  am_sequence :: nat
  am_accepted_at :: offset_datetime
  am_client_id :: "client_id option"

record package_limits =
  pl_maximum_total_bytes :: nat
  pl_maximum_file_bytes :: nat
  pl_maximum_file_count :: nat
  pl_maximum_directory_count :: nat
  pl_maximum_entry_count :: nat
  pl_maximum_path_components :: nat
  pl_maximum_front_matter_bytes :: nat
  pl_request :: request_limits
  pl_document :: document_limits

definition default_package_limits :: package_limits where
  "default_package_limits =
     \<lparr>pl_maximum_total_bytes = 64 * 1024 * 1024, pl_maximum_file_bytes = 32 * 1024 * 1024,
      pl_maximum_file_count = 256, pl_maximum_directory_count = 1024,
      pl_maximum_entry_count = 1280, pl_maximum_path_components = 64,
      pl_maximum_front_matter_bytes = 64 * 1024, pl_request = default_request_limits,
      pl_document = default_document_limits\<rparr>"

record package_policy =
  pp_limits :: package_limits
  pp_allowed_attachment_extensions :: "string list"

datatype package_policy_error = InvalidAttachmentExtension string

definition package_policy_new ::
  "package_limits \<Rightarrow> string list \<Rightarrow> package_policy_error + package_policy" where
  "package_policy_new limits extensions =
     attempt (try_fold (\<lambda>extension acc.
         if extension = [] \<or> \<not> list_all (\<lambda>b. is_ascii_lowercase b \<or> is_ascii_digit b) extension
         then Inl (InvalidAttachmentExtension extension)
         else Inr (List.insert extension acc)) extensions [])
       (\<lambda>acc. Inr \<lparr>pp_limits = limits, pp_allowed_attachment_extensions = acc\<rparr>)"

definition allows_attachment_name :: "package_policy \<Rightarrow> string \<Rightarrow> bool" where
  "allows_attachment_name policy name =
     (case extension name of
        None \<Rightarrow> False
      | Some e \<Rightarrow> e \<in> set (pp_allowed_attachment_extensions policy))"

definition default_extensions :: "string list" where
  "default_extensions = [''png'', ''jpg'', ''jpeg'', ''svg'', ''csv'', ''json'', ''pdf'', ''html'']"

section \<open>Packages and errors\<close>

datatype package_digest = PackageDigest revision

record payload_metadata =
  pm_path :: payload_path
  pm_byte_length :: nat
  pm_revision :: revision

record validated_package =
  vp_request :: change_request
  vp_digest :: package_digest
  vp_payload :: "payload_metadata list"
  vp_acceptance :: "acceptance_metadata option"

datatype package_limit =
  TotalBytes | MaterializedBytes | IndividualFileBytes | FileCount | DirectoryCount | EntryCount
  | PathComponents

datatype markdown_validation_error =
    MarkdownIo io_error
  | MarkdownInvalidUtf8 payload_path
  | MarkdownMissingOpeningDelimiter payload_path
  | MarkdownMissingClosingDelimiter payload_path
  | MarkdownInvalidYaml payload_path string
  | MarkdownFrontMatterTooLarge payload_path nat nat
  | MarkdownInvalidMetadata payload_path document_validation_error
  | DocumentIdMismatch payload_path document_id document_id
  | RequestIdMismatch payload_path request_id request_id
  | RequestMetadataMismatch payload_path string
  | MissingUpdatedTimestamp payload_path

datatype package_validation_error =
    PackageIo io_error
  | PackageTimedOut
  | InvalidLayout
  | MissingTopLevelEntry string
  | UnexpectedTopLevelEntry string
  | InvalidEntryType path
  | InvalidPayloadPath string
  | EmptyPayloadDirectory payload_path
  | InvalidRequestJson "string request_decode_error"
  | InvalidRequestMetadata request_validation_error
  | CanonicalRequestJson string
  | HardLinkedFile path
  | ExecutableFile path
  | LimitExceededBy package_limit nat nat
  | FileTooLarge string nat nat
  | MarkdownExtensionRequired payload_path
  | UnsupportedAttachment string
  | MissingPayload payload_path
  | UnexpectedPayload payload_path
  | FileChangedDuringValidation payload_path
  | InvalidFrontMatterIn markdown_validation_error
  | InvalidStoredDigest
  | InvalidAcceptanceMetadata string
  | StoredDigestMismatch package_digest package_digest

fun markdown_error_code :: "markdown_validation_error \<Rightarrow> error_code" where
  "markdown_error_code (MarkdownIo _) = TemporaryFailure"
| "markdown_error_code _ = InvalidFrontMatter"

fun package_error_code :: "package_validation_error \<Rightarrow> error_code" where
  "package_error_code (PackageIo _) = TemporaryFailure"
| "package_error_code PackageTimedOut = TemporaryFailure"
| "package_error_code (InvalidPayloadPath _) = InvalidPath"
| "package_error_code (InvalidRequestJson (RequestInvalidPath _ _)) = InvalidPath"
| "package_error_code (InvalidRequestMetadata (UnsupportedProtocolVersion _)) = InvalidProtocol"
| "package_error_code (LimitExceededBy _ _ _) = LimitExceeded"
| "package_error_code (FileTooLarge _ _ _) = LimitExceeded"
| "package_error_code (UnsupportedAttachment _) = UnsupportedFileType"
| "package_error_code (InvalidFrontMatterIn e) = markdown_error_code e"
| "package_error_code (CanonicalRequestJson _) = InternalError"
| "package_error_code InvalidStoredDigest = ContentValidationFailed"
| "package_error_code (InvalidAcceptanceMetadata _) = ContentValidationFailed"
| "package_error_code (StoredDigestMismatch _ _) = ContentValidationFailed"
| "package_error_code _ = InvalidRequest"

section \<open>Externals and deadlines\<close>

record externals =
  ex_request_from_json :: "string \<Rightarrow> string + wire_change_request"
  ex_request_to_json :: "change_request \<Rightarrow> string + string"
  ex_acceptance_from_json :: "string \<Rightarrow> string + acceptance_metadata"
  ex_yaml_decode :: "nat \<Rightarrow> string \<Rightarrow> string + document_metadata"
  ex_yaml_encode :: "document_metadata \<Rightarrow> string + string"
  ex_sha256 :: "string \<Rightarrow> 8 word list"
  ex_ulid_show :: "ulid \<Rightarrow> string"

definition revision_of :: "externals \<Rightarrow> string \<Rightarrow> revision" where
  "revision_of ex bytes = Revision (ex_sha256 ex bytes)"

text \<open>Where the source asks whether the operation is still active.\<close>

datatype check_point =
    AtRoot | AtRootEntry nat | AtContents | AtReadStart path | AtReadChunk path nat
  | AtDirectory path | AtEntry path | AtOperation nat | AtDocuments | AtDigest
  | AtDigestFile nat | AtDigestChunk nat nat

type_synonym deadline = "(check_point \<Rightarrow> bool) option"

definition ensure_operation_active ::
  "deadline \<Rightarrow> check_point \<Rightarrow> package_validation_error + unit" where
  "ensure_operation_active deadline at =
     (case deadline of
        None \<Rightarrow> Inr ()
      | Some active \<Rightarrow> if active at then Inr () else Inl PackageTimedOut)"

section \<open>Reading\<close>

definition enforce_file_size :: "nat \<Rightarrow> nat \<Rightarrow> string \<Rightarrow> package_validation_error + unit" where
  "enforce_file_size actual maximum path =
     (if actual > maximum then Inl (FileTooLarge path maximum actual) else Inr ())"

text \<open>\<open>path.display()\<close> of a package file.\<close>

definition display_path :: "path \<Rightarrow> string" where
  "display_path p = join_with (CHR ''/'') p"

definition node_length :: "node \<Rightarrow> nat" where
  "node_length n = (case n of File bytes _ _ \<Rightarrow> length bytes | _ \<Rightarrow> 0)"

definition read_limited_file_until ::
  "fs \<Rightarrow> path \<Rightarrow> nat \<Rightarrow> deadline \<Rightarrow> package_validation_error + string" where
  "read_limited_file_until fs path maximum deadline =
     attempt (ensure_operation_active deadline (AtReadStart path)) (\<lambda>_.
     attempt (map_err PackageIo (symlink_metadata fs path)) (\<lambda>metadata.
     attempt (enforce_file_size (node_length metadata) maximum (display_path path)) (\<lambda>_.
     attempt (map_err PackageIo (read_file fs path)) (\<lambda>source.
     attempt (read_loop HASH_BUFFER_LENGTH (\<lambda>k. ensure_operation_active deadline (AtReadChunk path k)) 0
                (saturating_add_u64 maximum 1) source []) (\<lambda>bytes.
       if length bytes > maximum
       then Inl (LimitExceededBy IndividualFileBytes maximum (length bytes)) else Inr bytes)))))"

definition validate_regular_file :: "node \<Rightarrow> path \<Rightarrow> package_validation_error + unit" where
  "validate_regular_file metadata relative_path =
     (case metadata of
        File _ mode nlink \<Rightarrow>
          if nlink > 1 then Inl (HardLinkedFile relative_path)
          else if and mode 73 \<noteq> 0 then Inl (ExecutableFile relative_path)
          else Inr ()
      | _ \<Rightarrow> Inl (InvalidEntryType relative_path))"

definition read_digest_file :: "fs \<Rightarrow> path \<Rightarrow> package_validation_error + package_digest" where
  "read_digest_file fs path =
     attempt (map_err PackageIo (read_file fs path)) (\<lambda>contents.
       let bytes = take (MAXIMUM_DIGEST_FILE_BYTES + 1) contents in
       if length bytes > MAXIMUM_DIGEST_FILE_BYTES then Inl InvalidStoredDigest
       else if \<not> is_utf8 bytes then Inl InvalidStoredDigest
       else (case strip_suffix_char lf bytes of
               None \<Rightarrow> Inl InvalidStoredDigest
             | Some value \<Rightarrow>
                 if lf \<in> set value then Inl InvalidStoredDigest
                 else map_err (\<lambda>_. InvalidStoredDigest)
                   (attempt (revision_from_str value) (\<lambda>r. Inr (PackageDigest r)))))"

definition read_acceptance_file ::
  "externals \<Rightarrow> fs \<Rightarrow> path \<Rightarrow> package_validation_error + acceptance_metadata" where
  "read_acceptance_file ex fs path =
     attempt (map_err PackageIo (symlink_metadata fs path)) (\<lambda>metadata.
     attempt (validate_regular_file metadata path) (\<lambda>_.
     attempt (read_limited_file_until fs path MAXIMUM_ACCEPTANCE_FILE_BYTES None) (\<lambda>bytes.
       map_err InvalidAcceptanceMetadata (ex_acceptance_from_json ex bytes))))"

section \<open>Package layout\<close>

definition check_root_entry ::
  "bool \<Rightarrow> deadline \<Rightarrow> nat \<times> string \<Rightarrow> string list \<Rightarrow> package_validation_error + string list" where
  "check_root_entry accepted deadline entry names =
     attempt (ensure_operation_active deadline (AtRootEntry (fst entry))) (\<lambda>_.
       let name = snd entry in
       if \<not> is_utf8 name then Inl InvalidLayout
       else if name \<noteq> REQUEST_FILE_NAME \<and> name \<noteq> PAYLOAD_DIRECTORY_NAME
          \<and> \<not> (accepted \<and> name = DIGEST_FILE_NAME)
          \<and> \<not> (accepted \<and> name = ACCEPTANCE_FILE_NAME)
          \<and> \<not> (accepted \<and> name = PHASE_FILE_NAME)
          \<and> \<not> (accepted \<and> name = RESULT_FILE_NAME)
         then Inl (UnexpectedTopLevelEntry name)
       else Inr (List.insert name names))"

definition check_regular :: "fs \<Rightarrow> string \<Rightarrow> package_validation_error + unit" where
  "check_regular fs name =
     attempt (map_err PackageIo (symlink_metadata fs [name])) (\<lambda>metadata.
       validate_regular_file metadata [name])"

definition validate_package_root ::
  "fs \<Rightarrow> bool \<Rightarrow> deadline \<Rightarrow> package_validation_error + unit" where
  "validate_package_root fs accepted deadline =
     attempt (ensure_operation_active deadline AtRoot) (\<lambda>_.
     attempt (map_err PackageIo (symlink_metadata fs [])) (\<lambda>root_metadata.
       if root_metadata \<noteq> Dir then Inl (InvalidEntryType [])
       else
     attempt (map_err PackageIo (read_dir fs [])) (\<lambda>entries.
     attempt (try_fold (check_root_entry accepted deadline) (List.enumerate 0 entries) []) (\<lambda>names.
       if REQUEST_FILE_NAME \<notin> set names then Inl (MissingTopLevelEntry REQUEST_FILE_NAME)
       else if PAYLOAD_DIRECTORY_NAME \<notin> set names
         then Inl (MissingTopLevelEntry PAYLOAD_DIRECTORY_NAME)
       else if accepted \<and> DIGEST_FILE_NAME \<notin> set names
         then Inl (MissingTopLevelEntry DIGEST_FILE_NAME)
       else if accepted \<and> ACCEPTANCE_FILE_NAME \<notin> set names
         then Inl (MissingTopLevelEntry ACCEPTANCE_FILE_NAME)
       else
     attempt (check_regular fs REQUEST_FILE_NAME) (\<lambda>_.
     attempt (map_err PackageIo (symlink_metadata fs [PAYLOAD_DIRECTORY_NAME])) (\<lambda>payload_metadata.
       if payload_metadata \<noteq> Dir then Inl (InvalidEntryType [PAYLOAD_DIRECTORY_NAME])
       else if accepted then
         attempt (check_regular fs DIGEST_FILE_NAME) (\<lambda>_.
         attempt (check_regular fs ACCEPTANCE_FILE_NAME) (\<lambda>_.
           try_each (\<lambda>sidecar. if sidecar \<in> set names then check_regular fs sidecar else Inr ())
             [PHASE_FILE_NAME, RESULT_FILE_NAME]))
       else Inr ()))))))"

section \<open>Payload scan\<close>

definition enforce_path_components ::
  "payload_path \<Rightarrow> package_limits \<Rightarrow> package_validation_error + unit" where
  "enforce_path_components path limits =
     (let actual = length (split_on (CHR ''/'') (payload_str path)) in
      if actual > pl_maximum_path_components limits
      then Inl (LimitExceededBy PathComponents (pl_maximum_path_components limits) actual)
      else Inr ())"

definition enforce_totals :: "nat \<Rightarrow> nat \<Rightarrow> package_limits \<Rightarrow> package_validation_error + unit" where
  "enforce_totals total_bytes file_count limits =
     (if total_bytes > pl_maximum_total_bytes limits
        then Inl (LimitExceededBy TotalBytes (pl_maximum_total_bytes limits) total_bytes)
      else if file_count > pl_maximum_file_count limits
        then Inl (LimitExceededBy FileCount (pl_maximum_file_count limits) file_count)
      else Inr ())"

definition enforce_entry_count :: "nat \<Rightarrow> package_limits \<Rightarrow> package_validation_error + unit" where
  "enforce_entry_count entry_count limits =
     (if entry_count > pl_maximum_entry_count limits
      then Inl (LimitExceededBy EntryCount (pl_maximum_entry_count limits) entry_count) else Inr ())"

record payload_scan =
  ps_directories :: "(path \<times> payload_path) list"
  ps_nonempty_directories :: "path list"
  ps_total_bytes :: nat
  ps_file_count :: nat
  ps_files :: "payload_metadata list"
  ps_stack :: "path list"

definition scan_payload_entry ::
  "fs \<Rightarrow> package_limits \<Rightarrow> deadline \<Rightarrow> path \<Rightarrow> string \<Rightarrow> payload_scan \<Rightarrow>
   package_validation_error + payload_scan" where
  "scan_payload_entry fs limits deadline current name s =
     (let entry_path = current @ [name];
          relative_path = drop 1 entry_path;
          relative = join_with (CHR ''/'') relative_path in
      attempt (ensure_operation_active deadline (AtEntry entry_path)) (\<lambda>_.
      attempt (map_err PackageIo (symlink_metadata fs entry_path)) (\<lambda>metadata.
        if \<not> is_utf8 relative then Inl InvalidLayout
        else
      attempt (map_err (\<lambda>_. InvalidPayloadPath relative) (payload_path_from_str relative)) (\<lambda>path.
      attempt (enforce_path_components path limits) (\<lambda>_.
        if metadata = Dir then
          let actual = length (ps_directories s) + 1 in
          if actual > u64_max
            then Inl (LimitExceededBy DirectoryCount (pl_maximum_directory_count limits) u64_max)
          else if actual > pl_maximum_directory_count limits
            then Inl (LimitExceededBy DirectoryCount (pl_maximum_directory_count limits) actual)
          else Inr (s\<lparr>ps_directories := ps_directories s @ [(relative_path, path)],
                       ps_stack := entry_path # ps_stack s\<rparr>)
        else
      attempt (validate_regular_file metadata (PAYLOAD_DIRECTORY_NAME # relative_path)) (\<lambda>_.
      attempt (enforce_file_size (node_length metadata) (pl_maximum_file_bytes limits)
                 (payload_str path)) (\<lambda>_.
      attempt (ok_or (LimitExceededBy TotalBytes (pl_maximum_total_bytes limits) u64_max)
                 (checked_add_u64 (ps_total_bytes s) (node_length metadata))) (\<lambda>total_bytes.
      attempt (ok_or (LimitExceededBy FileCount (pl_maximum_file_count limits) u64_max)
                 (checked_add_u64 (ps_file_count s) 1)) (\<lambda>file_count.
      attempt (enforce_totals total_bytes file_count limits) (\<lambda>_.
        Inr (s\<lparr>ps_total_bytes := total_bytes, ps_file_count := file_count,
               ps_nonempty_directories :=
                 ps_nonempty_directories s @ drop 1 (strict_prefixes relative_path),
               ps_files := ps_files s @
                 [\<lparr>pm_path = path, pm_byte_length = node_length metadata,
                   pm_revision = Revision (replicate 32 0)\<rparr>]\<rparr>)))))))))))"

text \<open>What one directory adds: at most one stack entry per directory entry.\<close>

lemma scan_payload_entry_stack:
  "scan_payload_entry fs limits deadline current name s = Inr t \<Longrightarrow>
     ps_stack t = ps_stack s \<or> ps_stack t = (current @ [name]) # ps_stack s"
  by (auto simp: scan_payload_entry_def Let_def attempt_Inr_iff split: if_splits)

lemma scan_payload_entries_stack:
  "try_fold (scan_payload_entry fs limits deadline current) names s = Inr t \<Longrightarrow>
     length (ps_stack t) \<le> length (ps_stack s) + length names"
proof (induction names arbitrary: s)
  case Nil
  then show ?case by simp
next
  case (Cons name names)
  then obtain u where "scan_payload_entry fs limits deadline current name s = Inr u"
    "try_fold (scan_payload_entry fs limits deadline current) names u = Inr t"
    by (auto simp: attempt_Inr_iff)
  with Cons.IH [of u] scan_payload_entry_stack [of fs limits deadline current name s u]
  show ?case by auto
qed

function scan_payload_loop ::
  "fs \<Rightarrow> package_limits \<Rightarrow> deadline \<Rightarrow> nat \<Rightarrow> payload_scan \<Rightarrow>
   package_validation_error + payload_scan" where
  "scan_payload_loop fs limits deadline entry_count s =
     (case ps_stack s of
        [] \<Rightarrow> Inr s
      | current # rest \<Rightarrow>
          attempt (ensure_operation_active deadline (AtDirectory current)) (\<lambda>_.
          attempt (map_err PackageIo (read_dir fs current)) (\<lambda>names.
            let remaining = pl_maximum_entry_count limits - entry_count;
                entries = take (saturating_add_u64 remaining 1) names in
            if length entries > remaining
            then Inl (LimitExceededBy EntryCount (pl_maximum_entry_count limits)
                   (saturating_add_u64 entry_count (length entries)))
            else attempt (try_fold (scan_payload_entry fs limits deadline current) (sort entries)
                            (s\<lparr>ps_stack := rest\<rparr>))
              (\<lambda>t. scan_payload_loop fs limits deadline (entry_count + length entries) t))))"
  by pat_completeness auto
termination
proof (relation "measure (\<lambda>(_, limits, _, entry_count, s).
    (pl_maximum_entry_count limits - entry_count) + length (ps_stack s))", goal_cases)
  case 1
  show ?case by simp
next
  case (2 fs limits deadline entry_count s current rest u names remaining entries t)
  then have "length (ps_stack t) \<le> length rest + length entries"
    using scan_payload_entries_stack [of fs limits deadline current "sort entries" "s\<lparr>ps_stack := rest\<rparr>" t]
    by simp
  moreover have "length entries \<le> pl_maximum_entry_count limits - entry_count"
    "length (ps_stack s) = Suc (length rest)"
    using 2(1,4,6) by simp_all
  ultimately show ?case by simp
qed

declare scan_payload_loop.simps [simp del]

definition scan_payload_directory ::
  "fs \<Rightarrow> package_limits \<Rightarrow> nat \<Rightarrow> nat \<Rightarrow> deadline \<Rightarrow>
   package_validation_error + payload_scan" where
  "scan_payload_directory fs limits total_bytes file_count deadline =
     attempt (scan_payload_loop fs limits deadline file_count
         \<lparr>ps_directories = [], ps_nonempty_directories = [], ps_total_bytes = total_bytes,
          ps_file_count = file_count, ps_files = [], ps_stack = [[PAYLOAD_DIRECTORY_NAME]]\<rparr>)
       (\<lambda>s. case find (\<lambda>(relative, _). relative \<notin> set (ps_nonempty_directories s))
               (sort_key fst (ps_directories s)) of
              Some (_, path) \<Rightarrow> Inl (EmptyPayloadDirectory path)
            | None \<Rightarrow> Inr s)"

section \<open>Payload references\<close>

definition require_payload ::
  "payload_path \<Rightarrow> (string \<times> nat) list \<Rightarrow> package_validation_error + unit" where
  "require_payload path available =
     (if map_of available (payload_str path) \<noteq> None then Inr () else Inl (MissingPayload path))"

definition operation_source ::
  "package_policy \<Rightarrow> (string \<times> nat) list \<Rightarrow> operation \<Rightarrow>
   package_validation_error + payload_path option" where
  "operation_source policy available op =
     (let markdown = (\<lambda>content.
            if path_extension (split_on (CHR ''/'') (payload_str content)) \<noteq> Some ''md''
            then Inl (MarkdownExtensionRequired content)
            else attempt (require_payload content available) (\<lambda>_. Inr (Some content))) in
      case op of
        CreateDocument _ content \<Rightarrow> markdown content
      | UpdateDocument _ _ content \<Rightarrow> markdown content
      | AddAttachment _ source name \<Rightarrow>
          if \<not> allows_attachment_name policy (attachment_str name)
          then Inl (UnsupportedAttachment (attachment_str name))
          else attempt (require_payload source available) (\<lambda>_. Inr (Some source))
      | MoveDocument _ _ _ _ \<Rightarrow> Inr None
      | ArchiveDocument _ _ \<Rightarrow> Inr None)"

text \<open>The running total of materialized bytes, and one step of the loop over operations; the
  state is the total with the referenced paths.\<close>

definition materialize :: "nat \<Rightarrow> nat \<Rightarrow> nat \<Rightarrow> package_validation_error + nat" where
  "materialize maximum additional current =
     attempt (ok_or (LimitExceededBy MaterializedBytes maximum u64_max)
                (checked_add_u64 current additional)) (\<lambda>next.
       if next > maximum then Inl (LimitExceededBy MaterializedBytes maximum next)
       else Inr next)"

definition reference_operation ::
  "package_policy \<Rightarrow> (string \<times> nat) list \<Rightarrow> deadline \<Rightarrow> nat \<times> operation \<Rightarrow>
   nat \<times> string list \<Rightarrow> package_validation_error + nat \<times> string list" where
  "reference_operation policy available deadline op acc =
     attempt (ensure_operation_active deadline (AtOperation (fst op))) (\<lambda>_.
     attempt (operation_source policy available (snd op)) (\<lambda>source.
       case source of
         None \<Rightarrow> Inr acc
       | Some path \<Rightarrow>
           (case map_of available (payload_str path) of
              None \<Rightarrow> Inl (MissingPayload path)
            | Some byte_length \<Rightarrow>
                attempt (materialize (pl_maximum_total_bytes (pp_limits policy)) byte_length (fst acc))
                  (\<lambda>bytes. Inr (bytes, List.insert (payload_str path) (snd acc))))))"

definition validate_payload_references ::
  "change_request \<Rightarrow> payload_metadata list \<Rightarrow> package_policy \<Rightarrow> deadline \<Rightarrow>
   package_validation_error + unit" where
  "validate_payload_references request payload policy deadline =
     (let available = map (\<lambda>file. (payload_str (pm_path file), pm_byte_length file)) payload in
      attempt (try_fold (reference_operation policy available deadline)
                 (List.enumerate 0 (cr_operations request)) (0, [])) (\<lambda>acc.
        case find (\<lambda>file. payload_str (pm_path file) \<notin> set (snd acc)) payload of
          Some unexpected \<Rightarrow> Inl (UnexpectedPayload (pm_path unexpected))
        | None \<Rightarrow> Inr ()))"

section \<open>Markdown documents (package/markdown.rs)\<close>

fun map_parse_error :: "payload_path \<Rightarrow> string document_parse_error \<Rightarrow> markdown_validation_error" where
  "map_parse_error path InvalidUtf8 = MarkdownInvalidUtf8 path"
| "map_parse_error path MissingOpeningDelimiter = MarkdownMissingOpeningDelimiter path"
| "map_parse_error path MissingClosingDelimiter = MarkdownMissingClosingDelimiter path"
| "map_parse_error path (FrontMatterTooLarge maximum actual) =
     MarkdownFrontMatterTooLarge path maximum actual"
| "map_parse_error path (InvalidYaml source) = MarkdownInvalidYaml path source"

definition validate_optional_request_metadata ::
  "payload_path \<Rightarrow> string \<Rightarrow> 'a option \<Rightarrow> 'a option \<Rightarrow> markdown_validation_error + unit" where
  "validate_optional_request_metadata path field document_value request_value =
     (if document_value \<noteq> None \<and> document_value \<noteq> request_value
      then Inl (RequestMetadataMismatch path field) else Inr ())"

text \<open>The payload files are read below \<open>payload/\<close> of the package.\<close>

definition payload_fs_path :: "string \<Rightarrow> path" where
  "payload_fs_path relative = PAYLOAD_DIRECTORY_NAME # split_on (CHR ''/'') relative"

definition parse_document ::
  "externals \<Rightarrow> fs \<Rightarrow> payload_path \<Rightarrow> change_request \<Rightarrow> document_limits \<Rightarrow> nat \<Rightarrow>
   markdown_validation_error + document_metadata" where
  "parse_document ex fs path request limits maximum_front_matter_bytes =
     attempt (map_err MarkdownIo (read_file fs (payload_fs_path (payload_str path)))) (\<lambda>bytes.
     attempt (map_err (map_parse_error path)
         (decode_document_metadata (ex_yaml_decode ex) bytes maximum_front_matter_bytes)) (\<lambda>metadata.
     attempt (map_err (MarkdownInvalidMetadata path)
         (validate_metadata metadata (cr_document_type request) limits)) (\<lambda>_.
       if md_request_id metadata \<noteq> cr_request_id request
       then Inl (RequestIdMismatch path (cr_request_id request) (md_request_id metadata))
       else
     attempt (validate_optional_request_metadata path ''node'' (md_node metadata)
         (cr_node request)) (\<lambda>_.
     attempt (validate_optional_request_metadata path ''agent'' (md_agent metadata)
         (cr_agent request)) (\<lambda>_.
     attempt (validate_optional_request_metadata path ''session'' (md_session metadata)
         (cr_session request)) (\<lambda>_.
       Inr metadata))))))"

definition validate_operation_metadata ::
  "document_metadata \<Rightarrow> payload_path \<Rightarrow> document_id \<Rightarrow> bool \<Rightarrow>
   markdown_validation_error + unit" where
  "validate_operation_metadata metadata path expected_document_id updated_required =
     (if md_document_id metadata \<noteq> expected_document_id
        then Inl (DocumentIdMismatch path expected_document_id (md_document_id metadata))
      else if updated_required \<and> md_updated metadata = None
        then Inl (MissingUpdatedTimestamp path)
      else Inr ())"

definition validate_document_operation ::
  "externals \<Rightarrow> fs \<Rightarrow> change_request \<Rightarrow> document_limits \<Rightarrow> nat \<Rightarrow> operation \<Rightarrow>
   (payload_path \<times> document_metadata) list \<Rightarrow>
   markdown_validation_error + (payload_path \<times> document_metadata) list" where
  "validate_document_operation ex fs request limits maximum op documents =
     (let check = (\<lambda>document_id content updated_required.
            attempt (case map_of documents content of
                       Some metadata \<Rightarrow> Inr metadata
                     | None \<Rightarrow> parse_document ex fs content request limits maximum) (\<lambda>metadata.
            attempt (validate_operation_metadata metadata content document_id updated_required)
              (\<lambda>_. Inr (AList.update content metadata documents)))) in
      case op of
        CreateDocument document_id content \<Rightarrow> check document_id content False
      | UpdateDocument document_id _ content \<Rightarrow> check document_id content True
      | _ \<Rightarrow> Inr documents)"

definition validate_documents ::
  "externals \<Rightarrow> fs \<Rightarrow> change_request \<Rightarrow> document_limits \<Rightarrow> nat \<Rightarrow>
   markdown_validation_error + unit" where
  "validate_documents ex fs request limits maximum_front_matter_bytes =
     attempt (try_fold
         (validate_document_operation ex fs request limits maximum_front_matter_bytes)
         (cr_operations request) []) (\<lambda>_. Inr ())"

section \<open>Digest\<close>

text \<open>\<open>u64::to_be_bytes\<close>; the hasher is the bytes fed to it so far.\<close>

definition to_be_bytes :: "nat \<Rightarrow> string" where
  "to_be_bytes n = map (\<lambda>i. char_of (n div 256 ^ (7 - i) mod 256)) [0..<8]"

definition hash_length_prefixed :: "string \<Rightarrow> string \<Rightarrow> string" where
  "hash_length_prefixed hasher bytes = hasher @ to_be_bytes (length bytes) @ bytes"

definition hash_bytes :: "string \<Rightarrow> string \<Rightarrow> string \<Rightarrow> string" where
  "hash_bytes hasher label bytes = hash_length_prefixed (hash_length_prefixed hasher label) bytes"

definition digest_file ::
  "externals \<Rightarrow> fs \<Rightarrow> deadline \<Rightarrow> nat \<times> payload_metadata \<Rightarrow> string \<times> payload_metadata list \<Rightarrow>
   package_validation_error + string \<times> payload_metadata list" where
  "digest_file ex fs deadline entry acc =
     (let index = fst entry; file = snd entry;
          hasher = hash_length_prefixed (fst acc) (payload_str (pm_path file))
                     @ to_be_bytes (pm_byte_length file) in
      attempt (ensure_operation_active deadline (AtDigestFile index)) (\<lambda>_.
      attempt (map_err PackageIo (read_file fs (payload_fs_path (payload_str (pm_path file)))))
        (\<lambda>source.
      attempt (read_loop HASH_BUFFER_LENGTH (\<lambda>k. ensure_operation_active deadline (AtDigestChunk index k)) 0
                 (pm_byte_length file + 1) source []) (\<lambda>bytes.
        if length bytes > pm_byte_length file \<or> length bytes \<noteq> pm_byte_length file
        then Inl (FileChangedDuringValidation (pm_path file))
        else Inr (hasher @ bytes,
                  snd acc @ [file\<lparr>pm_revision := revision_of ex bytes\<rparr>])))))"

definition calculate_digest ::
  "externals \<Rightarrow> string \<Rightarrow> fs \<Rightarrow> payload_metadata list \<Rightarrow> deadline \<Rightarrow>
   package_validation_error + package_digest \<times> payload_metadata list" where
  "calculate_digest ex canonical_request fs payload deadline =
     attempt (ensure_operation_active deadline AtDigest) (\<lambda>_.
       let hasher = hash_bytes DIGEST_DOMAIN ''request'' canonical_request
                      @ to_be_bytes (length payload) in
       attempt (try_fold (digest_file ex fs deadline) (List.enumerate 0 payload) (hasher, []))
         (\<lambda>acc. Inr (PackageDigest (revision_of ex (fst acc)), snd acc)))"

section \<open>Whole packages\<close>

definition validate_package_contents ::
  "externals \<Rightarrow> fs \<Rightarrow> package_policy \<Rightarrow> deadline \<Rightarrow>
   package_validation_error + validated_package" where
  "validate_package_contents ex fs policy deadline =
     (let limits = pp_limits policy in
      attempt (ensure_operation_active deadline AtContents) (\<lambda>_.
      attempt (read_limited_file_until fs [REQUEST_FILE_NAME] (pl_maximum_file_bytes limits)
                 deadline) (\<lambda>request_bytes.
      attempt (enforce_totals (length request_bytes) 1 limits) (\<lambda>_.
      attempt (enforce_entry_count 1 limits) (\<lambda>_.
      attempt (map_err InvalidRequestJson (decode_json (ex_request_from_json ex) request_bytes))
        (\<lambda>request.
      attempt (map_err InvalidRequestMetadata (validate_request request (pl_request limits))) (\<lambda>_.
      attempt (scan_payload_directory fs limits (length request_bytes) 1 deadline) (\<lambda>scan.
        let payload_files = sort_key (\<lambda>f. payload_str (pm_path f)) (ps_files scan) in
      attempt (validate_payload_references request payload_files policy deadline) (\<lambda>_.
      attempt (ensure_operation_active deadline AtDocuments) (\<lambda>_.
      attempt (map_err InvalidFrontMatterIn (validate_documents ex fs request
                 (pl_document limits) (pl_maximum_front_matter_bytes limits))) (\<lambda>_.
      attempt (map_err CanonicalRequestJson (ex_request_to_json ex request)) (\<lambda>canonical_request.
      attempt (calculate_digest ex canonical_request fs payload_files deadline) (\<lambda>(digest, payload).
        Inr \<lparr>vp_request = request, vp_digest = digest, vp_payload = payload,
             vp_acceptance = None\<rparr>)))))))))))))"

definition validate_package_until ::
  "externals \<Rightarrow> fs \<Rightarrow> package_policy \<Rightarrow> deadline \<Rightarrow>
   package_validation_error + validated_package" where
  "validate_package_until ex fs policy deadline =
     attempt (validate_package_root fs False deadline) (\<lambda>_.
       validate_package_contents ex fs policy deadline)"

definition validate_accepted_package ::
  "externals \<Rightarrow> fs \<Rightarrow> package_policy \<Rightarrow> package_validation_error + validated_package" where
  "validate_accepted_package ex fs policy =
     attempt (validate_package_root fs True None) (\<lambda>_.
     attempt (read_digest_file fs [DIGEST_FILE_NAME]) (\<lambda>stored_digest.
     attempt (read_acceptance_file ex fs [ACCEPTANCE_FILE_NAME]) (\<lambda>acceptance.
     attempt (validate_package_contents ex fs policy None) (\<lambda>package.
       if stored_digest \<noteq> vp_digest package
       then Inl (StoredDigestMismatch stored_digest (vp_digest package))
       else Inr (package\<lparr>vp_acceptance := Some acceptance\<rparr>)))))"

end
