(* ===== verification/Content_Index.thy ===== *)
theory Content_Index
  imports Package_Validation
begin

text \<open>
  \<open>crates/repository/src/index.rs\<close>: the canonical layout of a content tree and the
  identity index built from it. A content tree is a tree whose root is the content root. The
  clock is a parameter: \<open>now\<close> gives the reading at each point where the source asks for
  the time, so one value of it stands for any passage of time. Document identifiers are printed
  by the external \<open>ex_ulid_show\<close>.
\<close>

section \<open>Policy, records and errors\<close>

record content_policy =
  cp_maximum_entry_count :: nat
  cp_maximum_markdown_bytes :: nat
  cp_maximum_total_markdown_bytes :: nat
  cp_maximum_front_matter_bytes :: nat
  cp_document :: document_limits
  cp_scan_deadline :: "nat option"

definition default_content_policy :: content_policy where
  "default_content_policy =
     \<lparr>cp_maximum_entry_count = 1000000, cp_maximum_markdown_bytes = 32 * 1024 * 1024,
      cp_maximum_total_markdown_bytes = 8 * 1024 * 1024 * 1024,
      cp_maximum_front_matter_bytes = 64 * 1024, cp_document = default_document_limits,
      cp_scan_deadline = None\<rparr>"

record document_location =
  loc_document_type :: document_type
  loc_project :: "project_id option"
  loc_archived :: bool

record document_record =
  dr_relative_path :: path
  dr_location :: document_location
  dr_metadata :: document_metadata
  dr_revision :: revision
  dr_byte_length :: nat

record attachment_record =
  ar_relative_path :: path
  ar_byte_length :: nat

record content_index =
  ci_documents :: "(document_id \<times> document_record) list"
  ci_attachments :: "attachment_record list"

datatype revision_check_error =
    RevisionCheckNotFound document_id
  | RevisionCheckConflict document_id revision revision

datatype content_index_error =
    IndexIo io_error
  | IndexInvalidRoot
  | IndexPathEscapedRoot
  | IndexInvalidPathEncoding path
  | IndexInvalidDocumentPath path
  | IndexInvalidEntryType path
  | IndexExecutableFile path
  | IndexHardLinkedFile path
  | IndexUnsupportedAttachment path
  | IndexInvalidAttachmentPath path
  | IndexAttachmentTooLarge path nat nat
  | IndexOrphanAttachment path
  | IndexArchiveStatusMismatch path
  | IndexEntryLimitExceeded nat
  | IndexMarkdownTooLarge path nat nat
  | IndexMarkdownByteLimitExceeded nat
  | IndexScanDeadlineExceeded
  | IndexFileChangedDuringScan path
  | IndexInvalidDocument path "string document_parse_error"
  | IndexInvalidMetadata path document_validation_error
  | IndexDuplicateDocumentId document_id path path

section \<open>Canonical paths\<close>

fun category_name :: "document_type \<Rightarrow> string" where
  "category_name Index = []"
| "category_name Log = ''logs''"
| "category_name Experiment = ''experiments''"
| "category_name Decision = ''decisions''"
| "category_name Runbook = ''runbooks''"
| "category_name Reference = ''references''"

definition parse_category :: "string \<Rightarrow> document_type option" where
  "parse_category category =
     (if category = ''logs'' then Some Log
      else if category = ''experiments'' then Some Experiment
      else if category = ''decisions'' then Some Decision
      else if category = ''runbooks'' then Some Runbook
      else if category = ''references'' then Some Reference
      else None)"

definition bundle_name :: "externals \<Rightarrow> document_type \<Rightarrow> document_metadata \<Rightarrow> string" where
  "bundle_name ex document_type metadata =
     (let created = md_created metadata;
          id = ex_ulid_show ex (document_ulid (md_document_id metadata)) in
      if document_type = Log
      then format_02 (dt_hour created) @ format_02 (dt_minute created)
             @ format_02 (dt_second created) @ ''-'' @ id
      else format_04 (dt_year created) @ ''-'' @ format_02 (dt_month created) @ ''-''
             @ format_02 (dt_day created) @ ''-'' @ id)"

definition canonical_document_path ::
  "externals \<Rightarrow> document_location \<Rightarrow> document_metadata \<Rightarrow> path" where
  "canonical_document_path ex location metadata =
     (if loc_document_type location = Index then
        (case loc_project location of
           None \<Rightarrow> [''index.md'']
         | Some project \<Rightarrow> [''projects'', project_str project, ''index.md''])
      else
        let category = category_name (loc_document_type location);
            bundle = bundle_name ex (loc_document_type location) metadata;
            created = md_created metadata in
        if loc_archived location then
          (case loc_project location of
             Some project \<Rightarrow>
               [''projects'', project_str project, ''archive'', category, bundle, ''index.md'']
           | None \<Rightarrow> [''archive'', category, bundle, ''index.md''])
        else
          (case loc_project location of
             None \<Rightarrow> [''inbox'', category]
           | Some project \<Rightarrow> [''projects'', project_str project, category])
          @ (if loc_document_type location = Log
             then [format_04 (dt_year created), format_02 (dt_month created),
                   format_02 (dt_day created)] else [])
          @ [bundle, ''index.md''])"

text \<open>The slice patterns of the source bind the first components, a non-empty rest and a last
  component; they are written here as conditions on the length and the positions.\<close>

definition located ::
  "content_index_error \<Rightarrow> string \<Rightarrow> string option \<Rightarrow> bool \<Rightarrow> content_index_error + document_location" where
  "located invalid category project archived =
     attempt (ok_or invalid (parse_category category)) (\<lambda>document_type.
     attempt (case project of
                None \<Rightarrow> Inr None
              | Some p \<Rightarrow> attempt (map_err (\<lambda>_. invalid) (project_id_from_str p)) (\<lambda>q. Inr (Some q)))
       (\<lambda>project. Inr \<lparr>loc_document_type = document_type, loc_project = project,
                       loc_archived = archived\<rparr>))"

definition classify_components ::
  "content_index_error \<Rightarrow> path \<Rightarrow> content_index_error + document_location" where
  "classify_components invalid components =
     (if components = [''index.md'']
      then Inr \<lparr>loc_document_type = Index, loc_project = None, loc_archived = False\<rparr>
      else if length components = 3 \<and> components ! 0 = ''projects'' \<and> last components = ''index.md''
      then attempt (map_err (\<lambda>_. invalid) (project_id_from_str (components ! 1))) (\<lambda>project.
             Inr \<lparr>loc_document_type = Index, loc_project = Some project, loc_archived = False\<rparr>)
      else if length components > 5 \<and> components ! 0 = ''projects'' \<and> components ! 2 = ''archive''
         \<and> last components = ''index.md''
      then located invalid (components ! 3) (Some (components ! 1)) True
      else if length components > 4 \<and> components ! 0 = ''projects'' \<and> last components = ''index.md''
      then located invalid (components ! 2) (Some (components ! 1)) False
      else if length components > 3 \<and> components ! 0 = ''inbox'' \<and> last components = ''index.md''
      then located invalid (components ! 1) None False
      else if length components > 3 \<and> components ! 0 = ''archive'' \<and> last components = ''index.md''
      then located invalid (components ! 1) None True
      else Inl invalid)"

definition classify_document_path :: "path \<Rightarrow> content_index_error + document_location" where
  "classify_document_path path =
     attempt (try_map (\<lambda>component. if is_utf8 component then Inr component
                        else Inl (IndexInvalidPathEncoding path)) path)
       (classify_components (IndexInvalidDocumentPath path))"

definition validate_canonical_document_path ::
  "externals \<Rightarrow> path \<Rightarrow> document_location \<Rightarrow> document_metadata \<Rightarrow> content_index_error + unit" where
  "validate_canonical_document_path ex path location metadata =
     (if path \<noteq> canonical_document_path ex location metadata
      then Inl (IndexInvalidDocumentPath path) else Inr ())"

definition from_markdown ::
  "externals \<Rightarrow> path \<Rightarrow> string \<Rightarrow> content_policy \<Rightarrow> content_index_error + document_record" where
  "from_markdown ex relative_path bytes policy =
     attempt (map_err (IndexInvalidDocument relative_path)
       (decode_document_metadata (ex_yaml_decode ex) bytes (cp_maximum_front_matter_bytes policy)))
       (\<lambda>document.
     attempt (classify_document_path relative_path) (\<lambda>location.
     attempt (validate_canonical_document_path ex relative_path location document) (\<lambda>_.
       if loc_archived location \<noteq> (md_status document = Archived)
       then Inl (IndexArchiveStatusMismatch relative_path)
       else
     attempt (map_err (IndexInvalidMetadata relative_path)
         (validate_metadata document (loc_document_type location) (cp_document policy))) (\<lambda>_.
       Inr \<lparr>dr_relative_path = relative_path, dr_location = location, dr_metadata = document,
            dr_revision = revision_of ex bytes, dr_byte_length = length bytes\<rparr>))))"

section \<open>Attachments\<close>

definition is_project_asset :: "path \<Rightarrow> package_policy \<Rightarrow> bool" where
  "is_project_asset path package_policy =
     (case filter is_utf8 path of
        a # project # b # rest \<Rightarrow>
          a = ''projects'' \<and> b = ''assets'' \<and>
          rest \<noteq> [] \<and> length rest \<le> pl_maximum_path_components (pp_limits package_policy) \<and>
          is_ok (project_id_from_str project) \<and>
          list_all (\<lambda>component. is_ok (attachment_name_from_str component)) rest \<and>
          is_ok (payload_path_from_str (join_with (CHR ''/'') rest))
      | _ \<Rightarrow> False)"

definition validate_attachment_locations ::
  "attachment_record list \<Rightarrow> (document_id \<times> document_record) list \<Rightarrow> package_policy \<Rightarrow>
   content_index_error + unit" where
  "validate_attachment_locations attachments documents package_policy =
     (let document_directories =
            List.map_filter (\<lambda>(_, document). parent (dr_relative_path document)) documents in
      try_each (\<lambda>attachment.
        let path = ar_relative_path attachment;
            beside_document = (case parent path of
               None \<Rightarrow> False | Some directory \<Rightarrow> directory \<in> set document_directories);
            valid_name = (case file_name path of
               None \<Rightarrow> False
             | Some name \<Rightarrow> is_utf8 name \<and> is_ok (attachment_name_from_str name)) in
        if \<not> valid_name then Inl (IndexInvalidAttachmentPath path)
        else if \<not> beside_document \<and> \<not> is_project_asset path package_policy
          then Inl (IndexOrphanAttachment path)
        else Inr ()) attachments)"

definition validate_regular_file_metadata :: "path \<Rightarrow> nat \<Rightarrow> nat \<Rightarrow> content_index_error + unit" where
  "validate_regular_file_metadata path mode nlink =
     (if and mode 73 \<noteq> 0 then Inl (IndexExecutableFile path)
      else if nlink > 1 then Inl (IndexHardLinkedFile path)
      else Inr ())"

section \<open>The scan\<close>

datatype scan_point =
    ScanDirectory path | ScanListing path nat | ScanEntry path | ScanChunk path nat
  | ScanReadEnd path | ScanAfterRead path | ScanEnd

definition check_scan_deadline ::
  "(scan_point \<Rightarrow> nat) \<Rightarrow> nat option \<Rightarrow> scan_point \<Rightarrow> content_index_error + unit" where
  "check_scan_deadline now deadline at =
     (case deadline of
        None \<Rightarrow> Inr ()
      | Some d \<Rightarrow> if now at \<ge> d then Inl IndexScanDeadlineExceeded else Inr ())"

definition read_bounded_file ::
  "(scan_point \<Rightarrow> nat) \<Rightarrow> fs \<Rightarrow> path \<Rightarrow> nat \<Rightarrow> nat option \<Rightarrow> content_index_error + string" where
  "read_bounded_file now fs path maximum deadline =
     attempt (map_err IndexIo (read_file fs path)) (\<lambda>source.
     attempt (read_loop (64 * 1024) (\<lambda>k. check_scan_deadline now deadline (ScanChunk path k)) 0
                (saturating_add_u64 maximum 1) source []) (\<lambda>bytes.
     attempt (check_scan_deadline now deadline (ScanReadEnd path)) (\<lambda>_. Inr bytes)))"

fun collect_entries ::
  "(nat \<Rightarrow> content_index_error + unit) \<Rightarrow> path \<Rightarrow> nat \<Rightarrow> nat \<Rightarrow> string list \<Rightarrow> string list \<Rightarrow>
   content_index_error + string list" where
  "collect_entries check directory remaining k [] entries = Inr entries"
| "collect_entries check directory remaining k (name # names) entries =
     attempt (check k) (\<lambda>_.
       if directory = [] \<and> name = ''.git''
       then collect_entries check directory remaining (k + 1) names entries
       else if length (entries @ [name]) > remaining then Inr (entries @ [name])
       else collect_entries check directory remaining (k + 1) names (entries @ [name]))"

record index_scan =
  is_documents :: "(document_id \<times> document_record) list"
  is_attachments :: "attachment_record list"
  is_entry_count :: nat
  is_markdown_bytes :: nat
  is_child_directories :: "path list"

definition index_markdown ::
  "externals \<Rightarrow> (scan_point \<Rightarrow> nat) \<Rightarrow> fs \<Rightarrow> content_policy \<Rightarrow> path \<Rightarrow> nat \<Rightarrow> index_scan \<Rightarrow>
   content_index_error + index_scan" where
  "index_markdown ex now fs policy path len s =
     (if len > cp_maximum_markdown_bytes policy
      then Inl (IndexMarkdownTooLarge path (cp_maximum_markdown_bytes policy) len)
      else
        let remaining_total = cp_maximum_total_markdown_bytes policy - is_markdown_bytes s;
            read_limit = min (cp_maximum_markdown_bytes policy) remaining_total;
            too_much = IndexMarkdownByteLimitExceeded (cp_maximum_total_markdown_bytes policy) in
        if len > remaining_total then Inl too_much
        else
      attempt (read_bounded_file now fs path read_limit (cp_scan_deadline policy)) (\<lambda>bytes.
      attempt (check_scan_deadline now (cp_scan_deadline policy) (ScanAfterRead path)) (\<lambda>_.
        if length bytes > read_limit then
          Inl (if read_limit = remaining_total then too_much
               else IndexMarkdownTooLarge path (cp_maximum_markdown_bytes policy) (length bytes))
        else if length bytes \<noteq> len then Inl (IndexFileChangedDuringScan path)
        else
      attempt (ok_or too_much (checked_add_u64 (is_markdown_bytes s) (length bytes))) (\<lambda>total_bytes.
      attempt (from_markdown ex path bytes policy) (\<lambda>record.
        let document_id = md_document_id (dr_metadata record) in
        case map_of (is_documents s) document_id of
          Some existing \<Rightarrow>
            Inl (IndexDuplicateDocumentId document_id (dr_relative_path existing) path)
        | None \<Rightarrow>
            Inr (s\<lparr>is_markdown_bytes := total_bytes,
                   is_documents := AList.update document_id record (is_documents s)\<rparr>))))))"

definition index_entry ::
  "externals \<Rightarrow> (scan_point \<Rightarrow> nat) \<Rightarrow> fs \<Rightarrow> content_policy \<Rightarrow> package_policy \<Rightarrow> path \<Rightarrow> string \<Rightarrow>
   index_scan \<Rightarrow> content_index_error + index_scan" where
  "index_entry ex now fs policy package_policy directory name s =
     (let path = directory @ [name];
          too_many = IndexEntryLimitExceeded (cp_maximum_entry_count policy) in
      attempt (check_scan_deadline now (cp_scan_deadline policy) (ScanEntry path)) (\<lambda>_.
      attempt (ok_or too_many (checked_add_u64 (is_entry_count s) 1)) (\<lambda>entry_count.
        if entry_count > cp_maximum_entry_count policy then Inl too_many
        else if \<not> is_utf8 (display_path path) then Inl (IndexInvalidPathEncoding path)
        else
      attempt (map_err IndexIo (symlink_metadata fs path)) (\<lambda>metadata.
        let counted = s\<lparr>is_entry_count := entry_count\<rparr> in
        case metadata of
          Dir \<Rightarrow> Inr (counted\<lparr>is_child_directories := is_child_directories s @ [path]\<rparr>)
        | OtherNode \<Rightarrow> Inl (IndexInvalidEntryType path)
        | File bytes mode nlink \<Rightarrow>
            attempt (validate_regular_file_metadata path mode nlink) (\<lambda>_.
              if path_extension path \<noteq> Some ''md'' then
                let maximum = pl_maximum_file_bytes (pp_limits package_policy) in
                if length bytes > maximum
                  then Inl (IndexAttachmentTooLarge path maximum (length bytes))
                else if \<not> is_utf8 name then Inl (IndexInvalidPathEncoding path)
                else if \<not> allows_attachment_name package_policy name
                  then Inl (IndexUnsupportedAttachment path)
                else Inr (counted\<lparr>is_attachments := is_attachments s @
                       [\<lparr>ar_relative_path = path, ar_byte_length = length bytes\<rparr>]\<rparr>)
              else index_markdown ex now fs policy path (length bytes) counted)))))"

text \<open>One entry raises the count by one, within the limit, and adds at most one directory.\<close>

lemma index_markdown_Inr:
  assumes "index_markdown ex now fs policy path len s = Inr t"
  obtains bytes entry where
    "len \<le> cp_maximum_markdown_bytes policy"
    "is_markdown_bytes s + length bytes \<le> max (cp_maximum_total_markdown_bytes policy) (is_markdown_bytes s)"
    "read_bounded_file now fs path (min (cp_maximum_markdown_bytes policy)
       (cp_maximum_total_markdown_bytes policy - is_markdown_bytes s)) (cp_scan_deadline policy) = Inr bytes"
    "length bytes = len" "from_markdown ex path bytes policy = Inr entry"
    "map_of (is_documents s) (md_document_id (dr_metadata entry)) = None"
    "t = s\<lparr>is_markdown_bytes := is_markdown_bytes s + length bytes,
       is_documents := AList.update (md_document_id (dr_metadata entry)) entry (is_documents s)\<rparr>"
proof -
  note run = assms [unfolded index_markdown_def Let_def if_Inl_eq_Inr attempt_Inr_iff]
  then obtain bytes entry where
    r: "\<not> len > cp_maximum_markdown_bytes policy"
      "\<not> len > cp_maximum_total_markdown_bytes policy - is_markdown_bytes s"
      "read_bounded_file now fs path (min (cp_maximum_markdown_bytes policy)
         (cp_maximum_total_markdown_bytes policy - is_markdown_bytes s)) (cp_scan_deadline policy) = Inr bytes"
      "\<not> length bytes \<noteq> len" "from_markdown ex path bytes policy = Inr entry"
      "(case map_of (is_documents s) (md_document_id (dr_metadata entry)) of
          Some existing \<Rightarrow> Inl (IndexDuplicateDocumentId (md_document_id (dr_metadata entry))
            (dr_relative_path existing) path)
        | None \<Rightarrow> Inr (s\<lparr>is_markdown_bytes := is_markdown_bytes s + length bytes,
            is_documents := AList.update (md_document_id (dr_metadata entry)) entry (is_documents s)\<rparr>))
        = Inr t"
    by auto
  then show thesis
    by (intro that [of bytes entry]) (auto split: option.splits)
qed

lemma index_entry_Inr:
  assumes "index_entry ex now fs policy package_policy directory name s = Inr t"
  obtains
    (directory) "symlink_metadata fs (directory @ [name]) = Inr Dir"
      "is_entry_count s + 1 \<le> cp_maximum_entry_count policy"
      "t = s\<lparr>is_entry_count := is_entry_count s + 1,
             is_child_directories := is_child_directories s @ [directory @ [name]]\<rparr>"
  | (attachment) bytes mode nlink where
      "symlink_metadata fs (directory @ [name]) = Inr (File bytes mode nlink)"
      "validate_regular_file_metadata (directory @ [name]) mode nlink = Inr ()"
      "path_extension (directory @ [name]) \<noteq> Some ''md''"
      "length bytes \<le> pl_maximum_file_bytes (pp_limits package_policy)"
      "allows_attachment_name package_policy name"
      "is_entry_count s + 1 \<le> cp_maximum_entry_count policy"
      "t = s\<lparr>is_entry_count := is_entry_count s + 1,
             is_attachments := is_attachments s @
               [\<lparr>ar_relative_path = directory @ [name], ar_byte_length = length bytes\<rparr>]\<rparr>"
  | (markdown) bytes mode nlink where
      "symlink_metadata fs (directory @ [name]) = Inr (File bytes mode nlink)"
      "validate_regular_file_metadata (directory @ [name]) mode nlink = Inr ()"
      "path_extension (directory @ [name]) = Some ''md''"
      "is_entry_count s + 1 \<le> cp_maximum_entry_count policy"
      "index_markdown ex now fs policy (directory @ [name]) (length bytes)
         (s\<lparr>is_entry_count := is_entry_count s + 1\<rparr>) = Inr t"
proof -
  note run = assms [unfolded index_entry_def Let_def if_Inl_eq_Inr attempt_Inr_iff map_err_Inr_iff
      ok_or_Inr_iff checked_add_u64_Some_iff]
  then obtain metadata where
    m: "symlink_metadata fs (directory @ [name]) = Inr metadata"
      "is_entry_count s + 1 \<le> cp_maximum_entry_count policy" by auto
  show thesis
  proof (cases metadata)
    case Dir
    with run m that(1) show thesis by auto
  next
    case (File bytes mode nlink)
    with run m have "validate_regular_file_metadata (directory @ [name]) mode nlink = Inr ()"
      by (auto simp: attempt_Inr_iff)
    with run m File that(2,3) show thesis
      by (cases "path_extension (directory @ [name]) = Some ''md''")
        (auto simp: if_Inl_eq_Inr not_less)
  next
    case OtherNode
    with run m show thesis by auto
  qed
qed

lemma index_entry_counts:
  assumes "index_entry ex now fs policy package_policy directory name s = Inr t"
  shows "is_entry_count t = is_entry_count s + 1"
    and "is_entry_count t \<le> cp_maximum_entry_count policy"
    and "length (is_child_directories t) \<le> length (is_child_directories s) + 1"
  using assms by (auto elim!: index_entry_Inr index_markdown_Inr)

lemma index_entries_counts:
  "try_fold (index_entry ex now fs policy package_policy directory) names s = Inr t \<Longrightarrow>
     is_entry_count t = is_entry_count s + length names \<and>
     (names = [] \<or> is_entry_count t \<le> cp_maximum_entry_count policy) \<and>
     length (is_child_directories t) \<le> length (is_child_directories s) + length names"
proof (induction names arbitrary: s)
  case Nil
  then show ?case by simp
next
  case (Cons name names)
  then obtain u where u: "index_entry ex now fs policy package_policy directory name s = Inr u"
    "try_fold (index_entry ex now fs policy package_policy directory) names u = Inr t"
    by (auto simp: attempt_Inr_iff)
  from Cons.IH [OF u(2)] index_entry_counts [OF u(1)] show ?case by auto
qed

function index_loop ::
  "externals \<Rightarrow> (scan_point \<Rightarrow> nat) \<Rightarrow> fs \<Rightarrow> content_policy \<Rightarrow> package_policy \<Rightarrow> path list \<Rightarrow>
   index_scan \<Rightarrow> content_index_error + index_scan" where
  "index_loop ex now fs policy package_policy pending s =
     (case pending of
        [] \<Rightarrow> Inr s
      | directory # rest \<Rightarrow>
          attempt (check_scan_deadline now (cp_scan_deadline policy) (ScanDirectory directory)) (\<lambda>_.
          attempt (map_err IndexIo (read_dir fs directory)) (\<lambda>names.
          attempt (collect_entries
              (\<lambda>k. check_scan_deadline now (cp_scan_deadline policy) (ScanListing directory k))
              directory (cp_maximum_entry_count policy - is_entry_count s) 0 names []) (\<lambda>entries.
            if length entries > cp_maximum_entry_count policy - is_entry_count s
            then Inl (IndexEntryLimitExceeded (cp_maximum_entry_count policy))
            else attempt (try_fold (index_entry ex now fs policy package_policy directory)
                            (sort entries) (s\<lparr>is_child_directories := []\<rparr>))
              (\<lambda>t. index_loop ex now fs policy package_policy (is_child_directories t @ rest) t)))))"
  by pat_completeness auto
termination
proof (relation "measure (\<lambda>(_, _, _, policy, _, pending, s).
    (cp_maximum_entry_count policy - is_entry_count s) + length pending)", goal_cases)
  case 1
  show ?case by simp
next
  case (2 ex now fs policy package_policy pending s directory rest u names entries t)
  then have "is_entry_count t = is_entry_count s + length entries"
    "entries = [] \<or> is_entry_count t \<le> cp_maximum_entry_count policy"
    "length (is_child_directories t) \<le> length entries"
    using index_entries_counts [of ex now fs policy package_policy directory "sort entries"
        "s\<lparr>is_child_directories := []\<rparr>" t]
    by (auto simp flip: length_0_conv)
  then show ?case using 2(1) by auto
qed

declare index_loop.simps [simp del]

definition build_validated ::
  "externals \<Rightarrow> (scan_point \<Rightarrow> nat) \<Rightarrow> fs \<Rightarrow> content_policy \<Rightarrow> package_policy \<Rightarrow>
   content_index_error + content_index" where
  "build_validated ex now fs policy package_policy =
     attempt (index_loop ex now fs policy package_policy [[]]
         \<lparr>is_documents = [], is_attachments = [], is_entry_count = 0, is_markdown_bytes = 0,
          is_child_directories = []\<rparr>) (\<lambda>s.
     attempt (validate_attachment_locations (is_attachments s) (is_documents s) package_policy) (\<lambda>_.
     attempt (check_scan_deadline now (cp_scan_deadline policy) ScanEnd) (\<lambda>_.
       Inr \<lparr>ci_documents = is_documents s, ci_attachments = is_attachments s\<rparr>)))"

definition build ::
  "externals \<Rightarrow> (scan_point \<Rightarrow> nat) \<Rightarrow> fs \<Rightarrow> content_policy \<Rightarrow> package_policy \<Rightarrow>
   content_index_error + content_index" where
  "build ex now fs policy package_policy =
     attempt (map_err IndexIo (symlink_metadata fs [])) (\<lambda>root_metadata.
       if root_metadata \<noteq> Dir then Inl IndexInvalidRoot
       else build_validated ex now fs policy package_policy)"

text \<open>What \<open>fs::metadata\<close> reports of a directory that is identified by its inode; the
  two readings are arguments, since the path and the descriptor may name different objects.\<close>

record inode_metadata =
  im_is_dir :: bool
  im_dev :: nat
  im_ino :: nat

definition same_root_identity :: "inode_metadata \<Rightarrow> inode_metadata \<Rightarrow> bool" where
  "same_root_identity left right \<longleftrightarrow> im_dev left = im_dev right \<and> im_ino left = im_ino right"

definition build_from_pinned_root ::
  "externals \<Rightarrow> (scan_point \<Rightarrow> nat) \<Rightarrow> io_error + inode_metadata \<Rightarrow> io_error + inode_metadata \<Rightarrow>
   fs \<Rightarrow> content_policy \<Rightarrow> package_policy \<Rightarrow> content_index_error + content_index" where
  "build_from_pinned_root ex now root pinned fs policy package_policy =
     attempt (map_err IndexIo root) (\<lambda>root_metadata.
     attempt (map_err IndexIo pinned) (\<lambda>pinned_metadata.
       if \<not> im_is_dir root_metadata \<or> \<not> im_is_dir pinned_metadata
          \<or> \<not> same_root_identity root_metadata pinned_metadata
       then Inl IndexInvalidRoot
       else build_validated ex now fs policy package_policy))"

section \<open>Queries\<close>

definition index_get :: "content_index \<Rightarrow> document_id \<Rightarrow> document_record option" where
  "index_get index document_id = map_of (ci_documents index) document_id"

definition attachments_beside :: "content_index \<Rightarrow> document_record \<Rightarrow> attachment_record list" where
  "attachments_beside index document =
     (let directory = parent (dr_relative_path document) in
      filter (\<lambda>attachment. parent (ar_relative_path attachment) = directory)
        (ci_attachments index))"

definition index_require_revision ::
  "content_index \<Rightarrow> document_id \<Rightarrow> revision \<Rightarrow> revision_check_error + document_record" where
  "index_require_revision index document_id expected_revision =
     attempt (ok_or (RevisionCheckNotFound document_id) (map_of (ci_documents index) document_id))
       (\<lambda>document.
         if dr_revision document \<noteq> expected_revision
         then Inl (RevisionCheckConflict document_id expected_revision (dr_revision document))
         else Inr document)"

end
