(* ===== verification/Apply_Plan.thy ===== *)
theory Apply_Plan
  imports Content_Index
begin

text \<open>
  \<open>crates/repository/src/apply.rs\<close>: applying one accepted request to a content tree. A plan
  is built from the index without touching the tree, then executed, then the tree is indexed
  again. The content tree and the package directory are two separate trees. Execution passes the
  tree along, so that the tree a failing step leaves behind is part of the result.
\<close>

section \<open>Errors\<close>

datatype apply_error =
    RequestCreatedAfterAcceptance
  | ApplyContentIndex content_index_error
  | ResultingContent content_index_error
  | ApplyDocumentNotFound document_id
  | ApplyDocumentIdConflict document_id
  | ApplyRevisionConflict document_id revision revision
  | ApplyOperationForbidden document_id string
  | DestinationExists path
  | PlanningBytesExceeded nat
  | InvalidPayloadDocument string "string document_parse_error"
  | InvalidPayloadMetadata string document_validation_error
  | GeneratedDocument "string document_parse_error"
  | ClaimPackageChanged
  | ContentChangedDuringApply
  | MetadataEncoding string
  | ApplyPackageValidation package_validation_error
  | ApplyIo io_error

fun request_error_code :: "apply_error \<Rightarrow> error_code option" where
  "request_error_code RequestCreatedAfterAcceptance = Some InvalidRequest"
| "request_error_code (ApplyDocumentNotFound _) = Some DocumentNotFound"
| "request_error_code (ApplyDocumentIdConflict _) = Some DocumentIdConflict"
| "request_error_code (ApplyRevisionConflict _ _ _) = Some RevisionConflict"
| "request_error_code (ApplyOperationForbidden _ _) = Some OperationForbidden"
| "request_error_code (DestinationExists _) = Some OperationForbidden"
| "request_error_code (PlanningBytesExceeded _) = Some LimitExceeded"
| "request_error_code (ResultingContent (IndexIo _)) = None"
| "request_error_code (ResultingContent _) = Some ContentValidationFailed"
| "request_error_code (InvalidPayloadDocument _ _) = Some InvalidFrontMatter"
| "request_error_code (InvalidPayloadMetadata _ _) = Some InvalidFrontMatter"
| "request_error_code (GeneratedDocument (FrontMatterTooLarge _ _)) = Some LimitExceeded"
| "request_error_code _ = None"

section \<open>Virtual documents and planned mutations\<close>

record virtual_document =
  vd_relative_path :: path
  vd_canonical_path :: path
  vd_document_type :: document_type
  vd_project :: "project_id option"
  vd_created :: offset_datetime
  vd_updated :: "offset_datetime option"
  vd_archived :: bool
  vd_status :: document_status
  vd_revision :: revision
  vd_markdown :: "string option"

datatype planned_mutation =
    WriteNew path string
  | Replace path string
  | Move path path

datatype applied_move = AppliedMove (move_source: path) (move_destination: path)

section \<open>Paths\<close>

fun apply_category_name :: "document_type \<Rightarrow> string" where
  "apply_category_name Index = []"
| "apply_category_name Log = ''logs''"
| "apply_category_name Experiment = ''experiments''"
| "apply_category_name Decision = ''decisions''"
| "apply_category_name Runbook = ''runbooks''"
| "apply_category_name Reference = ''references''"

definition create_document_path ::
  "externals \<Rightarrow> project_id option \<Rightarrow> document_type \<Rightarrow> offset_datetime \<Rightarrow> document_id \<Rightarrow> path" where
  "create_document_path ex project document_type created document_id =
     (let id = ex_ulid_show ex (document_ulid document_id) in
      if document_type = Index then
        (case project of
           None \<Rightarrow> [''index.md'']
         | Some p \<Rightarrow> [''projects'', project_str p, ''index.md''])
      else
        (case project of
           None \<Rightarrow> [''inbox'', apply_category_name document_type]
         | Some p \<Rightarrow> [''projects'', project_str p, apply_category_name document_type])
        @ (if document_type = Log
           then [format_04 (dt_year created), format_02 (dt_month created), format_02 (dt_day created),
                 format_02 (dt_hour created) @ format_02 (dt_minute created)
                   @ format_02 (dt_second created) @ ''-'' @ id]
           else [format_04 (dt_year created) @ ''-'' @ format_02 (dt_month created) @ ''-''
                   @ format_02 (dt_day created) @ ''-'' @ id])
        @ [''index.md''])"

definition archive_document_path ::
  "externals \<Rightarrow> virtual_document \<Rightarrow> document_id \<Rightarrow> path" where
  "archive_document_path ex document document_id =
     (let category = apply_category_name (vd_document_type document);
          bundle_name =
            (case Option.bind (parent (vd_relative_path document)) file_name of
               Some name \<Rightarrow> if is_utf8 name then name else ex_ulid_show ex (document_ulid document_id)
             | None \<Rightarrow> ex_ulid_show ex (document_ulid document_id)) in
      case vd_project document of
        Some p \<Rightarrow> [''projects'', project_str p, ''archive'', category, bundle_name, ''index.md'']
      | None \<Rightarrow> [''archive'', category, bundle_name, ''index.md''])"

definition bundle_path :: "path \<Rightarrow> document_type \<Rightarrow> path" where
  "bundle_path document_path document_type =
     (if document_type = Index then document_path
      else (case parent document_path of Some d \<Rightarrow> d | None \<Rightarrow> document_path))"

section \<open>Occupancy\<close>

type_synonym occupancy = "(path \<times> bool) list"

definition is_occupied :: "fs \<Rightarrow> path \<Rightarrow> occupancy \<Rightarrow> apply_error + bool \<times> occupancy" where
  "is_occupied fs path entries =
     (case map_of entries path of
        Some occupied \<Rightarrow> Inr (occupied, entries)
      | None \<Rightarrow>
          (case symlink_metadata fs path of
             Inr _ \<Rightarrow> Inr (True, AList.update path True entries)
           | Inl e \<Rightarrow> if e = NotFound then Inr (False, AList.update path False entries)
               else Inl (ApplyIo e)))"

definition reserve :: "fs \<Rightarrow> path \<Rightarrow> occupancy \<Rightarrow> apply_error + occupancy" where
  "reserve fs path entries =
     attempt (is_occupied fs path entries) (\<lambda>(occupied, entries).
       if occupied then Inl (DestinationExists path)
       else Inr (AList.update path True entries))"

definition move_path :: "fs \<Rightarrow> path \<Rightarrow> path \<Rightarrow> occupancy \<Rightarrow> apply_error + occupancy" where
  "move_path fs source destination entries =
     (if source = destination then Inl (DestinationExists destination)
      else attempt (reserve fs destination entries) (\<lambda>entries.
        Inr (AList.update source False entries)))"

section \<open>Checks\<close>

definition reserve_planned_bytes :: "nat \<Rightarrow> nat \<Rightarrow> nat \<Rightarrow> apply_error + nat" where
  "reserve_planned_bytes maximum additional total_bytes =
     attempt (ok_or (PlanningBytesExceeded maximum) (checked_add_u64 total_bytes additional)) (\<lambda>next.
       if next > maximum then Inl (PlanningBytesExceeded maximum) else Inr next)"

definition apply_require_revision ::
  "virtual_document \<Rightarrow> document_id \<Rightarrow> revision \<Rightarrow> apply_error + unit" where
  "apply_require_revision document document_id expected =
     (if vd_revision document \<noteq> expected
      then Inl (ApplyRevisionConflict document_id expected (vd_revision document)) else Inr ())"

definition require_classification ::
  "virtual_document \<Rightarrow> document_id \<Rightarrow> project_id option \<Rightarrow> document_type \<Rightarrow> apply_error + unit" where
  "require_classification document document_id request_project request_type =
     (if vd_document_type document \<noteq> request_type \<or> vd_project document \<noteq> request_project
      then Inl (ApplyOperationForbidden document_id
             ''request classification differs from canonical content'')
      else Inr ())"

definition require_accessible ::
  "virtual_document \<Rightarrow> document_id \<Rightarrow> project_id option \<Rightarrow> document_type \<Rightarrow> apply_error + unit" where
  "require_accessible document document_id request_project request_type =
     (if vd_archived document
      then Inl (ApplyOperationForbidden document_id ''archived documents cannot be modified'')
      else require_classification document document_id request_project request_type)"

definition require_mutable ::
  "virtual_document \<Rightarrow> document_id \<Rightarrow> project_id option \<Rightarrow> document_type \<Rightarrow> apply_error + unit" where
  "require_mutable document document_id request_project request_type =
     attempt (require_accessible document document_id request_project request_type) (\<lambda>_.
       if vd_document_type document = Log
         then Inl (ApplyOperationForbidden document_id ''logs are append-only'')
       else if vd_status document \<noteq> Active
         then Inl (ApplyOperationForbidden document_id ''only active documents are mutable'')
       else Inr ())"

definition require_movable :: "virtual_document \<Rightarrow> document_id \<Rightarrow> apply_error + unit" where
  "require_movable document document_id =
     (if vd_archived document
        then Inl (ApplyOperationForbidden document_id ''document is already archived'')
      else if vd_document_type document \<in> {Log, Index}
        then Inl (ApplyOperationForbidden document_id
               ''logs and index documents cannot be moved or archived'')
      else if vd_status document \<noteq> Active
        then Inl (ApplyOperationForbidden document_id
               ''only active documents can be moved or archived'')
      else Inr ())"

section \<open>Reading documents and payload\<close>

definition payload_byte_length :: "validated_package \<Rightarrow> string \<Rightarrow> apply_error + nat" where
  "payload_byte_length package relative_path =
     ok_or ClaimPackageChanged (map_option pm_byte_length
       (find (\<lambda>metadata. payload_str (pm_path metadata) = relative_path) (vp_payload package)))"

definition read_payload ::
  "externals \<Rightarrow> fs \<Rightarrow> validated_package \<Rightarrow> string \<Rightarrow> apply_error + string" where
  "read_payload ex package_fs package relative_path =
     attempt (ok_or ClaimPackageChanged
       (find (\<lambda>metadata. payload_str (pm_path metadata) = relative_path) (vp_payload package)))
       (\<lambda>metadata.
     attempt (map_err ApplyIo (read_file package_fs (payload_fs_path relative_path))) (\<lambda>source.
       let bytes = take (saturating_add_u64 (pm_byte_length metadata) 1) source in
       if length bytes \<noteq> pm_byte_length metadata \<or> revision_of ex bytes \<noteq> pm_revision metadata
       then Inl ClaimPackageChanged else Inr bytes))"

definition read_canonical_markdown ::
  "externals \<Rightarrow> fs \<Rightarrow> path \<Rightarrow> nat \<Rightarrow> revision \<Rightarrow> apply_error + string" where
  "read_canonical_markdown ex fs relative_path maximum_bytes expected_revision =
     attempt (map_err ApplyIo (read_file fs relative_path)) (\<lambda>source.
       let bytes = take (saturating_add_u64 maximum_bytes 1) source in
       if length bytes > maximum_bytes \<or> revision_of ex bytes \<noteq> expected_revision
       then Inl ContentChangedDuringApply else Inr bytes)"

definition decode_payload_metadata ::
  "externals \<Rightarrow> string \<Rightarrow> content_policy \<Rightarrow> string \<Rightarrow> apply_error + document_metadata" where
  "decode_payload_metadata ex bytes policy payload_path =
     attempt (map_err (InvalidPayloadDocument payload_path)
       (decode_document_metadata (ex_yaml_decode ex) bytes (cp_maximum_front_matter_bytes policy)))
       (\<lambda>metadata.
     attempt (map_err (InvalidPayloadMetadata payload_path)
       (validate_common metadata (cp_document policy))) (\<lambda>_. Inr metadata))"

fun apply_scan_body :: "string \<Rightarrow> nat \<Rightarrow> string list \<Rightarrow> string option" where
  "apply_scan_body remainder offset [] = None"
| "apply_scan_body remainder offset (line # rest) =
     (let content = strip_or_self lf line;
          content = strip_or_self cr content in
      if content = ''---'' then Some (drop (offset + length line) remainder)
      else apply_scan_body remainder (offset + length line) rest)"

definition apply_markdown_body :: "string \<Rightarrow> string option" where
  "apply_markdown_body markdown =
     (if \<not> is_utf8 markdown then None
      else if strip_prefix (''---'' @ [cr, lf]) markdown \<noteq> None
        then (let remainder = drop 5 markdown in
              apply_scan_body remainder 0 (split_inclusive lf remainder))
      else if strip_prefix (''---'' @ [lf]) markdown \<noteq> None
        then (let remainder = drop 4 markdown in
              apply_scan_body remainder 0 (split_inclusive lf remainder))
      else None)"

definition archived_markdown ::
  "externals \<Rightarrow> string \<Rightarrow> content_policy \<Rightarrow> request_id \<Rightarrow> offset_datetime \<Rightarrow> nat \<Rightarrow> nat \<Rightarrow>
   apply_error + string \<times> nat" where
  "archived_markdown ex bytes policy request_id archived_at planned_bytes maximum_planned_bytes =
     (let too_large = PlanningBytesExceeded (cp_maximum_markdown_bytes policy) in
      if length bytes > cp_maximum_markdown_bytes policy then Inl ContentChangedDuringApply
      else
     attempt (map_err (\<lambda>_. ContentChangedDuringApply)
       (decode_document_metadata (ex_yaml_decode ex) bytes (cp_maximum_front_matter_bytes policy)))
       (\<lambda>metadata.
       let previous_update = (case md_updated metadata of Some u \<Rightarrow> u | None \<Rightarrow> md_created metadata) in
       if \<not> before_instant previous_update archived_at
       then Inl (ApplyOperationForbidden (md_document_id metadata)
              ''archive time must follow the previous document update'')
       else
         let metadata = metadata\<lparr>md_updated := Some archived_at, md_request_id := request_id,
               md_status := Archived\<rparr> in
     attempt (ok_or ContentChangedDuringApply (apply_markdown_body bytes)) (\<lambda>body.
     attempt (map_err MetadataEncoding (ex_yaml_encode ex metadata)) (\<lambda>yaml.
       let newline = (if ends_with_char lf yaml then [] else [lf]) in
     attempt (ok_or too_large (checked_add_u64 (length yaml) (length newline))) (\<lambda>front_matter_bytes.
       if front_matter_bytes > cp_maximum_front_matter_bytes policy
       then Inl (GeneratedDocument (FrontMatterTooLarge (cp_maximum_front_matter_bytes policy)
              front_matter_bytes))
       else
     attempt (ok_or too_large (Option.bind (checked_add_u64 front_matter_bytes (length body))
                (\<lambda>len. checked_add_u64 len 8))) (\<lambda>archived_bytes.
       if archived_bytes > cp_maximum_markdown_bytes policy then Inl too_large
       else
     attempt (reserve_planned_bytes maximum_planned_bytes archived_bytes planned_bytes)
       (\<lambda>planned_bytes.
         Inr (''---'' @ [lf] @ yaml @ newline @ ''---'' @ [lf] @ body, planned_bytes))))))))"

section \<open>Planning\<close>

record plan_state =
  pl_plan :: "planned_mutation list"
  pl_documents :: "(document_id \<times> virtual_document) list"
  pl_occupancy :: occupancy
  pl_planned_bytes :: nat

definition resolve_document ::
  "(document_id \<times> virtual_document) list \<Rightarrow> content_index \<Rightarrow> document_id \<Rightarrow>
   apply_error + virtual_document" where
  "resolve_document documents index document_id =
     (case map_of documents document_id of
        Some document \<Rightarrow> Inr document
      | None \<Rightarrow>
          attempt (ok_or (ApplyDocumentNotFound document_id) (index_get index document_id)) (\<lambda>record.
            Inr \<lparr>vd_relative_path = dr_relative_path record, vd_canonical_path = dr_relative_path record,
                 vd_document_type = loc_document_type (dr_location record),
                 vd_project = loc_project (dr_location record),
                 vd_created = md_created (dr_metadata record),
                 vd_updated = md_updated (dr_metadata record),
                 vd_archived = loc_archived (dr_location record),
                 vd_status = md_status (dr_metadata record), vd_revision = dr_revision record,
                 vd_markdown = None\<rparr>))"

text \<open>What one request sees while it is planned.\<close>

record planning =
  pn_externals :: externals
  pn_content :: fs
  pn_package_fs :: fs
  pn_package :: validated_package
  pn_index :: content_index
  pn_policy :: content_policy
  pn_maximum_planned_bytes :: nat
  pn_operation_time :: offset_datetime

definition plan_create ::
  "planning \<Rightarrow> document_id \<Rightarrow> payload_path \<Rightarrow> plan_state \<Rightarrow> apply_error + plan_state" where
  "plan_create p document_id content s =
     (let ex = pn_externals p; request = vp_request (pn_package p) in
      if map_of (pl_documents s) document_id \<noteq> None \<or> index_get (pn_index p) document_id \<noteq> None
      then Inl (ApplyDocumentIdConflict document_id)
      else
     attempt (payload_byte_length (pn_package p) (payload_str content)) (\<lambda>byte_length.
     attempt (reserve_planned_bytes (pn_maximum_planned_bytes p) byte_length (pl_planned_bytes s))
       (\<lambda>planned_bytes.
     attempt (read_payload ex (pn_package_fs p) (pn_package p) (payload_str content)) (\<lambda>bytes.
     attempt (decode_payload_metadata ex bytes (pn_policy p) (payload_str content)) (\<lambda>metadata.
       if before_instant (pn_operation_time p) (md_created metadata) \<or>
          (case md_updated metadata of None \<Rightarrow> False
           | Some updated \<Rightarrow> before_instant (pn_operation_time p) updated)
       then Inl (ApplyOperationForbidden document_id
              ''document timestamps cannot follow request acceptance'')
       else if md_status metadata = Archived
       then Inl (ApplyOperationForbidden document_id
              ''documents cannot be created with archived status'')
       else
         let relative_path = create_document_path ex (cr_project request) (cr_document_type request)
               (md_created metadata) document_id in
     attempt (reserve (pn_content p) (bundle_path relative_path (cr_document_type request))
         (pl_occupancy s)) (\<lambda>occupancy.
       Inr \<lparr>pl_plan = pl_plan s @ [WriteNew relative_path bytes],
            pl_documents = AList.update document_id
              \<lparr>vd_relative_path = relative_path, vd_canonical_path = relative_path,
               vd_document_type = cr_document_type request, vd_project = cr_project request,
               vd_created = md_created metadata, vd_updated = md_updated metadata,
               vd_archived = False, vd_status = md_status metadata,
               vd_revision = revision_of ex bytes, vd_markdown = Some bytes\<rparr> (pl_documents s),
            pl_occupancy = occupancy, pl_planned_bytes = planned_bytes\<rparr>))))))"

definition check_update ::
  "planning \<Rightarrow> document_id \<Rightarrow> virtual_document \<Rightarrow> document_metadata \<Rightarrow> apply_error + unit" where
  "check_update p document_id document metadata =
     (if \<not> same_instant (md_created metadata) (vd_created document)
        then Inl (ApplyOperationForbidden document_id ''document creation time is immutable'')
      else if md_status metadata = Archived
        then Inl (ApplyOperationForbidden document_id ''archive status requires an archive operation'')
      else
        let previous_update = (case vd_updated document of Some u \<Rightarrow> u | None \<Rightarrow> vd_created document) in
        case md_updated metadata of
          None \<Rightarrow> Inl (ApplyOperationForbidden document_id ''updated documents require an update time'')
        | Some updated \<Rightarrow>
            if before_instant (pn_operation_time p) updated
              then Inl (ApplyOperationForbidden document_id
                     ''document update time cannot follow request acceptance'')
            else if \<not> before_instant previous_update updated
              then Inl (ApplyOperationForbidden document_id ''document update time must increase'')
            else Inr ())"

definition plan_update ::
  "planning \<Rightarrow> document_id \<Rightarrow> revision \<Rightarrow> payload_path \<Rightarrow> plan_state \<Rightarrow> apply_error + plan_state" where
  "plan_update p document_id expected_revision content s =
     (let ex = pn_externals p; request = vp_request (pn_package p) in
     attempt (resolve_document (pl_documents s) (pn_index p) document_id) (\<lambda>document.
     attempt (apply_require_revision document document_id expected_revision) (\<lambda>_.
     attempt (require_mutable document document_id (cr_project request) (cr_document_type request)) (\<lambda>_.
     attempt (payload_byte_length (pn_package p) (payload_str content)) (\<lambda>byte_length.
     attempt (reserve_planned_bytes (pn_maximum_planned_bytes p) byte_length (pl_planned_bytes s))
       (\<lambda>planned_bytes.
     attempt (read_payload ex (pn_package_fs p) (pn_package p) (payload_str content)) (\<lambda>bytes.
     attempt (decode_payload_metadata ex bytes (pn_policy p) (payload_str content)) (\<lambda>metadata.
     attempt (check_update p document_id document metadata) (\<lambda>_.
       Inr (s\<lparr>pl_plan := pl_plan s @ [Replace (vd_relative_path document) bytes],
              pl_documents := AList.update document_id
                (document\<lparr>vd_status := md_status metadata, vd_updated := md_updated metadata,
                  vd_revision := revision_of ex bytes, vd_markdown := Some bytes\<rparr>) (pl_documents s),
              pl_planned_bytes := planned_bytes\<rparr>))))))))))"

definition plan_move ::
  "planning \<Rightarrow> document_id \<Rightarrow> revision \<Rightarrow> project_id option \<Rightarrow> document_type \<Rightarrow> plan_state \<Rightarrow>
   apply_error + plan_state" where
  "plan_move p document_id expected_revision project document_type s =
     (let ex = pn_externals p; request = vp_request (pn_package p) in
      if document_type \<noteq> cr_document_type request \<or> project \<noteq> cr_project request
      then Inl (ApplyOperationForbidden document_id
             ''move destination differs from request classification'')
      else if document_type \<in> {Log, Index}
      then Inl (ApplyOperationForbidden document_id
             ''documents cannot be moved into log or index classification'')
      else
     attempt (resolve_document (pl_documents s) (pn_index p) document_id) (\<lambda>document.
     attempt (apply_require_revision document document_id expected_revision) (\<lambda>_.
     attempt (require_movable document document_id) (\<lambda>_.
       let destination = create_document_path ex project document_type (vd_created document) document_id;
           source_bundle = bundle_path (vd_relative_path document) (vd_document_type document);
           destination_bundle = bundle_path destination document_type in
     attempt (move_path (pn_content p) source_bundle destination_bundle (pl_occupancy s)) (\<lambda>occupancy.
       Inr (s\<lparr>pl_plan := pl_plan s @ [Move source_bundle destination_bundle],
              pl_documents := AList.update document_id
                (document\<lparr>vd_relative_path := destination, vd_document_type := document_type,
                  vd_project := project\<rparr>) (pl_documents s),
              pl_occupancy := occupancy\<rparr>))))))"

definition plan_archive ::
  "planning \<Rightarrow> document_id \<Rightarrow> revision \<Rightarrow> plan_state \<Rightarrow> apply_error + plan_state" where
  "plan_archive p document_id expected_revision s =
     (let ex = pn_externals p; request = vp_request (pn_package p); policy = pn_policy p in
     attempt (resolve_document (pl_documents s) (pn_index p) document_id) (\<lambda>document.
     attempt (apply_require_revision document document_id expected_revision) (\<lambda>_.
     attempt (require_classification document document_id (cr_project request)
         (cr_document_type request)) (\<lambda>_.
     attempt (require_movable document document_id) (\<lambda>_.
       let destination = archive_document_path ex document document_id;
           destination_bundle = bundle_path destination (vd_document_type document);
           source_bundle = bundle_path (vd_relative_path document) (vd_document_type document) in
     attempt (move_path (pn_content p) source_bundle destination_bundle (pl_occupancy s)) (\<lambda>occupancy.
     attempt (case vd_markdown document of
                Some markdown \<Rightarrow> Inr markdown
              | None \<Rightarrow> read_canonical_markdown ex (pn_content p) (vd_canonical_path document)
                  (cp_maximum_markdown_bytes policy) (vd_revision document)) (\<lambda>markdown.
     attempt (archived_markdown ex markdown policy (cr_request_id request) (pn_operation_time p)
         (pl_planned_bytes s) (pn_maximum_planned_bytes p)) (\<lambda>(archived, planned_bytes).
     attempt (map_err GeneratedDocument (decode_document_metadata (ex_yaml_decode ex) archived
         (cp_maximum_front_matter_bytes policy))) (\<lambda>_.
       Inr \<lparr>pl_plan = pl_plan s @ [Replace (vd_relative_path document) archived,
                                   Move source_bundle destination_bundle],
            pl_documents = AList.update document_id
              (document\<lparr>vd_relative_path := destination, vd_archived := True,
                vd_status := Archived, vd_updated := Some (pn_operation_time p),
                vd_revision := revision_of ex archived, vd_markdown := None\<rparr>) (pl_documents s),
            pl_occupancy = occupancy, pl_planned_bytes = planned_bytes\<rparr>)))))))))"

definition plan_add_attachment ::
  "planning \<Rightarrow> document_id \<Rightarrow> payload_path \<Rightarrow> attachment_name \<Rightarrow> plan_state \<Rightarrow>
   apply_error + plan_state" where
  "plan_add_attachment p document_id source name s =
     (let ex = pn_externals p; request = vp_request (pn_package p) in
     attempt (resolve_document (pl_documents s) (pn_index p) document_id) (\<lambda>document.
     attempt (require_accessible document document_id (cr_project request) (cr_document_type request))
       (\<lambda>_.
       if vd_status document \<noteq> Active
       then Inl (ApplyOperationForbidden document_id ''attachments require an active document'')
       else
         let relative_path = (case parent (vd_relative_path document) of Some d \<Rightarrow> d | None \<Rightarrow> [])
               @ [attachment_str name] in
     attempt (reserve (pn_content p) relative_path (pl_occupancy s)) (\<lambda>occupancy.
     attempt (payload_byte_length (pn_package p) (payload_str source)) (\<lambda>byte_length.
     attempt (reserve_planned_bytes (pn_maximum_planned_bytes p) byte_length (pl_planned_bytes s))
       (\<lambda>planned_bytes.
     attempt (read_payload ex (pn_package_fs p) (pn_package p) (payload_str source)) (\<lambda>bytes.
       Inr \<lparr>pl_plan = pl_plan s @ [WriteNew relative_path bytes],
            pl_documents = AList.update document_id document (pl_documents s),
            pl_occupancy = occupancy, pl_planned_bytes = planned_bytes\<rparr>)))))))"

fun plan_operation :: "planning \<Rightarrow> operation \<Rightarrow> plan_state \<Rightarrow> apply_error + plan_state" where
  "plan_operation p (CreateDocument document_id content) s = plan_create p document_id content s"
| "plan_operation p (UpdateDocument document_id expected_revision content) s =
     plan_update p document_id expected_revision content s"
| "plan_operation p (MoveDocument document_id expected_revision project document_type) s =
     plan_move p document_id expected_revision project document_type s"
| "plan_operation p (ArchiveDocument document_id expected_revision) s =
     plan_archive p document_id expected_revision s"
| "plan_operation p (AddAttachment document_id source name) s =
     plan_add_attachment p document_id source name s"

definition operation_time :: "validated_package \<Rightarrow> offset_datetime" where
  "operation_time package =
     (case vp_acceptance package of
        None \<Rightarrow> cr_created_at (vp_request package)
      | Some acceptance \<Rightarrow> am_accepted_at acceptance)"

definition empty_plan :: plan_state where
  "empty_plan = \<lparr>pl_plan = [], pl_documents = [], pl_occupancy = [], pl_planned_bytes = 0\<rparr>"

definition build_plan ::
  "externals \<Rightarrow> fs \<Rightarrow> fs \<Rightarrow> validated_package \<Rightarrow> content_index \<Rightarrow> content_policy \<Rightarrow> nat \<Rightarrow>
   apply_error + planned_mutation list" where
  "build_plan ex content package_fs package index policy maximum_planned_bytes =
     (let p = \<lparr>pn_externals = ex, pn_content = content, pn_package_fs = package_fs,
               pn_package = package, pn_index = index, pn_policy = policy,
               pn_maximum_planned_bytes = maximum_planned_bytes,
               pn_operation_time = operation_time package\<rparr> in
      if before_instant (operation_time package) (cr_created_at (vp_request package))
      then Inl RequestCreatedAfterAcceptance
      else attempt (try_fold (plan_operation p) (cr_operations (vp_request package)) empty_plan)
             (\<lambda>s. Inr (pl_plan s)))"

section \<open>Execution\<close>

definition create_parent :: "path \<Rightarrow> fs \<Rightarrow> io_error + fs" where
  "create_parent path fs =
     (case parent path of None \<Rightarrow> Inr fs | Some directory \<Rightarrow> create_dir_all directory fs)"

text \<open>One mutation: the moves it records or its error, and the tree it leaves.\<close>

definition run_io :: "io_error + fs \<Rightarrow> fs \<Rightarrow> applied_move list \<Rightarrow> (apply_error + applied_move list) \<times> fs" where
  "run_io r fs moves = (case r of Inl e \<Rightarrow> (Inl (ApplyIo e), fs) | Inr fs' \<Rightarrow> (Inr moves, fs'))"

fun execute_mutation ::
  "planned_mutation \<Rightarrow> fs \<Rightarrow> (apply_error + applied_move list) \<times> fs" where
  "execute_mutation (WriteNew path bytes) fs =
     (case create_parent path fs of
        Inl e \<Rightarrow> (Inl (ApplyIo e), fs)
      | Inr fs \<Rightarrow> run_io (create_new path bytes fs) fs [])"
| "execute_mutation (Replace path bytes) fs = run_io (write_file path bytes fs) fs []"
| "execute_mutation (Move source destination) fs =
     (case create_parent destination fs of
        Inl e \<Rightarrow> (Inl (ApplyIo e), fs)
      | Inr fs \<Rightarrow> run_io (rename source destination fs) fs [AppliedMove source destination])"

fun execute_plan ::
  "planned_mutation list \<Rightarrow> applied_move list \<Rightarrow> fs \<Rightarrow> (apply_error + applied_move list) \<times> fs" where
  "execute_plan [] moves fs = (Inr moves, fs)"
| "execute_plan (mutation # plan) moves fs =
     (case execute_mutation mutation fs of
        (Inl e, fs') \<Rightarrow> (Inl e, fs')
      | (Inr moved, fs') \<Rightarrow> execute_plan plan (moves @ moved) fs')"

definition apply_request_with_policy ::
  "externals \<Rightarrow> (scan_point \<Rightarrow> nat) \<Rightarrow> (scan_point \<Rightarrow> nat) \<Rightarrow> fs \<Rightarrow> validated_package \<Rightarrow>
   content_policy \<Rightarrow> package_policy \<Rightarrow> fs \<Rightarrow> (apply_error + applied_move list) \<times> fs" where
  "apply_request_with_policy ex now after package_fs package policy package_policy fs =
     (case attempt (map_err ApplyContentIndex (build ex now fs policy package_policy)) (\<lambda>index.
             build_plan ex fs package_fs package index policy
               (pl_maximum_total_bytes (pp_limits package_policy))) of
        Inl e \<Rightarrow> (Inl e, fs)
      | Inr plan \<Rightarrow>
          (case execute_plan plan [] fs of
             (Inl e, fs') \<Rightarrow> (Inl e, fs')
           | (Inr moves, fs') \<Rightarrow>
               (case build ex after fs' policy package_policy of
                  Inl e \<Rightarrow> (Inl (ResultingContent e), fs')
                | Inr _ \<Rightarrow> (Inr moves, fs'))))"

text \<open>Derived equality of packages: two times are equal if they are the same instant.\<close>

definition same_request :: "change_request \<Rightarrow> change_request \<Rightarrow> bool" where
  "same_request a b \<longleftrightarrow> same_instant (cr_created_at a) (cr_created_at b) \<and>
     a\<lparr>cr_created_at := cr_created_at b\<rparr> = b"

definition same_acceptance :: "acceptance_metadata \<Rightarrow> acceptance_metadata \<Rightarrow> bool" where
  "same_acceptance a b \<longleftrightarrow> same_instant (am_accepted_at a) (am_accepted_at b) \<and>
     a\<lparr>am_accepted_at := am_accepted_at b\<rparr> = b"

definition same_package :: "validated_package \<Rightarrow> validated_package \<Rightarrow> bool" where
  "same_package a b \<longleftrightarrow> same_request (vp_request a) (vp_request b) \<and> vp_digest a = vp_digest b \<and>
     vp_payload a = vp_payload b \<and>
     (case (vp_acceptance a, vp_acceptance b) of
        (None, None) \<Rightarrow> True
      | (Some x, Some y) \<Rightarrow> same_acceptance x y
      | _ \<Rightarrow> False)"

definition apply_claimed ::
  "externals \<Rightarrow> (scan_point \<Rightarrow> nat) \<Rightarrow> (scan_point \<Rightarrow> nat) \<Rightarrow> fs \<Rightarrow> validated_package \<Rightarrow>
   content_policy \<Rightarrow> package_policy \<Rightarrow> fs \<Rightarrow> (apply_error + applied_move list) \<times> fs" where
  "apply_claimed ex now after package_fs claim_package policy package_policy fs =
     (case validate_accepted_package ex package_fs package_policy of
        Inl e \<Rightarrow> (Inl (ApplyPackageValidation e), fs)
      | Inr revalidated \<Rightarrow>
          if \<not> same_package revalidated claim_package then (Inl ClaimPackageChanged, fs)
          else apply_request_with_policy ex now after package_fs revalidated policy package_policy fs)"

end
