(* ===== verification/Package_Properties.thy ===== *)
theory Package_Properties
  imports Package_Validation "HOL-Library.Multiset"
begin

text \<open>
  What package validation guarantees: the digest binds the whole package, and a validated package
  is exactly what its operations reference, within every limit.
\<close>

section \<open>Lemmas\<close>

interpretation materialized: byte_budget "materialize maximum" "min maximum u64_max" for maximum
  by unfold_locales (auto simp: materialize_def attempt_Inr_iff split: if_splits)

lemma digest_file_Inr:
  assumes "digest_file ex fs deadline (i, file) acc = Inr acc'"
  obtains bytes where "read_file fs (payload_fs_path (payload_str (pm_path file))) = Inr bytes"
    "length bytes = pm_byte_length file"
    "acc' = (hash_length_prefixed (fst acc) (payload_str (pm_path file))
       @ to_be_bytes (pm_byte_length file) @ bytes,
       snd acc @ [file\<lparr>pm_revision := revision_of ex bytes\<rparr>])"
proof -
  from assms obtain source bytes where
    s: "read_file fs (payload_fs_path (payload_str (pm_path file))) = Inr source"
    "read_loop HASH_BUFFER_LENGTH (\<lambda>k. ensure_operation_active deadline (AtDigestChunk i k)) 0
       (pm_byte_length file + 1) source [] = Inr bytes"
    "length bytes = pm_byte_length file"
    "acc' = (hash_length_prefixed (fst acc) (payload_str (pm_path file))
       @ to_be_bytes (pm_byte_length file) @ bytes,
       snd acc @ [file\<lparr>pm_revision := revision_of ex bytes\<rparr>])"
    by (auto simp: digest_file_def Let_def attempt_Inr_iff split: if_splits)
  have "bytes = take (pm_byte_length file + 1) source"
    using read_loop_Inr [OF s(2)] by simp
  with s(3) have "bytes = source" by simp
  with s that show thesis by blast
qed

text \<open>What the digest is computed over.\<close>

definition file_preimage :: "string \<times> string \<Rightarrow> string" where
  "file_preimage file =
     to_be_bytes (length (fst file)) @ fst file @ to_be_bytes (length (snd file)) @ snd file"

definition digest_preimage :: "string \<Rightarrow> (string \<times> string) list \<Rightarrow> string" where
  "digest_preimage canonical_request files =
     DIGEST_DOMAIN @ to_be_bytes (length ''request'') @ ''request''
     @ to_be_bytes (length canonical_request) @ canonical_request
     @ to_be_bytes (length files) @ concat (map file_preimage files)"

lemma file_preimage_pair:
  "file_preimage (p, c) = to_be_bytes (length p) @ p @ to_be_bytes (length c) @ c"
  by (simp add: file_preimage_def)

lemma digest_files_Inr:
  assumes "try_fold (digest_file ex fs deadline) (List.enumerate k payload) acc = Inr acc'"
  shows "\<exists>contents. length contents = length payload \<and>
    (\<forall>i<length payload.
       read_file fs (payload_fs_path (payload_str (pm_path (payload ! i)))) = Inr (contents ! i) \<and>
       length (contents ! i) = pm_byte_length (payload ! i)) \<and>
    fst acc' = fst acc @ concat (map file_preimage
      (zip (map (\<lambda>f. payload_str (pm_path f)) payload) contents)) \<and>
    snd acc' = snd acc @ map2 (\<lambda>f c. f\<lparr>pm_revision := revision_of ex c\<rparr>) payload contents"
  using assms
proof (induction payload arbitrary: k acc)
  case Nil
  then show ?case by simp
next
  case (Cons f payload)
  from Cons.prems obtain mid where
    first: "digest_file ex fs deadline (k, f) acc = Inr mid" and
    rest: "try_fold (digest_file ex fs deadline) (List.enumerate (Suc k) payload) mid = Inr acc'"
    by (auto simp: attempt_Inr_iff)
  from first obtain bytes where
    b: "read_file fs (payload_fs_path (payload_str (pm_path f))) = Inr bytes"
    "length bytes = pm_byte_length f"
    "mid = (hash_length_prefixed (fst acc) (payload_str (pm_path f))
       @ to_be_bytes (pm_byte_length f) @ bytes,
       snd acc @ [f\<lparr>pm_revision := revision_of ex bytes\<rparr>])"
    by (rule digest_file_Inr)
  from Cons.IH [OF rest] obtain contents where
    c: "length contents = length payload"
    "\<forall>i<length payload.
       read_file fs (payload_fs_path (payload_str (pm_path (payload ! i)))) = Inr (contents ! i) \<and>
       length (contents ! i) = pm_byte_length (payload ! i)"
    "fst acc' = fst mid @ concat (map file_preimage
      (zip (map (\<lambda>f. payload_str (pm_path f)) payload) contents))"
    "snd acc' = snd mid @ map2 (\<lambda>f c. f\<lparr>pm_revision := revision_of ex c\<rparr>) payload contents"
    by blast
  show ?case
    using b c by (intro exI [of _ "bytes # contents"])
      (auto simp: nth_Cons' hash_length_prefixed_def file_preimage_pair)
qed

lemma calculate_digest_Inr:
  assumes "calculate_digest ex canonical fs payload deadline = Inr (digest, payload')"
  shows "\<exists>contents. length contents = length payload \<and>
    (\<forall>i<length payload.
       read_file fs (payload_fs_path (payload_str (pm_path (payload ! i)))) = Inr (contents ! i) \<and>
       length (contents ! i) = pm_byte_length (payload ! i)) \<and>
    digest = PackageDigest (revision_of ex (digest_preimage canonical
      (zip (map (\<lambda>f. payload_str (pm_path f)) payload) contents))) \<and>
    payload' = map2 (\<lambda>f c. f\<lparr>pm_revision := revision_of ex c\<rparr>) payload contents"
proof -
  let ?h = "hash_bytes DIGEST_DOMAIN ''request'' canonical @ to_be_bytes (length payload)"
  from assms obtain acc where
    acc: "try_fold (digest_file ex fs deadline) (List.enumerate 0 payload) (?h, []) = Inr acc"
    "digest = PackageDigest (revision_of ex (fst acc))" "payload' = snd acc"
    by (auto simp: calculate_digest_def Let_def attempt_Inr_iff)
  from digest_files_Inr [OF acc(1)] obtain contents where c: "length contents = length payload"
    "\<forall>i<length payload.
       read_file fs (payload_fs_path (payload_str (pm_path (payload ! i)))) = Inr (contents ! i) \<and>
       length (contents ! i) = pm_byte_length (payload ! i)"
    "fst acc = ?h @ concat (map file_preimage
      (zip (map (\<lambda>f. payload_str (pm_path f)) payload) contents))"
    "snd acc = map2 (\<lambda>f c. f\<lparr>pm_revision := revision_of ex c\<rparr>) payload contents"
    by auto
  then have "fst acc = digest_preimage canonical
      (zip (map (\<lambda>f. payload_str (pm_path f)) payload) contents)"
    by (simp add: digest_preimage_def hash_bytes_def hash_length_prefixed_def)
  with c acc show ?thesis by (intro exI [of _ contents]) simp
qed

lemma length_to_be_bytes [simp]: "length (to_be_bytes n) = 8"
  by (simp add: to_be_bytes_def)

lemma to_be_bytes_inject:
  assumes "m \<le> u64_max" "n \<le> u64_max" "to_be_bytes m = to_be_bytes n"
  shows "m = n"
proof -
  have digit: "m div 256 ^ k mod 256 = n div 256 ^ k mod 256" if "k < 8" for k
  proof -
    have "to_be_bytes m ! (7 - k) = to_be_bytes n ! (7 - k)" using assms(3) by simp
    moreover have "[0..<8] ! (7 - k) = 7 - k" using that nth_upt [of 0 "7 - k" 8] by simp
    ultimately show ?thesis using that by (simp add: to_be_bytes_def)
  qed
  have "m mod 256 ^ k = n mod 256 ^ k" if "k \<le> 8" for k
    using that
  proof (induction k)
    case (Suc k)
    have "x mod 256 ^ Suc k = 256 ^ k * (x div 256 ^ k mod 256) + x mod 256 ^ k" for x :: nat
      by (metis mod_mult2_eq power_Suc2)
    with Suc digit [of k] show ?case by simp
  qed simp
  from this [of 8] assms(1,2) show ?thesis by (simp add: u64_max_def)
qed

lemma length_prefixed_inject:
  assumes "length a \<le> u64_max" "length b \<le> u64_max"
    and "to_be_bytes (length a) @ a @ r = to_be_bytes (length b) @ b @ s"
  shows "a = b \<and> r = s"
proof -
  have "to_be_bytes (length a) = to_be_bytes (length b)" "a @ r = b @ s"
    using assms(3) by (simp_all add: append_eq_append_conv)
  with assms(1,2) to_be_bytes_inject show ?thesis by (metis append_eq_append_conv)
qed

definition encodable :: "string \<times> string \<Rightarrow> bool" where
  "encodable f \<longleftrightarrow> length (fst f) \<le> u64_max \<and> length (snd f) \<le> u64_max"

lemma file_preimages_inject:
  assumes "list_all encodable fs" "list_all encodable gs" "length fs = length gs"
    and "concat (map file_preimage fs) = concat (map file_preimage gs)"
  shows "fs = gs"
  using assms(3,1,2,4)
proof (induction fs gs rule: list_induct2)
  case Nil
  show ?case by simp
next
  case (Cons f fs g gs)
  obtain p c where f: "f = (p, c)" by (cases f)
  obtain q d where g: "g = (q, d)" by (cases g)
  have "to_be_bytes (length p) @ p @ (to_be_bytes (length c) @ c @ concat (map file_preimage fs)) =
      to_be_bytes (length q) @ q @ (to_be_bytes (length d) @ d @ concat (map file_preimage gs))"
    using Cons.prems(3) by (simp add: f g file_preimage_pair)
  moreover have len: "length p \<le> u64_max" "length q \<le> u64_max" "length c \<le> u64_max" "length d \<le> u64_max"
    using Cons.prems(1,2) by (simp_all add: f g encodable_def)
  ultimately have "p = q"
    "to_be_bytes (length c) @ c @ concat (map file_preimage fs) =
      to_be_bytes (length d) @ d @ concat (map file_preimage gs)"
    using length_prefixed_inject by blast+
  with len length_prefixed_inject have "p = q" "c = d"
    "concat (map file_preimage fs) = concat (map file_preimage gs)" by blast+
  with Cons show ?case by (simp add: f g)
qed

lemma digest_preimage_inject:
  assumes "length r \<le> u64_max" "length s \<le> u64_max" "length fs \<le> u64_max" "length gs \<le> u64_max"
    and "list_all encodable fs" "list_all encodable gs"
    and "digest_preimage r fs = digest_preimage s gs"
  shows "r = s \<and> fs = gs"
proof -
  have eq: "to_be_bytes (length r) @ r @ (to_be_bytes (length fs) @ concat (map file_preimage fs)) =
      to_be_bytes (length s) @ s @ (to_be_bytes (length gs) @ concat (map file_preimage gs))"
    using assms(7) by (simp add: digest_preimage_def)
  from length_prefixed_inject [OF assms(1,2) eq] have "r = s"
    and rest: "to_be_bytes (length fs) @ concat (map file_preimage fs) =
      to_be_bytes (length gs) @ concat (map file_preimage gs)" by blast+
  from rest have "to_be_bytes (length fs) = to_be_bytes (length gs)"
    "concat (map file_preimage fs) = concat (map file_preimage gs)"
    by (simp_all add: append_eq_append_conv)
  with assms(3-6) to_be_bytes_inject file_preimages_inject \<open>r = s\<close> show ?thesis by blast
qed

text \<open>The payload paths with what the files hold.\<close>

definition payload_contents :: "fs \<Rightarrow> payload_metadata list \<Rightarrow> (string \<times> string) list" where
  "payload_contents fs payload =
     map (\<lambda>f. (payload_str (pm_path f),
        case read_file fs (payload_fs_path (payload_str (pm_path f))) of
          Inl _ \<Rightarrow> [] | Inr bytes \<Rightarrow> bytes)) payload"

lemma calculate_digest_payload_contents:
  assumes "calculate_digest ex canonical fs payload deadline = Inr (digest, payload')"
  shows "digest = PackageDigest (revision_of ex (digest_preimage canonical (payload_contents fs payload)))"
proof -
  from calculate_digest_Inr [OF assms] obtain contents where
    c: "length contents = length payload"
    "\<forall>i<length payload.
       read_file fs (payload_fs_path (payload_str (pm_path (payload ! i)))) = Inr (contents ! i)"
    "digest = PackageDigest (revision_of ex (digest_preimage canonical
      (zip (map (\<lambda>f. payload_str (pm_path f)) payload) contents)))" by blast
  have "zip (map (\<lambda>f. payload_str (pm_path f)) payload) contents = payload_contents fs payload"
    using c(1,2) by (auto simp: payload_contents_def intro!: nth_equalityI)
  with c(3) show ?thesis by simp
qed

section \<open>What the operations reference\<close>

definition operation_payload :: "operation \<Rightarrow> payload_path option" where
  "operation_payload op =
     (case op of
        CreateDocument _ content \<Rightarrow> Some content
      | UpdateDocument _ _ content \<Rightarrow> Some content
      | AddAttachment _ source _ \<Rightarrow> Some source
      | _ \<Rightarrow> None)"

definition referenced_payloads :: "operation list \<Rightarrow> string list" where
  "referenced_payloads ops = map payload_str (List.map_filter operation_payload ops)"

definition attachment_names :: "operation list \<Rightarrow> string list" where
  "attachment_names ops = List.map_filter
     (\<lambda>op. case op of AddAttachment _ _ name \<Rightarrow> Some (attachment_str name) | _ \<Rightarrow> None) ops"

lemma referenced_payloads_simps [simp]:
  "referenced_payloads [] = []"
  "referenced_payloads (op # ops) =
     (case operation_payload op of None \<Rightarrow> [] | Some p \<Rightarrow> [payload_str p]) @ referenced_payloads ops"
  by (auto simp: referenced_payloads_def map_filter_simps split: option.splits)

lemma attachment_names_simps [simp]:
  "attachment_names [] = []"
  "attachment_names (op # ops) =
     (case op of AddAttachment _ _ name \<Rightarrow> [attachment_str name] | _ \<Rightarrow> []) @ attachment_names ops"
  by (auto simp: attachment_names_def map_filter_simps split: operation.splits)

lemma operation_source_Inr:
  assumes "operation_source policy available op = Inr source"
  shows "source = operation_payload op"
    and "\<And>p. source = Some p \<Longrightarrow> map_of available (payload_str p) \<noteq> None"
    and "\<And>d s n. op = AddAttachment d s n \<Longrightarrow> allows_attachment_name policy (attachment_str n)"
  using assms
  by (auto simp: operation_source_def operation_payload_def require_payload_def Let_def
      attempt_Inr_iff split: operation.splits if_splits)

lemma reference_operation_Inr:
  assumes "reference_operation policy available deadline (i, op) (bytes, refs) = Inr (bytes', refs')"
  shows "set refs' = set refs \<union> set (referenced_payloads [op])"
    and "bytes' = bytes + sum_list (map (the \<circ> map_of available) (referenced_payloads [op]))"
    and "bytes \<le> pl_maximum_total_bytes (pp_limits policy) \<Longrightarrow>
      bytes' \<le> pl_maximum_total_bytes (pp_limits policy)"
    and "list_all (allows_attachment_name policy) (attachment_names [op])"
    and "set (referenced_payloads [op]) \<subseteq> fst ` set available"
proof -
  from assms obtain source where s: "operation_source policy available op = Inr source"
    and r: "(case source of None \<Rightarrow> Inr (bytes, refs)
      | Some path \<Rightarrow> (case map_of available (payload_str path) of
          None \<Rightarrow> Inl (MissingPayload path)
        | Some byte_length \<Rightarrow>
            attempt (materialize (pl_maximum_total_bytes (pp_limits policy)) byte_length bytes)
              (\<lambda>b. Inr (b, List.insert (payload_str path) refs)))) = Inr (bytes', refs')"
    unfolding reference_operation_def fst_conv snd_conv attempt_Inr_iff by blast
  note src = operation_source_Inr [OF s]
  show "list_all (allows_attachment_name policy) (attachment_names [op])"
    using src(3) by (auto split: operation.splits)
  show "set (referenced_payloads [op]) \<subseteq> fst ` set available"
    using src(1,2) by (auto simp: map_of_eq_None_iff split: option.splits)
  have "set refs' = set refs \<union> set (referenced_payloads [op]) \<and>
    bytes' = bytes + sum_list (map (the \<circ> map_of available) (referenced_payloads [op])) \<and>
    (bytes \<le> pl_maximum_total_bytes (pp_limits policy) \<longrightarrow>
      bytes' \<le> pl_maximum_total_bytes (pp_limits policy))"
    using r src(1)
    by (auto simp: attempt_Inr_iff materialized.charge_Inr_iff split: option.splits)
  then show "set refs' = set refs \<union> set (referenced_payloads [op])"
    and "bytes' = bytes + sum_list (map (the \<circ> map_of available) (referenced_payloads [op]))"
    and "bytes \<le> pl_maximum_total_bytes (pp_limits policy) \<Longrightarrow>
      bytes' \<le> pl_maximum_total_bytes (pp_limits policy)" by blast+
qed

lemma reference_operations_Inr:
  assumes "try_fold (reference_operation policy available deadline) (List.enumerate k ops) acc
    = Inr acc'"
  shows "set (snd acc') = set (snd acc) \<union> set (referenced_payloads ops) \<and>
    fst acc' = fst acc + sum_list (map (the \<circ> map_of available) (referenced_payloads ops)) \<and>
    (fst acc \<le> pl_maximum_total_bytes (pp_limits policy) \<longrightarrow>
       fst acc' \<le> pl_maximum_total_bytes (pp_limits policy)) \<and>
    list_all (allows_attachment_name policy) (attachment_names ops) \<and>
    set (referenced_payloads ops) \<subseteq> fst ` set available"
  using assms
proof (induction ops arbitrary: k acc)
  case Nil
  then show ?case by simp
next
  case (Cons op ops)
  from Cons.prems obtain mid where
    m: "reference_operation policy available deadline (k, op) (fst acc, snd acc) = Inr (fst mid, snd mid)"
    "try_fold (reference_operation policy available deadline) (List.enumerate (Suc k) ops) mid = Inr acc'"
    by (auto simp: attempt_Inr_iff)
  from reference_operation_Inr [OF m(1)] Cons.IH [OF m(2)] show ?case
    by (auto split: option.splits)
qed

lemma validate_payload_references_Inr:
  assumes "validate_payload_references request payload policy deadline = Inr ()"
  shows "(payload_str \<circ> pm_path) ` set payload = set (referenced_payloads (cr_operations request))"
    and "sum_list (map (the \<circ> map_of (map (\<lambda>f. (payload_str (pm_path f), pm_byte_length f)) payload))
       (referenced_payloads (cr_operations request))) \<le> pl_maximum_total_bytes (pp_limits policy)"
    and "list_all (allows_attachment_name policy) (attachment_names (cr_operations request))"
proof -
  let ?available = "map (\<lambda>f. (payload_str (pm_path f), pm_byte_length f)) payload"
  from assms obtain acc where
    a: "try_fold (reference_operation policy ?available deadline)
       (List.enumerate 0 (cr_operations request)) (0, []) = Inr acc"
    and f: "find (\<lambda>file. payload_str (pm_path file) \<notin> set (snd acc)) payload = None"
    by (auto simp: validate_payload_references_def Let_def attempt_Inr_iff split: option.splits)
  note facts = reference_operations_Inr [OF a]
  show "(payload_str \<circ> pm_path) ` set payload = set (referenced_payloads (cr_operations request))"
    using f facts by (force simp: find_None_iff)
  show "sum_list (map (the \<circ> map_of ?available) (referenced_payloads (cr_operations request)))
      \<le> pl_maximum_total_bytes (pp_limits policy)"
    and "list_all (allows_attachment_name policy) (attachment_names (cr_operations request))"
    using facts by simp_all
qed

section \<open>The payload scan\<close>

lemma scan_payload_loop_rule:
  assumes "scan_payload_loop fs limits deadline n s = Inr t" and "I n s"
    and "\<And>n s current rest names entries u.
      ps_stack s = current # rest \<Longrightarrow> I n s \<Longrightarrow> read_dir fs current = Inr names \<Longrightarrow>
      entries = take (saturating_add_u64 (pl_maximum_entry_count limits - n) 1) names \<Longrightarrow>
      length entries \<le> pl_maximum_entry_count limits - n \<Longrightarrow>
      try_fold (scan_payload_entry fs limits deadline current) (sort entries) (s\<lparr>ps_stack := rest\<rparr>) = Inr u
      \<Longrightarrow> I (n + length entries) u"
  shows "\<exists>m. I m t \<and> ps_stack t = []"
  using assms
proof (induction fs limits deadline n s rule: scan_payload_loop.induct)
  case (1 fs limits deadline n s)
  show ?case
  proof (cases "ps_stack s")
    case Nil
    with "1.prems"(1,2) show ?thesis by (auto simp: scan_payload_loop.simps)
  next
    case (Cons current rest)
    let ?entries = "\<lambda>names. take (saturating_add_u64 (pl_maximum_entry_count limits - n) 1) names"
    note run = "1.prems"(1) [unfolded scan_payload_loop.simps [of fs limits deadline n s] Cons
        list.case Let_def attempt_Inr_iff if_Inl_eq_Inr map_err_Inr_iff]
    from run obtain names u where
      a: "ensure_operation_active deadline (AtDirectory current) = Inr ()"
      and d: "read_dir fs current = Inr names"
      and len: "\<not> pl_maximum_entry_count limits - n < length (?entries names)"
      and u: "try_fold (scan_payload_entry fs limits deadline current)
        (sort (?entries names)) (s\<lparr>ps_stack := rest\<rparr>) = Inr u"
      and r: "scan_payload_loop fs limits deadline (n + length (?entries names)) u = Inr t"
      by auto
    have "map_err PackageIo (read_dir fs current) = Inr names" using d by simp
    from "1.IH" [OF Cons a this refl refl len u r
        "1.prems"(3) [OF Cons "1.prems"(2) d refl len [unfolded not_less] u] "1.prems"(3)]
    show ?thesis .
  qed
qed

definition entry_name :: "path \<Rightarrow> string" where
  "entry_name p = join_with (CHR ''/'') (drop 1 p)"

text \<open>The two ways one directory entry is accepted.\<close>

lemma scan_payload_entry_cases:
  assumes "scan_payload_entry fs limits deadline current name s = Inr t"
  obtains (directory) path where "symlink_metadata fs (current @ [name]) = Inr Dir"
      "t = s\<lparr>ps_directories := ps_directories s @ [(drop 1 (current @ [name]), path)],
              ps_stack := (current @ [name]) # ps_stack s\<rparr>"
    | (regular) bytes mode nlink f where
      "symlink_metadata fs (current @ [name]) = Inr (File bytes mode nlink)"
      "payload_str (pm_path f) = entry_name (current @ [name])"
      "payload_path_from_str (payload_str (pm_path f)) = Inr (pm_path f)"
      "pm_byte_length f = length bytes" "length bytes \<le> pl_maximum_file_bytes limits"
      "ps_files t = ps_files s @ [f]" "ps_stack t = ps_stack s"
      "ps_total_bytes t = ps_total_bytes s + length bytes"
      "ps_file_count t = ps_file_count s + 1"
      "ps_total_bytes t \<le> pl_maximum_total_bytes limits"
      "ps_file_count t \<le> pl_maximum_file_count limits"
proof -
  let ?p = "current @ [name]"
  from assms obtain metadata path where
    m: "symlink_metadata fs ?p = Inr metadata"
    and p: "payload_path_from_str (entry_name ?p) = Inr path"
    and rest: "(if metadata = Dir then
          if length (ps_directories s) + 1 > u64_max
            then Inl (LimitExceededBy DirectoryCount (pl_maximum_directory_count limits) u64_max)
          else if length (ps_directories s) + 1 > pl_maximum_directory_count limits
            then Inl (LimitExceededBy DirectoryCount (pl_maximum_directory_count limits)
              (length (ps_directories s) + 1))
          else Inr (s\<lparr>ps_directories := ps_directories s @ [(drop 1 ?p, path)],
                       ps_stack := ?p # ps_stack s\<rparr>)
        else
      attempt (validate_regular_file metadata (PAYLOAD_DIRECTORY_NAME # drop 1 ?p)) (\<lambda>_.
      attempt (enforce_file_size (node_length metadata) (pl_maximum_file_bytes limits)
                 (payload_str path)) (\<lambda>_.
      attempt (ok_or (LimitExceededBy TotalBytes (pl_maximum_total_bytes limits) u64_max)
                 (checked_add_u64 (ps_total_bytes s) (node_length metadata))) (\<lambda>total_bytes.
      attempt (ok_or (LimitExceededBy FileCount (pl_maximum_file_count limits) u64_max)
                 (checked_add_u64 (ps_file_count s) 1)) (\<lambda>file_count.
      attempt (enforce_totals total_bytes file_count limits) (\<lambda>_.
        Inr (s\<lparr>ps_total_bytes := total_bytes, ps_file_count := file_count,
               ps_nonempty_directories :=
                 ps_nonempty_directories s @ drop 1 (strict_prefixes (drop 1 ?p)),
               ps_files := ps_files s @
                 [\<lparr>pm_path = path, pm_byte_length = node_length metadata,
                   pm_revision = Revision (replicate 32 0)\<rparr>]\<rparr>))))))) = Inr t"
    unfolding scan_payload_entry_def Let_def attempt_Inr_iff if_Inl_eq_Inr map_err_Inr_iff
      entry_name_def by auto
  show thesis
  proof (cases "metadata = Dir")
    case True
    with rest m show thesis by (auto intro: directory split: if_splits)
  next
    case False
    with rest obtain bytes mode nlink where n: "metadata = File bytes mode nlink"
      by (cases metadata) (auto simp: validate_regular_file_def)
    let ?f = "\<lparr>pm_path = path, pm_byte_length = length bytes, pm_revision = Revision (replicate 32 0)\<rparr>"
    have "payload_str (pm_path ?f) = entry_name ?p"
      using p payload_text.from_str_canonical by simp
    moreover have "payload_path_from_str (payload_str (pm_path ?f)) = Inr (pm_path ?f)"
      using p payload_text.reparse by simp
    ultimately show thesis
      by (rule regular [OF m [unfolded n], of ?f])
        (use rest n in \<open>auto simp: attempt_Inr_iff enforce_file_size_def enforce_totals_def
          node_length_def split: if_splits\<close>)
  qed
qed

definition scan_totals_ok :: "package_limits \<Rightarrow> nat \<Rightarrow> payload_scan \<Rightarrow> bool" where
  "scan_totals_ok limits base s \<longleftrightarrow>
     ps_total_bytes s = base + sum_list (map pm_byte_length (ps_files s)) \<and>
     ps_file_count s = 1 + length (ps_files s) \<and>
     ps_total_bytes s \<le> pl_maximum_total_bytes limits \<and>
     ps_file_count s \<le> pl_maximum_file_count limits \<and>
     (\<forall>f\<in>set (ps_files s). pm_byte_length f \<le> pl_maximum_file_bytes limits)"

lemma scan_totals_entry:
  assumes "scan_payload_entry fs limits deadline current name s = Inr t"
    and "scan_totals_ok limits base s"
  shows "scan_totals_ok limits base t"
  using assms(1)
proof (cases rule: scan_payload_entry_cases)
  case directory
  with assms(2) show ?thesis by (simp add: scan_totals_ok_def)
next
  case regular
  with assms(2) show ?thesis by (auto simp: scan_totals_ok_def)
qed

lemma scan_payload_directory_totals:
  assumes "scan_payload_directory fs limits base 1 deadline = Inr s"
    and "base \<le> pl_maximum_total_bytes limits" and "1 \<le> pl_maximum_file_count limits"
  shows "scan_totals_ok limits base s"
proof -
  let ?init = "\<lparr>ps_directories = [], ps_nonempty_directories = [], ps_total_bytes = base,
    ps_file_count = 1, ps_files = [], ps_stack = [[PAYLOAD_DIRECTORY_NAME]]\<rparr>"
  have run: "scan_payload_loop fs limits deadline 1 ?init = Inr s"
    using assms(1) by (auto simp: scan_payload_directory_def attempt_Inr_iff split: option.splits)
  have "\<exists>m::nat. scan_totals_ok limits base s \<and> ps_stack s = []"
  proof (rule scan_payload_loop_rule [OF run, where I = "\<lambda>_. scan_totals_ok limits base"])
    show "scan_totals_ok limits base ?init" using assms(2,3) by (simp add: scan_totals_ok_def)
  next
    fix u current rest entries v
    assume "scan_totals_ok limits base u"
      "try_fold (scan_payload_entry fs limits deadline current) (sort entries)
        (u\<lparr>ps_stack := rest\<rparr>) = Inr v"
    then show "scan_totals_ok limits base v"
      by (elim try_fold_invariant) (simp add: scan_totals_ok_def, rule scan_totals_entry)
  qed
  then show ?thesis by blast
qed

text \<open>Every entry below \<open>payload/\<close> is below a directory still to visit, is a directory, or
  is a listed file: the frontier invariant of the scan.\<close>

definition listed :: "payload_scan \<Rightarrow> path \<Rightarrow> bool" where
  "listed s p \<longleftrightarrow> (\<exists>f\<in>set (ps_files s). payload_str (pm_path f) = entry_name p)"

definition scan_frontier :: "fs \<Rightarrow> payload_scan \<Rightarrow> bool" where
  "scan_frontier fs s \<longleftrightarrow>
     (\<forall>p. prefix [PAYLOAD_DIRECTORY_NAME] p \<longrightarrow> lookup fs p \<noteq> None \<longrightarrow>
        (\<exists>d\<in>set (ps_stack s). prefix d p) \<or> lookup fs p = Some Dir \<or> listed s p)"

lemma scan_payload_entries_handled:
  assumes "try_fold (scan_payload_entry fs limits deadline current) names s = Inr t" and "wf_fs fs"
  shows "set (ps_stack s) \<subseteq> set (ps_stack t) \<and> set (ps_files s) \<subseteq> set (ps_files t) \<and>
    (\<forall>c\<in>set names. current @ [c] \<in> set (ps_stack t) \<or>
       (\<exists>b m l. lookup fs (current @ [c]) = Some (File b m l)) \<and> listed t (current @ [c]))"
  using assms(1)
proof (induction names arbitrary: s)
  case Nil
  then show ?case by simp
next
  case (Cons c names)
  from Cons.prems obtain u where u: "scan_payload_entry fs limits deadline current c s = Inr u"
    "try_fold (scan_payload_entry fs limits deadline current) names u = Inr t"
    by (auto simp: attempt_Inr_iff)
  have "set (ps_stack s) \<subseteq> set (ps_stack u) \<and> set (ps_files s) \<subseteq> set (ps_files u) \<and>
      (current @ [c] \<in> set (ps_stack u) \<or>
       (\<exists>b m l. lookup fs (current @ [c]) = Some (File b m l)) \<and> listed u (current @ [c]))"
    using u(1)
  proof (cases rule: scan_payload_entry_cases)
    case directory
    then show ?thesis by auto
  next
    case regular
    with assms(2) show ?thesis by (auto simp: listed_def symlink_metadata_ok_iff)
  qed
  with Cons.IH [OF u(2)] show ?case by (auto simp: listed_def)
qed

lemma scan_frontier_step:
  assumes wf: "wf_fs fs" and inv: "scan_frontier fs s" and stack: "ps_stack s = current # rest"
    and dir: "read_dir fs current = Inr names"
    and run: "try_fold (scan_payload_entry fs limits deadline current) (sort names)
      (s\<lparr>ps_stack := rest\<rparr>) = Inr t"
  shows "scan_frontier fs t"
  unfolding scan_frontier_def
proof (intro allI impI)
  fix p
  assume p: "prefix [PAYLOAD_DIRECTORY_NAME] p" "lookup fs p \<noteq> None"
  note h = scan_payload_entries_handled [OF run wf]
  have cur: "lookup fs current = Some Dir" and names: "names = children fs current"
    using dir wf by (auto simp: read_dir_Inr_iff symlink_metadata_ok_iff)
  consider (rest) d where "d \<in> set rest" "prefix d p" | (current) "prefix current p"
    | (handled) "lookup fs p = Some Dir \<or> listed s p"
    using inv p stack by (auto simp: scan_frontier_def)
  then show "(\<exists>d\<in>set (ps_stack t). prefix d p) \<or> lookup fs p = Some Dir \<or> listed t p"
  proof cases
    case rest
    with h show ?thesis by auto
  next
    case handled
    with h show ?thesis by (auto simp: listed_def)
  next
    case current
    show ?thesis
    proof (cases "p = current")
      case True
      with cur show ?thesis by simp
    next
      case False
      with current obtain c q where pq: "p = (current @ [c]) @ q"
        by (metis append.assoc append_Cons append_Nil neq_Nil_conv prefixE self_append_conv)
      have c: "lookup fs (current @ [c]) \<noteq> None"
        using wf_fs_prefix [OF wf, of "current @ [c]" q] p(2) pq by (cases "q = []") auto
      then have "c \<in> set (sort names)" using wf by (simp add: names children_iff wf_fs_def)
      with h consider "current @ [c] \<in> set (ps_stack t)"
        | "\<exists>b m l. lookup fs (current @ [c]) = Some (File b m l)" "listed t (current @ [c])" by blast
      then show ?thesis
      proof cases
        case 1
        moreover have "prefix (current @ [c]) p" using pq by (rule prefixI)
        ultimately show ?thesis by blast
      next
        case 2
        then have "q = []" using wf_fs_prefix [OF wf, of "current @ [c]" q] p(2) pq by force
        with 2 pq show ?thesis by simp
      qed
    qed
  qed
qed

lemma scan_payload_directory_complete:
  assumes "scan_payload_directory fs limits base 1 deadline = Inr s" and wf: "wf_fs fs"
    and "pl_maximum_entry_count limits \<le> u64_max"
    and "lookup fs (PAYLOAD_DIRECTORY_NAME # p) = Some n"
  shows "n = Dir \<or> listed s (PAYLOAD_DIRECTORY_NAME # p)"
proof -
  let ?init = "\<lparr>ps_directories = [], ps_nonempty_directories = [], ps_total_bytes = base,
    ps_file_count = 1, ps_files = [], ps_stack = [[PAYLOAD_DIRECTORY_NAME]]\<rparr>"
  have run: "scan_payload_loop fs limits deadline 1 ?init = Inr s"
    using assms(1) by (auto simp: scan_payload_directory_def attempt_Inr_iff split: option.splits)
  have "\<exists>m::nat. (1 \<le> m \<and> scan_frontier fs s) \<and> ps_stack s = []"
  proof (rule scan_payload_loop_rule [OF run, where I = "\<lambda>m s. 1 \<le> m \<and> scan_frontier fs s"])
    show "1 \<le> (1::nat) \<and> scan_frontier fs ?init" by (auto simp: scan_frontier_def)
  next
    fix m u current rest names entries v
    assume a: "ps_stack u = current # rest" "1 \<le> m \<and> scan_frontier fs u" "read_dir fs current = Inr names"
      "entries = take (saturating_add_u64 (pl_maximum_entry_count limits - m) 1) names"
      "length entries \<le> pl_maximum_entry_count limits - m"
      "try_fold (scan_payload_entry fs limits deadline current) (sort entries)
        (u\<lparr>ps_stack := rest\<rparr>) = Inr v"
    have "entries = names"
      using a(2,4,5) assms(3) by (auto simp: saturating_add_u64_def min_def u64_max_def split: if_splits)
    with scan_frontier_step [OF wf _ a(1,3)] a(2,6) show "1 \<le> m + length entries \<and> scan_frontier fs v"
      by simp
  qed
  then have "scan_frontier fs s" "ps_stack s = []" by blast+
  moreover have "prefix [PAYLOAD_DIRECTORY_NAME] (PAYLOAD_DIRECTORY_NAME # p)" by simp
  ultimately show ?thesis using assms(4) unfolding scan_frontier_def by fastforce
qed

section \<open>Validated packages\<close>

lemma validate_package_contents_Inr:
  assumes "validate_package_contents ex fs policy deadline = Inr pkg"
  obtains request_bytes scan canonical where
    "enforce_totals (length request_bytes) 1 (pp_limits policy) = Inr ()"
    "read_limited_file_until fs [REQUEST_FILE_NAME] (pl_maximum_file_bytes (pp_limits policy))
       deadline = Inr request_bytes"
    "decode_json (ex_request_from_json ex) request_bytes = Inr (vp_request pkg)"
    "validate_request (vp_request pkg) (pl_request (pp_limits policy)) = Inr ()"
    "scan_payload_directory fs (pp_limits policy) (length request_bytes) 1 deadline = Inr scan"
    "validate_payload_references (vp_request pkg)
       (sort_key (\<lambda>f. payload_str (pm_path f)) (ps_files scan)) policy deadline = Inr ()"
    "validate_documents ex fs (vp_request pkg) (pl_document (pp_limits policy))
       (pl_maximum_front_matter_bytes (pp_limits policy)) = Inr ()"
    "ex_request_to_json ex (vp_request pkg) = Inr canonical"
    "calculate_digest ex canonical fs (sort_key (\<lambda>f. payload_str (pm_path f)) (ps_files scan))
       deadline = Inr (vp_digest pkg, vp_payload pkg)"
    "vp_acceptance pkg = None"
  using assms unfolding validate_package_contents_def Let_def attempt_Inr_iff map_err_Inr_iff
  by (auto simp: attempt_Inr_iff)

lemma calculate_digest_payload:
  assumes "calculate_digest ex canonical fs payload deadline = Inr (digest, payload')"
  shows "map pm_path payload' = map pm_path payload"
    and "map pm_byte_length payload' = map pm_byte_length payload"
    and "f \<in> set payload' \<Longrightarrow> \<exists>bytes.
      read_file fs (payload_fs_path (payload_str (pm_path f))) = Inr bytes \<and>
      length bytes = pm_byte_length f \<and> pm_revision f = revision_of ex bytes"
proof -
  from calculate_digest_Inr [OF assms] obtain contents where
    c: "length contents = length payload"
    "\<forall>i<length payload.
       read_file fs (payload_fs_path (payload_str (pm_path (payload ! i)))) = Inr (contents ! i) \<and>
       length (contents ! i) = pm_byte_length (payload ! i)"
    "payload' = map2 (\<lambda>f c. f\<lparr>pm_revision := revision_of ex c\<rparr>) payload contents" by blast
  show "map pm_path payload' = map pm_path payload"
    "map pm_byte_length payload' = map pm_byte_length payload"
    using c(1,3) by (auto intro!: nth_equalityI)
  show "\<exists>bytes. read_file fs (payload_fs_path (payload_str (pm_path f))) = Inr bytes \<and>
      length bytes = pm_byte_length f \<and> pm_revision f = revision_of ex bytes" if "f \<in> set payload'"
    using that c by (auto simp: in_set_conv_nth)
qed

lemma image_eq_of_map_eq: "map f xs = map f ys \<Longrightarrow> (g \<circ> f) ` set xs = (g \<circ> f) ` set ys"
  by (metis image_comp image_set)

lemma pair_map_eq:
  assumes "map f xs = map f ys" and "map g xs = map g ys"
  shows "map (\<lambda>x. (h (f x), g x)) xs = map (\<lambda>x. (h (f x), g x)) ys"
proof -
  have "map (\<lambda>x. (h (f x), g x)) zs = zip (map h (map f zs)) (map g zs)" for zs
    by (induction zs) simp_all
  with assms show ?thesis by metis
qed

section \<open>Deadlines\<close>

abbreviation package_cut :: "package_validation_error + 'a \<Rightarrow> package_validation_error + 'a \<Rightarrow> bool" where
  "package_cut \<equiv> cut_short PackageTimedOut"

lemma ensure_operation_active_cut:
  "package_cut (ensure_operation_active deadline at) (ensure_operation_active None at)"
  by (auto simp: ensure_operation_active_def cut_short_def split: option.splits)

lemmas package_cut_intros = cut_short_attempt cut_short_refl cut_short_branch cut_short_read_loop
  cut_short_try_fold ensure_operation_active_cut

lemma read_limited_file_cut:
  "package_cut (read_limited_file_until fs path maximum deadline)
     (read_limited_file_until fs path maximum None)"
  unfolding read_limited_file_until_def by (intro package_cut_intros)

lemma validate_package_root_cut:
  "package_cut (validate_package_root fs accepted deadline) (validate_package_root fs accepted None)"
  unfolding validate_package_root_def check_root_entry_def Let_def by (intro package_cut_intros)

lemma scan_payload_entry_cut:
  "package_cut (scan_payload_entry fs limits deadline current name s)
     (scan_payload_entry fs limits None current name s)"
  unfolding scan_payload_entry_def Let_def by (intro package_cut_intros)

lemma scan_payload_loop_cut:
  "package_cut (scan_payload_loop fs limits deadline entry_count s)
     (scan_payload_loop fs limits None entry_count s)"
proof (induction fs limits "None :: deadline" entry_count s rule: scan_payload_loop.induct)
  case (1 fs limits entry_count s)
  show ?case
  proof (cases "ps_stack s")
    case Nil
    then show ?thesis by (simp add: scan_payload_loop.simps)
  next
    case (Cons current rest)
    show ?thesis
      unfolding scan_payload_loop.simps [of fs limits deadline entry_count s]
        scan_payload_loop.simps [of fs limits None entry_count s] Cons list.case Let_def
      by (intro package_cut_intros scan_payload_entry_cut "1" [OF Cons]) simp_all
  qed
qed

lemma scan_payload_directory_cut:
  "package_cut (scan_payload_directory fs limits total_bytes file_count deadline)
     (scan_payload_directory fs limits total_bytes file_count None)"
  unfolding scan_payload_directory_def by (intro package_cut_intros scan_payload_loop_cut)

lemma validate_payload_references_cut:
  "package_cut (validate_payload_references request payload policy deadline)
     (validate_payload_references request payload policy None)"
  unfolding validate_payload_references_def Let_def reference_operation_def
  by (intro package_cut_intros)

lemma calculate_digest_cut:
  "package_cut (calculate_digest ex canonical fs payload deadline)
     (calculate_digest ex canonical fs payload None)"
  unfolding calculate_digest_def digest_file_def Let_def by (intro package_cut_intros)

lemma validate_package_contents_cut:
  "package_cut (validate_package_contents ex fs policy deadline)
     (validate_package_contents ex fs policy None)"
  unfolding validate_package_contents_def Let_def
  by (intro package_cut_intros read_limited_file_cut scan_payload_directory_cut
      validate_payload_references_cut calculate_digest_cut)

lemma validate_package_cut:
  "package_cut (validate_package_until ex fs policy deadline) (validate_package_until ex fs policy None)"
  unfolding validate_package_until_def
  by (intro package_cut_intros validate_package_root_cut validate_package_contents_cut)

section \<open>A package that validates\<close>

definition sample_acceptance :: acceptance_metadata where
  "sample_acceptance = \<lparr>am_sequence = 1, am_accepted_at = sample_datetime\<lparr>dt_instant := 0\<rparr>, am_client_id = None\<rparr>"

definition sample_externals :: externals where
  "sample_externals = \<lparr>ex_request_from_json = (\<lambda>_. Inr sample_wire),
     ex_request_to_json = (\<lambda>_. Inr ''{}''), ex_acceptance_from_json = (\<lambda>_. Inr sample_acceptance),
     ex_yaml_decode = (\<lambda>_ _. Inr sample_metadata), ex_yaml_encode = (\<lambda>_. Inr ''a''),
     ex_sha256 = map (\<lambda>c. of_nat (of_char c)), ex_ulid_show = (\<lambda>u. show_nat (unat u))\<rparr>"

definition sample_payload :: "nat \<Rightarrow> payload_metadata list" where
  "sample_payload n = [\<lparr>pm_path = PayloadPath ''a'', pm_byte_length = n,
     pm_revision = Revision []\<rparr>]"

definition sample_package :: "string \<Rightarrow> fs" where
  "sample_package bytes = [([], Dir), ([''payload''], Dir), ([''payload'', ''a''], new_file bytes)]"

lemma sample_package_reads:
  "read_file (sample_package bytes) (payload_fs_path ''a'') = Inr bytes"
  by (simp add: sample_package_def read_file_def symlink_metadata_def resolve_parent_def
      strict_prefixes_def payload_fs_path_def PAYLOAD_DIRECTORY_NAME_def lookup_def new_file_def
      upt_rec)

lemma sample_digest:
  assumes "length bytes = n"
  shows "\<exists>d files. calculate_digest sample_externals ''{}'' (sample_package bytes)
    (sample_payload n) None = Inr (d, files)"
  using assms by (simp add: calculate_digest_def Let_def sample_payload_def digest_file_def
      ensure_operation_active_def sample_package_reads read_loop_total)

lemma inj_byte: "inj (\<lambda>c. of_nat (of_char c) :: 8 word)"
proof (rule injI)
  fix c d :: char
  assume eq: "(of_nat (of_char c) :: 8 word) = of_nat (of_char d)"
  have "(of_char x :: nat) < 256" for x :: char by simp
  then have "unat (of_nat (of_char x) :: 8 word) = of_char x" for x :: char
    by (subst unat_of_nat) simp
  with eq have "(of_char c :: nat) = of_char d" by metis
  then show "c = d" by simp
qed

definition plain_metadata :: document_metadata where
  "plain_metadata = sample_metadata\<lparr>md_node := None, md_agent := None, md_session := None\<rparr>"

definition valid_externals :: externals where
  "valid_externals = sample_externals\<lparr>ex_yaml_decode := (\<lambda>_ _. Inr plain_metadata),
     ex_sha256 := (\<lambda>s. take 32 (map (\<lambda>c. of_nat (of_char c)) s @ replicate 32 0))\<rparr>"

definition sample_document :: string where
  "sample_document = ''---'' @ [lf] @ ''---'' @ [lf]"

definition valid_package :: fs where
  "valid_package = [([], Dir), ([''request.json''], new_file ''{}''), ([''payload''], Dir),
     ([''payload'', ''a.md''], new_file sample_document)]"

definition sample_policy :: package_policy where
  "sample_policy = \<lparr>pp_limits = default_package_limits,
     pp_allowed_attachment_extensions = default_extensions\<rparr>"

definition decoded_request :: change_request where
  "decoded_request = \<lparr>cr_protocol_version = 1, cr_request_id = RequestId 1, cr_title = ''t'',
       cr_project = Some (ProjectId ''demo''), cr_document_type = Runbook, cr_node = None,
       cr_agent = None, cr_session = None, cr_created_at = sample_datetime,
       cr_operations = [CreateDocument (DocumentId 2) (PayloadPath ''a.md'')]\<rparr>"

lemmas file_names = REQUEST_FILE_NAME_def PAYLOAD_DIRECTORY_NAME_def DIGEST_FILE_NAME_def
  ACCEPTANCE_FILE_NAME_def PHASE_FILE_NAME_def RESULT_FILE_NAME_def

lemma valid_package_root: "validate_package_root valid_package False None = Inr ()"
  by code_simp

text \<open>A tree that holds the files of the package, perhaps among others.\<close>

definition holds_package :: "fs \<Rightarrow> bool" where
  "holds_package fs \<longleftrightarrow> symlink_metadata fs [''request.json''] = Inr (new_file ''{}'') \<and>
     symlink_metadata fs [''payload'', ''a.md''] = Inr (new_file sample_document) \<and>
     symlink_metadata fs [''payload''] = Inr Dir \<and> children fs [''payload''] = [''a.md'']"

lemma valid_package_held: "holds_package valid_package"
  by code_simp

lemma valid_package_lookups:
  assumes "holds_package fs"
  shows "symlink_metadata fs [''request.json''] = Inr (new_file ''{}'')"
    and "symlink_metadata fs [''payload'', ''a.md''] = Inr (new_file sample_document)"
    and "symlink_metadata fs [''payload''] = Inr Dir"
    and "read_file fs [''request.json''] = Inr ''{}''"
    and "read_file fs [''payload'', ''a.md''] = Inr sample_document"
    and "read_dir fs [''payload''] = Inr [''a.md'']"
    and "read_file fs (payload_fs_path ''a.md'') = Inr sample_document"
proof -
  have "payload_fs_path ''a.md'' = [''payload'', ''a.md'']" by code_simp
  then show "symlink_metadata fs [''request.json''] = Inr (new_file ''{}'')"
    "symlink_metadata fs [''payload'', ''a.md''] = Inr (new_file sample_document)"
    "symlink_metadata fs [''payload''] = Inr Dir" "read_file fs [''request.json''] = Inr ''{}''"
    "read_file fs [''payload'', ''a.md''] = Inr sample_document" "read_dir fs [''payload''] = Inr [''a.md'']"
    "read_file fs (payload_fs_path ''a.md'') = Inr sample_document"
    using assms by (simp_all add: holds_package_def read_file_def read_dir_def new_file_def)
qed

lemma valid_request_read:
  "holds_package fs \<Longrightarrow> read_limited_file_until fs [''request.json''] (32 * 1024 * 1024) None = Inr ''{}''"
  by (simp add: read_limited_file_until_def valid_package_lookups ensure_operation_active_def
      enforce_file_size_def read_loop_total node_length_def new_file_def saturating_add_u64_def
      u64_max_def)

lemma valid_decoded:
  "decode_json (ex_request_from_json valid_externals) ''{}'' = Inr decoded_request"
  by code_simp

lemma valid_scan:
  "holds_package fs \<Longrightarrow> \<exists>s. scan_payload_directory fs default_package_limits 2 1 None = Inr s \<and>
    ps_files s = [\<lparr>pm_path = PayloadPath ''a.md'', pm_byte_length = 8,
      pm_revision = Revision (replicate 32 0)\<rparr>]"
proof -
  assume held: "holds_package fs"
  have p: "payload_path_from_str ''a.md'' = Inr (PayloadPath ''a.md'')" by code_simp
  have u: "is_utf8 ''a.md''" by code_simp
  show ?thesis
  by (simp add: scan_payload_directory_def scan_payload_loop.simps file_names valid_package_lookups [OF held]
      ensure_operation_active_def saturating_add_u64_def u64_max_def
      scan_payload_entry_def p u enforce_path_components_def validate_regular_file_def new_file_def
      enforce_file_size_def node_length_def enforce_totals_def default_package_limits_def sample_document_def
      checked_add_u64_def strict_prefixes_def
      cong: attempt_weak_cong)
qed

lemma decoded_request_valid: "validate_request decoded_request default_request_limits = Inr ()"
  by (simp add: validate_request_def decoded_request_def default_request_limits_def text_eval
      check_created_def CURRENT_PROTOCOL_VERSION_def validate_optional_metadata_def)

lemma valid_references:
  "validate_payload_references decoded_request [\<lparr>pm_path = PayloadPath ''a.md'', pm_byte_length = 8,
      pm_revision = Revision (replicate 32 0)\<rparr>] sample_policy None = Inr ()"
proof -
  have e: "path_extension [''a.md''] = Some ''md''" by code_simp
  show ?thesis
    by (simp add: validate_payload_references_def Let_def decoded_request_def reference_operation_def
      operation_source_def e require_payload_def materialize_def ensure_operation_active_def
      checked_add_u64_def u64_max_def sample_policy_def default_package_limits_def)
qed

lemma sample_document_length: "length sample_document = 8"
  by (simp add: sample_document_def)

lemma sample_document_decodes:
  "decode_document_metadata (ex_yaml_decode valid_externals) sample_document n = Inr plain_metadata"
proof -
  have "is_utf8 sample_document" by code_simp
  moreover have "strip_opening sample_document = (Inr (''---'' @ [lf]) :: string document_parse_error + _)"
    by code_simp
  moreover have "is_delimiter (''---'' @ [lf])" "split_inclusive lf (''---'' @ [lf]) = [''---'' @ [lf]]"
    by code_simp+
  ultimately show ?thesis
    by (simp add: decode_document_metadata_def extract_front_matter_def valid_externals_def)
qed

lemma plain_metadata_valid:
  "t \<noteq> Log \<Longrightarrow> validate_metadata plain_metadata t default_document_limits = Inr ()"
  by (simp add: validate_metadata_def validate_common_def plain_metadata_def sample_metadata_def
        default_document_limits_def text_eval validate_text_def validate_optional_text_def
        check_tag_def CURRENT_DOCUMENT_SCHEMA_VERSION_def)

lemma valid_documents:
  "holds_package fs \<Longrightarrow> validate_documents valid_externals fs decoded_request default_document_limits n = Inr ()"
proof -
  assume "holds_package fs"
  note r = valid_package_lookups(7) [OF this]
  show ?thesis
    by (simp add: validate_documents_def decoded_request_def validate_document_operation_def Let_def
      parse_document_def r sample_document_decodes plain_metadata_valid
      validate_optional_request_metadata_def validate_operation_metadata_def,
      simp add: plain_metadata_def sample_metadata_def)
qed

definition valid_result :: validated_package where
  "valid_result = \<lparr>vp_request = decoded_request,
     vp_digest = PackageDigest (revision_of valid_externals
       (digest_preimage ''{}'' [(''a.md'', sample_document)])),
     vp_payload = [\<lparr>pm_path = PayloadPath ''a.md'', pm_byte_length = 8,
       pm_revision = revision_of valid_externals sample_document\<rparr>],
     vp_acceptance = None\<rparr>"

lemma valid_digest:
  "holds_package fs \<Longrightarrow> calculate_digest valid_externals ''{}'' fs [\<lparr>pm_path = PayloadPath ''a.md'',
      pm_byte_length = 8, pm_revision = Revision (replicate 32 0)\<rparr>] None
   = Inr (vp_digest valid_result, vp_payload valid_result)"
proof -
  assume "holds_package fs"
  note r = valid_package_lookups(7) [OF this]
  have l: "length sample_document = 8" by (simp add: sample_document_def)
  show ?thesis
    by (simp add: calculate_digest_def Let_def digest_file_def ensure_operation_active_def r l
        read_loop_total valid_result_def digest_preimage_def file_preimage_pair hash_bytes_def
        hash_length_prefixed_def)
qed

lemma valid_contents:
  assumes held: "holds_package fs"
  shows "validate_package_contents valid_externals fs sample_policy None = Inr valid_result"
proof -
  from valid_scan [OF held] obtain s where
    s: "scan_payload_directory fs default_package_limits 2 1 None = Inr s"
    "ps_files s = [\<lparr>pm_path = PayloadPath ''a.md'', pm_byte_length = 8,
      pm_revision = Revision (replicate 32 0)\<rparr>]" by blast
  have j: "ex_request_to_json valid_externals decoded_request = Inr ''{}''"
    by (simp add: valid_externals_def sample_externals_def)
  have e: "length ''{}'' = 2" by simp
  have lim: "pp_limits sample_policy = default_package_limits"
    "pl_maximum_file_bytes default_package_limits = 32 * 1024 * 1024"
    "pl_request default_package_limits = default_request_limits"
    "pl_document default_package_limits = default_document_limits"
    by (simp_all add: sample_policy_def default_package_limits_def)
  have t: "enforce_totals 2 1 default_package_limits = Inr ()"
    "enforce_entry_count 1 default_package_limits = Inr ()"
    by (simp_all add: enforce_totals_def enforce_entry_count_def default_package_limits_def)
  show ?thesis
    unfolding validate_package_contents_def Let_def
    by (simp only: attempt_simps lim REQUEST_FILE_NAME_def valid_request_read [OF held] e t valid_decoded
        map_err_simps decoded_request_valid s sort_key_simps valid_references valid_documents [OF held] j
        valid_digest [OF held] ensure_operation_active_def option.case prod.case insort_key.simps)
      (simp add: valid_result_def)
qed

lemma valid_package_validates:
  "validate_package_until valid_externals valid_package sample_policy None = Inr valid_result"
  by (simp add: validate_package_until_def valid_package_root valid_contents [OF valid_package_held])

section \<open>Properties\<close>

text \<open>C20: a package digest binds the whole package: two packages have the same digest exactly if
  their canonical requests, payload paths and payload bytes are the same, provided SHA-256 does
  not collide on the two byte strings hashed. The encoding itself admits no confusion.\<close>

theorem calculate_digest_binds_content:
  assumes "calculate_digest ex r fs payload dl = Inr (digest, files)"
    and "calculate_digest ex s gs payload' dl' = Inr (digest', files')"
    and "length r \<le> u64_max" "length payload \<le> u64_max"
      "list_all encodable (payload_contents fs payload)"
    and "length s \<le> u64_max" "length payload' \<le> u64_max"
      "list_all encodable (payload_contents gs payload')"
    and no_collision: "inj_on (ex_sha256 ex)
      {digest_preimage r (payload_contents fs payload), digest_preimage s (payload_contents gs payload')}"
  shows "digest = digest' \<longleftrightarrow> r = s \<and> payload_contents fs payload = payload_contents gs payload'"
proof -
  let ?a = "payload_contents fs payload" and ?b = "payload_contents gs payload'"
  have "ex_sha256 ex (digest_preimage r ?a) = ex_sha256 ex (digest_preimage s ?b) \<longleftrightarrow>
      digest_preimage r ?a = digest_preimage s ?b"
    by (rule inj_on_eq_iff [OF no_collision]) simp_all
  then have "digest = digest' \<longleftrightarrow> digest_preimage r ?a = digest_preimage s ?b"
    unfolding calculate_digest_payload_contents [OF assms(1)]
      calculate_digest_payload_contents [OF assms(2)] revision_of_def by simp
  moreover have "length ?a \<le> u64_max" "length ?b \<le> u64_max"
    using assms(4,7) by (simp_all add: payload_contents_def)
  ultimately show ?thesis
    using digest_preimage_inject [OF assms(3,6) _ _ assms(5,8)] by metis
qed

theorem calculate_digest_binds_content_witness:
  "\<exists>d e files files'.
     calculate_digest sample_externals ''{}'' (sample_package ''x'') (sample_payload 1) None
       = Inr (d, files) \<and>
     calculate_digest sample_externals ''{}'' (sample_package ''yz'') (sample_payload 2) None
       = Inr (e, files') \<and> d \<noteq> e"
proof -
  obtain d files where a: "calculate_digest sample_externals ''{}'' (sample_package ''x'')
      (sample_payload 1) None = Inr (d, files)" using sample_digest [of "''x''" 1] by auto
  obtain e files' where b: "calculate_digest sample_externals ''{}'' (sample_package ''yz'')
      (sample_payload 2) None = Inr (e, files')" using sample_digest [of "''yz''" 2] by auto
  have c: "payload_contents (sample_package w) (sample_payload n) = [(''a'', w)]" for w n
    by (simp add: payload_contents_def sample_payload_def sample_package_reads)
  have "inj (ex_sha256 sample_externals)"
    using inj_byte by (simp add: sample_externals_def inj_mapI)
  then have i: "inj_on (ex_sha256 sample_externals) S" for S by (rule inj_on_subset) simp
  have l: "length (sample_payload n) = 1" for n by (simp add: sample_payload_def)
  have "d = e \<longleftrightarrow> ''{}'' = ''{}'' \<and> payload_contents (sample_package ''x'') (sample_payload 1)
      = payload_contents (sample_package ''yz'') (sample_payload 2)"
    by (rule calculate_digest_binds_content [OF a b])
      (simp_all only: c l i, simp_all add: encodable_def u64_max_def)
  then have "d \<noteq> e" unfolding c by simp
  with a b show ?thesis by blast
qed



text \<open>Nothing travels in a package unseen: every file below \<open>payload/\<close> of an accepted
  package, at any depth, is one an operation references.\<close>

theorem validated_package_holds_only_referenced:
  assumes "validate_package_until ex fs policy deadline = Inr pkg" and "wf_fs fs"
    and "pl_maximum_entry_count (pp_limits policy) \<le> u64_max"
    and "lookup fs (PAYLOAD_DIRECTORY_NAME # p) = Some n" and "n \<noteq> Dir"
  shows "join_with (CHR ''/'') p \<in> set (referenced_payloads (cr_operations (vp_request pkg)))"
proof -
  from assms have "validate_package_contents ex fs policy deadline = Inr pkg"
    by (auto simp: validate_package_until_def attempt_Inr_iff)
  then obtain request_bytes :: string and scan :: payload_scan where
    s: "scan_payload_directory fs (pp_limits policy) (length request_bytes) 1 deadline = Inr scan"
    and r: "validate_payload_references (vp_request pkg)
       (sort_key (\<lambda>f. payload_str (pm_path f)) (ps_files scan)) policy deadline = Inr ()"
    by (rule validate_package_contents_Inr) blast
  have "listed scan (PAYLOAD_DIRECTORY_NAME # p)"
    using scan_payload_directory_complete [OF s assms(2,3,4)] assms(5) by simp
  with validate_payload_references_Inr(1) [OF r] show ?thesis
    by (force simp: listed_def entry_name_def)
qed

theorem validated_package_holds_only_referenced_witness:
  "''a.md'' \<in> set (referenced_payloads (cr_operations (vp_request valid_result)))"
proof -
  have wf: "wf_fs valid_package"
    by (rule wf_fsI) (auto simp: valid_package_def lookup_def split: if_splits)
  have "lookup valid_package (PAYLOAD_DIRECTORY_NAME # [''a.md'']) = Some (new_file sample_document)"
    by (simp add: valid_package_def lookup_def PAYLOAD_DIRECTORY_NAME_def)
  from validated_package_holds_only_referenced [OF valid_package_validates wf _ this]
  show ?thesis
    by (simp add: sample_policy_def default_package_limits_def u64_max_def new_file_def)
qed

text \<open>C24: the recorded length and revision of every payload file of an accepted package are those
  of the bytes on disk, so a later read that compares them detects any change.\<close>

theorem validated_payload_matches_disk:
  assumes "validate_package_until ex fs policy deadline = Inr pkg" and "f \<in> set (vp_payload pkg)"
  shows "\<exists>bytes. read_file fs (payload_fs_path (payload_str (pm_path f))) = Inr bytes \<and>
    length bytes = pm_byte_length f \<and> revision_of ex bytes = pm_revision f"
proof -
  from assms have "validate_package_contents ex fs policy deadline = Inr pkg"
    by (auto simp: validate_package_until_def attempt_Inr_iff)
  then obtain canonical and scan :: payload_scan where
    "calculate_digest ex canonical fs (sort_key (\<lambda>f. payload_str (pm_path f)) (ps_files scan))
       deadline = Inr (vp_digest pkg, vp_payload pkg)"
    by (rule validate_package_contents_Inr) blast
  from calculate_digest_payload(3) [OF this assms(2)] show ?thesis by auto
qed

theorem validated_payload_matches_disk_witness:
  "\<exists>bytes. read_file valid_package (payload_fs_path ''a.md'') = Inr bytes \<and> length bytes = 8"
proof -
  have "hd (vp_payload valid_result) \<in> set (vp_payload valid_result)"
    by (simp add: valid_result_def)
  from validated_payload_matches_disk [OF valid_package_validates this] show ?thesis
    by (auto simp: valid_result_def)
qed




text \<open>C35: a deadline only ever cuts validation short: whatever the clock shows and whenever the caller
  cancels, validation gives the verdict it would give without a deadline, or the time-out.\<close>

theorem validate_package_deadline_transparent:
  "validate_package_until ex fs policy deadline
     \<in> {Inl PackageTimedOut, validate_package_until ex fs policy None}"
  using validate_package_cut [of ex fs policy deadline] by (simp add: cut_short_def)

end
