(* ===== verification/Content_Index_Properties.thy ===== *)
theory Content_Index_Properties
  imports Content_Index Package_Properties
begin

text \<open>
  What the content index guarantees: the canonical layout is a bijection between locations and
  paths, the index holds exactly the documents and attachments of the tree within every limit,
  and a deadline can only cut a scan short.
\<close>

section \<open>Lemmas\<close>

lemma read_bounded_file_Inr:
  assumes "read_bounded_file now fs path maximum deadline = Inr bytes"
  obtains source where "read_file fs path = Inr source"
    "bytes = take (saturating_add_u64 maximum 1) source"
proof -
  from assms obtain source where s: "read_file fs path = Inr source"
    "read_loop (64 * 1024) (\<lambda>k. check_scan_deadline now deadline (ScanChunk path k)) 0
       (saturating_add_u64 maximum 1) source [] = Inr bytes"
    by (auto simp: read_bounded_file_def attempt_Inr_iff)
  from read_loop_Inr [OF s(2)] that s(1) show thesis by simp
qed

lemma from_markdown_Inr:
  assumes "from_markdown ex path bytes policy = Inr r"
  shows "dr_relative_path r = path" and "classify_document_path path = Inr (dr_location r)"
    and "path = canonical_document_path ex (dr_location r) (dr_metadata r)"
    and "loc_archived (dr_location r) \<longleftrightarrow> md_status (dr_metadata r) = Archived"
    and "validate_metadata (dr_metadata r) (loc_document_type (dr_location r)) (cp_document policy)
       = Inr ()"
    and "dr_revision r = revision_of ex bytes" and "dr_byte_length r = length bytes"
    and "decode_document_metadata (ex_yaml_decode ex) bytes (cp_maximum_front_matter_bytes policy)
       = Inr (dr_metadata r)"
  using assms
  by (auto simp: from_markdown_def attempt_Inr_iff validate_canonical_document_path_def
      split: if_splits)

lemma collect_entries_Inr:
  assumes "collect_entries check directory remaining k names acc = Inr entries"
    and "length entries \<le> remaining"
  shows "entries = acc @ filter (\<lambda>name. \<not> (directory = [] \<and> name = ''.git'')) names"
  using assms
proof (induction check directory remaining k names acc rule: collect_entries.induct)
  case (2 check directory remaining k name names entries)
  show ?case
    using 2 by (cases "check k") (auto split: if_splits)
qed simp

text \<open>The loop over directories keeps what processing one directory keeps.\<close>

lemma index_loop_rule:
  assumes "index_loop ex now fs policy package_policy pending s = Inr t" and "P pending s"
    and "\<And>directory rest s names u. P (directory # rest) s \<Longrightarrow> read_dir fs directory = Inr names \<Longrightarrow>
      try_fold (index_entry ex now fs policy package_policy directory)
        (sort (filter (\<lambda>name. \<not> (directory = [] \<and> name = ''.git'')) names))
        (s\<lparr>is_child_directories := []\<rparr>) = Inr u \<Longrightarrow>
      P (is_child_directories u @ rest) u"
  shows "P [] t"
  using assms
proof (induction ex now fs policy package_policy pending s rule: index_loop.induct)
  case (1 ex now fs policy package_policy pending s)
  show ?case
  proof (cases pending)
    case Nil
    with "1.prems"(1,2) show ?thesis by (simp add: index_loop.simps)
  next
    case (Cons directory rest)
    let ?remaining = "cp_maximum_entry_count policy - is_entry_count s"
    note run = "1.prems"(1) [unfolded Cons
        index_loop.simps [of ex now fs policy package_policy "directory # rest" s] list.case attempt_Inr_iff map_err_Inr_iff if_Inl_eq_Inr]
    then obtain c names entries u where
      r: "check_scan_deadline now (cp_scan_deadline policy) (ScanDirectory directory) = Inr c"
        "read_dir fs directory = Inr names"
        "collect_entries (\<lambda>k. check_scan_deadline now (cp_scan_deadline policy)
           (ScanListing directory k)) directory ?remaining 0 names [] = Inr entries"
        "\<not> length entries > ?remaining"
        "try_fold (index_entry ex now fs policy package_policy directory) (sort entries)
           (s\<lparr>is_child_directories := []\<rparr>) = Inr u"
        "index_loop ex now fs policy package_policy (is_child_directories u @ rest) u = Inr t"
      by blast
    have e: "entries = filter (\<lambda>name. \<not> (directory = [] \<and> name = ''.git'')) names"
      using collect_entries_Inr [OF r(3)] r(4) by simp
    have "P (is_child_directories u @ rest) u"
      using "1.prems"(2,3) r(2,5) unfolding Cons e by blast
    moreover have "map_err IndexIo (read_dir fs directory) = Inr names" using r(2) by simp
    ultimately show ?thesis using "1.IH" [OF Cons r(1) _ r(3) r(4) r(5,6)] "1.prems"(3) by blast
  qed
qed


section \<open>What the scan records\<close>

definition sound_document :: "externals \<Rightarrow> fs \<Rightarrow> content_policy \<Rightarrow> document_record \<Rightarrow> bool" where
  "sound_document ex fs policy r \<longleftrightarrow>
     (\<exists>bytes mode nlink. lookup fs (dr_relative_path r) = Some (File bytes mode nlink) \<and>
        length bytes \<le> cp_maximum_markdown_bytes policy \<and>
        from_markdown ex (dr_relative_path r) bytes policy = Inr r)"

definition sound_attachment :: "fs \<Rightarrow> package_policy \<Rightarrow> attachment_record \<Rightarrow> bool" where
  "sound_attachment fs package_policy a \<longleftrightarrow>
     (\<exists>bytes mode nlink name. lookup fs (ar_relative_path a) = Some (File bytes mode nlink) \<and>
        ar_byte_length a = length bytes \<and>
        length bytes \<le> pl_maximum_file_bytes (pp_limits package_policy) \<and>
        file_name (ar_relative_path a) = Some name \<and> allows_attachment_name package_policy name)"

definition index_inv ::
  "externals \<Rightarrow> fs \<Rightarrow> content_policy \<Rightarrow> package_policy \<Rightarrow> index_scan \<Rightarrow> bool" where
  "index_inv ex fs policy package_policy s \<longleftrightarrow>
     distinct (map fst (is_documents s)) \<and>
     (\<forall>(id, r) \<in> set (is_documents s).
        id = md_document_id (dr_metadata r) \<and> sound_document ex fs policy r) \<and>
     list_all (sound_attachment fs package_policy) (is_attachments s) \<and>
     is_markdown_bytes s = sum_list (map (\<lambda>(_, r). dr_byte_length r) (is_documents s)) \<and>
     is_markdown_bytes s \<le> cp_maximum_total_markdown_bytes policy \<and>
     length (is_documents s) + length (is_attachments s) \<le> is_entry_count s \<and>
     is_entry_count s \<le> cp_maximum_entry_count policy"

lemma update_fresh: "map_of xs k = None \<Longrightarrow> AList.update k v xs = xs @ [(k, v)]"
  by (induction xs) auto

lemma index_markdown_facts:
  assumes "index_markdown ex now fs policy path (length bytes) s = Inr t"
    and "wf_fs fs" and "lookup fs path = Some (File bytes mode nlink)"
  obtains r where "from_markdown ex path bytes policy = Inr r"
    "length bytes \<le> cp_maximum_markdown_bytes policy"
    "map_of (is_documents s) (md_document_id (dr_metadata r)) = None"
    "is_markdown_bytes s + length bytes \<le> max (cp_maximum_total_markdown_bytes policy) (is_markdown_bytes s)"
    "t = s\<lparr>is_markdown_bytes := is_markdown_bytes s + length bytes,
       is_documents := is_documents s @ [(md_document_id (dr_metadata r), r)]\<rparr>"
proof -
  from assms(1) obtain content r where
    r: "length bytes \<le> cp_maximum_markdown_bytes policy"
    "is_markdown_bytes s + length content \<le> max (cp_maximum_total_markdown_bytes policy) (is_markdown_bytes s)"
    "read_bounded_file now fs path (min (cp_maximum_markdown_bytes policy)
       (cp_maximum_total_markdown_bytes policy - is_markdown_bytes s)) (cp_scan_deadline policy) = Inr content"
    "length content = length bytes" "from_markdown ex path content policy = Inr r"
    "map_of (is_documents s) (md_document_id (dr_metadata r)) = None"
    "t = s\<lparr>is_markdown_bytes := is_markdown_bytes s + length content,
       is_documents := AList.update (md_document_id (dr_metadata r)) r (is_documents s)\<rparr>"
    by (rule index_markdown_Inr)
  from r(3) obtain k where "content = take k bytes"
    using assms(2,3) by (auto simp: read_file_Inr_iff elim!: read_bounded_file_Inr)
  with r(4) have "content = bytes" by (simp add: min_def split: if_splits)
  with r that show thesis by (simp add: update_fresh)
qed

lemma index_entry_inv:
  assumes "index_entry ex now fs policy package_policy directory name s = Inr t"
    and "wf_fs fs" and "index_inv ex fs policy package_policy s"
  shows "index_inv ex fs policy package_policy t"
  using assms(1)
proof (cases rule: index_entry_Inr)
  case directory
  with assms(3) show ?thesis by (auto simp: index_inv_def)
next
  case (attachment bytes mode nlink)
  from attachment(1) assms(2) have "lookup fs (directory @ [name]) = Some (File bytes mode nlink)"
    by (simp add: symlink_metadata_ok_iff)
  with attachment(4,5) have "sound_attachment fs package_policy
      \<lparr>ar_relative_path = directory @ [name], ar_byte_length = length bytes\<rparr>"
    by (simp add: sound_attachment_def)
  with assms(3) attachment(6,7) show ?thesis by (simp add: index_inv_def)
next
  case (markdown bytes mode nlink)
  from markdown(1) assms(2) have here: "lookup fs (directory @ [name]) = Some (File bytes mode nlink)"
    by (simp add: symlink_metadata_ok_iff)
  obtain r where
    r: "from_markdown ex (directory @ [name]) bytes policy = Inr r"
    "length bytes \<le> cp_maximum_markdown_bytes policy"
    "map_of (is_documents s) (md_document_id (dr_metadata r)) = None"
    "is_markdown_bytes s + length bytes \<le> max (cp_maximum_total_markdown_bytes policy) (is_markdown_bytes s)"
    "t = s\<lparr>is_entry_count := is_entry_count s + 1,
       is_markdown_bytes := is_markdown_bytes s + length bytes,
       is_documents := is_documents s @ [(md_document_id (dr_metadata r), r)]\<rparr>"
    by (rule index_markdown_facts [OF markdown(5) assms(2) here]) simp
  note facts = from_markdown_Inr [OF r(1)]
  have "sound_document ex fs policy r"
    using here r(1,2) facts(1) by (auto simp: sound_document_def)
  with assms(3) markdown(4) r(3,4,5) facts(7) show ?thesis
    by (auto simp: index_inv_def map_of_eq_None_iff)
qed

lemma index_inv_children [simp]:
  "index_inv ex fs policy package_policy (s\<lparr>is_child_directories := c\<rparr>) \<longleftrightarrow>
     index_inv ex fs policy package_policy s"
  by (simp add: index_inv_def)

lemma index_loop_inv:
  assumes "index_loop ex now fs policy package_policy pending s = Inr t"
    and "wf_fs fs" and "index_inv ex fs policy package_policy s"
  shows "index_inv ex fs policy package_policy t"
proof (rule index_loop_rule [OF assms(1), where P = "\<lambda>_ s. index_inv ex fs policy package_policy s"])
  fix directory rest names and s u :: index_scan
  assume "index_inv ex fs policy package_policy s"
    and "try_fold (index_entry ex now fs policy package_policy directory)
        (sort (filter (\<lambda>name. \<not> (directory = [] \<and> name = ''.git'')) names))
        (s\<lparr>is_child_directories := []\<rparr>) = Inr u"
  then show "index_inv ex fs policy package_policy u"
    using index_entry_inv [OF _ assms(2)]
    by (auto elim!: try_fold_invariant [where P = "index_inv ex fs policy package_policy"])
qed (rule assms(3))

section \<open>What the scan leaves out\<close>

definition accounted ::
  "externals \<Rightarrow> fs \<Rightarrow> content_policy \<Rightarrow> (document_id \<times> document_record) list \<Rightarrow>
   attachment_record list \<Rightarrow> path \<Rightarrow> bool" where
  "accounted ex fs policy documents attachments q \<longleftrightarrow>
     (case lookup fs q of
        Some Dir \<Rightarrow> True
      | Some (File bytes mode nlink) \<Rightarrow>
          and mode 73 = 0 \<and> nlink \<le> 1 \<and>
          (if path_extension q = Some ''md''
           then \<exists>r. from_markdown ex q bytes policy = Inr r \<and>
                  map_of documents (md_document_id (dr_metadata r)) = Some r
           else \<lparr>ar_relative_path = q, ar_byte_length = length bytes\<rparr> \<in> set attachments)
      | _ \<Rightarrow> False)"

abbreviation scanned :: "externals \<Rightarrow> fs \<Rightarrow> content_policy \<Rightarrow> index_scan \<Rightarrow> path \<Rightarrow> bool" where
  "scanned ex fs policy s \<equiv> accounted ex fs policy (is_documents s) (is_attachments s)"

lemma map_of_append_old: "map_of xs k = Some v \<Longrightarrow> map_of (xs @ ys) k = Some v"
  by (induction xs) auto

lemma map_of_append_new: "map_of xs k = None \<Longrightarrow> map_of (xs @ [(k, v)]) k = Some v"
  by (induction xs) (auto split: if_splits)

lemma accounted_mono:
  assumes "accounted ex fs policy documents attachments q"
  shows "accounted ex fs policy (documents @ ds) (attachments @ as) q"
  using assms map_of_append_old [of documents]
  by (auto simp: accounted_def split: option.splits node.splits)

lemma index_entry_scanned:
  assumes "index_entry ex now fs policy package_policy directory name s = Inr t" and "wf_fs fs"
  shows "scanned ex fs policy t (directory @ [name])"
    and "scanned ex fs policy s q \<Longrightarrow> scanned ex fs policy t q"
    and "is_child_directories t = is_child_directories s @
       (if lookup fs (directory @ [name]) = Some Dir then [directory @ [name]] else [])"
proof -
  have all: "scanned ex fs policy t (directory @ [name]) \<and>
      (scanned ex fs policy s q \<longrightarrow> scanned ex fs policy t q) \<and>
      is_child_directories t = is_child_directories s @
       (if lookup fs (directory @ [name]) = Some Dir then [directory @ [name]] else [])"
    using assms(1)
  proof (cases rule: index_entry_Inr)
    case directory
    with assms(2) show ?thesis by (simp add: symlink_metadata_ok_iff accounted_def)
  next
    case (attachment bytes mode nlink)
    with assms(2) show ?thesis
      using accounted_mono [of ex fs policy "is_documents s" "is_attachments s" q "[]"]
      by (simp add: symlink_metadata_ok_iff accounted_def validate_regular_file_metadata_def
          split: if_splits)
  next
    case (markdown bytes mode nlink)
    from markdown(1) assms(2) have here: "lookup fs (directory @ [name]) = Some (File bytes mode nlink)"
      by (simp add: symlink_metadata_ok_iff)
    from markdown(2) have regular: "and mode 73 = 0" "nlink \<le> 1"
      by (auto simp: validate_regular_file_metadata_def split: if_splits)
    obtain r where r: "from_markdown ex (directory @ [name]) bytes policy = Inr r"
      "map_of (is_documents s) (md_document_id (dr_metadata r)) = None"
      "is_documents t = is_documents s @ [(md_document_id (dr_metadata r), r)]"
      "is_attachments t = is_attachments s" "is_child_directories t = is_child_directories s"
      by (rule index_markdown_facts [OF markdown(5) assms(2) here]) simp
    have "scanned ex fs policy t (directory @ [name])"
      using here r(1) map_of_append_new [OF r(2)] markdown(3) regular
      by (simp add: accounted_def r(3))
    then show ?thesis
      using here r accounted_mono [of ex fs policy "is_documents s" "is_attachments s" q _ "[]"]
      by simp
  qed
  then show "scanned ex fs policy t (directory @ [name])"
    "is_child_directories t = is_child_directories s @
       (if lookup fs (directory @ [name]) = Some Dir then [directory @ [name]] else [])"
    by blast+
  show "scanned ex fs policy t q" if "scanned ex fs policy s q" using all that by blast
qed

lemma index_entries_scanned:
  assumes "try_fold (index_entry ex now fs policy package_policy directory) names s = Inr t"
    and "wf_fs fs"
  shows "scanned ex fs policy s q \<Longrightarrow> scanned ex fs policy t q"
    and "name \<in> set names \<Longrightarrow> scanned ex fs policy t (directory @ [name]) \<and>
      (lookup fs (directory @ [name]) = Some Dir \<longrightarrow>
       directory @ [name] \<in> set (is_child_directories t))"
    and "set (is_child_directories s) \<subseteq> set (is_child_directories t)"
proof -
  have "(scanned ex fs policy s q \<longrightarrow> scanned ex fs policy t q) \<and>
      (\<forall>name \<in> set names. scanned ex fs policy t (directory @ [name]) \<and>
        (lookup fs (directory @ [name]) = Some Dir \<longrightarrow>
         directory @ [name] \<in> set (is_child_directories t))) \<and>
      set (is_child_directories s) \<subseteq> set (is_child_directories t)" for q
    using assms(1)
  proof (induction names arbitrary: s q)
    case Nil
    then show ?case by simp
  next
    case (Cons n names)
    then obtain u where u: "index_entry ex now fs policy package_policy directory n s = Inr u"
      "try_fold (index_entry ex now fs policy package_policy directory) names u = Inr t"
      by (auto simp: attempt_Inr_iff)
    note step = index_entry_scanned [OF u(1) assms(2)]
    from Cons.IH [OF u(2), of q] Cons.IH [OF u(2), of "directory @ [n]"] step(1,3) step(2) [of q]
    show ?case by auto
  qed
  from this [of q] show "scanned ex fs policy s q \<Longrightarrow> scanned ex fs policy t q"
    "name \<in> set names \<Longrightarrow> scanned ex fs policy t (directory @ [name]) \<and>
      (lookup fs (directory @ [name]) = Some Dir \<longrightarrow>
       directory @ [name] \<in> set (is_child_directories t))"
    "set (is_child_directories s) \<subseteq> set (is_child_directories t)"
    by blast+
qed

text \<open>Every path outside \<open>.git\<close> is recorded or lies below a directory still to be read.\<close>

definition index_frontier ::
  "externals \<Rightarrow> fs \<Rightarrow> content_policy \<Rightarrow> path list \<Rightarrow> index_scan \<Rightarrow> bool" where
  "index_frontier ex fs policy pending s \<longleftrightarrow>
     (\<forall>q. q \<noteq> [] \<longrightarrow> hd q \<noteq> ''.git'' \<longrightarrow> lookup fs q \<noteq> None \<longrightarrow>
        scanned ex fs policy s q \<or> (\<exists>d \<in> set pending. strict_prefix d q))"

lemma index_frontier_step:
  assumes "wf_fs fs" and "index_frontier ex fs policy (directory # rest) s"
    and "read_dir fs directory = Inr names"
    and run: "try_fold (index_entry ex now fs policy package_policy directory)
        (sort (filter (\<lambda>name. \<not> (directory = [] \<and> name = ''.git'')) names))
        (s\<lparr>is_child_directories := []\<rparr>) = Inr t"
  shows "index_frontier ex fs policy (is_child_directories t @ rest) t"
  unfolding index_frontier_def
proof (intro allI impI)
  fix q
  assume q: "q \<noteq> []" "hd q \<noteq> ''.git''" "lookup fs q \<noteq> None"
  note step = index_entries_scanned [OF run assms(1)]
  from assms(2) q consider "scanned ex fs policy s q" | "strict_prefix directory q"
    | d where "d \<in> set rest" "strict_prefix d q"
    by (auto simp: index_frontier_def)
  then show "scanned ex fs policy t q \<or> (\<exists>d\<in>set (is_child_directories t @ rest). strict_prefix d q)"
  proof cases
    case 1
    with step(1) show ?thesis by simp
  next
    case 2
    then obtain c r where cr: "q = directory @ c # r"
      by (metis append_Nil2 neq_Nil_conv strict_prefix_def prefix_def)
    then have ex: "lookup fs (directory @ [c]) \<noteq> None"
      using q(3) wf_fs_prefix [OF assms(1), of "directory @ [c]" r] by (cases r) auto
    have "c \<in> set names"
      using assms(1,3) ex children_iff [of fs c directory] by (auto simp: read_dir_Inr_iff wf_fs_def)
    moreover have "\<not> (directory = [] \<and> c = ''.git'')" using q(2) cr by auto
    ultimately have c: "scanned ex fs policy t (directory @ [c])"
      "lookup fs (directory @ [c]) = Some Dir \<longrightarrow> directory @ [c] \<in> set (is_child_directories t)"
      using step(2) [of c] by auto
    show ?thesis
    proof (cases r)
      case Nil
      with c(1) cr show ?thesis by simp
    next
      case (Cons x xs)
      then have "lookup fs (directory @ [c]) = Some Dir"
        using q(3) cr wf_fs_prefix [OF assms(1), of "directory @ [c]" r] by simp
      moreover have "strict_prefix (directory @ [c]) q" using cr Cons by (auto simp: strict_prefix_def)
      ultimately show ?thesis using c(2) by auto
    qed
  next
    case 3
    then show ?thesis by auto
  qed
qed

section \<open>Canonical paths\<close>

definition location_wf :: "document_location \<Rightarrow> bool" where
  "location_wf location \<longleftrightarrow>
     (\<forall>p. loc_project location = Some p \<longrightarrow> project_id_from_str (project_str p) = Inr p) \<and>
     (loc_document_type location = Index \<longrightarrow> \<not> loc_archived location)"

lemma bundle_is_utf8:
  assumes "\<And>u. is_ascii (ex_ulid_show ex u)"
  shows "is_utf8 (bundle_name ex t metadata)"
  using assms
  by (intro ascii_is_utf8) (simp add: bundle_name_def Let_def is_ascii_Cons code_def)

lemma parse_category_name: "t \<noteq> Index \<Longrightarrow> parse_category (category_name t) = Some t"
  by (cases t) (simp_all add: parse_category_def)

lemma parse_category_Some_iff:
  "parse_category c = Some t \<longleftrightarrow> t \<noteq> Index \<and> category_name t = c"
  by (cases t) (auto simp: parse_category_def)

lemma category_facts: "is_utf8 (category_name t)" "category_name t \<noteq> ''archive''"
  by (rule ascii_is_utf8, cases t, simp_all add: is_ascii_def code_def, cases t, simp_all)

lemma fixed_component_utf8 [simp]: "is_utf8 ''projects''" "is_utf8 ''inbox''" "is_utf8 ''archive''"
  "is_utf8 ''index.md''" "is_utf8 (format_02 n)" "is_utf8 (format_04 i)"
  by (simp_all add: ascii_is_utf8 is_ascii_Cons code_def is_ascii_def [of "[]"])

lemma classify_canonical:
  assumes wf: "location_wf location" and ascii: "\<And>u. is_ascii (ex_ulid_show ex u)"
  shows "classify_document_path (canonical_document_path ex location metadata) = Inr location"
proof -
  obtain t project archived where
    l: "location = \<lparr>loc_document_type = t, loc_project = project, loc_archived = archived\<rparr>"
    by (metis document_location.surjective old.unit.exhaust)
  have p: "project_id_from_str (project_str p) = Inr p" "is_utf8 (project_str p)"
    if "project = Some p" for p
    using wf that project_is_utf8 by (auto simp: location_wf_def l)
  have "is_utf8 c" if "c \<in> set (canonical_document_path ex location metadata)" for c
    using that p bundle_is_utf8 [OF ascii] category_facts(1)
    by (auto simp: canonical_document_path_def Let_def l split: if_splits option.splits)
  then have "classify_document_path (canonical_document_path ex location metadata) =
      classify_components (IndexInvalidDocumentPath (canonical_document_path ex location metadata))
        (canonical_document_path ex location metadata)"
    by (simp add: classify_document_path_def try_map_id)
  also have "\<dots> = Inr location"
  proof (cases "t = Index")
    case True
    then show ?thesis
      using wf p by (cases project)
        (simp_all add: canonical_document_path_def classify_components_def l location_wf_def)
  next
    case False
    show ?thesis
      using False p category_facts(2) [of t] parse_category_name [OF False]
      by (cases project; cases archived; cases "t = Log")
        (simp_all add: canonical_document_path_def classify_components_def located_def l Let_def)
  qed
  finally show ?thesis .
qed


lemma located_Inr:
  assumes "located invalid category project archived = Inr location"
  shows "location_wf location" and "loc_document_type location \<noteq> Index"
    and "loc_archived location = archived"
proof -
  from assms have "loc_document_type location \<noteq> Index \<and> loc_archived location = archived"
    by (auto simp: located_def attempt_Inr_iff parse_category_Some_iff)
  then show "loc_document_type location \<noteq> Index" "loc_archived location = archived" by auto
  then show "location_wf location"
    using assms project_text.reparse
    by (auto simp: location_wf_def located_def attempt_Inr_iff split: option.splits)
qed

lemma classify_wf:
  assumes "classify_document_path path = Inr location"
  shows "location_wf location"
proof -
  from assms obtain components where
    "classify_components (IndexInvalidDocumentPath path) components = Inr location"
    by (auto simp: classify_document_path_def attempt_Inr_iff)
  then show ?thesis
    using located_Inr(1) project_text.reparse
    by (auto simp: classify_components_def attempt_Inr_iff location_wf_def [of "\<lparr>loc_document_type = _,
        loc_project = _, loc_archived = _\<rparr>"] split: if_splits)
qed

lemma bundle_name_id:
  assumes width: "\<And>u. length (ex_ulid_show ex u) = w" and inj: "inj (ex_ulid_show ex)"
    and eq: "bundle_name ex t m = bundle_name ex t n"
  shows "md_document_id m = md_document_id n"
proof -
  let ?id = "\<lambda>d. ex_ulid_show ex (document_ulid (md_document_id d))"
  have "\<exists>date. bundle_name ex t d = date @ ?id d" for d
    by (simp add: bundle_name_def Let_def)
  then obtain a b where "bundle_name ex t m = a @ ?id m" "bundle_name ex t n = b @ ?id n" by blast
  with eq width have "?id m = ?id n" by (simp add: append_eq_append_conv)
  with inj show ?thesis by (metis document_id.expand injD)
qed

lemma canonical_bundle:
  assumes "loc_document_type location \<noteq> Index"
  shows "\<exists>d. canonical_document_path ex location metadata =
     d @ [bundle_name ex (loc_document_type location) metadata, ''index.md'']"
  using assms by (cases "loc_project location") (simp_all add: canonical_document_path_def Let_def)

text \<open>What the sources rely on of the text form of an identifier: it is ASCII, of one width
  \<open>w\<close>, and determines the identifier.\<close>

definition ulid_text :: "externals \<Rightarrow> nat \<Rightarrow> bool" where
  "ulid_text ex w \<longleftrightarrow> (\<forall>u. is_ascii (ex_ulid_show ex u)) \<and>
     (\<forall>u. length (ex_ulid_show ex u) = w) \<and> inj (ex_ulid_show ex)"

lemma ulid_textD:
  assumes "ulid_text ex w"
  shows "is_ascii (ex_ulid_show ex u)" and "length (ex_ulid_show ex u) = w" and "inj (ex_ulid_show ex)"
  using assms by (simp_all add: ulid_text_def)

lemma canonical_path_inject:
  assumes ut: "ulid_text ex w"
    and wf: "location_wf l" "location_wf l'"
    and eq: "canonical_document_path ex l m = canonical_document_path ex l' m'"
  shows "l = l'" and "loc_document_type l \<noteq> Index \<Longrightarrow> md_document_id m = md_document_id m'"
proof -
  from classify_canonical [OF wf(1) ulid_textD(1) [OF ut], of m]
    classify_canonical [OF wf(2) ulid_textD(1) [OF ut], of m'] eq
  show l: "l = l'" by simp
  assume t: "loc_document_type l \<noteq> Index"
  have "bundle_name ex (loc_document_type l) m = bundle_name ex (loc_document_type l) m'"
    using canonical_bundle [OF t, of ex m] canonical_bundle [OF t, of ex m'] eq l by auto
  then show "md_document_id m = md_document_id m'" by (rule bundle_name_id [OF ulid_textD(2,3) [OF ut]])
qed


section \<open>Deadlines\<close>

abbreviation without_deadline :: "content_policy \<Rightarrow> content_policy" where
  "without_deadline policy \<equiv> policy\<lparr>cp_scan_deadline := None\<rparr>"

abbreviation index_cut :: "content_index_error + 'a \<Rightarrow> content_index_error + 'a \<Rightarrow> bool" where
  "index_cut \<equiv> cut_short IndexScanDeadlineExceeded"

lemma check_scan_deadline_cut: "index_cut (check_scan_deadline now d at) (check_scan_deadline now None at)"
  by (auto simp: check_scan_deadline_def cut_short_def split: option.splits)

lemma without_deadline_fields:
  "cp_maximum_entry_count (without_deadline policy) = cp_maximum_entry_count policy"
  "cp_maximum_markdown_bytes (without_deadline policy) = cp_maximum_markdown_bytes policy"
  "cp_maximum_total_markdown_bytes (without_deadline policy) = cp_maximum_total_markdown_bytes policy"
  "cp_maximum_front_matter_bytes (without_deadline policy) = cp_maximum_front_matter_bytes policy"
  "cp_document (without_deadline policy) = cp_document policy"
  "cp_scan_deadline (without_deadline policy) = None"
  by simp_all

lemma from_markdown_without_deadline [simp]:
  "from_markdown ex path bytes (without_deadline policy) = from_markdown ex path bytes policy"
  by (simp only: from_markdown_def without_deadline_fields)

lemma read_bounded_file_cut:
  "index_cut (read_bounded_file now fs path maximum d) (read_bounded_file now fs path maximum None)"
  unfolding read_bounded_file_def
  by (intro cut_short_attempt cut_short_refl cut_short_read_loop check_scan_deadline_cut)

lemma collect_entries_cut:
  assumes "\<And>k. index_cut (check k) (check' k)"
  shows "index_cut (collect_entries check directory remaining k names entries)
    (collect_entries check' directory remaining k names entries)"
proof (induction names arbitrary: k entries)
  case (Cons name names)
  show ?case
    unfolding collect_entries.simps
    by (intro cut_short_attempt cut_short_branch assms Cons cut_short_refl)
qed simp

lemma index_markdown_cut:
  "index_cut (index_markdown ex now fs policy path len s)
     (index_markdown ex now fs (without_deadline policy) path len s)"
  unfolding index_markdown_def Let_def without_deadline_fields from_markdown_without_deadline
  by (intro cut_short_if cut_short_attempt cut_short_refl read_bounded_file_cut check_scan_deadline_cut)

lemma index_entry_cut:
  "index_cut (index_entry ex now fs policy package_policy directory name s)
     (index_entry ex now fs (without_deadline policy) package_policy directory name s)"
  unfolding index_entry_def Let_def without_deadline_fields
  by (intro cut_short_attempt check_scan_deadline_cut cut_short_refl cut_short_branch cut_short_node
      index_markdown_cut)

lemma index_loop_cut:
  "index_cut (index_loop ex now fs policy package_policy pending s)
     (index_loop ex now fs (without_deadline policy) package_policy pending s)"
proof (induction ex now fs "without_deadline policy" package_policy pending s rule: index_loop.induct)
  case (1 ex now fs package_policy pending s)
  show ?case
  proof (cases pending)
    case Nil
    then show ?thesis by (simp add: index_loop.simps)
  next
    case (Cons directory rest)
    note ih = "1" [OF Cons]
    show ?thesis
      unfolding Cons index_loop.simps [of ex now fs policy package_policy "directory # rest" s]
        index_loop.simps [of ex now fs "without_deadline policy" package_policy "directory # rest" s]
        list.case
      unfolding without_deadline_fields
      by (intro cut_short_attempt cut_short_refl check_scan_deadline_cut collect_entries_cut
        cut_short_branch cut_short_try_fold index_entry_cut ih) simp_all
  qed
qed

section \<open>Whole builds\<close>

lemma build_Inr:
  assumes "build ex now fs policy package_policy = Inr index" and "wf_fs fs"
  obtains s where "index_inv ex fs policy package_policy s" "index_frontier ex fs policy [] s"
    "ci_documents index = is_documents s" "ci_attachments index = is_attachments s"
    "validate_attachment_locations (ci_attachments index) (ci_documents index) package_policy = Inr ()"
proof -
  let ?start = "\<lparr>is_documents = [], is_attachments = [], is_entry_count = 0, is_markdown_bytes = 0,
          is_child_directories = []\<rparr>"
  from assms(1) obtain s :: index_scan where
    s: "index_loop ex now fs policy package_policy [[]] ?start = Inr s"
    "validate_attachment_locations (is_attachments s) (is_documents s) package_policy = Inr ()"
    "index = \<lparr>ci_documents = is_documents s, ci_attachments = is_attachments s\<rparr>"
    by (auto simp: build_def build_validated_def attempt_Inr_iff split: if_splits)
  have inv: "index_inv ex fs policy package_policy s"
    by (rule index_loop_inv [OF s(1) assms(2)]) (simp add: index_inv_def)
  have "index_frontier ex fs policy [] s"
  proof (rule index_loop_rule [OF s(1), where P = "index_frontier ex fs policy"])
    show "index_frontier ex fs policy [[]] ?start"
      by (simp add: index_frontier_def strict_prefix_def)
  qed (rule index_frontier_step [OF assms(2)])
  with inv s that show thesis by simp
qed

lemma canonical_path_shape:
  assumes "location_wf location" and "path = canonical_document_path ex location metadata"
  shows "path \<noteq> []" and "hd path \<noteq> ''.git''" and "path_extension path = Some ''md''"
    and "last path = ''index.md''"
proof -
  have "path \<noteq> [] \<and> last path = ''index.md'' \<and> hd path \<noteq> ''.git''"
    using assms(2)
    by (cases "loc_document_type location = Index"; cases "loc_project location";
        cases "loc_archived location") (simp_all add: canonical_document_path_def Let_def)
  moreover have "extension ''index.md'' = Some ''md''" by code_simp
  ultimately show "path \<noteq> []" "hd path \<noteq> ''.git''" "path_extension path = Some ''md''"
    "last path = ''index.md''"
    by (simp_all add: path_extension_def file_name_def)
qed

lemma from_markdown_path:
  assumes "from_markdown ex path bytes policy = Inr r"
  shows "path \<noteq> []" and "hd path \<noteq> ''.git''" and "path_extension path = Some ''md''"
  using canonical_path_shape [OF classify_wf [OF from_markdown_Inr(2) [OF assms]]
      from_markdown_Inr(3) [OF assms]]
  by simp_all

lemma validate_attachment_location:
  assumes "validate_attachment_locations attachments documents package_policy = Inr ()"
    and "a \<in> set attachments"
  shows "\<exists>directory name. ar_relative_path a = directory @ [name] \<and>
    is_ok (attachment_name_from_str name) \<and>
    ((\<exists>id r. (id, r) \<in> set documents \<and> parent (dr_relative_path r) = Some directory) \<or>
     is_project_asset (ar_relative_path a) package_policy)"
proof -
  have ne: "ar_relative_path a \<noteq> []"
    using assms
    by (auto simp: validate_attachment_locations_def Let_def try_each_Inr_iff file_name_def)
  then have "ar_relative_path a = butlast (ar_relative_path a) @ [last (ar_relative_path a)]" by simp
  moreover have "is_ok (attachment_name_from_str (last (ar_relative_path a)))"
    "(\<exists>id r. (id, r) \<in> set documents \<and> parent (dr_relative_path r) = Some (butlast (ar_relative_path a))) \<or>
     is_project_asset (ar_relative_path a) package_policy"
    using assms ne
    by (auto simp: validate_attachment_locations_def Let_def try_each_Inr_iff file_name_def
        parent_def [of "ar_relative_path a"] map_filter_def image_iff split: if_splits dest!: bspec [of _ _ a]) blast
  ultimately show ?thesis by blast
qed

lemma build_get_iff:
  assumes "build ex now fs policy package_policy = Inr index" and "wf_fs fs"
  shows "index_get index document_id = Some r \<longleftrightarrow>
    md_document_id (dr_metadata r) = document_id \<and>
    (\<exists>bytes mode nlink. lookup fs (dr_relative_path r) = Some (File bytes mode nlink) \<and>
       from_markdown ex (dr_relative_path r) bytes policy = Inr r)"
proof -
  obtain s where s: "index_inv ex fs policy package_policy s" "index_frontier ex fs policy [] s"
    "ci_documents index = is_documents s"
    by (rule build_Inr [OF assms])
  show ?thesis
  proof
    assume "index_get index document_id = Some r"
    then have "(document_id, r) \<in> set (is_documents s)"
      by (auto simp: index_get_def s(3) dest: map_of_SomeD)
    with s(1) show "md_document_id (dr_metadata r) = document_id \<and>
        (\<exists>bytes mode nlink. lookup fs (dr_relative_path r) = Some (File bytes mode nlink) \<and>
           from_markdown ex (dr_relative_path r) bytes policy = Inr r)"
      by (fastforce simp: index_inv_def sound_document_def)
  next
    assume "md_document_id (dr_metadata r) = document_id \<and>
        (\<exists>bytes mode nlink. lookup fs (dr_relative_path r) = Some (File bytes mode nlink) \<and>
           from_markdown ex (dr_relative_path r) bytes policy = Inr r)"
    then obtain bytes mode nlink where r: "md_document_id (dr_metadata r) = document_id"
      "lookup fs (dr_relative_path r) = Some (File bytes mode nlink)"
      "from_markdown ex (dr_relative_path r) bytes policy = Inr r" by blast
    note path = from_markdown_path [OF r(3)]
    have "scanned ex fs policy s (dr_relative_path r)"
      using s(2) path r(2) by (simp add: index_frontier_def)
    then show "index_get index document_id = Some r"
      using r path(3) by (auto simp: accounted_def index_get_def s(3))
  qed
qed

section \<open>A content tree\<close>

definition content_tree :: fs where
  "content_tree = [([], Dir), ([''.git''], Dir), ([''index.md''], new_file sample_document),
     ([''a.png''], new_file ''x'')]"

definition content_record :: document_record where
  "content_record = \<lparr>dr_relative_path = [''index.md''],
     dr_location = \<lparr>loc_document_type = Index, loc_project = None, loc_archived = False\<rparr>,
     dr_metadata = plain_metadata, dr_revision = revision_of valid_externals sample_document,
     dr_byte_length = 8\<rparr>"

definition content_result :: content_index where
  "content_result = \<lparr>ci_documents = [(DocumentId 2, content_record)],
     ci_attachments = [\<lparr>ar_relative_path = [''a.png''], ar_byte_length = 1\<rparr>]\<rparr>"

lemma content_tree_wf: "wf_fs content_tree"
proof (rule wf_fsI)
  show "lookup content_tree p = Some Dir" if "lookup content_tree (p @ [c]) \<noteq> None" for p c
    using that by (cases p) (auto simp: content_tree_def lookup_def split: if_splits)
qed (simp_all add: content_tree_def lookup_def)

lemma content_tree_reads:
  "symlink_metadata content_tree [] = Inr Dir"
  "symlink_metadata content_tree [''index.md''] = Inr (new_file sample_document)"
  "symlink_metadata content_tree [''a.png''] = Inr (new_file ''x'')"
  "read_file content_tree [''index.md''] = Inr sample_document"
  "read_dir content_tree [] = Inr [''.git'', ''index.md'', ''a.png'']"
  "sort [''index.md'', ''a.png''] = [''a.png'', ''index.md'']"
  by code_simp+

lemma sample_limits: "pl_maximum_file_bytes (pp_limits sample_policy) = 32 * 1024 * 1024"
  by (simp add: sample_policy_def default_package_limits_def)

lemma default_content_limits:
  "cp_maximum_entry_count default_content_policy = 1000000"
  "cp_maximum_markdown_bytes default_content_policy = 33554432"
  "cp_maximum_total_markdown_bytes default_content_policy = 8589934592"
  "cp_scan_deadline default_content_policy = None"
  by (simp_all add: default_content_policy_def)

lemma content_names:
  "is_utf8 (display_path [''a.png''])" "is_utf8 ''a.png''" "extension ''a.png'' = Some ''png''"
  "is_utf8 (display_path [''index.md''])" "extension ''index.md'' = Some ''md''"
  "attachment_name_from_str ''a.png'' = Inr (AttachmentName ''a.png'')"
  by code_simp+

lemma content_attachment_allowed: "allows_attachment_name sample_policy ''a.png''"
  by (simp add: allows_attachment_name_def content_names sample_policy_def default_extensions_def)

lemma content_record_reads:
  "from_markdown valid_externals [''index.md''] sample_document default_content_policy = Inr content_record"
proof -
  have "md_status plain_metadata \<noteq> Archived" by (simp add: plain_metadata_def sample_metadata_def)
  then show ?thesis
    by (simp add: from_markdown_def sample_document_decodes classify_document_path_def
        classify_components_def validate_canonical_document_path_def canonical_document_path_def
        plain_metadata_valid content_record_def default_content_policy_def sample_document_length)
qed

lemma content_tree_builds:
  "build valid_externals now content_tree default_content_policy sample_policy = Inr content_result"
proof -
  have c: "check_scan_deadline now None = (\<lambda>_. Inr ())"
    by (simp add: fun_eq_iff check_scan_deadline_def)
  have i: "md_document_id plain_metadata = DocumentId 2"
    by (simp add: plain_metadata_def sample_metadata_def)
  have r: "md_document_id (dr_metadata content_record) = DocumentId 2"
    by (simp add: content_record_def i)
  have a: "index_entry valid_externals now content_tree default_content_policy sample_policy []
      ''a.png'' \<lparr>is_documents = [], is_attachments = [], is_entry_count = 0,
        is_markdown_bytes = 0, is_child_directories = []\<rparr> =
    Inr \<lparr>is_documents = [], is_attachments = [\<lparr>ar_relative_path = [''a.png''], ar_byte_length = Suc 0\<rparr>],
       is_entry_count = Suc 0, is_markdown_bytes = 0, is_child_directories = []\<rparr>"
    by (simp add: index_entry_def Let_def c content_names content_tree_reads new_file_def
        validate_regular_file_metadata_def path_extension_def file_name_def checked_add_u64_def u64_max_def
        default_content_limits content_attachment_allowed sample_limits)
  have b: "index_entry valid_externals now content_tree default_content_policy sample_policy []
      ''index.md'' \<lparr>is_documents = [], is_attachments = [\<lparr>ar_relative_path = [''a.png''], ar_byte_length = Suc 0\<rparr>],
       is_entry_count = Suc 0, is_markdown_bytes = 0, is_child_directories = []\<rparr> =
    Inr \<lparr>is_documents = [(DocumentId 2, content_record)],
       is_attachments = [\<lparr>ar_relative_path = [''a.png''], ar_byte_length = Suc 0\<rparr>],
       is_entry_count = 2, is_markdown_bytes = 8, is_child_directories = []\<rparr>"
    by (simp add: index_entry_def Let_def c content_names content_tree_reads new_file_def sample_document_length
        validate_regular_file_metadata_def path_extension_def file_name_def checked_add_u64_def u64_max_def
        default_content_limits index_markdown_def read_bounded_file_def read_loop_total
        content_record_reads saturating_add_u64_def r)
  have loc: "validate_attachment_locations [\<lparr>ar_relative_path = [''a.png''], ar_byte_length = Suc 0\<rparr>]
      [(DocumentId 2, content_record)] sample_policy = Inr ()"
    by (simp add: validate_attachment_locations_def content_names map_filter_def content_record_def
        parent_def file_name_def)
  show ?thesis
    unfolding build_def build_validated_def index_loop.simps [of _ _ _ _ _ "[[]]"]
    by (simp add: content_tree_reads c a b loc default_content_limits index_loop.simps content_result_def
       cong: attempt_weak_cong)
qed

text \<open>A fixed-width text form: the bits of the identifier.\<close>

definition bits_of :: "ulid \<Rightarrow> string" where
  "bits_of u = map (\<lambda>i. if bit u i then CHR ''1'' else CHR ''0'') [0..<128]"

definition bits_externals :: externals where
  "bits_externals = valid_externals\<lparr>ex_ulid_show := bits_of\<rparr>"

lemma bits_of_laws: "is_ascii (bits_of u)" "length (bits_of u) = 128" "inj bits_of"
proof -
  show "is_ascii (bits_of u)" by (auto simp: bits_of_def is_ascii_def list_all_iff code_def)
  show "length (bits_of u) = 128" by (simp add: bits_of_def)
  show "inj bits_of"
  proof (rule injI)
    fix u v
    assume eq: "bits_of u = bits_of v"
    show "u = v"
    proof (rule bit_word_eqI)
      fix n
      assume "n < LENGTH(128)"
      with arg_cong [OF eq, of "\<lambda>s. s ! n"] show "bit u n \<longleftrightarrow> bit v n"
        by (simp add: bits_of_def split: if_splits)
    qed
  qed
qed

lemma bits_externals_text: "ulid_text bits_externals 128"
  by (simp add: ulid_text_def bits_externals_def bits_of_laws)

section \<open>Properties\<close>

text \<open>C8: the index is exact: a document is found under an identifier if and only if the tree holds,
  at its canonical path, a Markdown file whose front matter carries that identifier; the recorded
  metadata, revision and length are those of the bytes of that file.\<close>

theorem content_index_exact:
  assumes "build ex now fs policy package_policy = Inr index" and "wf_fs fs"
  shows "index_get index document_id = Some r \<longleftrightarrow>
    md_document_id (dr_metadata r) = document_id \<and>
    (\<exists>bytes mode nlink. lookup fs (dr_relative_path r) = Some (File bytes mode nlink) \<and>
       from_markdown ex (dr_relative_path r) bytes policy = Inr r)"
  using assms by (rule build_get_iff)

theorem content_index_exact_witness:
  "wf_fs content_tree \<and>
   build valid_externals (\<lambda>_. 0) content_tree default_content_policy sample_policy = Inr content_result \<and>
   index_get content_result (DocumentId 2) = Some content_record \<and>
   lookup content_tree [''index.md''] = Some (new_file sample_document) \<and>
   from_markdown valid_externals [''index.md''] sample_document default_content_policy = Inr content_record"
  using content_index_exact [OF content_tree_builds content_tree_wf, of "DocumentId 2" content_record]
    content_tree_builds content_tree_wf content_record_reads
  by (simp add: index_get_def content_result_def content_tree_def lookup_def)

text \<open>C25: an indexed tree is clean: outside \<open>.git\<close> it holds only directories, documents of
  the index and attachments. No file is executable or has a second link; an attachment has an
  allowed type, a safe name and a bounded size, and lies beside a document or among the assets of
  a project.\<close>

theorem content_tree_clean:
  assumes "build ex now fs policy package_policy = Inr index" and "wf_fs fs"
    and "path \<noteq> []" and "hd path \<noteq> ''.git''" and "lookup fs path = Some n"
  shows "n = Dir \<or> (\<exists>bytes mode nlink. n = File bytes mode nlink \<and> and mode 73 = 0 \<and> nlink \<le> 1 \<and>
    (if path_extension path = Some ''md''
     then \<exists>r. dr_relative_path r = path \<and>
       index_get index (md_document_id (dr_metadata r)) = Some r \<and> dr_revision r = revision_of ex bytes
     else length bytes \<le> pl_maximum_file_bytes (pp_limits package_policy) \<and>
       allows_attachment_name package_policy (last path) \<and>
       is_ok (attachment_name_from_str (last path)) \<and>
       (is_project_asset path package_policy \<or>
        (\<exists>document_id r. index_get index document_id = Some r \<and>
           parent (dr_relative_path r) = parent path))))"
proof -
  obtain s where s: "index_inv ex fs policy package_policy s" "index_frontier ex fs policy [] s"
    "ci_documents index = is_documents s" "ci_attachments index = is_attachments s"
    "validate_attachment_locations (ci_attachments index) (ci_documents index) package_policy = Inr ()"
    by (rule build_Inr [OF assms(1,2)])
  have acc: "scanned ex fs policy s path"
    using s(2) assms(3,4,5) by (simp add: index_frontier_def)
  show ?thesis
  proof (cases n)
    case (File bytes mode nlink)
    show ?thesis
    proof (cases "path_extension path = Some ''md''")
      case True
      with acc assms(5) File obtain r where r: "and mode 73 = 0" "nlink \<le> 1"
        "from_markdown ex path bytes policy = Inr r"
        "map_of (is_documents s) (md_document_id (dr_metadata r)) = Some r"
        by (auto simp: accounted_def)
      with True File from_markdown_Inr(1,6) [OF r(3)] show ?thesis
        by (auto simp: index_get_def s(3))
    next
      case False
      define a where "a = \<lparr>ar_relative_path = path, ar_byte_length = length bytes\<rparr>"
      from acc False assms(5) File have a: "and mode 73 = 0" "nlink \<le> 1" "a \<in> set (is_attachments s)"
        by (auto simp: accounted_def a_def)
      from s(1) a(3) have "sound_attachment fs package_policy a"
        by (auto simp: index_inv_def list_all_iff)
      then have "length bytes \<le> pl_maximum_file_bytes (pp_limits package_policy)"
        "allows_attachment_name package_policy (last path)"
        using assms(5) File by (auto simp: sound_attachment_def a_def file_name_def split: if_splits)
      moreover obtain directory name where "path = directory @ [name]"
        "is_ok (attachment_name_from_str name)"
        "(\<exists>id r. (id, r) \<in> set (is_documents s) \<and> parent (dr_relative_path r) = Some directory) \<or>
         is_project_asset path package_policy"
        using validate_attachment_location [OF s(5), of a] a(3) by (auto simp: s(3,4) a_def)
      moreover have "index_get index id = Some r" if "(id, r) \<in> set (is_documents s)" for id r
        using that s(1,3) by (simp add: index_get_def index_inv_def)
      ultimately show ?thesis using a(1,2) False File by auto
    qed
  qed (use acc assms(5) in \<open>auto simp: accounted_def\<close>)
qed

theorem content_tree_clean_witness:
  "build valid_externals (\<lambda>_. 0) content_tree default_content_policy sample_policy = Inr content_result \<and>
   lookup content_tree [''a.png''] = Some (new_file ''x'') \<and>
   is_ok (attachment_name_from_str ''a.png'') \<and>
   (\<exists>document_id r. index_get content_result document_id = Some r \<and>
      parent (dr_relative_path r) = Some [])"
proof -
  have l: "lookup content_tree [''a.png''] = Some (new_file ''x'')"
    by (simp add: content_tree_def lookup_def)
  have "\<not> is_project_asset [''a.png''] sample_policy"
    by (simp add: is_project_asset_def content_names)
  with content_tree_clean [OF content_tree_builds content_tree_wf, of "[''a.png'']" "new_file ''x''"]
    l content_tree_builds
  show ?thesis by (simp add: new_file_def path_extension_def file_name_def content_names parent_def)
qed

text \<open>The work of a scan is bounded by its policy: no more documents and attachments than the entry
  limit, no document beyond the size limit, and no more Markdown bytes in all than the total.\<close>

theorem content_index_bounds:
  assumes "build ex now fs policy package_policy = Inr index" and "wf_fs fs"
  shows "length (ci_documents index) + length (ci_attachments index) \<le> cp_maximum_entry_count policy
    \<and> sum_list (map (\<lambda>(_, r). dr_byte_length r) (ci_documents index))
        \<le> cp_maximum_total_markdown_bytes policy
    \<and> distinct (map fst (ci_documents index))
    \<and> list_all (\<lambda>(_, r). dr_byte_length r \<le> cp_maximum_markdown_bytes policy) (ci_documents index)"
proof -
  obtain s where s: "index_inv ex fs policy package_policy s"
    "ci_documents index = is_documents s" "ci_attachments index = is_attachments s"
    by (rule build_Inr [OF assms])
  have "dr_byte_length r \<le> cp_maximum_markdown_bytes policy"
    if "(id, r) \<in> set (is_documents s)" for id r
    using that s(1) from_markdown_Inr(7) by (fastforce simp: index_inv_def sound_document_def)
  with s show ?thesis by (auto simp: index_inv_def list_all_iff)
qed

theorem content_index_bounds_witness:
  "wf_fs content_tree \<and>
   build valid_externals (\<lambda>_. 0) content_tree default_content_policy sample_policy = Inr content_result \<and>
   length (ci_documents content_result) + length (ci_attachments content_result) = 2 \<and>
   sum_list (map (\<lambda>(_, r). dr_byte_length r) (ci_documents content_result))
     \<le> cp_maximum_total_markdown_bytes default_content_policy"
  using content_index_bounds [OF content_tree_builds content_tree_wf] content_tree_builds content_tree_wf
  by (simp add: content_result_def)



text \<open>A deadline only ever cuts a scan short: whatever the clock shows, the index is the one built
  without a deadline, or the scan fails with the deadline error.\<close>

theorem build_deadline_transparent:
  "build ex now fs policy package_policy
     \<in> {Inl IndexScanDeadlineExceeded, build ex now fs (without_deadline policy) package_policy}"
proof -
  have "index_cut (build ex now fs policy package_policy)
      (build ex now fs (without_deadline policy) package_policy)"
    unfolding build_def build_validated_def without_deadline_fields
    by (intro cut_short_attempt cut_short_branch cut_short_refl index_loop_cut check_scan_deadline_cut)
  then show ?thesis by (simp add: cut_short_def)
qed

end
