(* ===== verification/Apply_Properties.thy ===== *)
theory Apply_Properties
  imports Apply_Plan Content_Index_Properties
begin

text \<open>
  What applying a request guarantees: optimistic locking, isolation of the documents a request does
  not mention, append-only logs and archives, bounded output, and a tree left alone by every
  request that is rejected while it is planned.
\<close>

section \<open>Execution\<close>

definition spares :: "path \<Rightarrow> planned_mutation \<Rightarrow> bool" where
  "spares q mutation =
     (case mutation of
        WriteNew _ _ \<Rightarrow> True
      | Replace p _ \<Rightarrow> p \<noteq> q
      | Move s d \<Rightarrow> \<not> prefix s q \<and> \<not> prefix d q)"

lemma create_parent_Inr:
  assumes "create_parent p fs = Inr fs'" and "wf_fs fs"
  shows "wf_fs fs'" and "lookup fs q \<noteq> None \<Longrightarrow> lookup fs' q = lookup fs q"
    and "\<not> strict_prefix q p \<Longrightarrow> lookup fs' q = lookup fs q"
proof -
  have "wf_fs fs' \<and> (lookup fs q \<noteq> None \<longrightarrow> lookup fs' q = lookup fs q) \<and>
      (\<not> strict_prefix q p \<longrightarrow> lookup fs' q = lookup fs q)"
  proof (cases "p = []")
    case True
    with assms show ?thesis by (simp add: create_parent_def parent_def)
  next
    case False
    then have "create_dir_all (butlast p) fs = Inr fs'"
      using assms(1) by (simp add: create_parent_def parent_def)
    note facts = create_dir_all_facts [OF assms(2) this]
    have "prefix q (butlast p) \<Longrightarrow> strict_prefix q p"
      using False by (metis append_butlast_last_id prefix_snoc strict_prefix_def
          prefix_order.dual_order.strict_iff_order append_self_conv butlast.simps(1)
          prefix_order.le_less_trans prefixI snoc_eq_iff_butlast)
    with facts show ?thesis by blast
  qed
  then show "wf_fs fs'" "lookup fs q \<noteq> None \<Longrightarrow> lookup fs' q = lookup fs q"
    "\<not> strict_prefix q p \<Longrightarrow> lookup fs' q = lookup fs q" by blast+
qed

lemma execute_mutation_Inr:
  assumes "execute_mutation mutation fs = (Inr moves, fs')" and "wf_fs fs"
  shows "wf_fs fs'"
    and "lookup fs q = Some (File b m l) \<Longrightarrow> spares q mutation \<Longrightarrow> lookup fs' q = Some (File b m l)"
proof -
  have "wf_fs fs' \<and> (lookup fs q = Some (File b m l) \<longrightarrow> spares q mutation \<longrightarrow>
      lookup fs' q = Some (File b m l))"
  proof (cases mutation)
    case (WriteNew p bytes)
    then obtain u where u: "create_parent p fs = Inr u" "create_new p bytes u = Inr fs'"
      using assms(1) by (auto simp: run_io_def split: sum.splits)
    note pre = create_parent_Inr [OF u(1) assms(2)]
    show ?thesis
      using create_new_step.run_wf [OF pre(1) u(2)] create_new_step.run_frame [OF pre(1) u(2), of q]
        pre(2) [of q] u(2) by (auto simp: create_new_Inr_iff lookup_put)
  next
    case (Replace p bytes)
    then have "write_file p bytes fs = Inr fs'"
      using assms(1) by (auto simp: run_io_def split: sum.splits)
    with assms(2) Replace show ?thesis
      using write_file_step.run_wf write_file_step.run_frame by (auto simp: spares_def)
  next
    case (Move s d)
    then obtain u where u: "create_parent d fs = Inr u" "rename s d u = Inr fs'"
      using assms(1) by (auto simp: run_io_def split: sum.splits)
    note pre = create_parent_Inr [OF u(1) assms(2)]
    show ?thesis
      using rename_step.run_wf [OF pre(1) u(2)] rename_step.run_frame [OF pre(1) u(2), of q]
        pre(2) [of q] Move by (auto simp: spares_def)
  qed
  then show "wf_fs fs'"
    "lookup fs q = Some (File b m l) \<Longrightarrow> spares q mutation \<Longrightarrow> lookup fs' q = Some (File b m l)"
    by blast+
qed

lemma execute_plan_Inr:
  assumes "execute_plan plan moves fs = (Inr moves', fs')" and "wf_fs fs"
  shows "wf_fs fs'"
    and "lookup fs q = Some (File b m l) \<Longrightarrow> list_all (spares q) plan \<Longrightarrow>
      lookup fs' q = Some (File b m l)"
proof -
  have "wf_fs fs' \<and> (lookup fs q = Some (File b m l) \<longrightarrow> list_all (spares q) plan \<longrightarrow>
      lookup fs' q = Some (File b m l))"
    using assms
  proof (induction plan arbitrary: moves fs)
    case Nil
    then show ?case by simp
  next
    case (Cons mutation plan)
    from Cons.prems(1) obtain moved u where u: "execute_mutation mutation fs = (Inr moved, u)"
      "execute_plan plan (moves @ moved) u = (Inr moves', fs')"
      by (auto split: prod.splits sum.splits)
    note step = execute_mutation_Inr [OF u(1) Cons.prems(2)]
    from Cons.IH [OF u(2) step(1)] step(2) [of q b m l] show ?case by auto
  qed
  then show "wf_fs fs'" "lookup fs q = Some (File b m l) \<Longrightarrow> list_all (spares q) plan \<Longrightarrow>
      lookup fs' q = Some (File b m l)" by blast+
qed

lemma apply_request_Inr:
  assumes "apply_request_with_policy ex now after package_fs package policy package_policy fs =
    (Inr moves, fs')"
  obtains index plan index' where "build ex now fs policy package_policy = Inr index"
    "build_plan ex fs package_fs package index policy (pl_maximum_total_bytes (pp_limits package_policy))
       = Inr plan"
    "execute_plan plan [] fs = (Inr moves, fs')" "build ex after fs' policy package_policy = Inr index'"
  using assms
  by (auto simp: apply_request_with_policy_def attempt_def map_err_def
      split: sum.splits prod.splits)

section \<open>Paths\<close>

lemma apply_category_name_eq: "apply_category_name t = category_name t"
  by (cases t) simp_all

lemma create_path_canonical:
  assumes "md_created m = created" and "md_document_id m = document_id"
  shows "create_document_path ex project t created document_id = canonical_document_path ex
    \<lparr>loc_document_type = t, loc_project = project, loc_archived = False\<rparr> m"
  using assms
  by (cases project)
    (simp_all add: create_document_path_def canonical_document_path_def bundle_name_def Let_def
      apply_category_name_eq)

lemma bundle_of_canonical:
  assumes "loc_document_type l \<noteq> Index"
  shows "bundle_path (canonical_document_path ex l m) (loc_document_type l) =
     butlast (canonical_document_path ex l m)"
  using canonical_bundle [OF assms, of ex m] assms
  by (auto simp: bundle_path_def parent_def)

lemma archive_path_canonical:
  assumes "\<And>u. is_ascii (ex_ulid_show ex u)" and "t \<notin> {Index, Log}"
    and "vd_relative_path v = canonical_document_path ex
      \<lparr>loc_document_type = t, loc_project = vd_project v, loc_archived = False\<rparr> m"
    and "vd_document_type v = t"
  shows "archive_document_path ex v document_id = canonical_document_path ex
    \<lparr>loc_document_type = t, loc_project = vd_project v, loc_archived = True\<rparr> m"
proof -
  have "Option.bind (parent (vd_relative_path v)) file_name = Some (bundle_name ex t m)"
    using assms(2,3) by (cases "vd_project v")
      (simp_all add: canonical_document_path_def Let_def parent_def file_name_def)
  then show ?thesis
    using assms(2,4) bundle_is_utf8 [OF assms(1)]
    by (cases "vd_project v")
      (simp_all add: archive_document_path_def canonical_document_path_def apply_category_name_eq Let_def)
qed

section \<open>Bundles do not overlap\<close>

lemma category_name_inject:
  "t \<noteq> Index \<Longrightarrow> t' \<noteq> Index \<Longrightarrow> category_name t = category_name t' \<Longrightarrow> t = t'"
  by (metis option.inject parse_category_name)

lemma bundle_prefix_same_id:
  assumes ut: "ulid_text ex w" and t: "loc_document_type l \<notin> {Index, Log}"
    and p: "prefix (butlast (canonical_document_path ex l m)) (canonical_document_path ex l' m')"
  shows "md_document_id m = md_document_id m'"
proof -
  obtain t project archived where
    l: "l = \<lparr>loc_document_type = t, loc_project = project, loc_archived = archived\<rparr>"
    by (metis document_location.surjective old.unit.exhaust)
  obtain t' project' archived' where
    l': "l' = \<lparr>loc_document_type = t', loc_project = project', loc_archived = archived'\<rparr>"
    by (metis document_location.surjective old.unit.exhaust)
  have same: "t = t'" if "category_name t = category_name t'" "t' \<noteq> Index"
    using that t category_name_inject by (auto simp: l)
  have "t' \<noteq> Index \<and> t = t' \<and> bundle_name ex t m = bundle_name ex t' m'"
  proof (cases "t' = Index")
    case True
    with t p show ?thesis
      by (cases project; cases archived; cases project')
        (simp_all add: l l' canonical_document_path_def Let_def)
  next
    case False
    with t p same show ?thesis
      using category_facts(2) [of t] category_facts(2) [of t']
      by (cases project; cases archived; cases project'; cases archived'; cases "t' = Log")
        (auto simp add: l l' canonical_document_path_def Let_def)
  qed
  then show ?thesis using bundle_name_id [OF ulid_textD(2,3) [OF ut]] by metis
qed

lemma bundle_prefix_beside:
  assumes ut: "ulid_text ex w" and t: "loc_document_type l \<notin> {Index, Log}" and t': "loc_document_type l' \<noteq> Index"
    and q: "q \<noteq> []" "butlast q = butlast (canonical_document_path ex l' m')"
    and p: "prefix (butlast (canonical_document_path ex l m)) q"
  shows "md_document_id m = md_document_id m'"
proof (cases "butlast (canonical_document_path ex l m) = q")
  case False
  with p q have "prefix (butlast (canonical_document_path ex l m)) (butlast (canonical_document_path ex l' m'))"
    by (metis append_butlast_last_id prefix_snoc)
  then have "prefix (butlast (canonical_document_path ex l m)) (canonical_document_path ex l' m')"
    by (metis prefix_order.trans prefixeq_butlast)
  with ut t show ?thesis by (rule bundle_prefix_same_id)
next
  case True
  obtain t project archived where
    l: "l = \<lparr>loc_document_type = t, loc_project = project, loc_archived = archived\<rparr>"
    by (metis document_location.surjective old.unit.exhaust)
  obtain t' project' archived' where
    l': "l' = \<lparr>loc_document_type = t', loc_project = project', loc_archived = archived'\<rparr>"
    by (metis document_location.surjective old.unit.exhaust)
  from True q(2) have "butlast (butlast (canonical_document_path ex l m)) =
      butlast (canonical_document_path ex l' m')" by simp
  with t t' have False
    using category_facts(2) [of t] category_facts(2) [of t']
    by (cases project; cases archived; cases project'; cases archived'; cases "t' = Log")
      (auto simp add: l l' canonical_document_path_def Let_def)
  then show ?thesis ..
qed

section \<open>What planning keeps\<close>

definition vd_location :: "virtual_document \<Rightarrow> document_location" where
  "vd_location v = \<lparr>loc_document_type = vd_document_type v, loc_project = vd_project v,
     loc_archived = vd_archived v\<rparr>"

text \<open>Records of an index that was built from the content tree.\<close>

definition index_ok :: "externals \<Rightarrow> fs \<Rightarrow> content_index \<Rightarrow> bool" where
  "index_ok ex fs index \<longleftrightarrow>
     (\<forall>document_id r. index_get index document_id = Some r \<longrightarrow>
        md_document_id (dr_metadata r) = document_id \<and> location_wf (dr_location r) \<and>
        dr_relative_path r = canonical_document_path ex (dr_location r) (dr_metadata r) \<and>
        lookup fs (dr_relative_path r) \<noteq> None) \<and>
     (\<forall>i j r r'. index_get index i = Some r \<longrightarrow> index_get index j = Some r' \<longrightarrow>
        dr_relative_path r = dr_relative_path r' \<longrightarrow> i = j)"

lemma build_index_ok:
  assumes "build ex now fs policy package_policy = Inr index" and "wf_fs fs"
  shows "index_ok ex fs index"
proof -
  have get: "md_document_id (dr_metadata r) = i \<and> location_wf (dr_location r) \<and>
      dr_relative_path r = canonical_document_path ex (dr_location r) (dr_metadata r) \<and>
      (\<exists>bytes mode nlink. lookup fs (dr_relative_path r) = Some (File bytes mode nlink) \<and>
         from_markdown ex (dr_relative_path r) bytes policy = Inr r)"
    if "index_get index i = Some r" for i r
  proof -
    from that obtain bytes mode nlink where b: "md_document_id (dr_metadata r) = i"
      "lookup fs (dr_relative_path r) = Some (File bytes mode nlink)"
      "from_markdown ex (dr_relative_path r) bytes policy = Inr r"
      unfolding build_get_iff [OF assms] by blast
    then show ?thesis using from_markdown_Inr(2,3) [OF b(3)] classify_wf by blast
  qed
  have "i = j" if "index_get index i = Some r" "index_get index j = Some r'"
    "dr_relative_path r = dr_relative_path r'" for i j r r'
    using get [OF that(1)] get [OF that(2)] that(3) by auto
  with get show ?thesis unfolding index_ok_def by blast
qed

text \<open>Logs and archived documents are frozen.\<close>

definition frozen :: "content_index \<Rightarrow> document_id \<Rightarrow> bool" where
  "frozen index document_id \<longleftrightarrow> (\<exists>r. index_get index document_id = Some r \<and>
     (loc_document_type (dr_location r) = Log \<or> loc_archived (dr_location r)))"

text \<open>A virtual document stands where its classification says; a landing page stands where the
  index has it or where nothing stood; a frozen document is as the index has it.\<close>

definition vd_ok :: "externals \<Rightarrow> fs \<Rightarrow> content_index \<Rightarrow> document_id \<Rightarrow> virtual_document \<Rightarrow> bool" where
  "vd_ok ex fs index document_id v \<longleftrightarrow>
     location_wf (vd_location v) \<and>
     (\<exists>m. md_document_id m = document_id \<and> md_created m = vd_created v \<and>
        vd_relative_path v = canonical_document_path ex (vd_location v) m) \<and>
     (vd_document_type v = Index \<longrightarrow> lookup fs (vd_relative_path v) = None \<or>
        (\<exists>r. index_get index document_id = Some r \<and> dr_relative_path r = vd_relative_path v)) \<and>
     (frozen index document_id \<longrightarrow> vd_document_type v = Log \<or> vd_archived v)"

text \<open>What a mutation may touch: only bundles and landing pages of the documents \<open>ids\<close> that
  are not frozen.\<close>

definition authored :: "externals \<Rightarrow> fs \<Rightarrow> content_index \<Rightarrow> document_id set \<Rightarrow> planned_mutation \<Rightarrow> bool" where
  "authored ex fs index ids mutation =
     (case mutation of
        WriteNew _ _ \<Rightarrow> True
      | Replace p _ \<Rightarrow> \<exists>l m. md_document_id m \<in> ids \<and> \<not> frozen index (md_document_id m) \<and>
          location_wf l \<and> p = canonical_document_path ex l m \<and>
          (loc_document_type l = Index \<longrightarrow> lookup fs p = None \<or>
             (\<exists>r. index_get index (md_document_id m) = Some r \<and> dr_relative_path r = p))
      | Move s d \<Rightarrow> \<exists>l l' m m'. md_document_id m \<in> ids \<and> md_document_id m' = md_document_id m \<and>
          \<not> frozen index (md_document_id m) \<and>
          loc_document_type l \<notin> {Index, Log} \<and> loc_document_type l' \<notin> {Index, Log} \<and>
          s = butlast (canonical_document_path ex l m) \<and> d = butlast (canonical_document_path ex l' m'))"

definition occupancy_ok :: "externals \<Rightarrow> fs \<Rightarrow> occupancy \<Rightarrow> bool" where
  "occupancy_ok ex fs entries \<longleftrightarrow>
     (\<forall>p. map_of entries p = Some False \<longrightarrow> lookup fs p = None \<or>
        (\<exists>l m. loc_document_type l \<notin> {Index, Log} \<and> p = butlast (canonical_document_path ex l m)))"

definition plan_inv :: "planning \<Rightarrow> document_id set \<Rightarrow> plan_state \<Rightarrow> bool" where
  "plan_inv p ids s \<longleftrightarrow>
     (\<forall>i v. map_of (pl_documents s) i = Some v \<longrightarrow>
        i \<in> ids \<and> vd_ok (pn_externals p) (pn_content p) (pn_index p) i v) \<and>
     list_all (authored (pn_externals p) (pn_content p) (pn_index p) ids) (pl_plan s) \<and>
     occupancy_ok (pn_externals p) (pn_content p) (pl_occupancy s)"

definition planning_ok :: "planning \<Rightarrow> bool" where
  "planning_ok p \<longleftrightarrow> wf_fs (pn_content p) \<and> request_paths_valid (vp_request (pn_package p)) \<and>
     index_ok (pn_externals p) (pn_content p) (pn_index p) \<and>
     (\<forall>u. is_ascii (ex_ulid_show (pn_externals p) u))"

lemma authored_mono: "authored ex fs index ids m \<Longrightarrow> ids \<subseteq> ids' \<Longrightarrow> authored ex fs index ids' m"
  by (cases m; simp add: authored_def; blast)

lemma resolve_document_ok:
  assumes "resolve_document (pl_documents s) (pn_index p) document_id = Inr v"
    and "plan_inv p ids s" and "planning_ok p"
  shows "vd_ok (pn_externals p) (pn_content p) (pn_index p) document_id v"
proof (cases "map_of (pl_documents s) document_id")
  case None
  with assms(1) obtain r where r: "index_get (pn_index p) document_id = Some r"
    "vd_relative_path v = dr_relative_path r" "vd_location v = dr_location r"
    "vd_created v = md_created (dr_metadata r)" "vd_document_type v = loc_document_type (dr_location r)"
    "vd_archived v = loc_archived (dr_location r)"
    by (auto simp: resolve_document_def attempt_Inr_iff vd_location_def)
  with assms(3) show ?thesis
    by (auto simp: vd_ok_def planning_ok_def index_ok_def frozen_def)
next
  case (Some u)
  with assms(1,2) show ?thesis by (simp add: resolve_document_def plan_inv_def)
qed

lemma reserve_ok:
  assumes "reserve fs q entries = Inr entries'" and "occupancy_ok ex fs entries"
    and "wf_fs fs"
  shows "occupancy_ok ex fs entries'"
    and "lookup fs q = None \<or> (\<exists>l m. loc_document_type l \<notin> {Index, Log} \<and>
      q = butlast (canonical_document_path ex l m))"
proof -
  have "symlink_metadata fs q = Inl NotFound \<Longrightarrow> lookup fs q = None"
    using symlink_metadata_ok_iff [OF assms(3), of q] by fastforce
  then have "occupancy_ok ex fs entries' \<and> (lookup fs q = None \<or>
      (\<exists>l m. loc_document_type l \<notin> {Index, Log} \<and> q = butlast (canonical_document_path ex l m)))"
    using assms(1,2)
    by (auto simp: reserve_def is_occupied_def attempt_Inr_iff occupancy_ok_def update_conv'
        split: option.splits sum.splits if_splits)
  then show "occupancy_ok ex fs entries'" "lookup fs q = None \<or> (\<exists>l m. loc_document_type l \<notin> {Index, Log} \<and>
      q = butlast (canonical_document_path ex l m))" by blast+
qed

lemma plan_create_Inr:
  assumes "plan_create p document_id content s = Inr t"
  obtains n bytes metadata relative_path where
    "map_of (pl_documents s) document_id = None" "index_get (pn_index p) document_id = None"
    "payload_byte_length (pn_package p) (payload_str content) = Inr n"
    "reserve_planned_bytes (pn_maximum_planned_bytes p) n (pl_planned_bytes s) = Inr (pl_planned_bytes t)"
    "read_payload (pn_externals p) (pn_package_fs p) (pn_package p) (payload_str content) = Inr bytes"
    "decode_payload_metadata (pn_externals p) bytes (pn_policy p) (payload_str content) = Inr metadata"
    "md_status metadata \<noteq> Archived"
    "relative_path = create_document_path (pn_externals p) (cr_project (vp_request (pn_package p)))
       (cr_document_type (vp_request (pn_package p))) (md_created metadata) document_id"
    "reserve (pn_content p) (bundle_path relative_path (cr_document_type (vp_request (pn_package p))))
       (pl_occupancy s) = Inr (pl_occupancy t)"
    "pl_plan t = pl_plan s @ [WriteNew relative_path bytes]"
    "pl_documents t = AList.update document_id
       \<lparr>vd_relative_path = relative_path, vd_canonical_path = relative_path,
        vd_document_type = cr_document_type (vp_request (pn_package p)),
        vd_project = cr_project (vp_request (pn_package p)),
        vd_created = md_created metadata, vd_updated = md_updated metadata,
        vd_archived = False, vd_status = md_status metadata,
        vd_revision = revision_of (pn_externals p) bytes, vd_markdown = Some bytes\<rparr> (pl_documents s)"
  using assms unfolding plan_create_def Let_def if_Inl_eq_Inr attempt_Inr_iff de_Morgan_disj not_not
  by auto

lemma plan_update_Inr:
  assumes "plan_update p document_id expected_revision content s = Inr t"
  obtains v n bytes metadata where
    "resolve_document (pl_documents s) (pn_index p) document_id = Inr v"
    "apply_require_revision v document_id expected_revision = Inr ()"
    "require_mutable v document_id (cr_project (vp_request (pn_package p)))
       (cr_document_type (vp_request (pn_package p))) = Inr ()"
    "payload_byte_length (pn_package p) (payload_str content) = Inr n"
    "reserve_planned_bytes (pn_maximum_planned_bytes p) n (pl_planned_bytes s) = Inr (pl_planned_bytes t)"
    "read_payload (pn_externals p) (pn_package_fs p) (pn_package p) (payload_str content) = Inr bytes"
    "check_update p document_id v metadata = Inr ()"
    "pl_plan t = pl_plan s @ [Replace (vd_relative_path v) bytes]"
    "pl_documents t = AList.update document_id
       (v\<lparr>vd_status := md_status metadata, vd_updated := md_updated metadata,
          vd_revision := revision_of (pn_externals p) bytes, vd_markdown := Some bytes\<rparr>) (pl_documents s)"
    "pl_occupancy t = pl_occupancy s"
  using assms unfolding plan_update_def Let_def attempt_Inr_iff by auto

lemma plan_move_Inr:
  assumes "plan_move p document_id expected_revision project t' s = Inr t"
  obtains v where
    "t' = cr_document_type (vp_request (pn_package p))" "project = cr_project (vp_request (pn_package p))"
    "t' \<notin> {Log, Index}"
    "resolve_document (pl_documents s) (pn_index p) document_id = Inr v"
    "apply_require_revision v document_id expected_revision = Inr ()"
    "require_movable v document_id = Inr ()"
    "move_path (pn_content p) (bundle_path (vd_relative_path v) (vd_document_type v))
       (bundle_path (create_document_path (pn_externals p) project t' (vd_created v) document_id) t')
       (pl_occupancy s) = Inr (pl_occupancy t)"
    "pl_plan t = pl_plan s @ [Move (bundle_path (vd_relative_path v) (vd_document_type v))
       (bundle_path (create_document_path (pn_externals p) project t' (vd_created v) document_id) t')]"
    "pl_documents t = AList.update document_id
       (v\<lparr>vd_relative_path := create_document_path (pn_externals p) project t' (vd_created v) document_id,
          vd_document_type := t', vd_project := project\<rparr>) (pl_documents s)"
    "pl_planned_bytes t = pl_planned_bytes s"
  using assms unfolding plan_move_def Let_def if_Inl_eq_Inr attempt_Inr_iff by auto

lemma plan_archive_Inr:
  assumes "plan_archive p document_id expected_revision s = Inr t"
  obtains v markdown archived where
    "resolve_document (pl_documents s) (pn_index p) document_id = Inr v"
    "apply_require_revision v document_id expected_revision = Inr ()"
    "require_movable v document_id = Inr ()"
    "move_path (pn_content p) (bundle_path (vd_relative_path v) (vd_document_type v))
       (bundle_path (archive_document_path (pn_externals p) v document_id) (vd_document_type v))
       (pl_occupancy s) = Inr (pl_occupancy t)"
    "archived_markdown (pn_externals p) markdown (pn_policy p)
       (cr_request_id (vp_request (pn_package p))) (pn_operation_time p) (pl_planned_bytes s)
       (pn_maximum_planned_bytes p) = Inr (archived, pl_planned_bytes t)"
    "pl_plan t = pl_plan s @ [Replace (vd_relative_path v) archived,
       Move (bundle_path (vd_relative_path v) (vd_document_type v))
       (bundle_path (archive_document_path (pn_externals p) v document_id) (vd_document_type v))]"
    "pl_documents t = AList.update document_id
       (v\<lparr>vd_relative_path := archive_document_path (pn_externals p) v document_id, vd_archived := True,
          vd_status := Archived, vd_updated := Some (pn_operation_time p),
          vd_revision := revision_of (pn_externals p) archived, vd_markdown := None\<rparr>) (pl_documents s)"
  using assms unfolding plan_archive_def Let_def attempt_Inr_iff by (auto simp: attempt_Inr_iff)

lemma plan_add_attachment_Inr:
  assumes "plan_add_attachment p document_id source name s = Inr t"
  obtains v n bytes q where
    "resolve_document (pl_documents s) (pn_index p) document_id = Inr v"
    "require_accessible v document_id (cr_project (vp_request (pn_package p)))
       (cr_document_type (vp_request (pn_package p))) = Inr ()"
    "vd_status v = Active"
    "q = (case parent (vd_relative_path v) of Some d \<Rightarrow> d | None \<Rightarrow> []) @ [attachment_str name]"
    "reserve (pn_content p) q (pl_occupancy s) = Inr (pl_occupancy t)"
    "payload_byte_length (pn_package p) (payload_str source) = Inr n"
    "reserve_planned_bytes (pn_maximum_planned_bytes p) n (pl_planned_bytes s) = Inr (pl_planned_bytes t)"
    "read_payload (pn_externals p) (pn_package_fs p) (pn_package p) (payload_str source) = Inr bytes"
    "pl_plan t = pl_plan s @ [WriteNew q bytes]"
    "pl_documents t = AList.update document_id v (pl_documents s)"
  using assms unfolding plan_add_attachment_def Let_def if_Inl_eq_Inr attempt_Inr_iff by auto

lemma index_path_not_bundle:
  assumes "loc_document_type l = Index" and "loc_document_type l' \<notin> {Index, Log}"
  shows "canonical_document_path ex l m \<noteq> butlast (canonical_document_path ex l' m')"
  using assms
  by (cases "loc_project l"; cases "loc_project l'"; cases "loc_archived l'")
    (simp_all add: canonical_document_path_def Let_def)

lemma require_movable_ok:
  "require_movable v i = Inr () \<longleftrightarrow>
     \<not> vd_archived v \<and> vd_document_type v \<notin> {Log, Index} \<and> vd_status v = Active"
  by (simp add: require_movable_def)

lemma require_classification_ok:
  "require_classification v i project t = Inr () \<longleftrightarrow> vd_document_type v = t \<and> vd_project v = project"
  by (auto simp: require_classification_def)

lemma require_accessible_ok:
  "require_accessible v i project t = Inr () \<longleftrightarrow>
     \<not> vd_archived v \<and> vd_document_type v = t \<and> vd_project v = project"
  by (auto simp: require_accessible_def require_classification_ok)

lemma require_mutable_ok:
  "require_mutable v i project t = Inr () \<longleftrightarrow>
     \<not> vd_archived v \<and> vd_document_type v = t \<and> vd_project v = project \<and> t \<noteq> Log \<and> vd_status v = Active"
  by (auto simp: require_mutable_def attempt_Inr_iff require_accessible_ok)

lemma plan_inv_step:
  assumes "plan_inv p ids s" and "pl_documents t = AList.update i v (pl_documents s)"
    and "vd_ok (pn_externals p) (pn_content p) (pn_index p) i v"
    and "pl_plan t = pl_plan s @ ms"
    and "list_all (authored (pn_externals p) (pn_content p) (pn_index p) (insert i ids)) ms"
    and "occupancy_ok (pn_externals p) (pn_content p) (pl_occupancy t)"
  shows "plan_inv p (insert i ids) t"
proof -
  have "list_all (authored (pn_externals p) (pn_content p) (pn_index p) (insert i ids)) (pl_plan s)"
    using assms(1) authored_mono [OF _ subset_insertI]
    by (auto simp: plan_inv_def list_all_iff)
  with assms show ?thesis by (auto simp: plan_inv_def update_conv')
qed

lemma movable_bundle:
  assumes "vd_ok ex fs index i v" and "vd_document_type v \<notin> {Log, Index}"
  obtains m where "md_document_id m = i" "md_created m = vd_created v"
    "vd_relative_path v = canonical_document_path ex (vd_location v) m"
    "bundle_path (vd_relative_path v) (vd_document_type v) =
       butlast (canonical_document_path ex (vd_location v) m)"
proof -
  from assms(1) obtain m :: document_metadata where m: "md_document_id m = i" "md_created m = vd_created v"
    "vd_relative_path v = canonical_document_path ex (vd_location v) m" by (auto simp: vd_ok_def)
  with assms(2) show thesis
    using bundle_of_canonical [of "vd_location v" ex m] that by (simp add: vd_location_def)
qed

lemma move_path_ok:
  assumes "move_path fs s d entries = Inr entries'" and "occupancy_ok ex fs entries" and "wf_fs fs"
    and "loc_document_type l \<notin> {Index, Log}" and "s = butlast (canonical_document_path ex l m)"
  shows "occupancy_ok ex fs entries'"
proof -
  from assms(1) obtain u where u: "reserve fs d entries = Inr u" "entries' = AList.update s False u"
    by (auto simp: move_path_def attempt_Inr_iff split: if_splits)
  have "occupancy_ok ex fs u" by (rule reserve_ok(1) [OF u(1) assms(2,3)])
  with u(2) assms(4,5) show ?thesis by (auto simp: occupancy_ok_def update_conv')
qed

lemma authored_MoveI:
  assumes "md_document_id m = i" and "\<not> frozen index i"
    and "loc_document_type l \<notin> {Index, Log}" and "loc_document_type l' \<notin> {Index, Log}"
    and "s = butlast (canonical_document_path ex l m)" and "d = butlast (canonical_document_path ex l' m)"
  shows "authored ex fs index (insert i ids) (Move s d)"
  unfolding authored_def planned_mutation.case using assms by blast

lemma plan_create_inv:
  assumes run: "plan_create p i content s = Inr t"
    and inv: "plan_inv p ids s" and ok: "planning_ok p"
  shows "plan_inv p (insert i ids) t"
proof -
  let ?ex = "pn_externals p" and ?r = "vp_request (pn_package p)"
  obtain bytes rel and metadata :: document_metadata where
    c: "index_get (pn_index p) i = None"
    "rel = create_document_path ?ex (cr_project ?r) (cr_document_type ?r) (md_created metadata) i"
    "reserve (pn_content p) (bundle_path rel (cr_document_type ?r)) (pl_occupancy s) = Inr (pl_occupancy t)"
    "pl_plan t = pl_plan s @ [WriteNew rel bytes]"
    "pl_documents t = AList.update i
       \<lparr>vd_relative_path = rel, vd_canonical_path = rel, vd_document_type = cr_document_type ?r,
        vd_project = cr_project ?r, vd_created = md_created metadata, vd_updated = md_updated metadata,
        vd_archived = False, vd_status = md_status metadata, vd_revision = revision_of ?ex bytes,
        vd_markdown = Some bytes\<rparr> (pl_documents s)" (is "_ = AList.update i ?v _")
    by (rule plan_create_Inr [OF run]) blast
  define m where "m = metadata\<lparr>md_document_id := i\<rparr>"
  have wf: "wf_fs (pn_content p)" "occupancy_ok ?ex (pn_content p) (pl_occupancy s)"
    using ok inv by (simp_all add: planning_ok_def plan_inv_def)
  note occ = reserve_ok [OF c(3) wf(2,1)]
  have rel: "rel = canonical_document_path ?ex (vd_location ?v) m"
    unfolding c(2) vd_location_def by (simp add: create_path_canonical [of m] m_def)
  have "location_wf (vd_location ?v)"
    using ok by (auto simp: location_wf_def vd_location_def planning_ok_def request_paths_valid_def)
  moreover have "lookup (pn_content p) rel = None" if "cr_document_type ?r = Index"
  proof -
    have "loc_document_type (vd_location ?v) = Index" using that by (simp add: vd_location_def)
    then have "rel \<noteq> butlast (canonical_document_path ?ex l m')"
      if "loc_document_type l \<notin> {Index, Log}" for l m'
      using index_path_not_bundle [of "vd_location ?v" l ?ex m m'] that rel by metis
    moreover have "bundle_path rel (cr_document_type ?r) = rel" using that by (simp add: bundle_path_def)
    ultimately show ?thesis using occ(2) by metis
  qed
  ultimately have "vd_ok ?ex (pn_content p) (pn_index p) i ?v"
    using rel c(1) unfolding vd_ok_def frozen_def
    by (intro conjI exI [of _ m]) (simp_all add: m_def)
  from plan_inv_step [OF inv c(5) this c(4) _ occ(1)] show ?thesis by (simp add: authored_def)
qed

lemma plan_update_inv:
  assumes run: "plan_update p i expected content s = Inr t"
    and inv: "plan_inv p ids s" and ok: "planning_ok p"
  shows "plan_inv p (insert i ids) t"
proof -
  let ?ex = "pn_externals p" and ?r = "vp_request (pn_package p)"
  obtain bytes and v :: virtual_document and metadata :: document_metadata where
    c: "resolve_document (pl_documents s) (pn_index p) i = Inr v"
    "require_mutable v i (cr_project ?r) (cr_document_type ?r) = Inr ()"
    "pl_plan t = pl_plan s @ [Replace (vd_relative_path v) bytes]"
    "pl_documents t = AList.update i (v\<lparr>vd_status := md_status metadata,
       vd_updated := md_updated metadata, vd_revision := revision_of ?ex bytes,
       vd_markdown := Some bytes\<rparr>) (pl_documents s)" "pl_occupancy t = pl_occupancy s"
    by (rule plan_update_Inr [OF run]) blast
  note v = resolve_document_ok [OF c(1) inv ok]
  have v': "vd_ok ?ex (pn_content p) (pn_index p) i (v\<lparr>vd_status := md_status metadata,
       vd_updated := md_updated metadata, vd_revision := revision_of ?ex bytes,
       vd_markdown := Some bytes\<rparr>)"
    using v by (simp add: vd_ok_def vd_location_def)
  have "\<not> frozen (pn_index p) i" using v c(2) by (auto simp: vd_ok_def require_mutable_ok)
  with v have "authored ?ex (pn_content p) (pn_index p) (insert i ids) (Replace (vd_relative_path v) bytes)"
    by (fastforce simp: authored_def vd_ok_def vd_location_def)
  then show ?thesis
    using plan_inv_step [OF inv c(4) v' c(3)] inv c(5) by (simp add: plan_inv_def)
qed

lemma plan_move_inv:
  assumes run: "plan_move p i expected project t' s = Inr t"
    and inv: "plan_inv p ids s" and ok: "planning_ok p"
  shows "plan_inv p (insert i ids) t"
proof -
  let ?ex = "pn_externals p" and ?r = "vp_request (pn_package p)"
  obtain v :: virtual_document where
    c: "t' \<notin> {Log, Index}" "project = cr_project ?r"
    "resolve_document (pl_documents s) (pn_index p) i = Inr v" "require_movable v i = Inr ()"
    "move_path (pn_content p) (bundle_path (vd_relative_path v) (vd_document_type v))
       (bundle_path (create_document_path ?ex project t' (vd_created v) i) t')
       (pl_occupancy s) = Inr (pl_occupancy t)"
    "pl_plan t = pl_plan s @ [Move (bundle_path (vd_relative_path v) (vd_document_type v))
       (bundle_path (create_document_path ?ex project t' (vd_created v) i) t')]"
    "pl_documents t = AList.update i (v\<lparr>vd_relative_path := create_document_path ?ex project t' (vd_created v) i,
       vd_document_type := t', vd_project := project\<rparr>) (pl_documents s)" (is "_ = AList.update i ?v _")
    by (rule plan_move_Inr [OF run]) blast
  note v = resolve_document_ok [OF c(3) inv ok]
  have movable: "vd_document_type v \<notin> {Log, Index}" "\<not> vd_archived v"
    using c(4) by (simp_all add: require_movable_ok)
  obtain m :: document_metadata where m: "md_document_id m = i" "md_created m = vd_created v"
    "bundle_path (vd_relative_path v) (vd_document_type v) =
       butlast (canonical_document_path ?ex (vd_location v) m)"
    by (rule movable_bundle [OF v movable(1)])
  have dest: "create_document_path ?ex project t' (vd_created v) i = canonical_document_path ?ex (vd_location ?v) m"
    using create_path_canonical [OF m(2,1), of ?ex project t'] movable(2) by (simp add: vd_location_def)
  have bp: "bundle_path (canonical_document_path ?ex (vd_location ?v) m) t' =
      butlast (canonical_document_path ?ex (vd_location ?v) m)"
    using bundle_of_canonical [of "vd_location ?v" ?ex m] c(1) by (simp add: vd_location_def)
  have thaw: "\<not> frozen (pn_index p) i" using v movable by (auto simp: vd_ok_def)
  have "location_wf (vd_location ?v)"
    using ok c(1,2) by (auto simp: location_wf_def vd_location_def planning_ok_def request_paths_valid_def)
  then have v': "vd_ok ?ex (pn_content p) (pn_index p) i ?v"
    unfolding vd_ok_def using dest m(1,2) c(1) thaw
    by (intro conjI exI [of _ m]) simp_all
  have "authored ?ex (pn_content p) (pn_index p) (insert i ids) (Move
      (bundle_path (vd_relative_path v) (vd_document_type v))
      (bundle_path (create_document_path ?ex project t' (vd_created v) i) t'))"
    by (rule authored_MoveI [OF m(1) thaw _ _ m(3), of "vd_location ?v"])
      (use movable(1) c(1) bp dest in \<open>simp_all add: vd_location_def\<close>)
  moreover have "occupancy_ok ?ex (pn_content p) (pl_occupancy t)"
    using move_path_ok [OF c(5) _ _ _ m(3)] inv ok movable(1)
    by (auto simp: plan_inv_def planning_ok_def vd_location_def)
  ultimately show ?thesis using plan_inv_step [OF inv c(7) v' c(6)] by simp
qed

lemma plan_archive_inv:
  assumes run: "plan_archive p i expected s = Inr t"
    and inv: "plan_inv p ids s" and ok: "planning_ok p"
  shows "plan_inv p (insert i ids) t"
proof -
  let ?ex = "pn_externals p"
  obtain archived and v :: virtual_document where
    c: "resolve_document (pl_documents s) (pn_index p) i = Inr v" "require_movable v i = Inr ()"
    "move_path (pn_content p) (bundle_path (vd_relative_path v) (vd_document_type v))
       (bundle_path (archive_document_path ?ex v i) (vd_document_type v))
       (pl_occupancy s) = Inr (pl_occupancy t)"
    "pl_plan t = pl_plan s @ [Replace (vd_relative_path v) archived,
       Move (bundle_path (vd_relative_path v) (vd_document_type v))
       (bundle_path (archive_document_path ?ex v i) (vd_document_type v))]"
    "pl_documents t = AList.update i (v\<lparr>vd_relative_path := archive_document_path ?ex v i,
       vd_archived := True, vd_status := Archived, vd_updated := Some (pn_operation_time p),
       vd_revision := revision_of ?ex archived, vd_markdown := None\<rparr>) (pl_documents s)"
    (is "_ = AList.update i ?v _")
    by (rule plan_archive_Inr [OF run]) blast
  note v = resolve_document_ok [OF c(1) inv ok]
  have movable: "vd_document_type v \<notin> {Log, Index}" "\<not> vd_archived v"
    using c(2) by (simp_all add: require_movable_ok)
  obtain m :: document_metadata where m: "md_document_id m = i" "md_created m = vd_created v"
    "vd_relative_path v = canonical_document_path ?ex (vd_location v) m"
    "bundle_path (vd_relative_path v) (vd_document_type v) =
       butlast (canonical_document_path ?ex (vd_location v) m)"
    by (rule movable_bundle [OF v movable(1)])
  have dest: "archive_document_path ?ex v i = canonical_document_path ?ex (vd_location ?v) m"
    using archive_path_canonical [of ?ex "vd_document_type v" v m i] ok movable m(3)
    by (auto simp: planning_ok_def vd_location_def)
  have bp: "bundle_path (canonical_document_path ?ex (vd_location ?v) m) (vd_document_type v) =
      butlast (canonical_document_path ?ex (vd_location ?v) m)"
    using bundle_of_canonical [of "vd_location ?v" ?ex m] movable(1) by (simp add: vd_location_def)
  have thaw: "\<not> frozen (pn_index p) i" using v movable by (auto simp: vd_ok_def)
  have "location_wf (vd_location ?v)"
    using v movable(1) by (auto simp: vd_ok_def location_wf_def vd_location_def)
  then have v': "vd_ok ?ex (pn_content p) (pn_index p) i ?v"
    unfolding vd_ok_def using dest m(1,2) movable(1) thaw
    by (intro conjI exI [of _ m]) simp_all
  have "authored ?ex (pn_content p) (pn_index p) (insert i ids) (Move
      (bundle_path (vd_relative_path v) (vd_document_type v))
      (bundle_path (archive_document_path ?ex v i) (vd_document_type v)))"
    by (rule authored_MoveI [OF m(1) thaw _ _ m(4), of "vd_location ?v"])
      (use movable(1) bp dest in \<open>simp_all add: vd_location_def\<close>)
  moreover have "authored ?ex (pn_content p) (pn_index p) (insert i ids) (Replace (vd_relative_path v) archived)"
    using v thaw by (fastforce simp: authored_def vd_ok_def vd_location_def)
  moreover have "occupancy_ok ?ex (pn_content p) (pl_occupancy t)"
    using move_path_ok [OF c(3) _ _ _ m(4)] inv ok movable(1)
    by (auto simp: plan_inv_def planning_ok_def vd_location_def)
  ultimately show ?thesis using plan_inv_step [OF inv c(5) v' c(4)] by simp
qed

lemma plan_add_attachment_inv:
  assumes run: "plan_add_attachment p i source name s = Inr t"
    and inv: "plan_inv p ids s" and ok: "planning_ok p"
  shows "plan_inv p (insert i ids) t"
proof -
  obtain bytes q and v :: virtual_document where
    c: "resolve_document (pl_documents s) (pn_index p) i = Inr v"
    "reserve (pn_content p) q (pl_occupancy s) = Inr (pl_occupancy t)"
    "pl_plan t = pl_plan s @ [WriteNew q bytes]" "pl_documents t = AList.update i v (pl_documents s)"
    by (rule plan_add_attachment_Inr [OF run]) blast
  have "occupancy_ok (pn_externals p) (pn_content p) (pl_occupancy t)"
    using reserve_ok(1) [OF c(2)] inv ok by (auto simp: plan_inv_def planning_ok_def)
  then show ?thesis
    using plan_inv_step [OF inv c(4) resolve_document_ok [OF c(1) inv ok] c(3)]
    by (simp add: authored_def)
qed

lemma plan_operation_inv:
  assumes "plan_operation p op s = Inr t" and "plan_inv p ids s" and "planning_ok p"
  shows "plan_inv p (insert (op_document_id op) ids) t"
  using assms plan_create_inv plan_update_inv plan_move_inv plan_archive_inv plan_add_attachment_inv
  by (cases op) auto

lemma plan_operations_inv:
  assumes "try_fold (plan_operation p) ops s = Inr t" and "plan_inv p ids s" and "planning_ok p"
  shows "plan_inv p (ids \<union> op_document_id ` set ops) t"
  using assms(1,2)
proof (induction ops arbitrary: s ids)
  case (Cons op ops)
  then obtain u where u: "plan_operation p op s = Inr u" "try_fold (plan_operation p) ops u = Inr t"
    by (auto simp: attempt_Inr_iff)
  from Cons.IH [OF u(2) plan_operation_inv [OF u(1) Cons.prems(2) assms(3)]] show ?case by simp
qed simp

lemma empty_plan_inv: "plan_inv p {} empty_plan"
  by (simp add: plan_inv_def empty_plan_def occupancy_ok_def)

lemma build_plan_authored:
  assumes "build_plan ex content package_fs package index policy maximum = Inr plan"
    and "wf_fs content" and "request_paths_valid (vp_request package)" and "index_ok ex content index"
    and "\<And>u. is_ascii (ex_ulid_show ex u)"
  shows "list_all (authored ex content index (op_document_id ` set (cr_operations (vp_request package)))) plan"
proof -
  let ?p = "\<lparr>pn_externals = ex, pn_content = content, pn_package_fs = package_fs,
     pn_package = package, pn_index = index, pn_policy = policy,
     pn_maximum_planned_bytes = maximum, pn_operation_time = operation_time package\<rparr>"
  from assms(1) obtain s :: plan_state where
    s: "try_fold (plan_operation ?p) (cr_operations (vp_request package)) empty_plan = Inr s" "plan = pl_plan s"
    by (auto simp: build_plan_def Let_def attempt_Inr_iff split: if_splits)
  have "planning_ok ?p" using assms by (simp add: planning_ok_def)
  from plan_operations_inv [OF s(1) empty_plan_inv this] s(2) show ?thesis
    by (simp add: plan_inv_def)
qed

lemma authored_spares:
  assumes ut: "ulid_text ex w" and ok: "index_ok ex fs index" and r: "index_get index i = Some r"
    and free: "i \<notin> ids \<or> frozen index i" and m: "authored ex fs index ids mutation"
    and q: "q = dr_relative_path r \<or> loc_document_type (dr_location r) \<noteq> Index \<and> q \<noteq> [] \<and>
      butlast q = butlast (dr_relative_path r)"
  shows "spares q mutation"
proof -
  have rec: "md_document_id (dr_metadata r) = i" "location_wf (dr_location r)"
    "dr_relative_path r = canonical_document_path ex (dr_location r) (dr_metadata r)"
    "lookup fs (dr_relative_path r) \<noteq> None"
    using ok r unfolding index_ok_def by blast+
  show ?thesis
  proof (cases mutation)
    case (WriteNew p b)
    then show ?thesis by (simp add: spares_def)
  next
    case (Replace p b)
    with m obtain l m where p: "md_document_id m \<in> ids" "\<not> frozen index (md_document_id m)"
      "location_wf l" "p = canonical_document_path ex l m"
      "loc_document_type l = Index \<longrightarrow> lookup fs p = None \<or>
         (\<exists>r. index_get index (md_document_id m) = Some r \<and> dr_relative_path r = p)"
      by (auto simp: authored_def)
    have "p \<noteq> q"
    proof
      assume pq: "p = q"
      have "last p = ''index.md''" "last (dr_relative_path r) = ''index.md''"
        "p \<noteq> []" "dr_relative_path r \<noteq> []"
        using canonical_path_shape p(3,4) rec(2,3) by metis+
      with pq q have "p = dr_relative_path r"
        by (metis append_butlast_last_id)
      with p(4) rec(3) have eq: "canonical_document_path ex l m =
          canonical_document_path ex (dr_location r) (dr_metadata r)" by simp
      have "md_document_id m = i"
      proof (cases "loc_document_type l = Index")
        case True
        with p(5) rec(4) \<open>p = dr_relative_path r\<close> ok r show ?thesis
          by (auto simp: index_ok_def)
      next
        case False
        then show ?thesis using canonical_path_inject(2) [OF ut p(3) rec(2) eq] rec(1) by simp
      qed
      with p(1,2) free show False by simp
    qed
    then show ?thesis by (simp add: spares_def Replace)
  next
    case (Move s d)
    with m obtain l l' m m' where mv: "md_document_id m \<in> ids" "md_document_id m' = md_document_id m"
      "\<not> frozen index (md_document_id m)" "loc_document_type l \<notin> {Index, Log}"
      "loc_document_type l' \<notin> {Index, Log}" "s = butlast (canonical_document_path ex l m)"
      "d = butlast (canonical_document_path ex l' m')"
      by (auto simp: authored_def)
    have hit: "md_document_id n = i"
      if "loc_document_type k \<notin> {Index, Log}" "prefix (butlast (canonical_document_path ex k n)) q" for k n
    proof (cases "q = dr_relative_path r")
      case True
      with bundle_prefix_same_id [OF ut that(1)] that(2) rec(1,3) show ?thesis by metis
    next
      case False
      with q bundle_prefix_beside [OF ut that(1), of "dr_location r" q "dr_metadata r" n] that(2) rec(1,3)
      show ?thesis by metis
    qed
    have "\<not> prefix s q" "\<not> prefix d q"
      using hit [OF mv(4), of m] hit [OF mv(5), of m'] mv free by auto
    then show ?thesis by (simp add: spares_def Move)
  qed
qed

lemma apply_keeps:
  assumes ut: "ulid_text ex w" and wf: "wf_fs fs" and valid: "request_paths_valid (vp_request package)"
    and run: "apply_request_with_policy ex now after package_fs package policy package_policy fs =
      (Inr moves, fs')"
    and index: "build ex now fs policy package_policy = Inr index"
    and r: "index_get index i = Some r"
    and free: "i \<notin> op_document_id ` set (cr_operations (vp_request package)) \<or> frozen index i"
  shows "q = dr_relative_path r \<or> loc_document_type (dr_location r) \<noteq> Index \<and> q \<noteq> [] \<and>
      butlast q = butlast (dr_relative_path r) \<Longrightarrow>
      lookup fs q = Some (File b m l) \<Longrightarrow> lookup fs' q = Some (File b m l)"
    and "\<exists>index'. build ex after fs' policy package_policy = Inr index' \<and> index_get index' i = Some r"
proof -
  obtain plan index' where
    p: "build_plan ex fs package_fs package index policy (pl_maximum_total_bytes (pp_limits package_policy))
       = Inr plan"
    "execute_plan plan [] fs = (Inr moves, fs')" "build ex after fs' policy package_policy = Inr index'"
    using run index by (auto elim: apply_request_Inr)
  note ok = build_index_ok [OF index wf]
  have plan: "list_all (authored ex fs index (op_document_id ` set (cr_operations (vp_request package)))) plan"
    using build_plan_authored [OF p(1) wf valid ok] ulid_textD(1) [OF ut] by blast
  have keep: "lookup fs' q = Some (File b m l)"
    if "q = dr_relative_path r \<or> loc_document_type (dr_location r) \<noteq> Index \<and> q \<noteq> [] \<and>
      butlast q = butlast (dr_relative_path r)" "lookup fs q = Some (File b m l)" for q b m l
    using execute_plan_Inr(2) [OF p(2) wf that(2)] plan authored_spares [OF ut ok r free _ that(1)]
    by (auto simp: list_all_iff)
  from keep show "q = dr_relative_path r \<or> loc_document_type (dr_location r) \<noteq> Index \<and> q \<noteq> [] \<and>
      butlast q = butlast (dr_relative_path r) \<Longrightarrow>
      lookup fs q = Some (File b m l) \<Longrightarrow> lookup fs' q = Some (File b m l)" .
  from r obtain bytes mode nlink where "md_document_id (dr_metadata r) = i"
    "lookup fs (dr_relative_path r) = Some (File bytes mode nlink)"
    "from_markdown ex (dr_relative_path r) bytes policy = Inr r"
    unfolding build_get_iff [OF index wf] by blast
  with keep have "index_get index' i = Some r"
    unfolding build_get_iff [OF p(3) execute_plan_Inr(1) [OF p(2) wf]] by blast
  with p(3) show "\<exists>index'. build ex after fs' policy package_policy = Inr index' \<and> index_get index' i = Some r"
    by blast
qed

section \<open>Bytes and revisions\<close>

interpretation planned: byte_budget "reserve_planned_bytes maximum" "min maximum u64_max" for maximum
  by unfold_locales (auto simp: reserve_planned_bytes_def attempt_Inr_iff split: if_splits)

fun written_bytes :: "planned_mutation \<Rightarrow> nat" where
  "written_bytes (WriteNew _ bytes) = length bytes"
| "written_bytes (Replace _ bytes) = length bytes"
| "written_bytes (Move _ _) = 0"

lemma read_payload_length:
  assumes "payload_byte_length package path = Inr n" and "read_payload ex fs package path = Inr bytes"
  shows "length bytes = n"
  using assms
  by (auto simp: payload_byte_length_def read_payload_def attempt_Inr_iff Let_def split: if_splits)

lemma archived_markdown_Inr:
  assumes "archived_markdown ex bytes policy request_id at planned maximum = Inr (archived, planned')"
  obtains metadata body yaml ending where
    "decode_document_metadata (ex_yaml_decode ex) bytes (cp_maximum_front_matter_bytes policy) = Inr metadata"
    "before_instant (case md_updated metadata of Some u \<Rightarrow> u | None \<Rightarrow> md_created metadata) at"
    "apply_markdown_body bytes = Some body"
    "ex_yaml_encode ex (metadata\<lparr>md_updated := Some at, md_request_id := request_id,
       md_status := Archived\<rparr>) = Inr yaml"
    "ending = (if ends_with_char lf yaml then [] else [lf])"
    "length (yaml @ ending) \<le> cp_maximum_front_matter_bytes policy"
    "archived = ''---'' @ [lf] @ (yaml @ ending) @ ''---'' @ [lf] @ body"
    "length archived \<le> cp_maximum_markdown_bytes policy"
    "reserve_planned_bytes maximum (length archived) planned = Inr planned'"
proof -
  let ?ending = "\<lambda>yaml. if ends_with_char lf yaml then [] else [lf]"
  have "\<exists>(metadata :: document_metadata) body yaml len total_len.
    decode_document_metadata (ex_yaml_decode ex) bytes (cp_maximum_front_matter_bytes policy) = Inr metadata \<and>
    before_instant (case md_updated metadata of Some u \<Rightarrow> u | None \<Rightarrow> md_created metadata) at \<and>
    apply_markdown_body bytes = Some body \<and>
    ex_yaml_encode ex (metadata\<lparr>md_updated := Some at, md_request_id := request_id,
       md_status := Archived\<rparr>) = Inr yaml \<and>
    checked_add_u64 (length yaml) (length (?ending yaml)) = Some len \<and>
    \<not> len > cp_maximum_front_matter_bytes policy \<and>
    Option.bind (checked_add_u64 len (length body)) (\<lambda>len. checked_add_u64 len 8) = Some total_len \<and>
    \<not> total_len > cp_maximum_markdown_bytes policy \<and>
    reserve_planned_bytes maximum total_len planned = Inr planned' \<and>
    archived = ''---'' @ [lf] @ yaml @ ?ending yaml @ ''---'' @ [lf] @ body"
    using assms
    unfolding archived_markdown_def Let_def if_Inl_eq_Inr attempt_Inr_iff map_err_Inr_iff ok_or_Inr_iff not_not
    by (elim conjE exE) (simp only: sum.inject prod.inject, blast)
  then obtain metadata :: document_metadata and body yaml len total_len where
    a: "decode_document_metadata (ex_yaml_decode ex) bytes (cp_maximum_front_matter_bytes policy) = Inr metadata"
    "before_instant (case md_updated metadata of Some u \<Rightarrow> u | None \<Rightarrow> md_created metadata) at"
    "apply_markdown_body bytes = Some body"
    "ex_yaml_encode ex (metadata\<lparr>md_updated := Some at, md_request_id := request_id,
       md_status := Archived\<rparr>) = Inr yaml"
    "checked_add_u64 (length yaml) (length (?ending yaml)) = Some len"
    "\<not> len > cp_maximum_front_matter_bytes policy"
    "Option.bind (checked_add_u64 len (length body)) (\<lambda>len. checked_add_u64 len 8) = Some total_len"
    "\<not> total_len > cp_maximum_markdown_bytes policy"
    "reserve_planned_bytes maximum total_len planned = Inr planned'"
    "archived = ''---'' @ [lf] @ yaml @ ?ending yaml @ ''---'' @ [lf] @ body"
    by (elim exE conjE)
  from a(5,7) have "len = length (yaml @ (if ends_with_char lf yaml then [] else [lf]))"
    "total_len = length archived"
    by (auto simp: a(10) bind_eq_Some_conv)
  with a show thesis by (intro that [of metadata body yaml]) (simp_all del: length_append)
qed

lemma plan_operation_bytes:
  assumes "plan_operation p op s = Inr t"
  shows "\<exists>ms. pl_plan t = pl_plan s @ ms \<and>
    pl_planned_bytes t = pl_planned_bytes s + sum_list (map written_bytes ms) \<and>
    (pl_planned_bytes t = pl_planned_bytes s \<or> pl_planned_bytes t \<le> pn_maximum_planned_bytes p)"
proof (cases op)
  case (CreateDocument i content)
  with assms have "plan_create p i content s = Inr t" by simp
  then obtain n bytes q where c: "payload_byte_length (pn_package p) (payload_str content) = Inr n"
    "reserve_planned_bytes (pn_maximum_planned_bytes p) n (pl_planned_bytes s) = Inr (pl_planned_bytes t)"
    "read_payload (pn_externals p) (pn_package_fs p) (pn_package p) (payload_str content) = Inr bytes"
    "pl_plan t = pl_plan s @ [WriteNew q bytes]"
    by (rule plan_create_Inr) blast
  from c(2,4) read_payload_length [OF c(1,3)] show ?thesis by (auto simp: planned.charge_Inr_iff)
next
  case (UpdateDocument i expected content)
  with assms have "plan_update p i expected content s = Inr t" by simp
  then obtain n bytes q where c: "payload_byte_length (pn_package p) (payload_str content) = Inr n"
    "reserve_planned_bytes (pn_maximum_planned_bytes p) n (pl_planned_bytes s) = Inr (pl_planned_bytes t)"
    "read_payload (pn_externals p) (pn_package_fs p) (pn_package p) (payload_str content) = Inr bytes"
    "pl_plan t = pl_plan s @ [Replace q bytes]"
    by (rule plan_update_Inr) blast
  from c(2,4) read_payload_length [OF c(1,3)] show ?thesis by (auto simp: planned.charge_Inr_iff)
next
  case (MoveDocument i expected project t')
  with assms have "plan_move p i expected project t' s = Inr t" by simp
  then obtain a b where "pl_plan t = pl_plan s @ [Move a b]" "pl_planned_bytes t = pl_planned_bytes s"
    by (rule plan_move_Inr) blast
  then show ?thesis by simp
next
  case (ArchiveDocument i expected)
  with assms have "plan_archive p i expected s = Inr t" by simp
  then obtain markdown archived q a b where
    c: "archived_markdown (pn_externals p) markdown (pn_policy p)
       (cr_request_id (vp_request (pn_package p))) (pn_operation_time p) (pl_planned_bytes s)
       (pn_maximum_planned_bytes p) = Inr (archived, pl_planned_bytes t)"
    "pl_plan t = pl_plan s @ [Replace q archived, Move a b]"
    by (rule plan_archive_Inr) blast
  from c(1) have "reserve_planned_bytes (pn_maximum_planned_bytes p) (length archived) (pl_planned_bytes s)
      = Inr (pl_planned_bytes t)" by (rule archived_markdown_Inr)
  with c(2) show ?thesis by (auto simp: planned.charge_Inr_iff)
next
  case (AddAttachment i source name)
  with assms have "plan_add_attachment p i source name s = Inr t" by simp
  then obtain n bytes q where c: "payload_byte_length (pn_package p) (payload_str source) = Inr n"
    "reserve_planned_bytes (pn_maximum_planned_bytes p) n (pl_planned_bytes s) = Inr (pl_planned_bytes t)"
    "read_payload (pn_externals p) (pn_package_fs p) (pn_package p) (payload_str source) = Inr bytes"
    "pl_plan t = pl_plan s @ [WriteNew q bytes]"
    by (rule plan_add_attachment_Inr) blast
  from c(2,4) read_payload_length [OF c(1,3)] show ?thesis by (auto simp: planned.charge_Inr_iff)
qed

lemma build_plan_run:
  assumes "build_plan ex content package_fs package index policy maximum = Inr plan"
  obtains p s where "try_fold (plan_operation p) (cr_operations (vp_request package)) empty_plan = Inr s"
    "plan = pl_plan s" "pn_index p = index" "pn_maximum_planned_bytes p = maximum" "pn_externals p = ex"
    "pn_package p = package" "pn_package_fs p = package_fs" "pn_content p = content" "pn_policy p = policy"
    "pn_operation_time p = operation_time package"
  using assms by (auto simp: build_plan_def Let_def attempt_Inr_iff split: if_splits)

lemma build_plan_bytes:
  assumes "build_plan ex content package_fs package index policy maximum = Inr plan"
  shows "sum_list (map written_bytes plan) \<le> maximum"
proof -
  obtain p s where
    s: "try_fold (plan_operation p) (cr_operations (vp_request package)) empty_plan = Inr s"
    "plan = pl_plan s" "pn_maximum_planned_bytes p = maximum"
    by (rule build_plan_run [OF assms]) blast
  have "pl_planned_bytes s = sum_list (map written_bytes (pl_plan s)) \<and>
      (pl_planned_bytes s = 0 \<or> pl_planned_bytes s \<le> maximum)"
  proof (rule try_fold_invariant [OF s(1)])
    fix op and u v :: plan_state
    assume "plan_operation p op u = Inr v"
      "pl_planned_bytes u = sum_list (map written_bytes (pl_plan u)) \<and>
       (pl_planned_bytes u = 0 \<or> pl_planned_bytes u \<le> maximum)"
    with plan_operation_bytes [of p op u v] s(3)
    show "pl_planned_bytes v = sum_list (map written_bytes (pl_plan v)) \<and>
       (pl_planned_bytes v = 0 \<or> pl_planned_bytes v \<le> maximum)" by auto
  qed (simp add: empty_plan_def)
  with s(2) show ?thesis by (metis zero_le)
qed

text \<open>The document an operation expects to find unchanged.\<close>

fun expected_revision :: "operation \<Rightarrow> revision option" where
  "expected_revision (UpdateDocument _ r _) = Some r"
| "expected_revision (MoveDocument _ r _ _) = Some r"
| "expected_revision (ArchiveDocument _ r) = Some r"
| "expected_revision _ = None"

lemma plan_operation_documents:
  assumes "plan_operation p op s = Inr t" and "j \<noteq> op_document_id op"
  shows "map_of (pl_documents t) j = map_of (pl_documents s) j"
  using assms
  by (cases op)
    (auto simp: update_conv' elim!: plan_create_Inr plan_update_Inr plan_move_Inr plan_archive_Inr
      plan_add_attachment_Inr)

lemma plan_operation_locks:
  assumes "plan_operation p op s = Inr t" and "expected_revision op = Some r"
  shows "\<exists>v. resolve_document (pl_documents s) (pn_index p) (op_document_id op) = Inr v \<and>
    vd_revision v = r \<and> vd_status v = Active \<and> \<not> vd_archived v \<and> vd_document_type v \<noteq> Log"
  using assms
  by (cases op)
    (auto elim!: plan_update_Inr plan_move_Inr plan_archive_Inr
      simp: apply_require_revision_def require_mutable_ok require_movable_ok split: if_splits)

lemma build_plan_locks:
  assumes "build_plan ex content package_fs package index policy maximum = Inr plan"
    and "cr_operations (vp_request package) = before @ op # rest"
    and "expected_revision op = Some expected" and "op_document_id op \<notin> op_document_id ` set before"
  shows "\<exists>r. index_get index (op_document_id op) = Some r \<and> dr_revision r = expected \<and>
    md_status (dr_metadata r) = Active \<and> \<not> frozen index (op_document_id op)"
proof -
  obtain p s where
    s: "try_fold (plan_operation p) (cr_operations (vp_request package)) empty_plan = Inr s" "pn_index p = index"
    by (rule build_plan_run [OF assms(1)]) blast
  from s(1) assms(2) obtain u v where u: "try_fold (plan_operation p) before empty_plan = Inr u"
    "plan_operation p op u = Inr v"
    by (auto simp: try_fold_append attempt_Inr_iff)
  have "map_of (pl_documents u) (op_document_id op) = None"
  proof (rule try_fold_invariant [OF u(1)])
    fix o' and x y :: plan_state
    assume "o' \<in> set before" "plan_operation p o' x = Inr y" "map_of (pl_documents x) (op_document_id op) = None"
    with plan_operation_documents [of p o' x y "op_document_id op"] assms(4)
    show "map_of (pl_documents y) (op_document_id op) = None" by auto
  qed (simp add: empty_plan_def)
  with plan_operation_locks [OF u(2) assms(3)] s(2) show ?thesis
    by (auto simp: resolve_document_def attempt_Inr_iff frozen_def)
qed

lemma execute_plan_Inl:
  "execute_plan plan moves fs = (Inl e, fs') \<Longrightarrow> \<exists>io. e = ApplyIo io"
proof (induction plan arbitrary: moves fs)
  case (Cons mutation plan)
  have "\<exists>io. d = ApplyIo io" if "execute_mutation mutation fs = (Inl d, u)" for d u
    using that by (cases mutation) (auto simp: run_io_def split: sum.splits)
  with Cons show ?case by (auto split: prod.splits sum.splits)
qed simp

lemma apply_markdown_body_eq:
  "apply_markdown_body markdown =
     (case markdown_body markdown of Inr body \<Rightarrow> Some body | Inl (_ :: string document_parse_error) \<Rightarrow> None)"
proof -
  have scan: "apply_scan_body remainder offset lines =
      (case scan_body remainder offset lines of Inr body \<Rightarrow> Some body
       | Inl (_ :: string document_parse_error) \<Rightarrow> None)" for remainder offset lines
    by (induction remainder offset lines rule: apply_scan_body.induct)
      (simp_all add: is_delimiter_def line_content_def)
  have crlf: "strip_prefix (''---'' @ [lf]) markdown = None" if "strip_prefix (''---'' @ [cr, lf]) markdown \<noteq> None"
    using that by (auto simp: strip_prefix_Some_iff strip_prefix_None_iff)
  have d: "strip_prefix p markdown = Some r \<Longrightarrow> drop (length p) markdown = r" for p r
    by (auto simp: strip_prefix_Some_iff)
  show ?thesis
  proof (cases "strip_prefix (''---'' @ [cr, lf]) markdown")
    case (Some r)
    with crlf d [OF Some] show ?thesis
      by (simp add: apply_markdown_body_def markdown_body_def strip_opening_def scan Let_def eval_nat_numeral)
  next
    case none: None
    show ?thesis
    proof (cases "strip_prefix (''---'' @ [lf]) markdown")
      case None
      with none show ?thesis by (simp add: apply_markdown_body_def markdown_body_def strip_opening_def)
    next
      case (Some r)
      with none d [OF Some] show ?thesis
        by (simp add: apply_markdown_body_def markdown_body_def strip_opening_def scan Let_def eval_nat_numeral)
    qed
  qed
qed

end
