(* ===== verification/Apply_Example.thy ===== *)
theory Apply_Example
  imports Apply_Properties
begin

text \<open>
  A small content tree for concrete runs of \<open>apply.rs\<close>: a landing page, an archived runbook and
  an active runbook with an attachment. The tree is indexed here once and for all, so that the
  properties of the apply step can be evaluated on it.
\<close>

section \<open>A tree with an archived and an active document\<close>

definition later :: offset_datetime where
  "later = sample_datetime\<lparr>dt_instant := 2\<rparr>"

definition archived_metadata :: document_metadata where
  "archived_metadata = plain_metadata\<lparr>md_document_id := DocumentId 3, md_status := Archived\<rparr>"

definition active_metadata :: document_metadata where
  "active_metadata = plain_metadata\<lparr>md_document_id := DocumentId 4\<rparr>"

definition updated_metadata :: document_metadata where
  "updated_metadata = plain_metadata\<lparr>md_updated := Some later\<rparr>"

definition apply_externals :: externals where
  "apply_externals = bits_externals\<lparr>ex_yaml_decode := \<lambda>_ yaml.
     if yaml = [] then Inr plain_metadata
     else if yaml = ''x'' @ [lf] then Inr archived_metadata
     else if yaml = ''m'' @ [lf] then Inr active_metadata
     else if yaml = ''u'' @ [lf] then Inr updated_metadata
     else Inl []\<rparr>"

definition document_bytes :: "string \<Rightarrow> string" where
  "document_bytes yaml = ''---'' @ [lf] @ yaml @ ''---'' @ [lf]"

definition apply_bundle :: "document_metadata \<Rightarrow> string" where
  "apply_bundle m = bundle_name apply_externals Runbook m"

definition apply_tree :: fs where
  "apply_tree =
     [([], Dir), ([''index.md''], new_file (document_bytes [])),
      ([''archive''], Dir), ([''archive'', ''runbooks''], Dir),
      ([''archive'', ''runbooks'', apply_bundle archived_metadata], Dir),
      ([''archive'', ''runbooks'', apply_bundle archived_metadata, ''index.md''],
         new_file (document_bytes (''x'' @ [lf]))),
      ([''inbox''], Dir), ([''inbox'', ''runbooks''], Dir),
      ([''inbox'', ''runbooks'', apply_bundle active_metadata], Dir),
      ([''inbox'', ''runbooks'', apply_bundle active_metadata, ''index.md''],
         new_file (document_bytes (''m'' @ [lf]))),
      ([''inbox'', ''runbooks'', apply_bundle active_metadata, ''x.png''], new_file ''z'')]"

definition apply_record :: "path \<Rightarrow> document_location \<Rightarrow> document_metadata \<Rightarrow> string \<Rightarrow> document_record" where
  "apply_record path location metadata bytes =
     \<lparr>dr_relative_path = path, dr_location = location, dr_metadata = metadata,
      dr_revision = revision_of apply_externals bytes, dr_byte_length = length bytes\<rparr>"

definition index_record :: document_record where
  "index_record = apply_record [''index.md'']
     \<lparr>loc_document_type = Index, loc_project = None, loc_archived = False\<rparr> plain_metadata
     (document_bytes [])"

definition archived_record :: document_record where
  "archived_record = apply_record
     [''archive'', ''runbooks'', apply_bundle archived_metadata, ''index.md'']
     \<lparr>loc_document_type = Runbook, loc_project = None, loc_archived = True\<rparr> archived_metadata
     (document_bytes (''x'' @ [lf]))"

definition active_record :: document_record where
  "active_record = apply_record
     [''inbox'', ''runbooks'', apply_bundle active_metadata, ''index.md'']
     \<lparr>loc_document_type = Runbook, loc_project = None, loc_archived = False\<rparr> active_metadata
     (document_bytes (''m'' @ [lf]))"

lemma apply_externals_text: "ulid_text apply_externals 128"
  by (simp add: ulid_text_def apply_externals_def bits_externals_def bits_of_laws)

lemma document_bytes_facts:
  "length (document_bytes []) = 8" "length (document_bytes [c, lf]) = 10"
  by (simp_all add: document_bytes_def)

lemma decode_documents:
  "decode_document_metadata (ex_yaml_decode apply_externals) (document_bytes []) n = Inr plain_metadata"
  "10 \<le> n \<Longrightarrow> decode_document_metadata (ex_yaml_decode apply_externals) (document_bytes (''x'' @ [lf])) n
     = Inr archived_metadata"
  "10 \<le> n \<Longrightarrow> decode_document_metadata (ex_yaml_decode apply_externals) (document_bytes (''m'' @ [lf])) n
     = Inr active_metadata"
  "10 \<le> n \<Longrightarrow> decode_document_metadata (ex_yaml_decode apply_externals) (document_bytes (''u'' @ [lf])) n
     = Inr updated_metadata"
proof -
  have u: "is_utf8 (document_bytes yaml)" if "is_ascii yaml" for yaml
    using that by (intro ascii_is_utf8) (simp add: document_bytes_def is_ascii_Cons code_def is_ascii_def [of "[]"])
  have e: "extract_front_matter (document_bytes yaml) n = (Inr yaml :: string document_parse_error + _)"
    if "yaml = [] \<or> yaml = [c, lf] \<and> c \<noteq> lf \<and> c \<noteq> CHR ''-''" "length yaml \<le> n" for yaml n c
  proof -
    have "yaml = [] \<or> ends_with_char lf yaml" using that(1) by (auto simp: ends_with_char_def)
    moreover have "\<forall>l\<in>set (split_inclusive lf yaml). \<not> is_delimiter l"
      using that(1) by (auto simp: is_delimiter_def line_content_def strip_or_self_def strip_suffix_char_def)
    ultimately show ?thesis
      using written_front_matter_reads [OF _ _ that(2), of "document_bytes yaml" "[]"]
      by (auto simp: document_bytes_def)
  qed
  note d = decode_document_metadata_def apply_externals_def
  show "decode_document_metadata (ex_yaml_decode apply_externals) (document_bytes []) n = Inr plain_metadata"
    using u [of "[]"] e [of "[]" "CHR ''x''" n] by (simp add: d is_ascii_def)
  show "decode_document_metadata (ex_yaml_decode apply_externals) (document_bytes (''x'' @ [lf])) n
     = Inr archived_metadata" if "10 \<le> n"
    using that u [of "''x'' @ [lf]"] e [of "''x'' @ [lf]" "CHR ''x''" n] by (simp add: d is_ascii_def code_def)
  show "decode_document_metadata (ex_yaml_decode apply_externals) (document_bytes (''m'' @ [lf])) n
     = Inr active_metadata" if "10 \<le> n"
    using that u [of "''m'' @ [lf]"] e [of "''m'' @ [lf]" "CHR ''m''" n] by (simp add: d is_ascii_def code_def)
  show "decode_document_metadata (ex_yaml_decode apply_externals) (document_bytes (''u'' @ [lf])) n
     = Inr updated_metadata" if "10 \<le> n"
    using that u [of "''u'' @ [lf]"] e [of "''u'' @ [lf]" "CHR ''u''" n] by (simp add: d is_ascii_def code_def)
qed

lemma metadata_valid:
  "validate_metadata plain_metadata Index default_document_limits = Inr ()"
  "validate_metadata archived_metadata Runbook default_document_limits = Inr ()"
  "validate_metadata active_metadata Runbook default_document_limits = Inr ()"
  "validate_common updated_metadata default_document_limits = Inr ()"
proof -
  show "validate_metadata plain_metadata Index default_document_limits = Inr ()"
    by (simp add: plain_metadata_valid)
qed (simp_all add: validate_metadata_def validate_common_def archived_metadata_def active_metadata_def
    updated_metadata_def plain_metadata_def sample_metadata_def later_def sample_datetime_def
    default_document_limits_def text_eval validate_text_def validate_optional_text_def check_tag_def
    CURRENT_DOCUMENT_SCHEMA_VERSION_def before_instant_def)

lemma records_read:
  "from_markdown apply_externals [''index.md''] (document_bytes []) default_content_policy = Inr index_record"
  "from_markdown apply_externals [''archive'', ''runbooks'', apply_bundle archived_metadata, ''index.md'']
     (document_bytes (''x'' @ [lf])) default_content_policy = Inr archived_record"
  "from_markdown apply_externals [''inbox'', ''runbooks'', apply_bundle active_metadata, ''index.md'']
     (document_bytes (''m'' @ [lf])) default_content_policy = Inr active_record"
proof -
  have fields: "md_status plain_metadata = Active" "md_status archived_metadata = Archived"
    "md_status active_metadata = Active"
    by (simp_all add: plain_metadata_def sample_metadata_def archived_metadata_def active_metadata_def)
  have policy: "cp_maximum_front_matter_bytes default_content_policy = 65536"
    "cp_document default_content_policy = default_document_limits"
    by (simp_all add: default_content_policy_def)
  have path: "canonical_document_path apply_externals \<lparr>loc_document_type = Index, loc_project = None,
      loc_archived = False\<rparr> plain_metadata = [''index.md'']"
    "canonical_document_path apply_externals \<lparr>loc_document_type = Runbook, loc_project = None,
      loc_archived = True\<rparr> archived_metadata =
      [''archive'', ''runbooks'', apply_bundle archived_metadata, ''index.md'']"
    "canonical_document_path apply_externals \<lparr>loc_document_type = Runbook, loc_project = None,
      loc_archived = False\<rparr> active_metadata =
      [''inbox'', ''runbooks'', apply_bundle active_metadata, ''index.md'']"
    by (simp_all add: canonical_document_path_def apply_bundle_def)
  note canonical = classify_canonical [OF _ ulid_textD(1) [OF apply_externals_text]]
  have c: "classify_document_path [''index.md''] =
      Inr \<lparr>loc_document_type = Index, loc_project = None, loc_archived = False\<rparr>"
    "classify_document_path [''archive'', ''runbooks'', apply_bundle archived_metadata, ''index.md''] =
      Inr \<lparr>loc_document_type = Runbook, loc_project = None, loc_archived = True\<rparr>"
    "classify_document_path [''inbox'', ''runbooks'', apply_bundle active_metadata, ''index.md''] =
      Inr \<lparr>loc_document_type = Runbook, loc_project = None, loc_archived = False\<rparr>"
    using canonical [of "\<lparr>loc_document_type = Index, loc_project = None, loc_archived = False\<rparr>" plain_metadata]
      canonical [of "\<lparr>loc_document_type = Runbook, loc_project = None, loc_archived = True\<rparr>" archived_metadata]
      canonical [of "\<lparr>loc_document_type = Runbook, loc_project = None, loc_archived = False\<rparr>" active_metadata]
    by (simp_all add: path location_wf_def)
  note s = from_markdown_def policy fields validate_canonical_document_path_def metadata_valid
    apply_record_def
  show "from_markdown apply_externals [''index.md''] (document_bytes []) default_content_policy = Inr index_record"
    by (simp add: s decode_documents c path index_record_def)
  show "from_markdown apply_externals [''archive'', ''runbooks'', apply_bundle archived_metadata, ''index.md'']
     (document_bytes (''x'' @ [lf])) default_content_policy = Inr archived_record"
    using decode_documents(2) [of 65536] by (simp add: s c path archived_record_def)
  show "from_markdown apply_externals [''inbox'', ''runbooks'', apply_bundle active_metadata, ''index.md'']
     (document_bytes (''m'' @ [lf])) default_content_policy = Inr active_record"
    using decode_documents(3) [of 65536] by (simp add: s c path active_record_def)
qed

section \<open>Indexing the tree\<close>

text \<open>One entry of a scan under the default policy, for evaluation on concrete trees.\<close>

lemma default_entry_directory:
  assumes "symlink_metadata fs (d @ [n]) = Inr Dir" and "is_utf8 (display_path (d @ [n]))"
    and "is_entry_count s < 1000"
  shows "index_entry ex now fs default_content_policy package_policy d n s =
    Inr (s\<lparr>is_entry_count := is_entry_count s + 1,
      is_child_directories := is_child_directories s @ [d @ [n]]\<rparr>)"
  using assms by (simp add: index_entry_def Let_def default_content_limits check_scan_deadline_def
      checked_add_u64_def u64_max_def)

lemma default_entry_attachment:
  assumes "symlink_metadata fs (d @ [n]) = Inr (new_file b)" and "is_utf8 (display_path (d @ [n]))"
    and "is_utf8 n" and "extension n = Some e" and "e \<noteq> ''md''" and "e \<in> set default_extensions"
    and "is_entry_count s < 1000" and "length b < 1000"
  shows "index_entry ex now fs default_content_policy sample_policy d n s =
    Inr (s\<lparr>is_entry_count := is_entry_count s + 1,
      is_attachments := is_attachments s @ [\<lparr>ar_relative_path = d @ [n], ar_byte_length = length b\<rparr>]\<rparr>)"
  using assms by (simp add: index_entry_def Let_def default_content_limits check_scan_deadline_def
      checked_add_u64_def u64_max_def new_file_def validate_regular_file_metadata_def sample_policy_def
      allows_attachment_name_def default_package_limits_def)

lemma default_entry_document:
  assumes "symlink_metadata fs (d @ [n]) = Inr (new_file b)" and "is_utf8 (display_path (d @ [n]))"
    and "extension n = Some ''md''" and "is_entry_count s < 1000" and "length b < 1000"
    and "is_markdown_bytes s < 1000" and "from_markdown ex (d @ [n]) b default_content_policy = Inr r"
    and "map_of (is_documents s) (md_document_id (dr_metadata r)) = None"
  shows "index_entry ex now fs default_content_policy package_policy d n s =
    Inr (s\<lparr>is_entry_count := is_entry_count s + 1, is_markdown_bytes := is_markdown_bytes s + length b,
      is_documents := is_documents s @ [(md_document_id (dr_metadata r), r)]\<rparr>)"
proof -
  have "read_file fs (d @ [n]) = Inr b"
    using assms(1) by (simp add: read_file_metadata_iff new_file_def)
  with assms show ?thesis
    by (simp add: index_entry_def Let_def default_content_limits check_scan_deadline_def
      checked_add_u64_def u64_max_def new_file_def validate_regular_file_metadata_def index_markdown_def
      read_bounded_file_def read_loop_total saturating_add_u64_def update_fresh)
qed

lemma default_loop_step:
  assumes "read_dir fs d = Inr names"
    and "collect_entries (\<lambda>_. Inr ()) d (1000000 - is_entry_count s) 0 names [] = Inr entries"
    and "length entries \<le> 1000000 - is_entry_count s"
    and "try_fold (index_entry ex now fs default_content_policy package_policy d) (sort entries)
           (s\<lparr>is_child_directories := []\<rparr>) = Inr t"
  shows "index_loop ex now fs default_content_policy package_policy (d # rest) s =
    index_loop ex now fs default_content_policy package_policy (is_child_directories t @ rest) t"
  using assms
  by (subst index_loop.simps)
    (simp add: default_content_limits check_scan_deadline_def)

lemma bundle_names: "is_ascii (apply_bundle m)"
proof -
  have "is_ascii (ex_ulid_show apply_externals u)" for u
    by (rule ulid_textD(1) [OF apply_externals_text])
  then show ?thesis by (simp add: apply_bundle_def bundle_name_def Let_def is_ascii_Cons code_def)
qed

lemma apply_names:
  "is_utf8 (display_path [''archive''])" "is_utf8 (display_path [''inbox''])"
  "is_utf8 (display_path [''b.png''])" "is_utf8 (display_path [''index.md''])"
  "is_utf8 (display_path [''archive'', ''runbooks''])" "is_utf8 (display_path [''inbox'', ''runbooks''])"
  "is_utf8 (display_path [''archive'', ''runbooks'', apply_bundle m])"
  "is_utf8 (display_path [''inbox'', ''runbooks'', apply_bundle m])"
  "is_utf8 (display_path [''archive'', ''runbooks'', apply_bundle m, ''index.md''])"
  "is_utf8 (display_path [''inbox'', ''runbooks'', apply_bundle m, ''index.md''])"
  "is_utf8 (display_path [''inbox'', ''runbooks'', apply_bundle m, ''x.png''])"
  "is_utf8 ''b.png''" "is_utf8 ''x.png''"
  using bundle_names
  by (simp_all add: display_path_def ascii_is_utf8 is_ascii_Cons code_def is_ascii_def [of "[]"])

lemma apply_extensions:
  "extension ''b.png'' = Some ''png''" "extension ''x.png'' = Some ''png''"
  "extension ''index.md'' = Some ''md''"
  "is_ok (attachment_name_from_str ''b.png'')" "is_ok (attachment_name_from_str ''x.png'')"
  by code_simp+

lemma record_ids:
  "md_document_id (dr_metadata index_record) = DocumentId 2"
  "md_document_id (dr_metadata archived_record) = DocumentId 3"
  "md_document_id (dr_metadata active_record) = DocumentId 4"
  by (simp_all add: index_record_def archived_record_def active_record_def apply_record_def
      plain_metadata_def sample_metadata_def archived_metadata_def active_metadata_def)

definition grown_tree :: "fs \<Rightarrow> fs" where
  "grown_tree extra = apply_tree @ extra"

definition apply_index :: "attachment_record list \<Rightarrow> content_index" where
  "apply_index extra = \<lparr>ci_documents = [(DocumentId 2, index_record), (DocumentId 3, archived_record),
       (DocumentId 4, active_record)],
     ci_attachments = extra @ [\<lparr>ar_relative_path = [''inbox'', ''runbooks'', apply_bundle active_metadata, ''x.png''],
       ar_byte_length = 1\<rparr>]\<rparr>"

lemma tree_reads:
  assumes "extra = [] \<or> extra = [([''b.png''], new_file ''y'')]"
  shows "symlink_metadata (grown_tree extra) [] = Inr Dir"
    "symlink_metadata (grown_tree extra) [''index.md''] = Inr (new_file (document_bytes []))"
    "symlink_metadata (grown_tree extra) [''archive''] = Inr Dir"
    "symlink_metadata (grown_tree extra) [''archive'', ''runbooks''] = Inr Dir"
    "symlink_metadata (grown_tree extra) [''archive'', ''runbooks'', apply_bundle archived_metadata] = Inr Dir"
    "symlink_metadata (grown_tree extra)
       [''archive'', ''runbooks'', apply_bundle archived_metadata, ''index.md''] =
       Inr (new_file (document_bytes (''x'' @ [lf])))"
    "symlink_metadata (grown_tree extra) [''inbox''] = Inr Dir"
    "symlink_metadata (grown_tree extra) [''inbox'', ''runbooks''] = Inr Dir"
    "symlink_metadata (grown_tree extra) [''inbox'', ''runbooks'', apply_bundle active_metadata] = Inr Dir"
    "symlink_metadata (grown_tree extra)
       [''inbox'', ''runbooks'', apply_bundle active_metadata, ''index.md''] =
       Inr (new_file (document_bytes (''m'' @ [lf])))"
    "symlink_metadata (grown_tree extra)
       [''inbox'', ''runbooks'', apply_bundle active_metadata, ''x.png''] = Inr (new_file ''z'')"
  using assms
  by (auto simp: symlink_metadata_def resolve_parent_def strict_prefixes_def grown_tree_def
      apply_tree_def lookup_def eval_nat_numeral)

lemma tree_lists:
  assumes "extra = [] \<or> extra = [([''b.png''], new_file ''y'')]"
  shows "read_dir (grown_tree extra) [] = Inr ([''index.md'', ''archive'', ''inbox''] @ map (last \<circ> fst) extra)"
    "read_dir (grown_tree extra) [''archive''] = Inr [''runbooks'']"
    "read_dir (grown_tree extra) [''archive'', ''runbooks''] = Inr [apply_bundle archived_metadata]"
    "read_dir (grown_tree extra) [''archive'', ''runbooks'', apply_bundle archived_metadata] = Inr [''index.md'']"
    "read_dir (grown_tree extra) [''inbox''] = Inr [''runbooks'']"
    "read_dir (grown_tree extra) [''inbox'', ''runbooks''] = Inr [apply_bundle active_metadata]"
    "read_dir (grown_tree extra) [''inbox'', ''runbooks'', apply_bundle active_metadata] =
       Inr [''index.md'', ''x.png'']"
proof -
  have "children (grown_tree extra) d = children apply_tree d @ children extra d" for d
    by (simp add: children_def grown_tree_def)
  moreover have "children extra d = (if d = [] then map (last \<circ> fst) extra else [])" for d
    using assms by (auto simp: children_def)
  moreover have "children apply_tree [] = [''index.md'', ''archive'', ''inbox'']"
    "children apply_tree [''archive''] = [''runbooks'']"
    "children apply_tree [''archive'', ''runbooks''] = [apply_bundle archived_metadata]"
    "children apply_tree [''archive'', ''runbooks'', apply_bundle archived_metadata] = [''index.md'']"
    "children apply_tree [''inbox''] = [''runbooks'']"
    "children apply_tree [''inbox'', ''runbooks''] = [apply_bundle active_metadata]"
    "children apply_tree [''inbox'', ''runbooks'', apply_bundle active_metadata] = [''index.md'', ''x.png'']"
    by (simp_all add: children_def apply_tree_def)
  ultimately show "read_dir (grown_tree extra) [] = Inr ([''index.md'', ''archive'', ''inbox''] @ map (last \<circ> fst) extra)"
    "read_dir (grown_tree extra) [''archive''] = Inr [''runbooks'']"
    "read_dir (grown_tree extra) [''archive'', ''runbooks''] = Inr [apply_bundle archived_metadata]"
    "read_dir (grown_tree extra) [''archive'', ''runbooks'', apply_bundle archived_metadata] = Inr [''index.md'']"
    "read_dir (grown_tree extra) [''inbox''] = Inr [''runbooks'']"
    "read_dir (grown_tree extra) [''inbox'', ''runbooks''] = Inr [apply_bundle active_metadata]"
    "read_dir (grown_tree extra) [''inbox'', ''runbooks'', apply_bundle active_metadata] =
       Inr [''index.md'', ''x.png'']"
    by (simp_all add: read_dir_Inr_iff tree_reads [OF assms])
qed

lemma grown_locations:
  assumes "extra = [] \<or> extra = [\<lparr>ar_relative_path = [''b.png''], ar_byte_length = 1\<rparr>]"
  shows "validate_attachment_locations (ci_attachments (apply_index extra)) (ci_documents (apply_index extra))
    sample_policy = Inr ()"
  using assms apply_names apply_extensions
  by (auto simp: validate_attachment_locations_def apply_index_def map_filter_def parent_def file_name_def
      index_record_def archived_record_def active_record_def apply_record_def)

definition scan_state ::
  "(document_id \<times> document_record) list \<Rightarrow> attachment_record list \<Rightarrow> nat \<Rightarrow> nat \<Rightarrow> path list \<Rightarrow> index_scan" where
  "scan_state documents attachments k bytes pending =
     \<lparr>is_documents = documents, is_attachments = attachments, is_entry_count = k,
      is_markdown_bytes = bytes, is_child_directories = pending\<rparr>"

lemma scan_state_simps [simp]:
  "is_documents (scan_state d a c b p) = d" "is_attachments (scan_state d a c b p) = a"
  "is_entry_count (scan_state d a c b p) = c" "is_markdown_bytes (scan_state d a c b p) = b"
  "is_child_directories (scan_state d a c b p) = p"
  "(scan_state d a c b p)\<lparr>is_documents := d'\<rparr> = scan_state d' a c b p"
  "(scan_state d a c b p)\<lparr>is_attachments := a'\<rparr> = scan_state d a' c b p"
  "(scan_state d a c b p)\<lparr>is_entry_count := c'\<rparr> = scan_state d a c' b p"
  "(scan_state d a c b p)\<lparr>is_markdown_bytes := b'\<rparr> = scan_state d a c b' p"
  "(scan_state d a c b p)\<lparr>is_child_directories := p'\<rparr> = scan_state d a c b p'"
  by (simp_all add: scan_state_def)

lemma collect_all:
  "length (entries @ names) \<le> remaining \<Longrightarrow> d \<noteq> [] \<or> ''.git'' \<notin> set names \<Longrightarrow>
     collect_entries (\<lambda>_. Inr ()) d remaining k names entries = Inr (entries @ names)"
  by (induction names arbitrary: k entries) auto

lemma default_loop_directory:
  assumes "read_dir fs d = Inr names" and "d \<noteq> [] \<or> ''.git'' \<notin> set names"
    and "length names + c \<le> 1000000"
    and "try_fold (index_entry ex now fs default_content_policy package_policy d) (sort names)
           (scan_state ds as c b []) = Inr (scan_state ds' as' c' b' p')"
    and "pending = p' @ rest"
  shows "index_loop ex now fs default_content_policy package_policy (d # rest) (scan_state ds as c b p) =
    index_loop ex now fs default_content_policy package_policy pending (scan_state ds' as' c' b' p')"
  using assms collect_all [of "[]" names "1000000 - c" d 0]
  by (subst default_loop_step [OF assms(1), where entries = names and t = "scan_state ds' as' c' b' p'"]) auto

lemma grown_tree_below:
  assumes x: "extra = [] \<or> extra = [([''b.png''], new_file ''y'')]" and c: "c < 100"
  shows "index_loop apply_externals now (grown_tree extra) default_content_policy sample_policy
      [[''archive''], [''inbox'']] (scan_state [(DocumentId 2, index_record)] as c 8 p) =
    Inr (scan_state (ci_documents (apply_index []))
      (as @ ci_attachments (apply_index [])) (c + 7) 28 [])"
proof -
  note reads = tree_reads [OF x] and lists = tree_lists [OF x]
  let ?loop = "index_loop apply_externals now (grown_tree extra) default_content_policy sample_policy"
  let ?entry = "index_entry apply_externals now (grown_tree extra) default_content_policy sample_policy"
  have dir: "?entry d n (scan_state ds a k b ch) = Inr (scan_state ds a (k + 1) b (ch @ [d @ [n]]))"
    if "symlink_metadata (grown_tree extra) (d @ [n]) = Inr Dir" "is_utf8 (display_path (d @ [n]))" "k < 1000"
    for d n ds a k b ch
    using default_entry_directory [OF that(1,2)] that(3) by simp
  have doc: "?entry d n (scan_state ds a k b ch) =
      Inr (scan_state (ds @ [(md_document_id (dr_metadata r), r)]) a (k + 1) (b + length bytes) ch)"
    if "symlink_metadata (grown_tree extra) (d @ [n]) = Inr (new_file bytes)"
      "is_utf8 (display_path (d @ [n]))" "n = ''index.md''" "k < 1000" "length bytes < 1000" "b < 1000"
      "from_markdown apply_externals (d @ [n]) bytes default_content_policy = Inr r"
      "map_of ds (md_document_id (dr_metadata r)) = None" for d n ds a k b ch bytes r
    using default_entry_document [OF that(1,2) _ _ that(5) _ that(7)] that(3,4,6,8) apply_extensions by simp
  have att: "?entry d n (scan_state ds a k b ch) =
      Inr (scan_state ds (a @ [\<lparr>ar_relative_path = d @ [n], ar_byte_length = length bytes\<rparr>]) (k + 1) b ch)"
    if "symlink_metadata (grown_tree extra) (d @ [n]) = Inr (new_file bytes)"
      "is_utf8 (display_path (d @ [n]))" "n = ''x.png''" "k < 1000" "length bytes < 1000" for d n ds a k b ch bytes
    using default_entry_attachment [OF that(1,2), of "''png''"] that(3,4,5) apply_extensions apply_names(13)
    by (simp add: default_extensions_def)
  have srt: "sort [''index.md'', ''x.png''] = [''index.md'', ''x.png'']" by code_simp
  let ?two = "[(DocumentId 2, index_record), (DocumentId 3, archived_record)]"
  have "?loop [[''archive''], [''inbox'']] (scan_state [(DocumentId 2, index_record)] as c 8 p) =
      ?loop [[''archive'', ''runbooks''], [''inbox'']] (scan_state [(DocumentId 2, index_record)] as (c + 1) 8
        [[''archive'', ''runbooks'']])"
    using c dir [of "[''archive'']" "''runbooks''"]
    by (intro default_loop_directory [OF lists(2)]) (simp_all add: reads apply_names)
  also have "\<dots> = ?loop [[''archive'', ''runbooks'', apply_bundle archived_metadata], [''inbox'']]
      (scan_state [(DocumentId 2, index_record)] as (c + 2) 8
        [[''archive'', ''runbooks'', apply_bundle archived_metadata]])"
    using c dir [of "[''archive'', ''runbooks'']" "apply_bundle archived_metadata"]
    by (intro default_loop_directory [OF lists(3)]) (simp_all add: reads apply_names)
  also have "\<dots> = ?loop [[''inbox'']] (scan_state ?two as (c + 3) 18 [])"
    using c doc [where d = "[''archive'', ''runbooks'', apply_bundle archived_metadata]" and n = "''index.md''"
        and bytes = "document_bytes (''x'' @ [lf])" and r = archived_record]
    by (intro default_loop_directory [OF lists(4)])
      (simp_all add: reads apply_names records_read [simplified append_Cons append_Nil] record_ids document_bytes_facts)
  also have "\<dots> = ?loop [[''inbox'', ''runbooks'']] (scan_state ?two as (c + 4) 18 [[''inbox'', ''runbooks'']])"
    using c dir [of "[''inbox'']" "''runbooks''"]
    by (intro default_loop_directory [OF lists(5)]) (simp_all add: reads apply_names)
  also have "\<dots> = ?loop [[''inbox'', ''runbooks'', apply_bundle active_metadata]]
      (scan_state ?two as (c + 5) 18 [[''inbox'', ''runbooks'', apply_bundle active_metadata]])"
    using c dir [of "[''inbox'', ''runbooks'']" "apply_bundle active_metadata"]
    by (intro default_loop_directory [OF lists(6)]) (simp_all add: reads apply_names)
  also have "\<dots> = ?loop [] (scan_state (ci_documents (apply_index []))
      (as @ ci_attachments (apply_index [])) (c + 7) 28 [])"
    using c doc [where d = "[''inbox'', ''runbooks'', apply_bundle active_metadata]" and n = "''index.md''"
        and bytes = "document_bytes (''m'' @ [lf])" and r = active_record]
      att [where d = "[''inbox'', ''runbooks'', apply_bundle active_metadata]" and n = "''x.png''"
        and bytes = "''z''"]
    by (intro default_loop_directory [OF lists(7)])
      (simp_all add: reads apply_names records_read [simplified append_Cons append_Nil] record_ids document_bytes_facts apply_index_def srt)
  also have "\<dots> = Inr (scan_state (ci_documents (apply_index []))
      (as @ ci_attachments (apply_index [])) (c + 7) 28 [])"
    by (simp add: index_loop.simps)
  finally show ?thesis .
qed

lemma grown_tree_builds:
  assumes "extra = [] \<and> as = [] \<or> extra = [([''b.png''], new_file ''y'')] \<and>
    as = [\<lparr>ar_relative_path = [''b.png''], ar_byte_length = 1\<rparr>]"
  shows "build apply_externals now (grown_tree extra) default_content_policy sample_policy = Inr (apply_index as)"
proof -
  have x: "extra = [] \<or> extra = [([''b.png''], new_file ''y'')]" using assms by blast
  note reads = tree_reads [OF x] and lists = tree_lists [OF x]
  let ?loop = "index_loop apply_externals now (grown_tree extra) default_content_policy sample_policy"
  let ?entry = "index_entry apply_externals now (grown_tree extra) default_content_policy sample_policy []"
  have srt: "sort [''index.md'', ''archive'', ''inbox''] = [''archive'', ''inbox'', ''index.md'']"
    "sort [''index.md'', ''archive'', ''inbox'', ''b.png''] = [''archive'', ''b.png'', ''inbox'', ''index.md'']"
    by code_simp+
  have dir: "?entry n (scan_state ds a k b ch) = Inr (scan_state ds a (k + 1) b (ch @ [[n]]))"
    if "n \<in> {''archive'', ''inbox''}" "k < 1000" for n ds a k b ch
    using default_entry_directory [of "grown_tree extra" "[]" n] that reads apply_names by auto
  have doc: "?entry ''index.md'' (scan_state [] a k 0 ch) =
      Inr (scan_state [(DocumentId 2, index_record)] a (k + 1) 8 ch)" if "k < 1000" for a k ch
    using default_entry_document [where fs = "grown_tree extra" and d = "[]" and n = "''index.md''"
        and b = "document_bytes []" and r = index_record and ex = apply_externals]
      that reads apply_names apply_extensions records_read record_ids document_bytes_facts by simp
  have att: "?entry ''b.png'' (scan_state ds a k b ch) =
      Inr (scan_state ds (a @ [\<lparr>ar_relative_path = [''b.png''], ar_byte_length = 1\<rparr>]) (k + 1) b ch)"
    if "extra \<noteq> []" "k < 1000" for ds a k b ch
  proof -
    have "symlink_metadata (grown_tree extra) [''b.png''] = Inr (new_file ''y'')"
      using assms that(1) by (auto simp: symlink_metadata_def resolve_parent_def strict_prefixes_def
          grown_tree_def apply_tree_def lookup_def)
    then show ?thesis
      using default_entry_attachment [where fs = "grown_tree extra" and d = "[]" and n = "''b.png''"
          and b = "''y''" and e = "''png''"] that(2) apply_names apply_extensions
      by (simp add: default_extensions_def)
  qed
  let ?names = "[''index.md'', ''archive'', ''inbox''] @ map (last \<circ> fst) extra"
  have fold: "try_fold ?entry (sort ?names) (scan_state [] [] 0 0 []) =
      Inr (scan_state [(DocumentId 2, index_record)] as (3 + length extra) 8 [[''archive''], [''inbox'']])"
  proof (cases "extra = []")
    case True
    then have f: "sort ?names = [''archive'', ''inbox'', ''index.md'']" "as = []" "length extra = 0"
      using assms srt by simp_all
    show ?thesis unfolding f by (simp add: dir doc)
  next
    case False
    then have f: "sort ?names = [''archive'', ''b.png'', ''inbox'', ''index.md'']" "length extra = 1"
      "as = [\<lparr>ar_relative_path = [''b.png''], ar_byte_length = 1\<rparr>]"
      using assms srt by auto
    show ?thesis unfolding f by (simp add: dir doc att [OF False])
  qed
  have "?loop [[]] (scan_state [] [] 0 0 []) =
      ?loop [[''archive''], [''inbox'']] (scan_state [(DocumentId 2, index_record)] as (3 + length extra) 8
        [[''archive''], [''inbox'']])"
    using x by (intro default_loop_directory [OF lists(1) _ _ fold]) auto
  also have "\<dots> = Inr (scan_state (ci_documents (apply_index []))
      (as @ ci_attachments (apply_index [])) (3 + length extra + 7) 28 [])"
    using x by (intro grown_tree_below [OF x]) auto
  finally have "?loop [[]] (scan_state [] [] 0 0 []) = Inr (scan_state (ci_documents (apply_index as))
      (ci_attachments (apply_index as)) (3 + length extra + 7) 28 [])"
    by (simp add: apply_index_def)
  moreover have "validate_attachment_locations (ci_attachments (apply_index as))
      (ci_documents (apply_index as)) sample_policy = Inr ()"
    using assms by (intro grown_locations) blast
  ultimately show ?thesis
    unfolding build_def build_validated_def scan_state_def [symmetric]
    by (simp add: reads default_content_limits check_scan_deadline_def apply_index_def)
qed

lemma apply_tree_builds:
  "build apply_externals now apply_tree default_content_policy sample_policy = Inr (apply_index [])"
  using grown_tree_builds [of "[]" "[]" now] by (simp add: grown_tree_def)

lemma grown_tree_wf:
  assumes "extra = [] \<or> extra = [([''b.png''], new_file ''y'')]"
  shows "wf_fs (grown_tree extra)"
proof (rule wf_fs_check)
  show "list_all (\<lambda>(p, _). p = [] \<or> lookup (grown_tree extra) (butlast p) = Some Dir) (grown_tree extra)"
    using assms by (auto simp: grown_tree_def apply_tree_def lookup_def)
qed (use assms in \<open>auto simp: grown_tree_def apply_tree_def lookup_def\<close>)

lemma apply_tree_wf: "wf_fs apply_tree"
  using grown_tree_wf [of "[]"] by (simp add: grown_tree_def)

section \<open>Requests against the tree\<close>

definition apply_package_fs :: fs where
  "apply_package_fs = [([], Dir), ([''payload''], Dir), ([''payload'', ''a''], new_file ''y''),
     ([''payload'', ''u''], new_file (document_bytes (''u'' @ [lf])))]"

definition apply_package :: "document_type \<Rightarrow> operation list \<Rightarrow> validated_package" where
  "apply_package t operations = \<lparr>vp_request = decoded_request\<lparr>cr_project := None, cr_document_type := t,
       cr_operations := operations\<rparr>,
     vp_digest = PackageDigest (Revision []),
     vp_payload = [\<lparr>pm_path = PayloadPath ''a'', pm_byte_length = 1, pm_revision = revision_of apply_externals ''y''\<rparr>,
       \<lparr>pm_path = PayloadPath ''u'', pm_byte_length = 10,
        pm_revision = revision_of apply_externals (document_bytes (''u'' @ [lf]))\<rparr>],
     vp_acceptance = Some \<lparr>am_sequence = 1, am_accepted_at = later, am_client_id = None\<rparr>\<rparr>"

lemma apply_package_fields [simp]:
  "vp_request (apply_package t ops) = decoded_request\<lparr>cr_project := None, cr_document_type := t, cr_operations := ops\<rparr>"
  "operation_time (apply_package t ops) = later"
  "cr_created_at decoded_request = sample_datetime" "cr_request_id decoded_request = RequestId 1"
  "before_instant later sample_datetime \<longleftrightarrow> False" "before_instant sample_datetime later"
  "before_instant later later \<longleftrightarrow> False"
  by (simp_all add: apply_package_def operation_time_def decoded_request_def before_instant_def later_def
      sample_datetime_def)

lemma apply_payload:
  "payload_byte_length (apply_package t ops) ''a'' = Inr 1"
  "payload_byte_length (apply_package t ops) ''u'' = Inr 10"
  "read_payload apply_externals apply_package_fs (apply_package t ops) ''a'' = Inr ''y''"
  "read_payload apply_externals apply_package_fs (apply_package t ops) ''u'' = Inr (document_bytes (''u'' @ [lf]))"
proof -
  have "read_file apply_package_fs (payload_fs_path ''a'') = Inr ''y''"
    "read_file apply_package_fs (payload_fs_path ''u'') = Inr (document_bytes (''u'' @ [lf]))"
    by (simp_all add: read_file_metadata_iff symlink_metadata_def resolve_parent_def strict_prefixes_def
        payload_fs_path_def PAYLOAD_DIRECTORY_NAME_def apply_package_fs_def lookup_def new_file_def)
  then show "read_payload apply_externals apply_package_fs (apply_package t ops) ''a'' = Inr ''y''"
    "read_payload apply_externals apply_package_fs (apply_package t ops) ''u'' = Inr (document_bytes (''u'' @ [lf]))"
    by (simp_all add: read_payload_def apply_package_def saturating_add_u64_def u64_max_def document_bytes_facts Let_def)
qed (simp_all add: payload_byte_length_def apply_package_def)

definition attach_operations :: "operation list" where
  "attach_operations = [AddAttachment (DocumentId 2) (PayloadPath ''a'') (AttachmentName ''b.png'')]"

definition update_operations :: "operation list" where
  "update_operations =
     [UpdateDocument (DocumentId 2) (revision_of apply_externals (document_bytes [])) (PayloadPath ''u'')]"

definition move_operations :: "operation list" where
  "move_operations = [MoveDocument (DocumentId 4) (dr_revision active_record) None Reference,
     AddAttachment (DocumentId 4) (PayloadPath ''a'') (AttachmentName ''x.png'')]"

lemma apply_index_get:
  "index_get (apply_index as) (DocumentId 2) = Some index_record"
  "index_get (apply_index as) (DocumentId 3) = Some archived_record"
  "index_get (apply_index as) (DocumentId 4) = Some active_record"
  by (simp_all add: index_get_def apply_index_def)

lemma apply_plans:
  assumes "maximum = pl_maximum_total_bytes (pp_limits sample_policy)"
  shows "build_plan apply_externals apply_tree apply_package_fs (apply_package Index attach_operations)
      (apply_index []) default_content_policy maximum = Inr [WriteNew [''b.png''] ''y'']"
    "build_plan apply_externals apply_tree apply_package_fs (apply_package Index update_operations)
      (apply_index []) default_content_policy maximum =
      Inr [Replace [''index.md''] (document_bytes (''u'' @ [lf]))]"
proof -
  have m: "maximum = 67108864" using assms by (simp add: sample_policy_def default_package_limits_def)
  have r: "symlink_metadata apply_tree [''b.png''] = Inl NotFound"
    by (simp add: symlink_metadata_def resolve_parent_def strict_prefixes_def apply_tree_def lookup_def)
  note s = build_plan_def Let_def empty_plan_def resolve_document_def apply_index_get index_record_def
    apply_record_def reserve_planned_bytes_def checked_add_u64_def u64_max_def apply_payload
  show "build_plan apply_externals apply_tree apply_package_fs (apply_package Index attach_operations)
      (apply_index []) default_content_policy maximum = Inr [WriteNew [''b.png''] ''y'']"
    by (simp add: s attach_operations_def plan_add_attachment_def require_accessible_def
        require_classification_def plain_metadata_def sample_metadata_def parent_def reserve_def is_occupied_def r m)
  have "decode_payload_metadata apply_externals (document_bytes (''u'' @ [lf])) default_content_policy ''u'' =
      Inr updated_metadata"
    using decode_documents(4) [of 65536] metadata_valid(4)
    by (simp add: decode_payload_metadata_def default_content_policy_def)
  moreover have "check_update p i v updated_metadata = Inr ()"
    if "pn_operation_time p = later" "vd_created v = sample_datetime" "vd_updated v = None" for p i v
    using that by (simp add: check_update_def updated_metadata_def plain_metadata_def sample_metadata_def
        same_instant_def)
  ultimately show "build_plan apply_externals apply_tree apply_package_fs (apply_package Index update_operations)
      (apply_index []) default_content_policy maximum =
      Inr [Replace [''index.md''] (document_bytes (''u'' @ [lf]))]"
    by (simp add: s update_operations_def plan_update_def require_mutable_def require_accessible_def
        apply_require_revision_def require_classification_def plain_metadata_def sample_metadata_def m)
qed

definition moved_bundle :: path where
  "moved_bundle = [''inbox'', ''references'', apply_bundle active_metadata]"

lemma move_plan:
  assumes "maximum = pl_maximum_total_bytes (pp_limits sample_policy)"
  shows "build_plan apply_externals apply_tree apply_package_fs (apply_package Reference move_operations)
      (apply_index []) default_content_policy maximum =
      Inr [Move [''inbox'', ''runbooks'', apply_bundle active_metadata] moved_bundle,
           WriteNew (moved_bundle @ [''x.png'']) ''y'']"
proof -
  have m: "maximum = 67108864" using assms by (simp add: sample_policy_def default_package_limits_def)
  have "md_created active_metadata = sample_datetime" "md_document_id active_metadata = DocumentId 4"
    "md_status active_metadata = Active"
    by (simp_all add: active_metadata_def plain_metadata_def sample_metadata_def)
  note a = this create_path_canonical [OF this(1,2), of apply_externals None Reference]
  have c: "canonical_document_path apply_externals \<lparr>loc_document_type = Reference, loc_project = None,
      loc_archived = False\<rparr> active_metadata = moved_bundle @ [''index.md'']"
    by (simp add: canonical_document_path_def moved_bundle_def apply_bundle_def bundle_name_def Let_def)
  have r: "symlink_metadata apply_tree moved_bundle = Inl NotFound"
    "symlink_metadata apply_tree (moved_bundle @ [''x.png'']) = Inl NotFound"
    by (simp_all add: symlink_metadata_def resolve_parent_def strict_prefixes_def apply_tree_def lookup_def
        moved_bundle_def)
  have n: "[''inbox'', ''runbooks'', b] \<noteq> moved_bundle" "moved_bundle \<noteq> [''inbox'', ''runbooks'', b]" "moved_bundle \<noteq> []"
    "moved_bundle @ [''x.png''] \<noteq> [''inbox'', ''runbooks'', b]" for b
    by (simp_all add: moved_bundle_def)
  note s = build_plan_def Let_def empty_plan_def resolve_document_def apply_index_get active_record_def
    apply_record_def reserve_planned_bytes_def checked_add_u64_def u64_max_def apply_payload
  show ?thesis
    by (simp add: s move_operations_def plan_move_def plan_add_attachment_def require_accessible_def
        require_classification_def require_movable_def apply_require_revision_def a c n r m parent_def
        reserve_def is_occupied_def move_path_def bundle_path_def update_conv')
qed

lemma attach_alone:
  "build_plan apply_externals apply_tree apply_package_fs (apply_package Runbook [last move_operations])
      (apply_index []) default_content_policy maximum =
      Inl (DestinationExists [''inbox'', ''runbooks'', apply_bundle active_metadata, ''x.png''])"
proof -
  have r: "symlink_metadata apply_tree [''inbox'', ''runbooks'', apply_bundle active_metadata, ''x.png''] =
     Inr (new_file ''z'')"
    using tree_reads(11) [of "[]"] by (simp add: grown_tree_def)
  show ?thesis
    by (simp add: build_plan_def Let_def empty_plan_def resolve_document_def apply_index_get active_record_def
        apply_record_def active_metadata_def [THEN arg_cong [of _ _ md_status]] plain_metadata_def sample_metadata_def
        move_operations_def plan_add_attachment_def require_accessible_def
        require_classification_def parent_def reserve_def is_occupied_def r)
qed

lemma move_fails:
  "\<exists>fs'. execute_plan [Move [''inbox'', ''runbooks'', apply_bundle active_metadata] moved_bundle,
      WriteNew (moved_bundle @ [''x.png'']) ''y''] [] apply_tree = (Inl (ApplyIo AlreadyExists), fs')"
proof -
  let ?s = "[''inbox'', ''runbooks'', apply_bundle active_metadata]"
  have "create_parent moved_bundle apply_tree = Inr (apply_tree @ [([''inbox'', ''references''], Dir)])"
    by (simp add: create_parent_def parent_def moved_bundle_def create_dir_all_def make_dir_def strict_prefixes_def
        apply_tree_def lookup_def put_def eval_nat_numeral)
  moreover obtain t where t: "rename ?s moved_bundle (apply_tree @ [([''inbox'', ''references''], Dir)]) = Inr t"
    "lookup t (moved_bundle @ [''x.png'']) \<noteq> None" "lookup t [] = Some Dir" "lookup t [''inbox''] = Some Dir"
    "lookup t [''inbox'', ''references''] = Some Dir" "lookup t moved_bundle = Some Dir"
    by (simp add: rename_def symlink_metadata_def resolve_parent_def strict_prefixes_def apply_tree_def
        lookup_def moved_bundle_def rename_target_ok_def relocate_def eval_nat_numeral)
  moreover from t have "create_parent (moved_bundle @ [''x.png'']) t = Inr t"
    by (simp add: create_parent_def parent_def moved_bundle_def create_dir_all_def make_dir_def strict_prefixes_def
        eval_nat_numeral)
  moreover from t have "create_new (moved_bundle @ [''x.png'']) ''y'' t = Inl AlreadyExists"
    by (auto simp: create_new_def resolve_parent_def strict_prefixes_def moved_bundle_def eval_nat_numeral)
  ultimately show ?thesis by (simp add: run_io_def)
qed

lemma attach_runs:
  "apply_request_with_policy apply_externals now after apply_package_fs (apply_package Index attach_operations)
     default_content_policy sample_policy apply_tree = (Inr [], grown_tree [([''b.png''], new_file ''y'')])"
proof -
  have "execute_plan [WriteNew [''b.png''] ''y''] [] apply_tree = (Inr [], grown_tree [([''b.png''], new_file ''y'')])"
    by (simp add: create_parent_def parent_def create_dir_all_def make_dir_def strict_prefixes_def run_io_def
        create_new_def resolve_parent_def apply_tree_def lookup_def put_def grown_tree_def)
  moreover have "build apply_externals after (grown_tree [([''b.png''], new_file ''y'')]) default_content_policy
      sample_policy = Inr (apply_index [\<lparr>ar_relative_path = [''b.png''], ar_byte_length = 1\<rparr>])"
    by (rule grown_tree_builds) simp
  ultimately show ?thesis
    by (simp add: apply_request_with_policy_def apply_tree_builds apply_plans(1) [OF refl])
qed

end
