(* ===== verification/Apply_Correct.thy ===== *)
theory Apply_Correct
  imports Apply_Example
begin

text \<open>
  What applying a request promises: documents it does not name are untouched, revisions are
  checked before anything is planned, the planned bytes are bounded, a refused request leaves the
  tree alone, archiving keeps the body, and the planned paths are the canonical ones.
\<close>

section \<open>Archiving\<close>

definition archived_from :: "document_metadata \<Rightarrow> request_id \<Rightarrow> offset_datetime \<Rightarrow> document_metadata" where
  "archived_from m request_id at = m\<lparr>md_updated := Some at, md_request_id := request_id, md_status := Archived\<rparr>"

text \<open>The YAML codec on one value: the text it writes is UTF-8 without a delimiter line, and reads
  back as that value once its last line is ended.\<close>

definition yaml_codec :: "externals \<Rightarrow> document_metadata \<Rightarrow> bool" where
  "yaml_codec ex m \<longleftrightarrow> (\<forall>yaml. ex_yaml_encode ex m = Inr yaml \<longrightarrow>
     (let front = (if ends_with_char lf yaml then yaml else yaml @ [lf]) in
      is_utf8 yaml \<and> (\<forall>l\<in>set (split_inclusive lf front). \<not> is_delimiter l) \<and>
      (\<forall>n. ex_yaml_decode ex n front = Inr m)))"

lemma delimited_utf8:
  assumes "is_utf8 front" and "is_utf8 body" and "ends_with_char lf front"
  shows "is_utf8 (''---'' @ [lf] @ front @ ''---'' @ [lf] @ body)"
proof -
  obtain f where f: "front = f @ [lf]"
    using assms(3) by (cases front rule: rev_cases) (auto simp: ends_with_char_def)
  have d: "is_utf8 ''---''" by code_simp
  have "is_utf8 f" using assms(1) is_utf8_cut [of lf f "[]"] by (simp add: f code_def)
  with d assms(2) show ?thesis
    using is_utf8_cut [of lf "''---''" "f @ lf # ''---'' @ lf # body"] is_utf8_cut [of lf f "''---'' @ lf # body"]
      is_utf8_cut [of lf "''---''" body]
    by (simp add: f code_def)
qed

lemma ends_with_append: "ends_with_char c (yaml @ (if ends_with_char c yaml then [] else [c]))"
  by (simp add: ends_with_char_def)


lemma archived_markdown_reads:
  assumes run: "archived_markdown ex bytes policy request_id at planned maximum = Inr (archived, planned')"
    and codec: "\<And>m. decode_document_metadata (ex_yaml_decode ex) bytes (cp_maximum_front_matter_bytes policy) = Inr m \<Longrightarrow>
      yaml_codec ex (archived_from m request_id at)"
  shows "\<exists>m. decode_document_metadata (ex_yaml_decode ex) bytes (cp_maximum_front_matter_bytes policy) = Inr m \<and>
    decode_document_metadata (ex_yaml_decode ex) archived (cp_maximum_front_matter_bytes policy) =
      Inr (archived_from m request_id at) \<and>
    apply_markdown_body bytes \<noteq> None \<and> apply_markdown_body archived = apply_markdown_body bytes"
proof -
  obtain m :: document_metadata and body yaml tail where
    m: "decode_document_metadata (ex_yaml_decode ex) bytes (cp_maximum_front_matter_bytes policy) = Inr m"
    and body: "apply_markdown_body bytes = Some body"
    and yaml: "ex_yaml_encode ex (archived_from m request_id at) = Inr yaml"
    and tail: "tail = (if ends_with_char lf yaml then [] else [lf])"
    and len: "length (yaml @ tail) \<le> cp_maximum_front_matter_bytes policy"
    and archived: "archived = ''---'' @ [lf] @ (yaml @ tail) @ ''---'' @ [lf] @ body"
    unfolding archived_from_def by (rule archived_markdown_Inr [OF run]) blast
  have front: "(if ends_with_char lf yaml then yaml else yaml @ [lf]) = yaml @ tail" by (simp add: tail)
  have ends: "ends_with_char lf (yaml @ tail)" unfolding tail by (rule ends_with_append)
  have c: "is_utf8 yaml \<and> (\<forall>l\<in>set (split_inclusive lf (yaml @ tail)). \<not> is_delimiter l) \<and>
      (\<forall>n. ex_yaml_decode ex n (yaml @ tail) = Inr (archived_from m request_id at))"
    using codec [OF m] yaml unfolding yaml_codec_def Let_def by (auto simp: tail split: if_splits)
  then have y: "is_utf8 yaml" "\<forall>l\<in>set (split_inclusive lf (yaml @ tail)). \<not> is_delimiter l"
    "ex_yaml_decode ex n (yaml @ tail) = Inr (archived_from m request_id at)" for n by blast+
  have "is_utf8 (yaml @ tail)" using y(1) is_utf8_cut [of lf yaml "[]"] by (simp add: tail code_def)
  moreover have "is_utf8 body"
    using body markdown_body_utf8 by (auto simp: apply_markdown_body_eq split: sum.splits)
  ultimately have utf: "is_utf8 archived" unfolding archived using ends by (intro delimited_utf8)
  note reads = written_front_matter_reads [where 'y = string, OF disjI2 [OF ends] y(2) len archived]
  from reads utf have "apply_markdown_body archived = Some body" by (simp add: apply_markdown_body_eq)
  moreover have "decode_document_metadata (ex_yaml_decode ex) archived (cp_maximum_front_matter_bytes policy) =
      Inr (archived_from m request_id at)"
    using reads utf y(3) by (simp add: decode_document_metadata_def)
  ultimately show ?thesis using m body by auto
qed

definition archive_externals :: externals where
  "archive_externals = apply_externals\<lparr>ex_yaml_encode := \<lambda>_. Inr ''r'',
     ex_yaml_decode := \<lambda>_ yaml. if yaml = ''r'' @ [lf] then Inr (archived_from active_metadata (RequestId 1) later)
       else Inr active_metadata\<rparr>"

lemma archive_externals_codec: "yaml_codec archive_externals (archived_from active_metadata (RequestId 1) later)"
proof -
  have "is_utf8 ''r''" "\<not> ends_with_char lf ''r''"
    "\<forall>l\<in>set (split_inclusive lf (''r'' @ [lf])). \<not> is_delimiter l" by code_simp+
  then show ?thesis by (simp add: yaml_codec_def archive_externals_def)
qed

lemma archive_runs:
  "archived_markdown archive_externals (document_bytes (''m'' @ [lf])) default_content_policy (RequestId 1) later 0 100 =
    Inr (document_bytes (''r'' @ [lf]), 10)"
  "decode_document_metadata (ex_yaml_decode archive_externals) (document_bytes (''m'' @ [lf])) 65536 = Inr active_metadata"
proof -
  have e: "extract_front_matter (document_bytes (''m'' @ [lf])) 65536 = (Inr (''m'' @ [lf]) :: string document_parse_error + _)"
    using decode_documents(3) [of 65536]
    by (auto simp: decode_document_metadata_def apply_externals_def attempt_Inr_iff map_err_Inr_iff
        archived_metadata_def active_metadata_def updated_metadata_def plain_metadata_def sample_metadata_def
        split: if_splits)
  have u: "is_utf8 (document_bytes (''m'' @ [lf]))"
    using decode_documents(3) [of 65536] by (auto simp: decode_document_metadata_def split: if_splits)
  from e u show d: "decode_document_metadata (ex_yaml_decode archive_externals) (document_bytes (''m'' @ [lf])) 65536 = Inr active_metadata"
    by (simp add: decode_document_metadata_def archive_externals_def)
  have b: "apply_markdown_body (document_bytes (''m'' @ [lf])) = Some []" by code_simp
  have p: "cp_maximum_markdown_bytes default_content_policy = 33554432"
    "cp_maximum_front_matter_bytes default_content_policy = 65536"
    by (simp_all add: default_content_policy_def)
  have m: "md_updated active_metadata = None" "md_created active_metadata = sample_datetime"
    by (simp_all add: active_metadata_def plain_metadata_def sample_metadata_def)
  show "archived_markdown archive_externals (document_bytes (''m'' @ [lf])) default_content_policy (RequestId 1) later 0 100 =
    Inr (document_bytes (''r'' @ [lf]), 10)"
    using d b
    by (simp add: archived_markdown_def Let_def p m document_bytes_facts archive_externals_def ends_with_char_def
        checked_add_u64_def u64_max_def reserve_planned_bytes_def document_bytes_def)
qed

section \<open>Properties\<close>

text \<open>C3: a document that no operation of a request names, and every log and archived document even
  if one does, keeps its bytes and the files of its bundle when the request is applied, and is
  indexed with the same record afterwards.\<close>

theorem apply_isolates_documents:
  assumes "ulid_text ex w" and "wf_fs fs" and "request_paths_valid (vp_request package)"
    and "apply_request_with_policy ex now after package_fs package policy package_policy fs = (Inr moves, fs')"
    and "build ex now fs policy package_policy = Inr index"
    and "index_get index i = Some r"
    and "i \<notin> op_document_id ` set (cr_operations (vp_request package)) \<or> frozen index i"
  shows "(\<forall>q b m l. (q = dr_relative_path r \<or> loc_document_type (dr_location r) \<noteq> Index \<and> q \<noteq> [] \<and>
      butlast q = butlast (dr_relative_path r)) \<longrightarrow>
      lookup fs q = Some (File b m l) \<longrightarrow> lookup fs' q = Some (File b m l)) \<and>
    (\<exists>index'. build ex after fs' policy package_policy = Inr index' \<and> index_get index' i = Some r)"
  using apply_keeps [OF assms] by blast

lemma attach_paths_valid: "request_paths_valid (vp_request (apply_package Index attach_operations))"
  by (simp add: request_paths_valid_def attach_operations_def operation_paths_valid_def) code_simp

theorem apply_isolates_documents_witness:
  "lookup (grown_tree [([''b.png''], new_file ''y'')])
     [''archive'', ''runbooks'', apply_bundle archived_metadata, ''index.md''] =
     Some (new_file (document_bytes (''x'' @ [lf])))"
proof -
  let ?run = "apply_request_with_policy apply_externals (\<lambda>_. 0) (\<lambda>_. 0) apply_package_fs
     (apply_package Index attach_operations) default_content_policy sample_policy apply_tree"
  have "DocumentId 3 \<notin> op_document_id ` set (cr_operations (vp_request (apply_package Index attach_operations)))"
    by (simp add: attach_operations_def)
  note kept = apply_isolates_documents [OF apply_externals_text apply_tree_wf attach_paths_valid attach_runs
      apply_tree_builds apply_index_get(2) disjI1 [OF this]]
  moreover have "dr_relative_path archived_record =
      [''archive'', ''runbooks'', apply_bundle archived_metadata, ''index.md'']"
    by (simp add: archived_record_def apply_record_def)
  moreover have "lookup apply_tree [''archive'', ''runbooks'', apply_bundle archived_metadata, ''index.md''] =
      Some (new_file (document_bytes (''x'' @ [lf])))"
    by (simp add: apply_tree_def lookup_def)
  ultimately show ?thesis unfolding new_file_def by metis
qed



text \<open>The bytes a plan writes never exceed the budget it was given.\<close>

theorem planned_bytes_bounded:
  assumes "build_plan ex content package_fs package index policy maximum = Inr plan"
  shows "sum_list (map written_bytes plan) \<le> maximum"
  using assms by (rule build_plan_bytes)

theorem planned_bytes_bounded_witness:
  "written_bytes (Replace [''index.md''] (document_bytes (''u'' @ [lf]))) \<le>
     pl_maximum_total_bytes (pp_limits sample_policy)"
  using planned_bytes_bounded [OF apply_plans(2) [OF refl]] by simp


lemma attach_refused:
  "apply_request_with_policy apply_externals now after apply_package_fs
     (apply_package Runbook [last move_operations]) default_content_policy sample_policy apply_tree =
     (Inl (DestinationExists [''inbox'', ''runbooks'', apply_bundle active_metadata, ''x.png'']), apply_tree)"
  by (simp add: apply_request_with_policy_def apply_tree_builds attach_alone)




text \<open>The paths that planning computes on its own for a new and for an archived document are the
  canonical paths that indexing demands of them.\<close>

theorem planned_paths_canonical:
  "create_document_path ex project t (md_created m) (md_document_id m) =
     canonical_document_path ex \<lparr>loc_document_type = t, loc_project = project, loc_archived = False\<rparr> m \<and>
   ((\<forall>u. is_ascii (ex_ulid_show ex u)) \<longrightarrow> t \<notin> {Index, Log} \<longrightarrow> vd_document_type v = t \<longrightarrow>
     vd_relative_path v = canonical_document_path ex
       \<lparr>loc_document_type = t, loc_project = vd_project v, loc_archived = False\<rparr> m \<longrightarrow>
     archive_document_path ex v i = canonical_document_path ex
       \<lparr>loc_document_type = t, loc_project = vd_project v, loc_archived = True\<rparr> m)"
  using create_path_canonical [of m "md_created m" "md_document_id m" ex project t]
    archive_path_canonical [of ex t v m i] by blast

definition active_document :: virtual_document where
  "active_document = \<lparr>vd_relative_path = [''inbox'', ''runbooks'', apply_bundle active_metadata, ''index.md''],
     vd_canonical_path = [], vd_document_type = Runbook, vd_project = None, vd_created = sample_datetime,
     vd_updated = None, vd_archived = False, vd_status = Active, vd_revision = Revision [], vd_markdown = None\<rparr>"

theorem planned_paths_canonical_witness:
  "archive_document_path apply_externals active_document (DocumentId 4) =
     [''archive'', ''runbooks'', apply_bundle active_metadata, ''index.md'']"
  using planned_paths_canonical [of apply_externals None Runbook active_metadata active_document "DocumentId 4"]
    ulid_textD(1) [OF apply_externals_text]
  by (simp add: active_document_def canonical_document_path_def apply_bundle_def)

text \<open>The body scanner that \<open>apply.rs\<close> carries finds the same body as the one of the core crate.\<close>

theorem apply_markdown_body_is_core:
  "apply_markdown_body markdown =
     (case markdown_body markdown of Inr body \<Rightarrow> Some body | Inl (_ :: string document_parse_error) \<Rightarrow> None)"
  by (rule apply_markdown_body_eq)


end
