(* ===== verification/Actions.thy ===== *)
theory Actions
  imports Filesystem
begin

text \<open>
  Code that reads and changes a state and can stop with an error at any point. A step takes the
  state and gives its result together with the state it leaves behind, so that what a failed
  operation has already done is part of the model; an action is a step on a directory tree.
  \<open>andthen\<close> is the \<open>?\<close> operator; \<open>wp\<close> states what holds of the result and
  of the state left behind, whichever way a step ends.
\<close>

type_synonym ('s, 'e, 'a) step = "'s \<Rightarrow> ('e + 'a) \<times> 's"

type_synonym ('e, 'a) action = "(fs, 'e, 'a) step"

definition finish :: "'a \<Rightarrow> ('s, 'e, 'a) step" where
  "finish x fs = (Inr x, fs)"

definition andthen :: "('s, 'e, 'a) step \<Rightarrow> ('a \<Rightarrow> ('s, 'e, 'b) step) \<Rightarrow> ('s, 'e, 'b) step" where
  "andthen m k fs = (case m fs of (Inl e, fs') \<Rightarrow> (Inl e, fs') | (Inr x, fs') \<Rightarrow> k x fs')"

text \<open>A read of the state, and one call of \<open>std::fs\<close> that changes a tree.\<close>

definition observe :: "('s \<Rightarrow> 'e + 'a) \<Rightarrow> ('s, 'e, 'a) step" where
  "observe f fs = (f fs, fs)"

definition perform :: "(io_error \<Rightarrow> 'e) \<Rightarrow> (fs \<Rightarrow> io_error + fs) \<Rightarrow> ('e, unit) action" where
  "perform g f fs = (case f fs of Inl e \<Rightarrow> (Inl (g e), fs) | Inr fs' \<Rightarrow> (Inr (), fs'))"

text \<open>\<open>if result.is_err() { let _ = cleanup; }\<close>.\<close>

definition or_cleanup :: "('s \<Rightarrow> 's) \<Rightarrow> ('s, 'e, 'a) step \<Rightarrow> ('s, 'e, 'a) step" where
  "or_cleanup f m fs = (case m fs of (Inl e, fs') \<Rightarrow> (Inl e, f fs') | (Inr x, fs') \<Rightarrow> (Inr x, fs'))"

definition reject_if :: "bool \<Rightarrow> 'e \<Rightarrow> ('s, 'e, unit) step" where
  "reject_if b e = observe (\<lambda>_. if b then Inl e else Inr ())"

fun act_each :: "('a \<Rightarrow> ('s, 'e, unit) step) \<Rightarrow> 'a list \<Rightarrow> ('s, 'e, unit) step" where
  "act_each f [] = finish ()"
| "act_each f (x # xs) = andthen (f x) (\<lambda>_. act_each f xs)"

definition wp :: "('s, 'e, 'a) step \<Rightarrow> ('e + 'a \<Rightarrow> 's \<Rightarrow> bool) \<Rightarrow> 's \<Rightarrow> bool" where
  "wp m Q fs \<longleftrightarrow> (case m fs of (r, fs') \<Rightarrow> Q r fs')"

named_theorems wp_simps \<open>weakest preconditions of actions\<close>

lemma wp_finish [wp_simps]: "wp (finish x) Q fs \<longleftrightarrow> Q (Inr x) fs"
  by (simp add: wp_def finish_def)

lemma wp_andthen [wp_simps]:
  "wp (andthen m k) Q fs \<longleftrightarrow>
     wp m (\<lambda>r fs'. case r of Inl e \<Rightarrow> Q (Inl e) fs' | Inr x \<Rightarrow> wp (k x) Q fs') fs"
  by (simp add: wp_def andthen_def split: prod.splits sum.splits)

lemma wp_observe [wp_simps]: "wp (observe f) Q fs \<longleftrightarrow> Q (f fs) fs"
  by (simp add: wp_def observe_def)

lemma wp_perform [wp_simps]:
  "wp (perform g f) Q fs \<longleftrightarrow> (case f fs of Inl e \<Rightarrow> Q (Inl (g e)) fs | Inr fs' \<Rightarrow> Q (Inr ()) fs')"
  by (simp add: wp_def perform_def split: sum.splits)

lemma wp_or_cleanup [wp_simps]:
  "wp (or_cleanup f m) Q fs \<longleftrightarrow>
     wp m (\<lambda>r fs'. case r of Inl e \<Rightarrow> Q (Inl e) (f fs') | Inr x \<Rightarrow> Q (Inr x) fs') fs"
  by (simp add: wp_def or_cleanup_def split: prod.splits sum.splits)

lemma wp_reject_if [wp_simps]: "wp (reject_if b e) Q fs \<longleftrightarrow> (if b then Q (Inl e) fs else Q (Inr ()) fs)"
  by (simp add: reject_if_def wp_observe)

lemma wpI: "(\<And>r fs'. m fs = (r, fs') \<Longrightarrow> Q r fs') \<Longrightarrow> wp m Q fs"
  by (simp add: wp_def split: prod.splits)

lemma wpD: "wp m Q fs \<Longrightarrow> m fs = (r, fs') \<Longrightarrow> Q r fs'"
  by (simp add: wp_def)

lemma wp_mono: "wp m Q fs \<Longrightarrow> (\<And>r fs'. Q r fs' \<Longrightarrow> Q' r fs') \<Longrightarrow> wp m Q' fs"
  by (auto simp: wp_def split: prod.splits)

lemma wp_conj: "wp m (\<lambda>r fs'. Q r fs' \<and> Q' r fs') fs \<longleftrightarrow> wp m Q fs \<and> wp m Q' fs"
  by (auto simp: wp_def split: prod.splits)

text \<open>Removal, and the tree below one directory.\<close>

definition remove_file :: "path \<Rightarrow> fs \<Rightarrow> io_error + fs" where
  "remove_file p fs =
     attempt (symlink_metadata fs p) (\<lambda>n.
       if n = Dir then Inl IsADirectory else Inr (filter (\<lambda>(q, _). q \<noteq> p) fs))"

definition remove_dir_all :: "path \<Rightarrow> fs \<Rightarrow> io_error + fs" where
  "remove_dir_all p fs =
     attempt (symlink_metadata fs p) (\<lambda>n.
       if n \<noteq> Dir then Inl NotADirectory else Inr (filter (\<lambda>(q, _). \<not> prefix p q) fs))"

definition remove_dir :: "path \<Rightarrow> fs \<Rightarrow> io_error + fs" where
  "remove_dir p fs =
     attempt (symlink_metadata fs p) (\<lambda>n.
       if n \<noteq> Dir then Inl NotADirectory
       else if children fs p \<noteq> [] then Inl DirectoryNotEmpty
       else Inr (filter (\<lambda>(q, _). q \<noteq> p) fs))"

definition create_dir :: "path \<Rightarrow> fs \<Rightarrow> io_error + fs" where
  "create_dir p fs =
     attempt (resolve_parent fs p) (\<lambda>_.
       if lookup fs p \<noteq> None then Inl AlreadyExists else Inr (put p Dir fs))"

text \<open>\<open>let _ = call\<close>: the error is dropped.\<close>

definition ignoring :: "(fs \<Rightarrow> io_error + fs) \<Rightarrow> fs \<Rightarrow> fs" where
  "ignoring f fs = (case f fs of Inl _ \<Rightarrow> fs | Inr fs' \<Rightarrow> fs')"

definition subtree :: "path \<Rightarrow> fs \<Rightarrow> fs" where
  "subtree p fs = map (\<lambda>(q, n). (drop (length p) q, n)) (filter (\<lambda>(q, _). prefix p q) fs)"

lemma lookup_subtree: "lookup (subtree p fs) q = lookup fs (p @ q)"
proof (induction fs)
  case (Cons x fs)
  obtain r n where x: "x = (r, n)" by (cases x)
  show ?case
  proof (cases "prefix p r")
    case True
    then obtain z where "r = p @ z" by (auto simp: prefix_def)
    with Cons x show ?thesis by (simp add: subtree_def lookup_def)
  next
    case False
    then have "r \<noteq> p @ q" by auto
    with Cons x False show ?thesis by (simp add: subtree_def lookup_def)
  qed
qed (simp add: subtree_def lookup_def)

lemma lookup_filter: "lookup (filter (\<lambda>(q, _). P q) fs) p = (if P p then lookup fs p else None)"
  unfolding lookup_def by (induction fs) auto

lemma remove_file_lookup:
  "lookup (ignoring (remove_file p) fs) q \<noteq> lookup fs q \<Longrightarrow> q = p \<and> lookup fs p \<noteq> Some Dir"
  using lookup_filter [of "\<lambda>q. q \<noteq> p" fs q]
  by (auto simp: ignoring_def remove_file_def attempt_def symlink_metadata_def ok_or_def
      split: sum.splits if_splits option.splits)

section \<open>Removal as a tree step\<close>

lemma wf_fs_filter:
  assumes "wf_fs fs" and "P []" and "\<And>p c. P (p @ [c]) \<Longrightarrow> lookup fs (p @ [c]) \<noteq> None \<Longrightarrow> P p"
  shows "wf_fs (filter (\<lambda>(q, _). P q) fs)"
proof (rule wf_fsI)
  have "map fst (filter (\<lambda>(q, _). P q) fs) = filter P (map fst fs)" by (induction fs) auto
  with assms(1) show "distinct (map fst (filter (\<lambda>(q, _). P q) fs))" by (simp add: wf_fs_def)
  show "lookup (filter (\<lambda>(q, _). P q) fs) [] = Some Dir"
    using assms(1,2) by (simp add: lookup_filter wf_fs_root)
  show "lookup (filter (\<lambda>(q, _). P q) fs) p = Some Dir" if "lookup (filter (\<lambda>(q, _). P q) fs) (p @ [c]) \<noteq> None" for p c
    using that assms(3) [of p c] wf_fs_parent [OF assms(1)] by (auto simp: lookup_filter split: if_splits)
qed

interpretation remove_file_step: tree_step "remove_file p" "\<lambda>_ q. q = p" for p
proof
  fix fs fs' q
  assume wf: "wf_fs fs" and "remove_file p fs = Inr fs'"
  then have p: "lookup fs p \<noteq> Some Dir" "fs' = filter (\<lambda>(q, _). q \<noteq> p) fs"
    by (auto simp: remove_file_def attempt_Inr_iff symlink_metadata_def split: if_splits)
  have "p \<noteq> []" using p(1) wf_fs_root [OF wf] by auto
  then show "wf_fs fs'" unfolding p(2)
    using p(1) wf_fs_parent [OF wf] by (intro wf_fs_filter [OF wf]) auto
  show "lookup fs' q = lookup fs q" if "\<not> q = p" using that p(2) lookup_filter [of "\<lambda>q. q \<noteq> p" fs q] by simp
qed

interpretation remove_dir_all_step:
  tree_step "remove_dir_all (c # p)" "\<lambda>_ q. prefix (c # p) q" for c p
proof
  fix fs fs' q
  assume wf: "wf_fs fs" and "remove_dir_all (c # p) fs = Inr fs'"
  then have r: "fs' = filter (\<lambda>(q, _). \<not> prefix (c # p) q) fs"
    by (auto simp: remove_dir_all_def attempt_Inr_iff split: if_splits)
  show "wf_fs fs'" unfolding r by (intro wf_fs_filter [OF wf]) (auto simp: prefix_def)
  show "lookup fs' q = lookup fs q" if "\<not> prefix (c # p) q"
    using that r lookup_filter [of "\<lambda>q. \<not> prefix (c # p) q" fs q] by simp
qed

lemma create_dir_Inr_iff:
  "create_dir p fs = Inr fs' \<longleftrightarrow> resolve_parent fs p = Inr () \<and> lookup fs p = None \<and> fs' = put p Dir fs"
  by (auto simp: create_dir_def attempt_Inr_iff)

interpretation create_dir_step: tree_step "create_dir p" "\<lambda>_ q. q = p" for p
proof
  fix fs fs' q
  assume wf: "wf_fs fs" and run: "create_dir p fs = Inr fs'"
  from wf run show "wf_fs fs'"
    by (cases p rule: rev_cases)
      (auto simp: create_dir_Inr_iff wf_fs_root resolve_parent_ok_iff strict_prefix_def intro!: wf_fs_put_dir)
  show "lookup fs' q = lookup fs q" if "\<not> q = p"
    using that run by (auto simp: create_dir_Inr_iff lookup_put)
qed

section \<open>Stepwise preconditions\<close>

lemma wp_observe_then:
  assumes "\<And>e. f fs = Inl e \<Longrightarrow> Q (Inl e) fs" and "\<And>x. f fs = Inr x \<Longrightarrow> wp (k x) Q fs"
  shows "wp (andthen (observe f) k) Q fs"
  using assms by (cases "f fs") (simp_all add: wp_andthen wp_observe)

lemma wp_perform_then:
  assumes "\<And>e. f fs = Inl e \<Longrightarrow> Q (Inl (g e)) fs" and "\<And>fs'. f fs = Inr fs' \<Longrightarrow> wp (k ()) Q fs'"
  shows "wp (andthen (perform g f) k) Q fs"
  using assms by (cases "f fs") (simp_all add: wp_andthen wp_perform)

lemma wp_cleanup:
  assumes "wp m Q' fs" and "\<And>e v. Q' (Inl e) v \<Longrightarrow> Q (Inl e) (f v)" and "\<And>x v. Q' (Inr x) v \<Longrightarrow> Q (Inr x) v"
  shows "wp (or_cleanup f m) Q fs"
  unfolding wp_or_cleanup by (rule wp_mono [OF assms(1)]) (use assms(2,3) in \<open>auto split: sum.splits\<close>)

section \<open>What an action may do to the tree\<close>

definition runs_in :: "(fs \<Rightarrow> fs \<Rightarrow> bool) \<Rightarrow> ('e, 'a) action \<Rightarrow> fs \<Rightarrow> bool" where
  "runs_in R m fs \<longleftrightarrow> R fs (snd (m fs))"

text \<open>A reflexive and transitive relation between the tree before and after: it holds of an action
  if it holds of its steps, from wherever the steps before have led.\<close>

locale tree_relation =
  fixes R :: "fs \<Rightarrow> fs \<Rightarrow> bool"
  assumes R_refl: "R fs fs" and R_trans: "R a b \<Longrightarrow> R b c \<Longrightarrow> R a c"
begin

lemma run_finish: "runs_in R (finish x) fs"
  by (simp add: runs_in_def finish_def R_refl)

lemma run_observe: "runs_in R (observe f) fs"
  by (simp add: runs_in_def observe_def R_refl)

lemma run_reject: "runs_in R (reject_if b e) fs"
  by (simp add: reject_if_def run_observe)

lemma run_then:
  assumes "runs_in R m fs" and "\<And>x fs'. m fs = (Inr x, fs') \<Longrightarrow> runs_in R (k x) fs'"
  shows "runs_in R (andthen m k) fs"
  using assms by (auto simp: runs_in_def andthen_def intro: R_trans split: prod.splits sum.splits)

lemma run_observe_then:
  assumes "\<And>x. f fs = Inr x \<Longrightarrow> runs_in R (k x) fs"
  shows "runs_in R (andthen (observe f) k) fs"
  by (rule run_then [OF run_observe]) (use assms in \<open>auto simp: observe_def\<close>)

lemma run_reject_then:
  assumes "\<not> b \<Longrightarrow> runs_in R (k ()) fs"
  shows "runs_in R (andthen (reject_if b e) k) fs"
  unfolding reject_if_def by (rule run_observe_then) (use assms in \<open>auto split: if_splits\<close>)

lemma run_perform:
  assumes "\<And>fs'. f fs = Inr fs' \<Longrightarrow> R fs fs'"
  shows "runs_in R (perform g f) fs"
  using assms by (auto simp: runs_in_def perform_def R_refl split: sum.splits)

lemma run_perform_then:
  assumes "\<And>fs'. f fs = Inr fs' \<Longrightarrow> R fs fs'" and "\<And>fs'. f fs = Inr fs' \<Longrightarrow> runs_in R (k ()) fs'"
  shows "runs_in R (andthen (perform g f) k) fs"
  by (rule run_then [OF run_perform]) (use assms in \<open>auto simp: perform_def split: sum.splits\<close>)

lemma run_cleanup:
  assumes "runs_in R m fs" and "\<And>fs'. R fs fs' \<Longrightarrow> R fs' (f fs')"
  shows "runs_in R (or_cleanup f m) fs"
  using assms by (auto simp: runs_in_def or_cleanup_def intro: R_trans split: prod.splits sum.splits)

lemma run_each:
  assumes "\<And>x fs'. x \<in> set xs \<Longrightarrow> R fs fs' \<Longrightarrow> runs_in R (f x) fs'"
  shows "runs_in R (act_each f xs) fs"
  using assms
proof (induction xs arbitrary: fs)
  case Nil
  then show ?case by (simp add: run_finish)
next
  case (Cons x xs)
  have "runs_in R (f x) fs" using Cons.prems [of x fs] R_refl by simp
  moreover from this have "R fs fs'" if "f x fs = (Inr y, fs')" for y fs'
    using that by (simp add: runs_in_def)
  ultimately show ?case
    unfolding act_each.simps by (intro run_then) (auto intro!: Cons.IH Cons.prems intro: R_trans)
qed

end

section \<open>Successful runs\<close>

lemma andthen_Inr_iff:
  "andthen m k fs = (Inr x, fs') \<longleftrightarrow> (\<exists>y fs1. m fs = (Inr y, fs1) \<and> k y fs1 = (Inr x, fs'))"
  by (auto simp: andthen_def split: prod.splits sum.splits)

lemma observe_Inr_iff: "observe f fs = (Inr x, fs') \<longleftrightarrow> f fs = Inr x \<and> fs' = fs"
  by (auto simp: observe_def)

lemma perform_Inr_iff: "perform g f fs = (Inr x, fs') \<longleftrightarrow> f fs = Inr fs'"
  by (auto simp: perform_def split: sum.splits)

lemma cleanup_Inr_iff: "or_cleanup f m fs = (Inr x, fs') \<longleftrightarrow> m fs = (Inr x, fs')"
  by (auto simp: or_cleanup_def split: prod.splits sum.splits)

lemma finish_Inr_iff: "finish y fs = (Inr x, fs') \<longleftrightarrow> x = y \<and> fs' = fs"
  by (auto simp: finish_def)

lemma reject_Inr_iff: "reject_if b e fs = (Inr x, fs') \<longleftrightarrow> \<not> b \<and> fs' = fs"
  by (auto simp: reject_if_def observe_def)

lemmas action_Inr_iffs = andthen_Inr_iff observe_Inr_iff perform_Inr_iff cleanup_Inr_iff finish_Inr_iff reject_Inr_iff

end
