(* ===== verification/Queue_Storage.thy ===== *)
theory Queue_Storage
  imports Package_Validation Actions
begin

text \<open>
  \<open>crates/queue/src/file_queue.rs\<close>: the durable queue as a directory tree. The queue root is
  the root of the tree; an accepted request is the directory named after it below one of
  \<open>pending\<close>, \<open>processing\<close>, \<open>completed\<close> and \<open>failed\<close>. Every
  operation below runs while the queue lock is held, so it is one action on the tree.

  Times, fresh ULIDs, the result of taking the queue lock and the test hooks between durable steps
  are arguments. What the process holds as pinned directory handles, with the inode and mount
  numbers behind them, is the argument \<open>fq_pinned\<close>. Synchronizing a path only demands
  that the path is there. A package is validated as the tree below its own directory.
\<close>

section \<open>States, outcomes, errors\<close>

definition NEXT_SEQUENCE_FILE_NAME :: string where "NEXT_SEQUENCE_FILE_NAME = ''next-sequence''"
definition QUEUE_IDENTITY_FILE_NAME :: string where "QUEUE_IDENTITY_FILE_NAME = ''queue-id''"
definition WORKER_TEMP_DIRECTORY_NAME :: string where "WORKER_TEMP_DIRECTORY_NAME = ''worker-tmp''"
definition MAXIMUM_SEQUENCE_FILE_BYTES :: nat where "MAXIMUM_SEQUENCE_FILE_BYTES = 32"
definition MAXIMUM_QUEUE_IDENTITY_BYTES :: nat where "MAXIMUM_QUEUE_IDENTITY_BYTES = 72"
definition MAXIMUM_STAGING_NAME_ATTEMPTS :: nat where "MAXIMUM_STAGING_NAME_ATTEMPTS = 16"

datatype queue_state = Pending | Processing | Completed | Failed

definition queue_states :: "queue_state list" where
  "queue_states = [Pending, Processing, Completed, Failed]"

fun directory_name :: "queue_state \<Rightarrow> string" where
  "directory_name Pending = ''pending''"
| "directory_name Processing = ''processing''"
| "directory_name Completed = ''completed''"
| "directory_name Failed = ''failed''"

fun queue_state_index :: "queue_state \<Rightarrow> nat" where
  "queue_state_index Pending = 0"
| "queue_state_index Processing = 1"
| "queue_state_index Completed = 2"
| "queue_state_index Failed = 3"

datatype enqueue_outcome =
    Accepted request_id package_digest
  | Existing request_id package_digest queue_state

datatype queue_limit =
    QueueTotalBytes | QueueIndividualFileBytes | QueueFileCount | QueueDirectoryCount
  | QueueEntryCount | QueuePathComponents

datatype queue_error =
    QueueIo io_error
  | QueuePackage package_validation_error
  | InvalidStoragePath path
  | StagingNameExhausted
  | RequestAlreadyWritten
  | PayloadAlreadyWritten payload_path
  | PayloadPrefixCollision payload_path
  | QueueLimitExceeded queue_limit nat nat
  | QueueRequestIdReused request_id queue_state
  | AcceptanceMetadataError string
  | QuarantineTimestamp string
  | SequenceExhausted
  | InvalidSequenceState
  | OperationDeadlineExceeded
  | InvalidStatusScanLimit
  | StatusScanLimitExceeded nat
  | InvalidQueueIdentity
  | MaintenanceScannerPoisoned
  | RequestInMultipleStates request_id
  | QueueCorruptState request_id queue_state string

fun queue_error_code :: "queue_error \<Rightarrow> error_code" where
  "queue_error_code (QueueIo _) = TemporaryFailure"
| "queue_error_code StagingNameExhausted = TemporaryFailure"
| "queue_error_code OperationDeadlineExceeded = TemporaryFailure"
| "queue_error_code (QueuePackage e) = package_error_code e"
| "queue_error_code RequestAlreadyWritten = InvalidRequest"
| "queue_error_code (PayloadAlreadyWritten _) = InvalidRequest"
| "queue_error_code (PayloadPrefixCollision _) = InvalidRequest"
| "queue_error_code (QueueLimitExceeded _ _ _) = LimitExceeded"
| "queue_error_code (StatusScanLimitExceeded _) = LimitExceeded"
| "queue_error_code (QueueRequestIdReused _ _) = RequestIdReused"
| "queue_error_code (QueueCorruptState _ _ _) = ContentValidationFailed"
| "queue_error_code _ = InternalError"

text \<open>The codecs the queue crate takes from other crates.\<close>

record queue_externals =
  qx_base :: externals
  qx_ulid_parse :: "string \<Rightarrow> decode_error + ulid"
  qx_acceptance_to_json :: "acceptance_metadata \<Rightarrow> string + string"

definition show_ulid :: "('a queue_externals_scheme) \<Rightarrow> ulid \<Rightarrow> string" where
  "show_ulid qx u = ex_ulid_show (qx_base qx) u"

definition request_name :: "('a queue_externals_scheme) \<Rightarrow> request_id \<Rightarrow> string" where
  "request_name qx r = request_id_to_string (show_ulid qx) r"

record file_queue =
  fq_identity :: revision
  fq_policy :: package_policy
  fq_pinned :: "fs \<Rightarrow> queue_error + unit"

definition state_root :: "queue_state \<Rightarrow> path" where
  "state_root state = [directory_name state]"

definition state_path :: "('a queue_externals_scheme) \<Rightarrow> queue_state \<Rightarrow> request_id \<Rightarrow> path" where
  "state_path qx state request_id = state_root state @ [request_name qx request_id]"

definition worker_temporary_root :: path where
  "worker_temporary_root = [WORKER_TEMP_DIRECTORY_NAME]"

section \<open>Small files\<close>

definition sync_path :: "path \<Rightarrow> fs \<Rightarrow> queue_error + unit" where
  "sync_path p fs = map_err QueueIo (attempt (symlink_metadata fs p) (\<lambda>n.
     if n = OtherNode then Inl OtherIo else Inr ()))"

definition read_identity_file :: "path \<Rightarrow> nat \<Rightarrow> fs \<Rightarrow> queue_error + string" where
  "read_identity_file p maximum_bytes fs =
     (case symlink_metadata fs p of
        Inl e \<Rightarrow> if e = NotFound then Inl InvalidQueueIdentity else Inl (QueueIo e)
      | Inr (File bytes _ _) \<Rightarrow>
          if length bytes > maximum_bytes then Inl InvalidQueueIdentity else Inr bytes
      | Inr _ \<Rightarrow> Inl InvalidQueueIdentity)"

definition read_queue_identity :: "path \<Rightarrow> fs \<Rightarrow> queue_error + revision" where
  "read_queue_identity p fs =
     attempt (read_identity_file p MAXIMUM_QUEUE_IDENTITY_BYTES fs) (\<lambda>bytes.
       let value = trim (chars bytes) in
       if \<not> is_utf8 bytes then Inl InvalidQueueIdentity
       else if \<not> list_all (\<lambda>c. c < 128) value then Inl InvalidQueueIdentity
       else map_err (\<lambda>_. InvalidQueueIdentity) (revision_from_str (map char_of value)))"

definition current_identity_locked :: "file_queue \<Rightarrow> fs \<Rightarrow> queue_error + revision" where
  "current_identity_locked queue fs =
     attempt (fq_pinned queue fs) (\<lambda>_.
     attempt (read_queue_identity [QUEUE_IDENTITY_FILE_NAME] fs) (\<lambda>identity.
       if identity = fq_identity queue then Inr identity else Inl InvalidQueueIdentity))"

definition read_next_sequence :: "path \<Rightarrow> fs \<Rightarrow> queue_error + nat" where
  "read_next_sequence p fs =
     attempt (map_err QueueIo (read_file fs p)) (\<lambda>contents.
       let bytes = take (MAXIMUM_SEQUENCE_FILE_BYTES + 1) contents in
       if length bytes > MAXIMUM_SEQUENCE_FILE_BYTES then Inl InvalidSequenceState
       else if \<not> is_utf8 bytes then Inl InvalidSequenceState
       else (case strip_suffix_char lf bytes of
               None \<Rightarrow> Inl InvalidSequenceState
             | Some value \<Rightarrow>
                 if value = [] \<or> starts_with_char (CHR ''0'') value \<or> lf \<in> set value \<or>
                    \<not> list_all is_ascii_digit value
                 then Inl InvalidSequenceState
                 else if digits_value 0 value > u64_max then Inl InvalidSequenceState
                 else Inr (digits_value 0 value)))"

definition allocate_sequence :: "('a queue_externals_scheme) \<Rightarrow> ulid \<Rightarrow> (queue_error, nat) action" where
  "allocate_sequence qx fresh =
     (let temporary_path = [''.next-sequence-'' @ show_ulid qx fresh] in
     andthen (observe (read_next_sequence [NEXT_SEQUENCE_FILE_NAME])) (\<lambda>sequence.
     andthen (observe (\<lambda>_. ok_or SequenceExhausted (checked_add_u64 sequence 1))) (\<lambda>next.
     andthen (perform QueueIo (create_new temporary_path (show_nat next @ [lf]))) (\<lambda>_.
     andthen (or_cleanup (ignoring (remove_file temporary_path))
         (perform QueueIo (rename temporary_path [NEXT_SEQUENCE_FILE_NAME]))) (\<lambda>_.
     andthen (observe (sync_path [])) (\<lambda>_. finish sequence))))))"

definition read_stored_digest ::
  "path \<Rightarrow> request_id \<Rightarrow> queue_state \<Rightarrow> fs \<Rightarrow> queue_error + package_digest" where
  "read_stored_digest package_root request_id state fs =
     (let corrupt = QueueCorruptState request_id state; digest_path = package_root @ [DIGEST_FILE_NAME] in
      case symlink_metadata fs digest_path of
        Inl e \<Rightarrow> if e = NotFound then Inl (corrupt ''digest is missing'') else Inl (QueueIo e)
      | Inr metadata \<Rightarrow>
          (case metadata of
             File contents _ _ \<Rightarrow>
               let bytes = take (MAXIMUM_DIGEST_FILE_BYTES + 1) contents in
               if \<not> is_utf8 bytes then Inl (corrupt ''digest is not UTF-8'')
               else if length bytes > MAXIMUM_DIGEST_FILE_BYTES
                 then Inl (corrupt ''digest file is too large'')
               else (case strip_suffix_char lf bytes of
                       None \<Rightarrow> Inl (corrupt ''digest is not newline-terminated'')
                     | Some value \<Rightarrow>
                         if lf \<in> set value then Inl (corrupt ''digest contains multiple lines'')
                         else map_err (\<lambda>_. corrupt ''digest is not a canonical SHA-256 value'')
                           (attempt (revision_from_str value) (\<lambda>r. Inr (PackageDigest r))))
           | _ \<Rightarrow> Inl (corrupt ''digest entry is not a regular file'')))"

definition find_existing_in ::
  "('a queue_externals_scheme) \<Rightarrow> fs \<Rightarrow> request_id \<Rightarrow> queue_state \<Rightarrow>
   (queue_state \<times> package_digest) option \<Rightarrow> queue_error + (queue_state \<times> package_digest) option" where
  "find_existing_in qx fs request_id state existing =
     (let path = state_path qx state request_id in
      case symlink_metadata fs path of
        Inr metadata \<Rightarrow>
          if metadata \<noteq> Dir
            then Inl (QueueCorruptState request_id state ''request entry is not a directory'')
          else if existing \<noteq> None then Inl (RequestInMultipleStates request_id)
          else attempt (read_stored_digest path request_id state fs) (\<lambda>digest.
                 Inr (Some (state, digest)))
      | Inl e \<Rightarrow> if e = NotFound then Inr existing else Inl (QueueIo e))"

definition find_existing ::
  "('a queue_externals_scheme) \<Rightarrow> request_id \<Rightarrow> fs \<Rightarrow>
   queue_error + (queue_state \<times> package_digest) option" where
  "find_existing qx request_id fs = try_fold (find_existing_in qx fs request_id) queue_states None"

section \<open>Taking the queue lock\<close>

definition LOCK_POLL_INTERVAL :: nat where "LOCK_POLL_INTERVAL = 10000000"

datatype try_lock_result = LockTaken | WouldBlock | LockError io_error

text \<open>
  What one waiting operation meets, round by round: the clock (in nanoseconds) where the deadline is
  checked and where the remaining time is computed, whether the operation has been cancelled, and
  the outcome of \<open>try_lock\<close>.
\<close>

record lock_rounds =
  lr_checked :: "nat \<Rightarrow> nat"
  lr_waited :: "nat \<Rightarrow> nat"
  lr_cancelled :: "nat \<Rightarrow> bool"
  lr_try_lock :: "nat \<Rightarrow> try_lock_result"

definition ensure_active :: "nat \<Rightarrow> bool \<Rightarrow> nat \<Rightarrow> queue_error + unit" where
  "ensure_active expires_at cancelled now =
     (if cancelled \<or> now \<ge> expires_at then Inl OperationDeadlineExceeded else Inr ())"

text \<open>The time a round sleeps before the next.\<close>

definition lock_sleep :: "nat \<Rightarrow> nat \<Rightarrow> nat" where
  "lock_sleep expires_at now = min (expires_at - now) LOCK_POLL_INTERVAL"

text \<open>The loop of \<open>lock_until\<close> from round \<open>k\<close>; the flag is \<open>lock_wait_observed\<close>.\<close>

partial_function (option) lock_rounds_from ::
  "nat \<Rightarrow> lock_rounds \<Rightarrow> nat \<Rightarrow> bool \<Rightarrow> ((queue_error + unit) \<times> bool) option" where
  "lock_rounds_from expires_at rounds k observed =
     (case ensure_active expires_at (lr_cancelled rounds k) (lr_checked rounds k) of
        Inl e \<Rightarrow> Some (Inl e, observed)
      | Inr _ \<Rightarrow>
          (case lr_try_lock rounds k of
             LockTaken \<Rightarrow> Some (Inr (), observed)
           | LockError e \<Rightarrow> Some (Inl (QueueIo e), observed)
           | WouldBlock \<Rightarrow> lock_rounds_from expires_at rounds (Suc k) True))"

text \<open>Without a deadline the lock call blocks; \<open>blocking\<close> is its outcome.\<close>

definition lock_until ::
  "io_error + unit \<Rightarrow> (nat \<times> lock_rounds) option \<Rightarrow> ((queue_error + unit) \<times> bool) option" where
  "lock_until blocking deadline =
     (case deadline of
        None \<Rightarrow> Some (map_err QueueIo blocking, False)
      | Some (expires_at, rounds) \<Rightarrow> lock_rounds_from expires_at rounds 0 False)"

section \<open>Initialization\<close>

definition ensure_directory :: "path \<Rightarrow> (queue_error, bool) action" where
  "ensure_directory p fs =
     (case symlink_metadata fs p of
        Inr n \<Rightarrow> if n = Dir then (Inr False, fs) else (Inl (InvalidStoragePath p), fs)
      | Inl e \<Rightarrow>
          if e \<noteq> NotFound then (Inl (QueueIo e), fs)
          else (case create_dir p fs of
                  Inr fs' \<Rightarrow> (Inr True, fs')
                | Inl d \<Rightarrow>
                    if d \<noteq> AlreadyExists then (Inl (QueueIo d), fs)
                    else (case symlink_metadata fs p of
                            Inr n \<Rightarrow> if n = Dir then (Inr True, fs) else (Inl (InvalidStoragePath p), fs)
                          | Inl f \<Rightarrow> (Inl (QueueIo f), fs))))"

fun states_are_empty :: "fs \<Rightarrow> queue_state list \<Rightarrow> queue_error + bool" where
  "states_are_empty fs [] = Inr True"
| "states_are_empty fs (state # states) =
     attempt (map_err QueueIo (read_dir fs (state_root state))) (\<lambda>names.
       if names \<noteq> [] then Inr False else states_are_empty fs states)"

definition accepted_states_are_empty :: "fs \<Rightarrow> queue_error + bool" where
  "accepted_states_are_empty fs = states_are_empty fs queue_states"

text \<open>The source calls itself when another initializer creates the file first, which is once
  at most while nothing removes it; \<open>retries\<close> counts the calls.\<close>

fun ensure_sequence_file :: "nat \<Rightarrow> path \<Rightarrow> (queue_error, unit) action" where
  "ensure_sequence_file retries p fs =
     (case symlink_metadata fs p of
        Inr (File _ _ _) \<Rightarrow> (attempt (read_next_sequence p fs) (\<lambda>_. Inr ()), fs)
      | Inr _ \<Rightarrow> (Inl (InvalidStoragePath p), fs)
      | Inl e \<Rightarrow>
          if e \<noteq> NotFound then (Inl (QueueIo e), fs)
          else (case accepted_states_are_empty fs of
                  Inl d \<Rightarrow> (Inl d, fs)
                | Inr unused \<Rightarrow>
                    if \<not> unused then (Inl InvalidSequenceState, fs)
                    else (case create_new p (''1'' @ [lf]) fs of
                            Inr fs' \<Rightarrow> (Inr (), fs')
                          | Inl d \<Rightarrow>
                              if d = AlreadyExists \<and> retries > 0
                              then ensure_sequence_file (retries - 1) p fs
                              else (Inl (QueueIo d), fs))))"

declare ensure_sequence_file.simps [simp del]


definition ensure_queue_identity_file ::
  "('a queue_externals_scheme) \<Rightarrow> ulid \<Rightarrow> path \<Rightarrow> (queue_error, revision) action" where
  "ensure_queue_identity_file qx fresh p fs =
     (case symlink_metadata fs p of
        Inr (File _ _ _) \<Rightarrow> (read_queue_identity p fs, fs)
      | Inr _ \<Rightarrow> (Inl (InvalidStoragePath p), fs)
      | Inl e \<Rightarrow>
          if e \<noteq> NotFound then (Inl (QueueIo e), fs)
          else (case accepted_states_are_empty fs of
                  Inl d \<Rightarrow> (Inl d, fs)
                | Inr unused \<Rightarrow>
                    if \<not> unused then (Inl InvalidQueueIdentity, fs)
                    else
                      let identity = Revision (ex_sha256 (qx_base qx)
                            (''agent-knowledge-queue-instance-v1'' @ [char_of (0 :: nat)] @
                             map (\<lambda>i. char_of (unat fresh div 256 ^ (15 - i) mod 256)) [0..<16])) in
                      andthen (perform QueueIo (create_new p (display_revision identity @ [lf]))) (\<lambda>_.
                      andthen (observe (sync_path [])) (\<lambda>_. finish identity)) fs))"

section \<open>Receiving a package\<close>

record incoming_package =
  ip_staging_path :: path
  ip_written_payload :: "payload_path list"
  ip_written_directories :: "string list"
  ip_written_files :: nat
  ip_written_bytes :: nat
  ip_request_written :: bool

text \<open>A staging directory under the first fresh name that is free. The lease is an advisory lock on
  the new directory; \<open>lease\<close> is the outcome of opening and locking it.\<close>

fun begin_attempts ::
  "('a queue_externals_scheme) \<Rightarrow> file_queue \<Rightarrow> (path \<Rightarrow> io_error + unit) \<Rightarrow> ulid list \<Rightarrow>
   (queue_error, incoming_package) action" where
  "begin_attempts qx queue lease [] fs = (Inl StagingNameExhausted, fs)"
| "begin_attempts qx queue lease (fresh # rest) fs =
     (let staging_path = [''incoming'', ''.incoming-'' @ show_ulid qx fresh] in
      case create_dir staging_path fs of
        Inl e \<Rightarrow> if e = AlreadyExists then begin_attempts qx queue lease rest fs else (Inl (QueueIo e), fs)
      | Inr fs1 \<Rightarrow>
          (case create_dir (staging_path @ [PAYLOAD_DIRECTORY_NAME]) fs1 of
             Inl e \<Rightarrow> (Inl (QueueIo e), ignoring (remove_dir staging_path) fs1)
           | Inr fs2 \<Rightarrow>
               (case attempt (map_err QueueIo (lease staging_path)) (\<lambda>_. current_identity_locked queue fs2) of
                  Inl e \<Rightarrow> (Inl e, ignoring (remove_dir_all staging_path) fs2)
                | Inr _ \<Rightarrow>
                    (Inr \<lparr>ip_staging_path = staging_path, ip_written_payload = [],
                          ip_written_directories = [], ip_written_files = 0, ip_written_bytes = 0,
                          ip_request_written = False\<rparr>, fs2))))"

definition begin_until ::
  "('a queue_externals_scheme) \<Rightarrow> file_queue \<Rightarrow> queue_error + unit \<Rightarrow> (path \<Rightarrow> io_error + unit) \<Rightarrow>
   (nat \<Rightarrow> ulid) \<Rightarrow> (queue_error, incoming_package) action" where
  "begin_until qx queue locked lease fresh =
     andthen (observe (\<lambda>_. locked)) (\<lambda>_.
     andthen (observe (current_identity_locked queue)) (\<lambda>_.
       begin_attempts qx queue lease (map fresh [0..<MAXIMUM_STAGING_NAME_ATTEMPTS])))"

text \<open>The copy loop of \<open>write_file\<close> over the chunks the source returns, with the bytes copied
  so far.\<close>

fun copy_chunks ::
  "package_limits \<Rightarrow> nat \<Rightarrow> (io_error + string) list \<Rightarrow> string \<Rightarrow> queue_error + string" where
  "copy_chunks limits written_bytes [] copied = Inr copied"
| "copy_chunks limits written_bytes (Inl e # rest) copied = Inl (QueueIo e)"
| "copy_chunks limits written_bytes (Inr chunk # rest) copied =
     (if chunk = [] then Inr copied
      else
     attempt (ok_or (QueueLimitExceeded QueueIndividualFileBytes (pl_maximum_file_bytes limits) u64_max)
       (checked_add_u64 (length copied) (length chunk))) (\<lambda>file_bytes.
       if file_bytes > pl_maximum_file_bytes limits
       then Inl (QueueLimitExceeded QueueIndividualFileBytes (pl_maximum_file_bytes limits) file_bytes)
       else
     attempt (ok_or (QueueLimitExceeded QueueTotalBytes (pl_maximum_total_bytes limits) u64_max)
       (checked_add_u64 written_bytes file_bytes)) (\<lambda>total_bytes.
       if total_bytes > pl_maximum_total_bytes limits
       then Inl (QueueLimitExceeded QueueTotalBytes (pl_maximum_total_bytes limits) total_bytes)
       else copy_chunks limits written_bytes rest (copied @ chunk))))"

definition next_counts ::
  "package_limits \<Rightarrow> nat \<Rightarrow> nat \<Rightarrow> queue_error + nat" where
  "next_counts limits directory_count written_files =
     attempt (ok_or (QueueLimitExceeded QueueFileCount (pl_maximum_file_count limits) u64_max)
       (checked_add_u64 written_files 1)) (\<lambda>next_file_count.
       if next_file_count > pl_maximum_file_count limits
       then Inl (QueueLimitExceeded QueueFileCount (pl_maximum_file_count limits) next_file_count)
       else
     attempt (ok_or (QueueLimitExceeded QueueEntryCount (pl_maximum_entry_count limits) u64_max)
       (checked_add_u64 directory_count next_file_count)) (\<lambda>next_entry_count.
       if next_entry_count > pl_maximum_entry_count limits
       then Inl (QueueLimitExceeded QueueEntryCount (pl_maximum_entry_count limits) next_entry_count)
       else Inr next_file_count))"

text \<open>The package handle is changed in place: each operation gives its result, the handle and the
  tree it leaves.\<close>

type_synonym incoming_step = "fs \<Rightarrow> (queue_error + unit) \<times> incoming_package \<times> fs"

definition incoming_write_file ::
  "file_queue \<Rightarrow> incoming_package \<Rightarrow> path \<Rightarrow> (io_error + string) list \<Rightarrow> incoming_step" where
  "incoming_write_file queue package destination source fs =
     (let limits = pp_limits (fq_policy queue) in
      case andthen (observe (\<lambda>_. next_counts limits (length (ip_written_directories package))
             (ip_written_files package))) (\<lambda>next_file_count.
           andthen (perform QueueIo (create_new destination [])) (\<lambda>_.
           andthen (or_cleanup (ignoring (remove_file destination))
             (observe (\<lambda>_. copy_chunks limits (ip_written_bytes package) source []))) (\<lambda>copied.
           andthen (perform QueueIo (Filesystem.write_file destination copied)) (\<lambda>_.
             finish (next_file_count, copied))))) fs of
        (Inl e, fs') \<Rightarrow> (Inl e, package, fs')
      | (Inr (next_file_count, copied), fs') \<Rightarrow>
          (Inr (), package\<lparr>ip_written_files := next_file_count,
             ip_written_bytes := ip_written_bytes package + length copied\<rparr>, fs'))"

definition write_request ::
  "file_queue \<Rightarrow> incoming_package \<Rightarrow> (io_error + string) list \<Rightarrow> incoming_step" where
  "write_request queue package source fs =
     (if ip_request_written package then (Inl RequestAlreadyWritten, package, fs)
      else case incoming_write_file queue package (ip_staging_path package @ [REQUEST_FILE_NAME]) source fs of
             (Inl e, package, fs') \<Rightarrow> (Inl e, package, fs')
           | (Inr _, package, fs') \<Rightarrow> (Inr (), package\<lparr>ip_request_written := True\<rparr>, fs'))"

text \<open>What \<open>add_payload\<close> checks before it touches the tree, with the parent directories of the
  new file.\<close>

definition payload_parents :: "string list \<Rightarrow> string list" where
  "payload_parents components =
     map (\<lambda>i. join_with (CHR ''/'') (take (i + 1) components)) [0..<length components - 1]"

definition check_new_payload ::
  "package_limits \<Rightarrow> incoming_package \<Rightarrow> payload_path \<Rightarrow> queue_error + string list" where
  "check_new_payload limits package path =
     (let components = split_on (CHR ''/'') (payload_str path);
          parents = payload_parents components;
          new_directories = length (filter (\<lambda>p. p \<notin> set (ip_written_directories package)) parents) in
      if path \<in> set (ip_written_payload package) then Inl (PayloadAlreadyWritten path)
      else if length components > pl_maximum_path_components limits
        then Inl (QueueLimitExceeded QueuePathComponents (pl_maximum_path_components limits)
               (length components))
      else if list_ex (\<lambda>parent. parent \<in> payload_str ` set (ip_written_payload package)) parents
        then Inl (PayloadPrefixCollision path)
      else if payload_str path \<in> set (ip_written_directories package)
        then Inl (PayloadPrefixCollision path)
      else
     attempt (ok_or (QueueLimitExceeded QueueDirectoryCount (pl_maximum_directory_count limits) u64_max)
       (checked_add_u64 (length (ip_written_directories package)) new_directories)) (\<lambda>directory_count.
       if directory_count > pl_maximum_directory_count limits
       then Inl (QueueLimitExceeded QueueDirectoryCount (pl_maximum_directory_count limits) directory_count)
       else attempt (next_counts limits directory_count (ip_written_files package)) (\<lambda>_. Inr parents)))"

definition add_payload ::
  "file_queue \<Rightarrow> incoming_package \<Rightarrow> payload_path \<Rightarrow> (io_error + string) list \<Rightarrow> incoming_step" where
  "add_payload queue package path source fs =
     (let destination = ip_staging_path package @ [PAYLOAD_DIRECTORY_NAME] @
            split_on (CHR ''/'') (payload_str path) in
      case check_new_payload (pp_limits (fq_policy queue)) package path of
        Inl e \<Rightarrow> (Inl e, package, fs)
      | Inr parents \<Rightarrow>
          (case create_dir_all (butlast destination) fs of
             Inl e \<Rightarrow> (Inl (QueueIo e), package, fs)
           | Inr fs \<Rightarrow>
               let package = package\<lparr>ip_written_directories := ip_written_directories package @
                     filter (\<lambda>p. p \<notin> set (ip_written_directories package)) parents\<rparr> in
               (case incoming_write_file queue package destination source fs of
                  (Inl e, package, fs') \<Rightarrow> (Inl e, package, fs')
                | (Inr _, package, fs') \<Rightarrow>
                    (Inr (), package\<lparr>ip_written_payload := ip_written_payload package @ [path]\<rparr>, fs'))))"

text \<open>\<open>Drop for IncomingPackage\<close> of a package that was not promoted.\<close>

definition drop_incoming :: "path \<Rightarrow> fs \<Rightarrow> fs" where
  "drop_incoming staging_path = ignoring (remove_dir_all staging_path)"

section \<open>Accepting a package\<close>

datatype acceptance_phase =
    PackageSynchronized | AcceptanceMetadataSynchronized | Renamed | QueueDirectoriesSynchronized
  | ExistingQueueDirectoriesSynchronized

text \<open>Where an accepting operation asks whether it is still active.\<close>

datatype accept_point = AcceptStart | InValidation check_point | InSync nat

type_synonym accept_deadline = "(accept_point \<Rightarrow> bool) option"

definition validation_deadline :: "accept_deadline \<Rightarrow> deadline" where
  "validation_deadline deadline = map_option (\<lambda>active point. active (InValidation point)) deadline"

definition queue_operation_active :: "accept_deadline \<Rightarrow> accept_point \<Rightarrow> queue_error + unit" where
  "queue_operation_active deadline point =
     (case deadline of
        None \<Rightarrow> Inr ()
      | Some active \<Rightarrow> if active point then Inr () else Inl OperationDeadlineExceeded)"

definition write_digest_file :: "path \<Rightarrow> package_digest \<Rightarrow> (queue_error, unit) action" where
  "write_digest_file package_root digest =
     perform QueueIo (create_new (package_root @ [DIGEST_FILE_NAME])
       ((case digest of PackageDigest r \<Rightarrow> display_revision r) @ [lf]))"

text \<open>The file is created before the encoder runs, so an encoding error leaves it empty.\<close>

definition write_acceptance_file ::
  "('a queue_externals_scheme) \<Rightarrow> path \<Rightarrow> acceptance_metadata \<Rightarrow> (queue_error, unit) action" where
  "write_acceptance_file qx package_root acceptance =
     (let p = package_root @ [ACCEPTANCE_FILE_NAME] in
     andthen (perform QueueIo (create_new p [])) (\<lambda>_.
     andthen (observe (\<lambda>_. map_err AcceptanceMetadataError (qx_acceptance_to_json qx acceptance))) (\<lambda>json.
       perform QueueIo (Filesystem.write_file p (json @ [lf])))))"

text \<open>The paths \<open>sync_package\<close> synchronizes, deepest directories first.\<close>

definition package_sync_paths :: "path \<Rightarrow> validated_package \<Rightarrow> path list" where
  "package_sync_paths package_root package =
     (let payload_root = package_root @ [PAYLOAD_DIRECTORY_NAME];
          payload = map (\<lambda>m. payload_root @ split_on (CHR ''/'') (payload_str (pm_path m))) (vp_payload package);
          directories = remdups (payload_root # concat (map (\<lambda>p.
            filter (\<lambda>d. prefix payload_root d) (strict_prefixes p)) payload)) in
      [package_root @ [REQUEST_FILE_NAME], package_root @ [DIGEST_FILE_NAME]] @ payload @
      sort_key (\<lambda>d. - int (length d)) directories @ [package_root])"

definition sync_package ::
  "path \<Rightarrow> validated_package \<Rightarrow> accept_deadline \<Rightarrow> fs \<Rightarrow> queue_error + unit" where
  "sync_package package_root package deadline fs =
     try_each (\<lambda>(k, p). attempt (queue_operation_active deadline (InSync k)) (\<lambda>_. sync_path p fs))
       (List.enumerate 0 (package_sync_paths package_root package))"

text \<open>The package that is already there under the request identifier.\<close>

definition existing_outcome ::
  "('a queue_externals_scheme) \<Rightarrow> file_queue \<Rightarrow> (acceptance_phase \<Rightarrow> io_error + unit) \<Rightarrow>
   request_id \<Rightarrow> package_digest \<Rightarrow> queue_state \<Rightarrow> fs \<Rightarrow> queue_error + enqueue_outcome" where
  "existing_outcome qx queue hook request_id digest state fs =
     attempt (map_err (\<lambda>e. case e of
         PackageIo io \<Rightarrow> QueueIo io
       | _ \<Rightarrow> QueueCorruptState request_id state ''accepted package failed immutable revalidation'')
       (validate_accepted_package (qx_base qx) (subtree (state_path qx state request_id) fs) (fq_policy queue)))
       (\<lambda>existing.
       if cr_request_id (vp_request existing) \<noteq> request_id
       then Inl (QueueCorruptState request_id state
              ''accepted package identity does not match its queue entry'')
       else if vp_digest existing = digest then
         attempt (sync_path [''incoming''] fs) (\<lambda>_.
         attempt (try_each (\<lambda>s. sync_path (state_root s) fs) queue_states) (\<lambda>_.
         attempt (map_err QueueIo (hook ExistingQueueDirectoriesSynchronized)) (\<lambda>_.
         attempt (current_identity_locked queue fs) (\<lambda>_.
           Inr (Existing request_id digest state)))))
       else Inl (QueueRequestIdReused request_id state))"

text \<open>Everything up to the rename into \<open>pending\<close>: an outcome for a request that exists, or the
  identifier and digest of the package that was moved.\<close>

definition accept_stage ::
  "('a queue_externals_scheme) \<Rightarrow> file_queue \<Rightarrow> accept_deadline \<Rightarrow> queue_error + unit \<Rightarrow>
   (acceptance_phase \<Rightarrow> io_error + unit) \<Rightarrow> client_id option \<Rightarrow> offset_datetime \<Rightarrow> ulid \<Rightarrow> path \<Rightarrow>
   (queue_error, enqueue_outcome + request_id \<times> package_digest) action" where
  "accept_stage qx queue deadline locked hook client_id now fresh staging_path =
     andthen (observe (\<lambda>_. queue_operation_active deadline AcceptStart)) (\<lambda>_.
     andthen (observe (\<lambda>fs. map_err QueuePackage (validate_package_until (qx_base qx)
       (subtree staging_path fs) (fq_policy queue) (validation_deadline deadline)))) (\<lambda>validated.
     andthen (write_digest_file staging_path (vp_digest validated)) (\<lambda>_.
     andthen (observe (sync_package staging_path validated deadline)) (\<lambda>_.
     andthen (observe (\<lambda>_. map_err QueueIo (hook PackageSynchronized))) (\<lambda>_.
     andthen (observe (\<lambda>_. locked)) (\<lambda>_.
     andthen (observe (current_identity_locked queue)) (\<lambda>_.
       let request_id = cr_request_id (vp_request validated); digest = vp_digest validated in
     andthen (observe (find_existing qx request_id)) (\<lambda>existing.
       case existing of
         Some (state, _) \<Rightarrow>
           andthen (observe (existing_outcome qx queue hook request_id digest state)) (\<lambda>outcome.
             finish (Inl outcome))
       | None \<Rightarrow>
     andthen (allocate_sequence qx fresh) (\<lambda>sequence.
     andthen (reject_if (sequence = 0) InvalidSequenceState) (\<lambda>_.
     andthen (write_acceptance_file qx staging_path
       \<lparr>am_sequence = sequence, am_accepted_at = now, am_client_id = client_id\<rparr>) (\<lambda>_.
     andthen (observe (sync_path (staging_path @ [ACCEPTANCE_FILE_NAME]))) (\<lambda>_.
     andthen (observe (sync_path staging_path)) (\<lambda>_.
     andthen (observe (\<lambda>_. map_err QueueIo (hook AcceptanceMetadataSynchronized))) (\<lambda>_.
     andthen (observe (current_identity_locked queue)) (\<lambda>_.
     andthen (perform QueueIo (rename staging_path (state_path qx Pending request_id))) (\<lambda>_.
       finish (Inr (request_id, digest))))))))))))))))))"

definition accept_promoted ::
  "file_queue \<Rightarrow> (acceptance_phase \<Rightarrow> io_error + unit) \<Rightarrow> request_id \<Rightarrow> package_digest \<Rightarrow> fs \<Rightarrow>
   queue_error + enqueue_outcome" where
  "accept_promoted queue hook request_id digest fs =
     attempt (map_err QueueIo (hook Renamed)) (\<lambda>_.
     attempt (sync_path (state_root Pending) fs) (\<lambda>_.
     attempt (sync_path [''incoming''] fs) (\<lambda>_.
     attempt (map_err QueueIo (hook QueueDirectoriesSynchronized)) (\<lambda>_.
     attempt (current_identity_locked queue fs) (\<lambda>_.
       Inr (Accepted request_id digest))))))"

definition accept_with_hook_until ::
  "('a queue_externals_scheme) \<Rightarrow> file_queue \<Rightarrow> accept_deadline \<Rightarrow> queue_error + unit \<Rightarrow>
   (acceptance_phase \<Rightarrow> io_error + unit) \<Rightarrow> client_id option \<Rightarrow> offset_datetime \<Rightarrow> ulid \<Rightarrow> path \<Rightarrow>
   (queue_error, enqueue_outcome) action" where
  "accept_with_hook_until qx queue deadline locked hook client_id now fresh staging_path fs =
     (case accept_stage qx queue deadline locked hook client_id now fresh staging_path fs of
        (Inl e, fs') \<Rightarrow> (Inl e, drop_incoming staging_path fs')
      | (Inr (Inl outcome), fs') \<Rightarrow> (Inr outcome, drop_incoming staging_path fs')
      | (Inr (Inr (request_id, digest)), fs') \<Rightarrow>
          (accept_promoted queue hook request_id digest fs', fs'))"

definition accept_with_hook ::
  "('a queue_externals_scheme) \<Rightarrow> file_queue \<Rightarrow> queue_error + unit \<Rightarrow> (acceptance_phase \<Rightarrow> io_error + unit) \<Rightarrow>
   client_id option \<Rightarrow> offset_datetime \<Rightarrow> ulid \<Rightarrow> path \<Rightarrow> (queue_error, enqueue_outcome) action" where
  "accept_with_hook qx queue locked hook client_id now fresh =
     accept_with_hook_until qx queue None locked hook client_id now fresh"

text \<open>The entry points: \<open>NoopAcceptanceHook\<close> never fails.\<close>

definition accept_package ::
  "('a queue_externals_scheme) \<Rightarrow> file_queue \<Rightarrow> queue_error + unit \<Rightarrow> offset_datetime \<Rightarrow> ulid \<Rightarrow> path \<Rightarrow>
   (queue_error, enqueue_outcome) action" where
  "accept_package qx queue locked now fresh =
     accept_with_hook qx queue locked (\<lambda>_. Inr ()) None now fresh"

definition accept_for ::
  "('a queue_externals_scheme) \<Rightarrow> file_queue \<Rightarrow> client_id \<Rightarrow> queue_error + unit \<Rightarrow> offset_datetime \<Rightarrow> ulid \<Rightarrow>
   path \<Rightarrow> (queue_error, enqueue_outcome) action" where
  "accept_for qx queue client_id locked now fresh =
     accept_with_hook qx queue locked (\<lambda>_. Inr ()) (Some client_id) now fresh"

definition accept_for_until ::
  "('a queue_externals_scheme) \<Rightarrow> file_queue \<Rightarrow> client_id \<Rightarrow> accept_deadline \<Rightarrow> queue_error + unit \<Rightarrow>
   offset_datetime \<Rightarrow> ulid \<Rightarrow> path \<Rightarrow> (queue_error, enqueue_outcome) action" where
  "accept_for_until qx queue client_id deadline locked now fresh =
     accept_with_hook_until qx queue deadline locked (\<lambda>_. Inr ()) (Some client_id) now fresh"

end
