(* ===== verification/Queue_Worker.thy ===== *)
theory Queue_Worker
  imports Queue_Storage
begin

text \<open>
  \<open>crates/queue/src/file_queue/worker.rs\<close> and its submodules: what the Repository Worker does
  with accepted requests. A claim writes the ownership record \<open>phase.json\<close> into the package and
  moves it to \<open>processing\<close>; the claim token of the record is checked by every later
  transition. Each transition runs under the queue lock and is one action; preparing a claim runs
  outside the lock and is an action of its own.
\<close>

section \<open>Records and errors\<close>

definition MAXIMUM_PHASE_FILE_BYTES :: nat where "MAXIMUM_PHASE_FILE_BYTES = 1024"
definition MAXIMUM_RESULT_FILE_BYTES :: nat where "MAXIMUM_RESULT_FILE_BYTES = 1024"
definition CURRENT_WORKER_PHASE_SCHEMA_VERSION :: nat where "CURRENT_WORKER_PHASE_SCHEMA_VERSION = 1"
definition CURRENT_WORKER_RESULT_SCHEMA_VERSION :: nat where "CURRENT_WORKER_RESULT_SCHEMA_VERSION = 1"

datatype worker_phase = Claimed

record worker_phase_record =
  wp_schema_version :: nat
  wp_request_id :: request_id
  wp_batch_id :: batch_id
  wp_attempt :: nat
  wp_phase :: worker_phase
  wp_updated_at :: offset_datetime

datatype worker_result_status = ResultFailed

record worker_result_record =
  wr_schema_version :: nat
  wr_request_id :: request_id
  wr_batch_id :: batch_id
  wr_status :: worker_result_status
  wr_error_code :: error_code
  wr_failed_at :: offset_datetime

record claim_token =
  ct_request_id :: request_id
  ct_batch_id :: batch_id
  ct_attempt :: nat

record claimed_package =
  cp_token :: claim_token
  cp_package :: validated_package
  cp_package_root :: path

datatype worker_queue_error =
    WorkerQueue queue_error
  | WorkerIo io_error
  | PhaseEncoding string
  | ResultEncoding string
  | InvalidPhaseMetadata string
  | InvalidResultMetadata string
  | WorkerAlreadyRunning
  | InvalidBatchLimits
  | BatchScanChanged batch_id
  | BatchScanFailed nat worker_queue_error
  | BatchScanInProgress batch_id
  | PendingObservationScanInProgress
  | InvalidBatchSnapshot
  | ProcessingScanInProgress
  | ProcessingRecoveryRequired
  | InvalidProcessingScanLimit
  | InvalidPendingEntry path string
  | InvalidProcessingEntry path string
  | WorkerRequestNotFound request_id
  | InvalidState request_id queue_state queue_state
  | CorruptPackage request_id queue_state package_validation_error
  | WorkerCorruptState request_id queue_state string
  | AttemptExhausted request_id
  | ClaimChanged request_id
  | InvalidReconciliation

fun worker_error_code :: "worker_queue_error \<Rightarrow> error_code" where
  "worker_error_code (BatchScanFailed _ source) = worker_error_code source"
| "worker_error_code (WorkerQueue e) = queue_error_code e"
| "worker_error_code (WorkerIo _) = TemporaryFailure"
| "worker_error_code WorkerAlreadyRunning = TemporaryFailure"
| "worker_error_code (CorruptPackage _ _ _) = ContentValidationFailed"
| "worker_error_code (WorkerCorruptState _ _ _) = ContentValidationFailed"
| "worker_error_code (InvalidPendingEntry _ _) = ContentValidationFailed"
| "worker_error_code (InvalidProcessingEntry _ _) = ContentValidationFailed"
| "worker_error_code (InvalidPhaseMetadata _) = ContentValidationFailed"
| "worker_error_code (InvalidResultMetadata _) = ContentValidationFailed"
| "worker_error_code (PhaseEncoding _) = InternalError"
| "worker_error_code (ResultEncoding _) = InternalError"
| "worker_error_code (AttemptExhausted _) = InternalError"
| "worker_error_code _ = InvalidRequest"

fun failed_requests :: "worker_queue_error \<Rightarrow> nat" where
  "failed_requests (BatchScanFailed n _) = n"
| "failed_requests _ = 0"

record worker_externals = queue_externals +
  wx_phase_from_json :: "string \<Rightarrow> string + worker_phase_record"
  wx_phase_to_json :: "worker_phase_record \<Rightarrow> string + string"
  wx_result_from_json :: "string \<Rightarrow> string + worker_result_record"
  wx_result_to_json :: "worker_result_record \<Rightarrow> string + string"

section \<open>Phase records\<close>

definition read_phase_record ::
  "worker_externals \<Rightarrow> path \<Rightarrow> request_id \<Rightarrow> queue_state \<Rightarrow> fs \<Rightarrow> worker_queue_error + worker_phase_record" where
  "read_phase_record wx p request_id state fs =
     attempt (map_err WorkerIo (read_file fs p)) (\<lambda>contents.
       let bytes = take (MAXIMUM_PHASE_FILE_BYTES + 1) contents in
       if length bytes > MAXIMUM_PHASE_FILE_BYTES
       then Inl (WorkerCorruptState request_id state ''phase metadata exceeds its byte limit'')
       else
     attempt (map_err InvalidPhaseMetadata (wx_phase_from_json wx bytes)) (\<lambda>record.
       if wp_schema_version record \<noteq> CURRENT_WORKER_PHASE_SCHEMA_VERSION
       then Inl (WorkerCorruptState request_id state ''phase metadata has an unsupported schema version'')
       else if wp_request_id record \<noteq> request_id
       then Inl (WorkerCorruptState request_id state ''phase metadata names a different request'')
       else Inr record))"

definition read_optional_phase_record ::
  "worker_externals \<Rightarrow> path \<Rightarrow> request_id \<Rightarrow> queue_state \<Rightarrow> fs \<Rightarrow>
   worker_queue_error + worker_phase_record option" where
  "read_optional_phase_record wx package_root request_id state fs =
     (let p = package_root @ [PHASE_FILE_NAME] in
      case symlink_metadata fs p of
        Inr (File _ _ _) \<Rightarrow> attempt (read_phase_record wx p request_id state fs) (\<lambda>r. Inr (Some r))
      | Inr _ \<Rightarrow> Inl (WorkerCorruptState request_id state ''phase metadata is not a regular file'')
      | Inl e \<Rightarrow> if e = NotFound then Inr None else Inl (WorkerIo e))"

definition read_required_phase_record ::
  "worker_externals \<Rightarrow> path \<Rightarrow> request_id \<Rightarrow> queue_state \<Rightarrow> fs \<Rightarrow>
   worker_queue_error + worker_phase_record" where
  "read_required_phase_record wx package_root request_id state fs =
     attempt (read_optional_phase_record wx package_root request_id state fs) (\<lambda>record.
       ok_or (WorkerCorruptState request_id state ''processing package is missing phase metadata'') record)"

definition next_attempt ::
  "worker_externals \<Rightarrow> path \<Rightarrow> request_id \<Rightarrow> queue_state \<Rightarrow> fs \<Rightarrow> worker_queue_error + nat" where
  "next_attempt wx package_root request_id state fs =
     attempt (read_optional_phase_record wx package_root request_id state fs) (\<lambda>record.
       ok_or (AttemptExhausted request_id)
         (checked_add_u32 (case record of None \<Rightarrow> 0 | Some r \<Rightarrow> wp_attempt r) 1))"

text \<open>A sidecar file: written below \<open>worker-tmp\<close>, then renamed into the package.\<close>

definition write_sidecar ::
  "path \<Rightarrow> path \<Rightarrow> path \<Rightarrow> worker_queue_error + string \<Rightarrow> worker_queue_error \<Rightarrow>
   (worker_queue_error, unit) action" where
  "write_sidecar package_root destination temporary_path encoded not_regular =
     andthen (observe (\<lambda>fs. case symlink_metadata fs destination of
         Inr (File _ _ _) \<Rightarrow> Inr ()
       | Inr _ \<Rightarrow> Inl not_regular
       | Inl e \<Rightarrow> if e = NotFound then Inr () else Inl (WorkerIo e))) (\<lambda>_.
     or_cleanup (ignoring (remove_file temporary_path))
      (andthen (perform WorkerIo (create_new temporary_path [])) (\<lambda>_.
       andthen (observe (\<lambda>_. encoded)) (\<lambda>json.
       andthen (perform WorkerIo (Filesystem.write_file temporary_path (json @ [lf]))) (\<lambda>_.
       andthen (perform WorkerIo (rename temporary_path destination)) (\<lambda>_.
       andthen (observe (\<lambda>fs. map_err WorkerQueue (sync_path package_root fs))) (\<lambda>_.
         observe (\<lambda>fs. map_err WorkerQueue (sync_path worker_temporary_root fs)))))))))"

definition write_phase_record ::
  "worker_externals \<Rightarrow> ulid \<Rightarrow> path \<Rightarrow> worker_phase_record \<Rightarrow> (worker_queue_error, unit) action" where
  "write_phase_record wx fresh package_root record =
     write_sidecar package_root (package_root @ [PHASE_FILE_NAME])
       (worker_temporary_root @ [''.phase-'' @ show_ulid wx fresh])
       (map_err PhaseEncoding (wx_phase_to_json wx record))
       (WorkerCorruptState (wp_request_id record) Pending ''phase metadata is not a regular file'')"

definition write_result_record ::
  "worker_externals \<Rightarrow> ulid \<Rightarrow> path \<Rightarrow> worker_result_record \<Rightarrow> (worker_queue_error, unit) action" where
  "write_result_record wx fresh package_root record =
     write_sidecar package_root (package_root @ [RESULT_FILE_NAME])
       (worker_temporary_root @ [''.result-'' @ show_ulid wx fresh])
       (map_err ResultEncoding (wx_result_to_json wx record))
       (WorkerCorruptState (wr_request_id record) Pending ''result metadata is not a regular file'')"

section \<open>Claiming and requeueing\<close>

datatype claim_phase = ClaimPhaseSynchronized | ClaimRenamed | ClaimDirectoriesSynchronized

definition ensure_pending_locked ::
  "worker_externals \<Rightarrow> request_id \<Rightarrow> fs \<Rightarrow> worker_queue_error + package_digest" where
  "ensure_pending_locked wx request_id fs =
     attempt (map_err WorkerQueue (find_existing wx request_id fs)) (\<lambda>existing.
       case existing of
         None \<Rightarrow> Inl (WorkerRequestNotFound request_id)
       | Some (state, digest) \<Rightarrow>
           if state \<noteq> Pending then Inl (InvalidState request_id Pending state) else Inr digest)"

definition revalidate_accepted ::
  "worker_externals \<Rightarrow> file_queue \<Rightarrow> path \<Rightarrow> request_id \<Rightarrow> queue_state \<Rightarrow> fs \<Rightarrow>
   worker_queue_error + validated_package" where
  "revalidate_accepted wx queue package_root request_id state fs =
     map_err (\<lambda>e. case e of PackageIo io \<Rightarrow> WorkerIo io | _ \<Rightarrow> CorruptPackage request_id state e)
       (validate_accepted_package (qx_base wx) (subtree package_root fs) (fq_policy queue))"

definition prepare_claim ::
  "worker_externals \<Rightarrow> file_queue \<Rightarrow> request_id \<Rightarrow> fs \<Rightarrow> worker_queue_error + validated_package" where
  "prepare_claim wx queue request_id fs =
     (let pending_path = state_path wx Pending request_id in
     attempt (revalidate_accepted wx queue pending_path request_id Pending fs) (\<lambda>package.
       if cr_request_id (vp_request package) \<noteq> request_id
       then Inl (WorkerCorruptState request_id Pending
              ''accepted package identity does not match its queue entry'')
       else attempt (next_attempt wx pending_path request_id Pending fs) (\<lambda>_. Inr package)))"

abbreviation identity_check :: "file_queue \<Rightarrow> (worker_queue_error, revision) action" where
  "identity_check queue \<equiv> observe (\<lambda>fs. map_err WorkerQueue (current_identity_locked queue fs))"

definition sync_states :: "queue_state \<Rightarrow> queue_state \<Rightarrow> (worker_queue_error, unit) action" where
  "sync_states first second =
     andthen (observe (\<lambda>fs. map_err WorkerQueue (sync_path (state_root first) fs))) (\<lambda>_.
       observe (\<lambda>fs. map_err WorkerQueue (sync_path (state_root second) fs)))"

definition claim_prepared_with_hook ::
  "worker_externals \<Rightarrow> file_queue \<Rightarrow> (claim_phase \<Rightarrow> io_error + unit) \<Rightarrow> offset_datetime \<Rightarrow> ulid \<Rightarrow>
   request_id \<Rightarrow> batch_id \<Rightarrow> validated_package \<Rightarrow> (worker_queue_error, claimed_package) action" where
  "claim_prepared_with_hook wx queue hook now fresh request_id batch_id prepared =
     (let pending_path = state_path wx Pending request_id;
          processing_path = state_path wx Processing request_id in
     andthen (identity_check queue) (\<lambda>_.
     andthen (observe (ensure_pending_locked wx request_id)) (\<lambda>stored_digest.
     andthen (reject_if (stored_digest \<noteq> vp_digest prepared) (WorkerCorruptState request_id Pending
       ''accepted package changed after Worker validation'')) (\<lambda>_.
     andthen (observe (next_attempt wx pending_path request_id Pending)) (\<lambda>attempt_number.
     andthen (write_phase_record wx fresh pending_path
       \<lparr>wp_schema_version = CURRENT_WORKER_PHASE_SCHEMA_VERSION, wp_request_id = request_id,
        wp_batch_id = batch_id, wp_attempt = attempt_number, wp_phase = Claimed, wp_updated_at = now\<rparr>) (\<lambda>_.
     andthen (observe (\<lambda>_. map_err WorkerIo (hook ClaimPhaseSynchronized))) (\<lambda>_.
     andthen (identity_check queue) (\<lambda>_.
     andthen (perform WorkerIo (rename pending_path processing_path)) (\<lambda>_.
     andthen (observe (\<lambda>_. map_err WorkerIo (hook ClaimRenamed))) (\<lambda>_.
     andthen (sync_states Processing Pending) (\<lambda>_.
     andthen (observe (\<lambda>_. map_err WorkerIo (hook ClaimDirectoriesSynchronized))) (\<lambda>_.
     andthen (identity_check queue) (\<lambda>_.
       finish \<lparr>cp_token = \<lparr>ct_request_id = request_id, ct_batch_id = batch_id, ct_attempt = attempt_number\<rparr>,
               cp_package = prepared, cp_package_root = processing_path\<rparr>)))))))))))))"

text \<open>The three parts of a claim: between them the queue lock is free.\<close>

definition claim_with_hook ::
  "worker_externals \<Rightarrow> file_queue \<Rightarrow> (claim_phase \<Rightarrow> io_error + unit) \<Rightarrow> offset_datetime \<Rightarrow> ulid \<Rightarrow>
   request_id \<Rightarrow> batch_id \<Rightarrow> (worker_queue_error, claimed_package) action" where
  "claim_with_hook wx queue hook now fresh request_id batch_id =
     andthen (identity_check queue) (\<lambda>_.
     andthen (observe (ensure_pending_locked wx request_id)) (\<lambda>_.
     andthen (observe (\<lambda>fs. case prepare_claim wx queue request_id fs of
         Inr prepared \<Rightarrow> Inr prepared
       | Inl e \<Rightarrow>
           attempt (map_err WorkerQueue (current_identity_locked queue fs)) (\<lambda>_.
           attempt (ensure_pending_locked wx request_id fs) (\<lambda>_. Inl e)))) (\<lambda>prepared.
       claim_prepared_with_hook wx queue hook now fresh request_id batch_id prepared)))"

definition check_claim_record ::
  "worker_externals \<Rightarrow> path \<Rightarrow> claim_token \<Rightarrow> queue_state \<Rightarrow> fs \<Rightarrow> worker_queue_error + unit" where
  "check_claim_record wx package_root token state fs =
     attempt (read_required_phase_record wx package_root (ct_request_id token) state fs) (\<lambda>record.
       if wp_batch_id record \<noteq> ct_batch_id token \<or> wp_attempt record \<noteq> ct_attempt token \<or>
          wp_phase record \<noteq> Claimed
       then Inl (ClaimChanged (ct_request_id token)) else Inr ())"

definition requeue_claimed ::
  "worker_externals \<Rightarrow> file_queue \<Rightarrow> claim_token \<Rightarrow> (worker_queue_error, unit) action" where
  "requeue_claimed wx queue token =
     (let request_id = ct_request_id token;
          processing_path = state_path wx Processing request_id in
     andthen (identity_check queue) (\<lambda>_.
     andthen (observe (\<lambda>fs. map_err WorkerQueue (find_existing wx request_id fs))) (\<lambda>existing.
       case existing of
         None \<Rightarrow> observe (\<lambda>_. Inl (WorkerRequestNotFound request_id))
       | Some (state, _) \<Rightarrow>
     andthen (reject_if (state \<noteq> Processing) (InvalidState request_id Processing state)) (\<lambda>_.
     andthen (observe (check_claim_record wx processing_path token state)) (\<lambda>_.
     andthen (identity_check queue) (\<lambda>_.
     andthen (perform WorkerIo (rename processing_path (state_path wx Pending request_id))) (\<lambda>_.
     andthen (sync_states Pending Processing) (\<lambda>_.
     andthen (identity_check queue) (\<lambda>_. finish ())))))))))"

definition queue_validate_claimed ::
  "worker_externals \<Rightarrow> file_queue \<Rightarrow> claimed_package \<Rightarrow> fs \<Rightarrow> worker_queue_error + unit" where
  "queue_validate_claimed wx queue claim fs =
     (let token = cp_token claim; request_id = ct_request_id token;
          processing_path = state_path wx Processing request_id in
     attempt (map_err WorkerQueue (current_identity_locked queue fs)) (\<lambda>_.
       if cp_package_root claim \<noteq> processing_path then Inl (ClaimChanged request_id)
       else
     attempt (map_err WorkerQueue (find_existing wx request_id fs)) (\<lambda>existing.
       case existing of
         None \<Rightarrow> Inl (WorkerRequestNotFound request_id)
       | Some (state, digest) \<Rightarrow>
           if state \<noteq> Processing then Inl (InvalidState request_id Processing state)
           else attempt (check_claim_record wx processing_path token state fs) (\<lambda>_.
             if digest \<noteq> vp_digest (cp_package claim) then Inl (ClaimChanged request_id) else Inr ()))))"

end
