(* ===== verification/Queue_Session.thy ===== *)
theory Queue_Session
  imports Queue_Worker "HOL-Library.Product_Lexorder"
begin

text \<open>
  The terminal transitions (\<open>worker/result.rs\<close>) and the scans of one Worker session
  (\<open>worker/batch.rs\<close>, \<open>worker/pending.rs\<close>, \<open>worker/recovery.rs\<close>). An open directory
  scan is the list of names it has still to give. A binary heap of candidates is its ascending
  list: the greatest candidate, which \<open>pop\<close> removes, is the last.
\<close>

section \<open>Terminal transitions\<close>

definition find_existing_state_in ::
  "worker_externals \<Rightarrow> fs \<Rightarrow> request_id \<Rightarrow> queue_state \<Rightarrow> queue_state option \<Rightarrow>
   worker_queue_error + queue_state option" where
  "find_existing_state_in wx fs request_id state existing =
     (case symlink_metadata fs (state_path wx state request_id) of
        Inr metadata \<Rightarrow>
          if metadata \<noteq> Dir
            then Inl (WorkerCorruptState request_id state ''request entry is not a directory'')
          else if existing \<noteq> None then Inl (WorkerQueue (RequestInMultipleStates request_id))
          else Inr (Some state)
      | Inl e \<Rightarrow> if e = NotFound then Inr existing else Inl (WorkerIo e))"

definition find_existing_state_without_package_read ::
  "worker_externals \<Rightarrow> request_id \<Rightarrow> fs \<Rightarrow> worker_queue_error + queue_state option" where
  "find_existing_state_without_package_read wx request_id fs =
     try_fold (find_existing_state_in wx fs request_id) queue_states None"

definition ensure_result_absent ::
  "path \<Rightarrow> request_id \<Rightarrow> queue_state \<Rightarrow> fs \<Rightarrow> worker_queue_error + unit" where
  "ensure_result_absent package_root request_id state fs =
     (case symlink_metadata fs (package_root @ [RESULT_FILE_NAME]) of
        Inl e \<Rightarrow> if e = NotFound then Inr () else Inl (WorkerIo e)
      | Inr _ \<Rightarrow> Inl (WorkerCorruptState request_id state
          ''successful request contains failure result metadata''))"

definition validate_result_record ::
  "worker_externals \<Rightarrow> path \<Rightarrow> claim_token \<Rightarrow> error_code \<Rightarrow> queue_state \<Rightarrow> fs \<Rightarrow> worker_queue_error + unit" where
  "validate_result_record wx package_root token error_code state fs =
     (let p = package_root @ [RESULT_FILE_NAME]; request_id = ct_request_id token in
     attempt (map_err WorkerIo (symlink_metadata fs p)) (\<lambda>metadata.
       case metadata of
         File bytes _ _ \<Rightarrow>
           if length bytes > MAXIMUM_RESULT_FILE_BYTES
           then Inl (WorkerCorruptState request_id state ''result metadata is not a bounded regular file'')
           else attempt (map_err InvalidResultMetadata
               (wx_result_from_json wx (take (MAXIMUM_RESULT_FILE_BYTES + 1) bytes))) (\<lambda>record.
             if wr_schema_version record \<noteq> CURRENT_WORKER_RESULT_SCHEMA_VERSION \<or>
                wr_request_id record \<noteq> request_id \<or> wr_batch_id record \<noteq> ct_batch_id token \<or>
                wr_status record \<noteq> ResultFailed \<or> wr_error_code record \<noteq> error_code
             then Inl (WorkerCorruptState request_id state
                    ''result metadata does not match the terminal outcome'')
             else Inr ())
       | _ \<Rightarrow> Inl (WorkerCorruptState request_id state ''result metadata is not a bounded regular file'')))"

definition failed_result ::
  "request_id \<Rightarrow> batch_id \<Rightarrow> error_code \<Rightarrow> offset_datetime \<Rightarrow> worker_result_record" where
  "failed_result request_id batch_id error_code now =
     \<lparr>wr_schema_version = CURRENT_WORKER_RESULT_SCHEMA_VERSION, wr_request_id = request_id,
      wr_batch_id = batch_id, wr_status = ResultFailed, wr_error_code = error_code, wr_failed_at = now\<rparr>"

definition ensure_result_record ::
  "worker_externals \<Rightarrow> offset_datetime \<Rightarrow> ulid \<Rightarrow> path \<Rightarrow> claim_token \<Rightarrow> error_code \<Rightarrow> queue_state \<Rightarrow>
   (worker_queue_error, unit) action" where
  "ensure_result_record wx now fresh package_root token error_code state fs =
     (case symlink_metadata fs (package_root @ [RESULT_FILE_NAME]) of
        Inr _ \<Rightarrow> (validate_result_record wx package_root token error_code state fs, fs)
      | Inl e \<Rightarrow>
          if e = NotFound
          then write_result_record wx fresh package_root
                 (failed_result (ct_request_id token) (ct_batch_id token) error_code now) fs
          else (Inl (WorkerIo e), fs))"

definition validate_terminal_claim ::
  "worker_externals \<Rightarrow> claim_token \<Rightarrow> queue_state \<Rightarrow> error_code option \<Rightarrow> fs \<Rightarrow> worker_queue_error + unit" where
  "validate_terminal_claim wx token state error_code fs =
     (let root = state_path wx state (ct_request_id token) in
     attempt (check_claim_record wx root token state fs) (\<lambda>_.
       case error_code of
         Some failure \<Rightarrow> validate_result_record wx root token failure state fs
       | None \<Rightarrow> ensure_result_absent root (ct_request_id token) state fs))"

definition transition_claimed ::
  "worker_externals \<Rightarrow> file_queue \<Rightarrow> offset_datetime \<Rightarrow> ulid \<Rightarrow> claim_token \<Rightarrow> queue_state \<Rightarrow>
   error_code option \<Rightarrow> (worker_queue_error, unit) action" where
  "transition_claimed wx queue now fresh token terminal_state error_code =
     (let request_id = ct_request_id token;
          processing_path = state_path wx Processing request_id in
     andthen (identity_check queue) (\<lambda>_.
     andthen (observe (find_existing_state_without_package_read wx request_id)) (\<lambda>existing.
       case existing of
         None \<Rightarrow> observe (\<lambda>_. Inl (WorkerRequestNotFound request_id))
       | Some state \<Rightarrow>
           if state = terminal_state
           then observe (validate_terminal_claim wx token state error_code)
           else
     andthen (reject_if (state \<noteq> Processing) (InvalidState request_id Processing state)) (\<lambda>_.
     andthen (observe (check_claim_record wx processing_path token Processing)) (\<lambda>_.
     andthen (case error_code of
         Some failure \<Rightarrow> ensure_result_record wx now fresh processing_path token failure Processing
       | None \<Rightarrow> observe (ensure_result_absent processing_path request_id Processing)) (\<lambda>_.
     andthen (identity_check queue) (\<lambda>_.
     andthen (perform WorkerIo (rename processing_path (state_path wx terminal_state request_id))) (\<lambda>_.
     andthen (sync_states terminal_state Processing) (\<lambda>_.
     andthen (identity_check queue) (\<lambda>_. finish ()))))))))))"

definition complete_claimed ::
  "worker_externals \<Rightarrow> file_queue \<Rightarrow> offset_datetime \<Rightarrow> ulid \<Rightarrow> claim_token \<Rightarrow> (worker_queue_error, unit) action" where
  "complete_claimed wx queue now fresh token = transition_claimed wx queue now fresh token Completed None"

definition fail_claimed ::
  "worker_externals \<Rightarrow> file_queue \<Rightarrow> offset_datetime \<Rightarrow> ulid \<Rightarrow> claim_token \<Rightarrow> error_code \<Rightarrow>
   (worker_queue_error, unit) action" where
  "fail_claimed wx queue now fresh token error_code =
     transition_claimed wx queue now fresh token Failed (Some error_code)"

definition fail_pending ::
  "worker_externals \<Rightarrow> file_queue \<Rightarrow> offset_datetime \<Rightarrow> ulid \<Rightarrow> request_id \<Rightarrow> batch_id \<Rightarrow> error_code \<Rightarrow>
   (worker_queue_error, unit) action" where
  "fail_pending wx queue now fresh request_id batch_id error_code =
     (let pending_path = state_path wx Pending request_id in
     andthen (identity_check queue) (\<lambda>_.
     andthen (observe (find_existing_state_without_package_read wx request_id)) (\<lambda>existing.
       case existing of
         None \<Rightarrow> observe (\<lambda>_. Inl (WorkerRequestNotFound request_id))
       | Some state \<Rightarrow>
     andthen (reject_if (state \<noteq> Pending) (InvalidState request_id Pending state)) (\<lambda>_.
     andthen (write_result_record wx fresh pending_path
       (failed_result request_id batch_id error_code now)) (\<lambda>_.
     andthen (identity_check queue) (\<lambda>_.
     andthen (perform WorkerIo (rename pending_path (state_path wx Failed request_id))) (\<lambda>_.
     andthen (sync_states Failed Pending) (\<lambda>_.
     andthen (identity_check queue) (\<lambda>_. finish ())))))))))"

section \<open>Reconciliation\<close>

datatype reconciled_outcome =
    ReconciledCompleted claim_token
  | ReconciledFailed claim_token error_code

fun outcome_request :: "reconciled_outcome \<Rightarrow> request_id" where
  "outcome_request (ReconciledCompleted token) = ct_request_id token"
| "outcome_request (ReconciledFailed token _) = ct_request_id token"

record batch_reconciliation =
  br_queue_identity :: revision
  br_batch_id :: batch_id
  br_outcomes :: "reconciled_outcome list"

definition expected_outcomes ::
  "claim_token list \<Rightarrow> (claim_token \<times> error_code) list \<Rightarrow> reconciled_outcome list" where
  "expected_outcomes successful failures =
     map ReconciledCompleted successful @ map (\<lambda>(token, failure). ReconciledFailed token failure) failures"

definition sort_outcomes :: "reconciled_outcome list \<Rightarrow> reconciled_outcome list" where
  "sort_outcomes outcomes = sort_key outcome_request outcomes"

definition reconciliation_validates ::
  "batch_reconciliation \<Rightarrow> revision \<Rightarrow> batch_id \<Rightarrow> claim_token list \<Rightarrow> (claim_token \<times> error_code) list \<Rightarrow> bool" where
  "reconciliation_validates proof_record queue_identity batch_id successful failures \<longleftrightarrow>
     br_queue_identity proof_record = queue_identity \<and> br_batch_id proof_record = batch_id \<and>
     sort_outcomes (expected_outcomes successful failures) = br_outcomes proof_record"

section \<open>The session\<close>

type_synonym pending_candidate = "nat \<times> request_id"

record pending_batch_scan =
  pb_entries :: "string list option"
  pb_candidates :: "pending_candidate list"
  pb_batch_id :: "batch_id option"
  pb_maximum_requests :: nat
  pb_maximum_sequence :: nat
  pb_failed_requests :: nat

definition default_batch_scan :: pending_batch_scan where
  "default_batch_scan = \<lparr>pb_entries = None, pb_candidates = [], pb_batch_id = None,
     pb_maximum_requests = 0, pb_maximum_sequence = 0, pb_failed_requests = 0\<rparr>"

record pending_snapshot =
  sn_maximum_sequence :: nat
  sn_requests :: nat
  sn_oldest_accepted_at :: "offset_datetime option"
  sn_newest_accepted_at :: "offset_datetime option"
  sn_has_invalid_acceptance :: bool

text \<open>An observation is active while its entries are there.\<close>

record pending_observation =
  po_entries :: "string list option"
  po_snapshot :: pending_snapshot

definition default_observation :: pending_observation where
  "default_observation = \<lparr>po_entries = None, po_snapshot = \<lparr>sn_maximum_sequence = 0, sn_requests = 0,
     sn_oldest_accepted_at = None, sn_newest_accepted_at = None, sn_has_invalid_acceptance = False\<rparr>\<rparr>"

record worker_session =
  ws_pending_scan :: pending_batch_scan
  ws_pending_observation :: pending_observation
  ws_processing_scan :: "string list option"
  ws_processing_recovery_complete :: bool

definition new_worker_session :: worker_session where
  "new_worker_session = \<lparr>ws_pending_scan = default_batch_scan,
     ws_pending_observation = default_observation, ws_processing_scan = None,
     ws_processing_recovery_complete = False\<rparr>"

definition ensure_recovery_complete :: "worker_session \<Rightarrow> worker_queue_error + unit" where
  "ensure_recovery_complete session =
     (if ws_processing_recovery_complete session then Inr ()
      else if ws_processing_scan session \<noteq> None then Inl ProcessingScanInProgress
      else Inl ProcessingRecoveryRequired)"

definition ensure_no_active_scan :: "worker_session \<Rightarrow> worker_queue_error + unit" where
  "ensure_no_active_scan session =
     attempt (ensure_recovery_complete session) (\<lambda>_.
       case pb_batch_id (ws_pending_scan session) of
         Some active_batch_id \<Rightarrow> Inl (BatchScanInProgress active_batch_id)
       | None \<Rightarrow>
           if po_entries (ws_pending_observation session) \<noteq> None then Inl PendingObservationScanInProgress
           else if ws_processing_scan session \<noteq> None then Inl ProcessingScanInProgress
           else Inr ())"

definition require_processing_recovery :: "worker_session \<Rightarrow> worker_session" where
  "require_processing_recovery session =
     session\<lparr>ws_processing_recovery_complete := False, ws_processing_scan := None\<rparr>"

type_synonym 'a session_step =
  "worker_session \<Rightarrow> fs \<Rightarrow> (worker_queue_error + 'a) \<times> worker_session \<times> fs"

text \<open>A transition that leaves the session in need of recovery if it fails.\<close>

definition guarded_transition ::
  "file_queue \<Rightarrow> (worker_queue_error, 'a) action \<Rightarrow> 'a session_step" where
  "guarded_transition queue m session fs =
     (case attempt (map_err WorkerQueue (current_identity_locked queue fs)) (\<lambda>_.
             ensure_no_active_scan session) of
        Inl e \<Rightarrow> (Inl e, session, fs)
      | Inr _ \<Rightarrow>
          (case m fs of
             (Inl e, fs') \<Rightarrow> (Inl e, require_processing_recovery session, fs')
           | (Inr x, fs') \<Rightarrow> (Inr x, session, fs')))"

definition session_claim ::
  "worker_externals \<Rightarrow> file_queue \<Rightarrow> offset_datetime \<Rightarrow> ulid \<Rightarrow> request_id \<Rightarrow> batch_id \<Rightarrow>
   claimed_package session_step" where
  "session_claim wx queue now fresh request_id batch_id =
     guarded_transition queue (claim_with_hook wx queue (\<lambda>_. Inr ()) now fresh request_id batch_id)"

definition session_requeue_claimed ::
  "worker_externals \<Rightarrow> file_queue \<Rightarrow> claim_token \<Rightarrow> unit session_step" where
  "session_requeue_claimed wx queue token = guarded_transition queue (requeue_claimed wx queue token)"

definition session_validate_claimed ::
  "worker_externals \<Rightarrow> file_queue \<Rightarrow> claimed_package \<Rightarrow> worker_session \<Rightarrow> fs \<Rightarrow> worker_queue_error + unit" where
  "session_validate_claimed wx queue claim session fs =
     attempt (map_err WorkerQueue (current_identity_locked queue fs)) (\<lambda>_.
     attempt (ensure_no_active_scan session) (\<lambda>_.
       queue_validate_claimed wx queue claim fs))"

definition reconcile_batch ::
  "worker_externals \<Rightarrow> file_queue \<Rightarrow> (request_id \<Rightarrow> offset_datetime) \<Rightarrow> (request_id \<Rightarrow> ulid) \<Rightarrow> batch_id \<Rightarrow>
   claim_token list \<Rightarrow> (claim_token \<times> error_code) list \<Rightarrow> worker_session \<Rightarrow>
   (worker_queue_error, batch_reconciliation) action" where
  "reconcile_batch wx queue clock fresh batch_id successful failures session =
     (let tokens = successful @ map fst failures in
     andthen (identity_check queue) (\<lambda>_.
     andthen (observe (\<lambda>_. ensure_no_active_scan session)) (\<lambda>_.
     andthen (reject_if (tokens = [] \<or> \<not> list_all (\<lambda>token. ct_batch_id token = batch_id) tokens \<or>
         \<not> distinct (map ct_request_id tokens)) InvalidReconciliation) (\<lambda>_.
     andthen (act_each (\<lambda>token. complete_claimed wx queue (clock (ct_request_id token))
         (fresh (ct_request_id token)) token) successful) (\<lambda>_.
     andthen (act_each (\<lambda>(token, failure). fail_claimed wx queue (clock (ct_request_id token))
         (fresh (ct_request_id token)) token failure) failures) (\<lambda>_.
     andthen (identity_check queue) (\<lambda>queue_identity.
       finish \<lparr>br_queue_identity = queue_identity, br_batch_id = batch_id,
               br_outcomes = sort_outcomes (expected_outcomes successful failures)\<rparr>)))))))"


section \<open>Entries of a state directory\<close>

definition request_entry ::
  "worker_externals \<Rightarrow> (path \<Rightarrow> string \<Rightarrow> worker_queue_error) \<Rightarrow> queue_state \<Rightarrow> string \<Rightarrow> fs \<Rightarrow>
   worker_queue_error + request_id" where
  "request_entry wx invalid state name fs =
     (let p = state_root state @ [name] in
     attempt (map_err WorkerIo (symlink_metadata fs p)) (\<lambda>metadata.
       if metadata \<noteq> Dir then Inl (invalid p ''entry is not a directory'')
       else if \<not> is_utf8 name then Inl (invalid p ''entry name is not UTF-8'')
       else attempt (map_err (\<lambda>_. invalid p ''entry name is not a canonical request ID'')
           (request_id_from_str (qx_ulid_parse wx) (show_ulid wx) name)) (\<lambda>request_id.
         if request_name wx request_id \<noteq> name
         then Inl (invalid p ''entry name is not a canonical request ID'') else Inr request_id)))"

definition current_maximum_sequence :: "file_queue \<Rightarrow> fs \<Rightarrow> worker_queue_error + nat" where
  "current_maximum_sequence queue fs =
     attempt (map_err WorkerQueue (current_identity_locked queue fs)) (\<lambda>_.
     attempt (map_err WorkerQueue (read_next_sequence [NEXT_SEQUENCE_FILE_NAME] fs)) (\<lambda>next_sequence.
       Inr (next_sequence - 1)))"

section \<open>Selecting and claiming a batch\<close>

datatype batch_claim_outcome =
    BatchScanning nat nat nat
  | BatchClaimed "claimed_package list" nat

definition inspect_pending_candidate ::
  "worker_externals \<Rightarrow> file_queue \<Rightarrow> nat \<Rightarrow> request_id \<Rightarrow> fs \<Rightarrow>
   worker_queue_error + pending_candidate option" where
  "inspect_pending_candidate wx queue maximum_sequence request_id fs =
     (let p = state_path wx Pending request_id in
     attempt (revalidate_accepted wx queue p request_id Pending fs) (\<lambda>package.
       if cr_request_id (vp_request package) \<noteq> request_id
       then Inl (WorkerCorruptState request_id Pending
              ''accepted package identity does not match its queue entry'')
       else
     attempt (ok_or (WorkerCorruptState request_id Pending
         ''accepted package is missing acceptance metadata'') (vp_acceptance package)) (\<lambda>acceptance.
       let sequence = am_sequence acceptance in
       if sequence > maximum_sequence
       then attempt (current_maximum_sequence queue fs) (\<lambda>current.
              if sequence > current
              then Inl (WorkerCorruptState request_id Pending
                     ''acceptance sequence exceeds the queue allocation state'')
              else Inr None)
       else attempt (next_attempt wx p request_id Pending fs) (\<lambda>_.
              Inr (Some (sequence, request_id))))))"

fun is_corrupt :: "worker_queue_error \<Rightarrow> bool" where
  "is_corrupt (CorruptPackage _ _ _) = True"
| "is_corrupt (WorkerCorruptState _ _ _) = True"
| "is_corrupt (InvalidPhaseMetadata _) = True"
| "is_corrupt _ = False"

text \<open>\<open>BinaryHeap::push\<close>, then \<open>pop\<close> of the greatest if there are too many.\<close>

definition retain_candidate :: "nat \<Rightarrow> pending_candidate \<Rightarrow> pending_candidate list \<Rightarrow> pending_candidate list" where
  "retain_candidate maximum_requests candidate candidates =
     (let pushed = insort candidate candidates in
      if length pushed > maximum_requests then butlast pushed else pushed)"

definition retain_pending_candidate ::
  "worker_externals \<Rightarrow> file_queue \<Rightarrow> (request_id \<Rightarrow> offset_datetime) \<Rightarrow> (request_id \<Rightarrow> ulid) \<Rightarrow> batch_id \<Rightarrow>
   nat \<Rightarrow> string \<Rightarrow> pending_batch_scan \<Rightarrow> (worker_queue_error, pending_batch_scan) action" where
  "retain_pending_candidate wx queue clock fresh batch_id maximum_requests name scan =
     andthen (observe (request_entry wx InvalidPendingEntry Pending name)) (\<lambda>request_id.
     (\<lambda>fs. case inspect_pending_candidate wx queue (pb_maximum_sequence scan) request_id fs of
        Inl e \<Rightarrow>
          if is_corrupt e
          then andthen (fail_pending wx queue (clock request_id) (fresh request_id) request_id batch_id
                   (worker_error_code e)) (\<lambda>_.
                 finish (scan\<lparr>pb_failed_requests := saturating_add_u64 (pb_failed_requests scan) 1\<rparr>)) fs
          else (Inl e, fs)
      | Inr None \<Rightarrow> (Inr scan, fs)
      | Inr (Some candidate) \<Rightarrow>
          (Inr (scan\<lparr>pb_candidates := retain_candidate maximum_requests candidate (pb_candidates scan)\<rparr>), fs)))"

text \<open>The scan loop: the number of entries seen, whether the directory is exhausted, and the
  scan; an error leaves the requests failed so far.\<close>

fun scan_candidates ::
  "worker_externals \<Rightarrow> file_queue \<Rightarrow> (request_id \<Rightarrow> offset_datetime) \<Rightarrow> (request_id \<Rightarrow> ulid) \<Rightarrow> batch_id \<Rightarrow>
   nat \<Rightarrow> nat \<Rightarrow> nat \<Rightarrow> pending_batch_scan \<Rightarrow>
   fs \<Rightarrow> (worker_queue_error + nat \<times> bool) \<times> pending_batch_scan \<times> fs" where
  "scan_candidates wx queue clock fresh batch_id maximum_requests 0 scanned scan fs =
     (Inr (scanned, False), scan, fs)"
| "scan_candidates wx queue clock fresh batch_id maximum_requests (Suc budget) scanned scan fs =
     (case pb_entries scan of
        None \<Rightarrow> (Inr (scanned, True), scan, fs)
      | Some [] \<Rightarrow> (Inr (scanned, True), scan, fs)
      | Some (name # rest) \<Rightarrow>
          (case retain_pending_candidate wx queue clock fresh batch_id maximum_requests name
                  (scan\<lparr>pb_entries := Some rest\<rparr>) fs of
             (Inl e, fs') \<Rightarrow> (Inl e, scan, fs')
           | (Inr scan', fs') \<Rightarrow>
               scan_candidates wx queue clock fresh batch_id maximum_requests budget (scanned + 1) scan' fs'))"

definition with_scan_failures :: "worker_queue_error \<Rightarrow> nat \<Rightarrow> worker_queue_error" where
  "with_scan_failures e failed = (if failed = 0 then e else BatchScanFailed failed e)"

text \<open>The claims of a batch, in order: all packages are prepared before the first is claimed.\<close>

fun claim_each ::
  "worker_externals \<Rightarrow> file_queue \<Rightarrow> (request_id \<Rightarrow> offset_datetime) \<Rightarrow> (request_id \<Rightarrow> ulid) \<Rightarrow> batch_id \<Rightarrow>
   (request_id \<times> validated_package) list \<Rightarrow> (worker_queue_error, claimed_package list) action" where
  "claim_each wx queue clock fresh batch_id [] = finish []"
| "claim_each wx queue clock fresh batch_id ((request_id, prepared) # rest) =
     andthen (claim_prepared_with_hook wx queue (\<lambda>_. Inr ()) (clock request_id) (fresh request_id)
       request_id batch_id prepared) (\<lambda>claim.
     andthen (claim_each wx queue clock fresh batch_id rest) (\<lambda>claims. finish (claim # claims)))"

definition claim_candidates ::
  "worker_externals \<Rightarrow> file_queue \<Rightarrow> (request_id \<Rightarrow> offset_datetime) \<Rightarrow> (request_id \<Rightarrow> ulid) \<Rightarrow> batch_id \<Rightarrow>
   pending_candidate list \<Rightarrow> nat \<Rightarrow> batch_claim_outcome session_step" where
  "claim_candidates wx queue clock fresh batch_id candidates failed session fs =
     (case try_map (\<lambda>(_, request_id).
             attempt (prepare_claim wx queue request_id fs) (\<lambda>package. Inr (request_id, package))) candidates of
        Inl e \<Rightarrow> (Inl (with_scan_failures e failed), session, fs)
      | Inr prepared \<Rightarrow>
          (case claim_each wx queue clock fresh batch_id prepared fs of
             (Inl e, fs') \<Rightarrow> (Inl (with_scan_failures e failed), require_processing_recovery session, fs')
           | (Inr claims, fs') \<Rightarrow> (Inr (BatchClaimed claims failed), session, fs')))"

text \<open>The guards of \<open>claim_batch\<close> and the start of its scan.\<close>

definition batch_scan_ready ::
  "batch_id \<Rightarrow> nat \<Rightarrow> nat \<Rightarrow> nat option \<Rightarrow> worker_session \<Rightarrow> worker_queue_error + unit" where
  "batch_scan_ready batch_id maximum_scan_entries maximum_requests requested session =
     (let scan = ws_pending_scan session in
      if maximum_scan_entries = 0 \<or> maximum_requests = 0 then Inl InvalidBatchLimits
      else
     attempt (ensure_recovery_complete session) (\<lambda>_.
       if ws_processing_scan session \<noteq> None then Inl ProcessingScanInProgress
       else if po_entries (ws_pending_observation session) \<noteq> None then Inl PendingObservationScanInProgress
       else (case pb_batch_id scan of
               None \<Rightarrow> Inr ()
             | Some active_batch_id \<Rightarrow>
                 if active_batch_id \<noteq> batch_id \<or> pb_maximum_requests scan \<noteq> maximum_requests \<or>
                    (case requested of None \<Rightarrow> False | Some s \<Rightarrow> s \<noteq> pb_maximum_sequence scan)
                 then Inl (BatchScanChanged active_batch_id) else Inr ())))"

definition start_batch_scan ::
  "file_queue \<Rightarrow> batch_id \<Rightarrow> nat \<Rightarrow> nat option \<Rightarrow> pending_batch_scan \<Rightarrow> fs \<Rightarrow>
   worker_queue_error + pending_batch_scan" where
  "start_batch_scan queue batch_id maximum_requests requested scan fs =
     (if pb_entries scan \<noteq> None then Inr scan
      else
     attempt (current_maximum_sequence queue fs) (\<lambda>current.
       let maximum_sequence = (case requested of None \<Rightarrow> current | Some s \<Rightarrow> s) in
       if maximum_sequence > current then Inl InvalidBatchSnapshot
       else
     attempt (map_err WorkerIo (read_dir fs (state_root Pending))) (\<lambda>entries.
       Inr (scan\<lparr>pb_entries := Some entries, pb_batch_id := Some batch_id,
         pb_maximum_requests := maximum_requests, pb_maximum_sequence := maximum_sequence\<rparr>))))"

definition claim_batch ::
  "worker_externals \<Rightarrow> file_queue \<Rightarrow> (request_id \<Rightarrow> offset_datetime) \<Rightarrow> (request_id \<Rightarrow> ulid) \<Rightarrow> batch_id \<Rightarrow>
   nat \<Rightarrow> nat \<Rightarrow> nat option \<Rightarrow> batch_claim_outcome session_step" where
  "claim_batch wx queue clock fresh batch_id maximum_scan_entries maximum_requests requested session fs =
     (case attempt (map_err WorkerQueue (current_identity_locked queue fs)) (\<lambda>_.
           attempt (batch_scan_ready batch_id maximum_scan_entries maximum_requests requested session) (\<lambda>_.
             start_batch_scan queue batch_id maximum_requests requested (ws_pending_scan session) fs)) of
        Inl e \<Rightarrow> (Inl e, session, fs)
      | Inr started \<Rightarrow>
          (case scan_candidates wx queue clock fresh batch_id maximum_requests maximum_scan_entries 0
                  started fs of
             (Inl e, scan, fs') \<Rightarrow>
               (Inl (with_scan_failures e (pb_failed_requests scan)),
                session\<lparr>ws_pending_scan := default_batch_scan\<rparr>, fs')
           | (Inr (scanned, complete), scan, fs') \<Rightarrow>
               if \<not> complete
               then (Inr (BatchScanning scanned (length (pb_candidates scan)) (pb_failed_requests scan)),
                     session\<lparr>ws_pending_scan := scan\<rparr>, fs')
               else claim_candidates wx queue clock fresh batch_id (pb_candidates scan)
                      (pb_failed_requests scan) (session\<lparr>ws_pending_scan := default_batch_scan\<rparr>) fs'))"

definition claim_next_batch ::
  "worker_externals \<Rightarrow> file_queue \<Rightarrow> (request_id \<Rightarrow> offset_datetime) \<Rightarrow> (request_id \<Rightarrow> ulid) \<Rightarrow> batch_id \<Rightarrow>
   nat \<Rightarrow> nat \<Rightarrow> batch_claim_outcome session_step" where
  "claim_next_batch wx queue clock fresh batch_id maximum_scan_entries maximum_requests =
     claim_batch wx queue clock fresh batch_id maximum_scan_entries maximum_requests None"

definition claim_batch_through ::
  "worker_externals \<Rightarrow> file_queue \<Rightarrow> (request_id \<Rightarrow> offset_datetime) \<Rightarrow> (request_id \<Rightarrow> ulid) \<Rightarrow> batch_id \<Rightarrow>
   nat \<Rightarrow> nat \<Rightarrow> nat \<Rightarrow> batch_claim_outcome session_step" where
  "claim_batch_through wx queue clock fresh batch_id maximum_sequence maximum_scan_entries maximum_requests =
     claim_batch wx queue clock fresh batch_id maximum_scan_entries maximum_requests (Some maximum_sequence)"


section \<open>Observing pending requests\<close>

datatype pending_scan_outcome = PendingScanning nat nat | PendingComplete pending_snapshot

definition observe_acceptance :: "offset_datetime \<Rightarrow> pending_snapshot \<Rightarrow> pending_snapshot" where
  "observe_acceptance accepted_at snapshot =
     snapshot\<lparr>sn_requests := saturating_add_u64 (sn_requests snapshot) 1,
       sn_oldest_accepted_at := Some (case sn_oldest_accepted_at snapshot of
           None \<Rightarrow> accepted_at
         | Some oldest \<Rightarrow> if before_instant accepted_at oldest then accepted_at else oldest),
       sn_newest_accepted_at := Some (case sn_newest_accepted_at snapshot of
           None \<Rightarrow> accepted_at
         | Some newest \<Rightarrow> if before_instant accepted_at newest then newest else accepted_at)\<rparr>"

definition observe_invalid :: "pending_snapshot \<Rightarrow> pending_snapshot" where
  "observe_invalid snapshot =
     snapshot\<lparr>sn_requests := saturating_add_u64 (sn_requests snapshot) 1, sn_has_invalid_acceptance := True\<rparr>"

definition inspect_pending ::
  "worker_externals \<Rightarrow> file_queue \<Rightarrow> string \<Rightarrow> fs \<Rightarrow> pending_snapshot \<Rightarrow> worker_queue_error + pending_snapshot" where
  "inspect_pending wx queue name fs snapshot =
     attempt (request_entry wx InvalidPendingEntry Pending name fs) (\<lambda>_.
       case read_acceptance_file (qx_base wx) fs (state_root Pending @ [name, ACCEPTANCE_FILE_NAME]) of
         Inr acceptance \<Rightarrow>
           if am_sequence acceptance > sn_maximum_sequence snapshot
           then attempt (current_maximum_sequence queue fs) (\<lambda>current.
                  if am_sequence acceptance > current then Inr (observe_invalid snapshot) else Inr snapshot)
           else Inr (observe_acceptance (am_accepted_at acceptance) snapshot)
       | Inl e \<Rightarrow>
           (case e of
              PackageIo io \<Rightarrow> if io \<noteq> NotFound then Inl (WorkerIo io) else Inr (observe_invalid snapshot)
            | _ \<Rightarrow> Inr (observe_invalid snapshot)))"

fun observe_entries ::
  "worker_externals \<Rightarrow> file_queue \<Rightarrow> fs \<Rightarrow> nat \<Rightarrow> nat \<Rightarrow> string list \<Rightarrow> pending_snapshot \<Rightarrow>
   worker_queue_error + nat \<times> bool \<times> string list \<times> pending_snapshot" where
  "observe_entries wx queue fs 0 scanned entries snapshot = Inr (scanned, False, entries, snapshot)"
| "observe_entries wx queue fs (Suc budget) scanned [] snapshot = Inr (scanned, True, [], snapshot)"
| "observe_entries wx queue fs (Suc budget) scanned (name # rest) snapshot =
     attempt (inspect_pending wx queue name fs snapshot)
       (\<lambda>snapshot. observe_entries wx queue fs budget (scanned + 1) rest snapshot)"

definition start_observation ::
  "file_queue \<Rightarrow> pending_observation \<Rightarrow> fs \<Rightarrow> worker_queue_error + string list \<times> pending_snapshot" where
  "start_observation queue observation fs =
     (case po_entries observation of
        Some entries \<Rightarrow> Inr (entries, po_snapshot observation)
      | None \<Rightarrow>
          attempt (current_maximum_sequence queue fs) (\<lambda>maximum_sequence.
          attempt (map_err WorkerIo (read_dir fs (state_root Pending))) (\<lambda>entries.
            Inr (entries, (po_snapshot observation)\<lparr>sn_maximum_sequence := maximum_sequence\<rparr>))))"

definition scan_pending ::
  "worker_externals \<Rightarrow> file_queue \<Rightarrow> nat \<Rightarrow> worker_session \<Rightarrow> fs \<Rightarrow>
   (worker_queue_error + pending_scan_outcome) \<times> worker_session" where
  "scan_pending wx queue maximum_scan_entries session fs =
     (case attempt (map_err WorkerQueue (current_identity_locked queue fs)) (\<lambda>_.
             if maximum_scan_entries = 0 then Inl InvalidBatchLimits
             else
           attempt (ensure_recovery_complete session) (\<lambda>_.
             case pb_batch_id (ws_pending_scan session) of
               Some active_batch_id \<Rightarrow> Inl (BatchScanInProgress active_batch_id)
             | None \<Rightarrow>
                 if ws_processing_scan session \<noteq> None then Inl ProcessingScanInProgress
                 else start_observation queue (ws_pending_observation session) fs)) of
        Inl e \<Rightarrow> (Inl e, session)
      | Inr (entries, snapshot) \<Rightarrow>
          (case observe_entries wx queue fs maximum_scan_entries 0 entries snapshot of
             Inl e \<Rightarrow> (Inl e, session\<lparr>ws_pending_observation := default_observation\<rparr>)
           | Inr (scanned, complete, rest, snapshot) \<Rightarrow>
               if complete
               then (Inr (PendingComplete snapshot), session\<lparr>ws_pending_observation := default_observation\<rparr>)
               else (Inr (PendingScanning scanned (sn_requests snapshot)),
                     session\<lparr>ws_pending_observation := \<lparr>po_entries = Some rest, po_snapshot = snapshot\<rparr>\<rparr>)))"

definition discard_pending_observation :: "worker_session \<Rightarrow> worker_session" where
  "discard_pending_observation session = session\<lparr>ws_pending_observation := default_observation\<rparr>"

section \<open>Recovering interrupted claims\<close>

datatype processing_scan_outcome =
    ProcessingScanning nat "claimed_package list"
  | ProcessingComplete nat "claimed_package list"

definition recover_processing_claim ::
  "worker_externals \<Rightarrow> file_queue \<Rightarrow> string \<Rightarrow> fs \<Rightarrow> worker_queue_error + claimed_package" where
  "recover_processing_claim wx queue name fs =
     (let p = state_root Processing @ [name] in
     attempt (request_entry wx InvalidProcessingEntry Processing name fs) (\<lambda>request_id.
     attempt (revalidate_accepted wx queue p request_id Processing fs) (\<lambda>package.
       if cr_request_id (vp_request package) \<noteq> request_id
       then Inl (WorkerCorruptState request_id Processing
              ''accepted package identity does not match its queue entry'')
       else
     attempt (read_required_phase_record wx p request_id Processing fs) (\<lambda>record.
       if wp_phase record \<noteq> Claimed
       then Inl (WorkerCorruptState request_id Processing
              ''processing package has an unsupported recovery phase'')
       else Inr \<lparr>cp_token = \<lparr>ct_request_id = request_id, ct_batch_id = wp_batch_id record,
                ct_attempt = wp_attempt record\<rparr>,
              cp_package = package, cp_package_root = p\<rparr>))))"

fun recover_entries ::
  "worker_externals \<Rightarrow> file_queue \<Rightarrow> fs \<Rightarrow> nat \<Rightarrow> nat \<Rightarrow> string list \<Rightarrow> claimed_package list \<Rightarrow>
   worker_queue_error + nat \<times> bool \<times> string list \<times> claimed_package list" where
  "recover_entries wx queue fs 0 scanned entries claims = Inr (scanned, False, entries, claims)"
| "recover_entries wx queue fs (Suc budget) scanned [] claims = Inr (scanned, True, [], claims)"
| "recover_entries wx queue fs (Suc budget) scanned (name # rest) claims =
     attempt (recover_processing_claim wx queue name fs)
       (\<lambda>claim. recover_entries wx queue fs budget (scanned + 1) rest (claims @ [claim]))"

definition scan_processing ::
  "worker_externals \<Rightarrow> file_queue \<Rightarrow> nat \<Rightarrow> worker_session \<Rightarrow> fs \<Rightarrow>
   (worker_queue_error + processing_scan_outcome) \<times> worker_session" where
  "scan_processing wx queue maximum_scan_entries session fs =
     (case attempt (map_err WorkerQueue (current_identity_locked queue fs)) (\<lambda>_.
             if maximum_scan_entries = 0 then Inl InvalidProcessingScanLimit
             else case pb_batch_id (ws_pending_scan session) of
               Some active_batch_id \<Rightarrow> Inl (BatchScanInProgress active_batch_id)
             | None \<Rightarrow>
                 if po_entries (ws_pending_observation session) \<noteq> None
                 then Inl PendingObservationScanInProgress else Inr ()) of
        Inl e \<Rightarrow> (Inl e, session)
      | Inr _ \<Rightarrow>
          (case (case ws_processing_scan session of
                   Some entries \<Rightarrow> Inr entries
                 | None \<Rightarrow> map_err WorkerIo (read_dir fs (state_root Processing))) of
             Inl e \<Rightarrow> (Inl e, session\<lparr>ws_processing_recovery_complete := False\<rparr>)
           | Inr entries \<Rightarrow>
               (case recover_entries wx queue fs maximum_scan_entries 0 entries [] of
                  Inl e \<Rightarrow> (Inl e, session\<lparr>ws_processing_scan := None, ws_processing_recovery_complete := False\<rparr>)
                | Inr (scanned, complete, rest, claims) \<Rightarrow>
                    if complete
                    then (Inr (ProcessingComplete scanned claims),
                          session\<lparr>ws_processing_scan := None, ws_processing_recovery_complete := True\<rparr>)
                    else (Inr (ProcessingScanning scanned claims),
                          session\<lparr>ws_processing_scan := Some rest,
                            ws_processing_recovery_complete :=
                              (case ws_processing_scan session of
                                 None \<Rightarrow> False
                               | Some _ \<Rightarrow> ws_processing_recovery_complete session)\<rparr>))))"

end
