(* ===== verification/Queue_Protocol.thy ===== *)
theory Queue_Protocol
  imports Queue_Session
begin

text \<open>
  What the queue promises, without its files: a partial map from request identifiers to a state, the
  immutable content of the package, the claim record and the failure record. \<open>queue_step\<close> is the
  protocol. \<open>view\<close> reads the abstract queue off the tree, and every operation of
  \<open>Queue_Storage\<close>, \<open>Queue_Worker\<close> and \<open>Queue_Session\<close> is a sequence of protocol
  steps on the view, whichever of its calls fails.
\<close>

section \<open>The abstract queue\<close>

record request_view =
  rv_state :: queue_state
  rv_content :: "path \<Rightarrow> node option"
  rv_phase :: "node option"
  rv_result :: "node option"

type_synonym queue_view = "request_id \<Rightarrow> request_view option"

definition is_sidecar :: "path \<Rightarrow> bool" where
  "is_sidecar q \<longleftrightarrow> q \<noteq> [] \<and> hd q \<in> {PHASE_FILE_NAME, RESULT_FILE_NAME}"

definition entry_view :: "('a queue_externals_scheme) \<Rightarrow> fs \<Rightarrow> queue_state \<Rightarrow> request_id \<Rightarrow> request_view" where
  "entry_view qx fs s i = \<lparr>rv_state = s,
     rv_content = (\<lambda>q. if is_sidecar q then None else lookup fs (state_path qx s i @ q)),
     rv_phase = lookup fs (state_path qx s i @ [PHASE_FILE_NAME]),
     rv_result = lookup fs (state_path qx s i @ [RESULT_FILE_NAME])\<rparr>"

definition present :: "('a queue_externals_scheme) \<Rightarrow> fs \<Rightarrow> queue_state \<Rightarrow> request_id \<Rightarrow> bool" where
  "present qx fs s i \<longleftrightarrow> lookup fs (state_path qx s i) \<noteq> None"

definition view :: "('a queue_externals_scheme) \<Rightarrow> fs \<Rightarrow> queue_view" where
  "view qx fs i = map_option (\<lambda>s. entry_view qx fs s i) (find (\<lambda>s. present qx fs s i) queue_states)"

definition queue_ok :: "('a queue_externals_scheme) \<Rightarrow> fs \<Rightarrow> bool" where
  "queue_ok qx fs \<longleftrightarrow> wf_fs fs \<and> (\<forall>i s t. present qx fs s i \<longrightarrow> present qx fs t i \<longrightarrow> s = t)"

inductive queue_step :: "queue_view \<Rightarrow> queue_view \<Rightarrow> bool" where
  accept: "v i = None \<Longrightarrow> rv_state r = Pending \<Longrightarrow> rv_phase r = None \<Longrightarrow> rv_result r = None \<Longrightarrow>
    queue_step v (v(i \<mapsto> r))"
| set_phase: "v i = Some r \<Longrightarrow> rv_state r = Pending \<Longrightarrow> queue_step v (v(i \<mapsto> r\<lparr>rv_phase := Some n\<rparr>))"
| set_result: "v i = Some r \<Longrightarrow> rv_state r \<in> {Pending, Processing} \<Longrightarrow>
    queue_step v (v(i \<mapsto> r\<lparr>rv_result := Some n\<rparr>))"
| claim: "v i = Some r \<Longrightarrow> rv_state r = Pending \<Longrightarrow> rv_phase r \<noteq> None \<Longrightarrow>
    queue_step v (v(i \<mapsto> r\<lparr>rv_state := Processing\<rparr>))"
| requeue: "v i = Some r \<Longrightarrow> rv_state r = Processing \<Longrightarrow> rv_phase r \<noteq> None \<Longrightarrow>
    queue_step v (v(i \<mapsto> r\<lparr>rv_state := Pending\<rparr>))"
| complete: "v i = Some r \<Longrightarrow> rv_state r = Processing \<Longrightarrow> rv_phase r \<noteq> None \<Longrightarrow> rv_result r = None \<Longrightarrow>
    queue_step v (v(i \<mapsto> r\<lparr>rv_state := Completed\<rparr>))"
| fail: "v i = Some r \<Longrightarrow> rv_state r \<in> {Pending, Processing} \<Longrightarrow> rv_result r \<noteq> None \<Longrightarrow>
    queue_step v (v(i \<mapsto> r\<lparr>rv_state := Failed\<rparr>))"

lemma queue_states_all: "s \<in> set queue_states"
  by (cases s) (simp_all add: queue_states_def)

lemma view_None_iff: "view qx fs i = None \<longleftrightarrow> (\<forall>s. \<not> present qx fs s i)"
  using queue_states_all by (auto simp: view_def find_None_iff)

lemma view_Some_iff:
  assumes "queue_ok qx fs"
  shows "view qx fs i = Some r \<longleftrightarrow> present qx fs (rv_state r) i \<and> r = entry_view qx fs (rv_state r) i"
proof -
  have state: "rv_state (entry_view qx fs s i) = s" for s by (simp add: entry_view_def)
  show ?thesis
  proof (cases "find (\<lambda>s. present qx fs s i) queue_states")
    case None
    then have "\<not> present qx fs s i" for s using queue_states_all [of s] by (auto simp: find_None_iff)
    with None show ?thesis by (simp add: view_def)
  next
    case (Some s)
    then have p: "present qx fs s i" by (auto simp: find_Some_iff)
    with assms have u: "present qx fs t i \<Longrightarrow> t = s" for t unfolding queue_ok_def by blast
    have "view qx fs i = Some r \<longleftrightarrow> entry_view qx fs s i = r" using Some by (simp add: view_def)
    also have "\<dots> \<longleftrightarrow> present qx fs (rv_state r) i \<and> r = entry_view qx fs (rv_state r) i"
      using u p state by metis
    finally show ?thesis .
  qed
qed

lemma view_present: "queue_ok qx fs \<Longrightarrow> present qx fs s i \<Longrightarrow> view qx fs i = Some (entry_view qx fs s i)"
  by (simp add: view_Some_iff) (simp add: entry_view_def)

section \<open>Paths\<close>

lemma directory_name_inject [simp]: "directory_name s = directory_name t \<longleftrightarrow> s = t"
  by (cases s; cases t) simp_all

lemma state_path_eq: "state_path qx s i = [directory_name s, request_name qx i]"
  by (simp add: state_path_def state_root_def)

definition accepted_path :: "path \<Rightarrow> bool" where
  "accepted_path q \<longleftrightarrow> 2 \<le> length q \<and> hd q \<in> range directory_name"

lemma accepted_state_path [simp]: "accepted_path (state_path qx s i @ q)"
  by (simp add: accepted_path_def state_path_eq)

lemma view_frame:
  assumes "queue_ok qx fs" and "wf_fs fs'" and "\<And>q. accepted_path q \<Longrightarrow> lookup fs' q = lookup fs q"
  shows "queue_ok qx fs'" and "view qx fs' = view qx fs"
proof -
  have l: "lookup fs' (state_path qx s i @ q) = lookup fs (state_path qx s i @ q)" for s i q
    by (rule assms(3)) simp
  from l [of _ _ "[]"] have p: "present qx fs' = present qx fs" by (simp add: present_def fun_eq_iff)
  from l have e: "entry_view qx fs' = entry_view qx fs" by (simp add: entry_view_def fun_eq_iff)
  from assms(1,2) p show "queue_ok qx fs'" by (simp add: queue_ok_def)
  from p e show "view qx fs' = view qx fs" by (simp add: view_def fun_eq_iff)
qed

lemma view_changes_one:
  assumes "queue_ok qx fs'" and "present qx fs' t i"
    and "\<And>u j q. j \<noteq> i \<Longrightarrow> lookup fs' (state_path qx u j @ q) = lookup fs (state_path qx u j @ q)"
  shows "view qx fs' = (view qx fs)(i \<mapsto> entry_view qx fs' t i)"
proof
  fix j
  show "view qx fs' j = ((view qx fs)(i \<mapsto> entry_view qx fs' t i)) j"
  proof (cases "j = i")
    case True
    with assms(1,2) show ?thesis by (simp add: view_present)
  next
    case False
    with assms(3) have "entry_view qx fs' u j = entry_view qx fs u j" "present qx fs' u j = present qx fs u j" for u
      using assms(3) [OF False, of u "[]"] by (simp_all add: entry_view_def fun_eq_iff present_def)
    with False show ?thesis by (simp add: view_def)
  qed
qed

lemma request_name_inject:
  "inj (show_ulid qx) \<Longrightarrow> request_name qx j = request_name qx k \<longleftrightarrow> j = k"
  by (cases j; cases k) (auto simp: request_name_def request_id_to_string_def inj_eq)

lemma move_entry:
  assumes ok: "queue_ok qx fs" and inj: "inj (show_ulid qx)" and at: "present qx fs s i" and ne: "s \<noteq> t"
    and run: "rename (state_path qx s i) (state_path qx t i) fs = Inr fs'"
  shows "queue_ok qx fs'"
    and "view qx fs' = (view qx fs)(i \<mapsto> (entry_view qx fs s i)\<lparr>rv_state := t\<rparr>)"
proof -
  have wf: "wf_fs fs" using ok by (simp add: queue_ok_def)
  have d: "state_path qx s i \<noteq> state_path qx t i" using ne by (simp add: state_path_eq)
  note l = lookup_rename [OF run wf d]
  have name: "request_name qx j = request_name qx k \<longleftrightarrow> j = k" for j k
    by (rule request_name_inject [OF inj])
  have moved: "lookup fs' (state_path qx u j @ q) =
      (if j = i then if u = t then lookup fs (state_path qx s i @ q) else if u = s then None
        else lookup fs (state_path qx u j @ q) else lookup fs (state_path qx u j @ q))" for u j q
    by (cases "j = i"; cases "u = t"; cases "u = s") (use ne in \<open>simp_all add: l state_path_eq name\<close>)
  have gone: "\<not> present qx fs u i" if "u \<noteq> s" for u using ok at that by (auto simp: queue_ok_def)
  have p: "present qx fs' u j \<longleftrightarrow> (if j = i then u = t else present qx fs u j)" for u j
    using moved [of u j "[]"] at gone [of u] by (auto simp: present_def)
  have "wf_fs fs'" by (rule rename_wf [OF run wf d])
  with p ok show ok': "queue_ok qx fs'" by (auto simp: queue_ok_def)
  have "entry_view qx fs' t i = (entry_view qx fs s i)\<lparr>rv_state := t\<rparr>"
    using moved by (simp add: entry_view_def fun_eq_iff)
  then show "view qx fs' = (view qx fs)(i \<mapsto> (entry_view qx fs s i)\<lparr>rv_state := t\<rparr>)"
    using view_changes_one [OF ok', of t i fs] p moved by simp
qed


lemma place_entry:
  assumes ok: "queue_ok qx fs" and inj: "inj (show_ulid qx)" and none: "view qx fs i = None"
    and source: "\<not> accepted_path a" "a \<noteq> []" "length a \<noteq> 1"
    and run: "rename a (state_path qx Pending i) fs = Inr fs'"
  shows "queue_ok qx fs'"
    and "view qx fs' = (view qx fs)(i \<mapsto> \<lparr>rv_state = Pending,
      rv_content = (\<lambda>q. if is_sidecar q then None else lookup fs (a @ q)),
      rv_phase = lookup fs (a @ [PHASE_FILE_NAME]), rv_result = lookup fs (a @ [RESULT_FILE_NAME])\<rparr>)"
proof -
  have wf: "wf_fs fs" using ok by (simp add: queue_ok_def)
  have d: "a \<noteq> state_path qx Pending i" using source(1) accepted_state_path [of qx Pending i "[]"] by auto
  note l = lookup_rename [OF run wf d]
  have far: "\<not> prefix a (state_path qx u j @ q)" for u j q
  proof
    assume "prefix a (state_path qx u j @ q)"
    with source(2,3) have "2 \<le> length a" "hd a = directory_name u"
      by (cases a; auto simp: state_path_eq prefix_def Cons_eq_append_conv)+
    with source(1) show False by (simp add: accepted_path_def)
  qed
  have moved: "lookup fs' (state_path qx u j @ q) =
      (if j = i \<and> u = Pending then lookup fs (a @ q) else lookup fs (state_path qx u j @ q))" for u j q
    using far by (cases "j = i"; cases "u = Pending")
      (simp_all add: l state_path_eq request_name_inject [OF inj] del: directory_name.simps)
  have p: "present qx fs' u j \<longleftrightarrow> (if j = i then u = Pending else present qx fs u j)" for u j
    using moved [of u j "[]"] none rename_Inr(1) [OF run wf d] by (auto simp: present_def view_None_iff)
  have "wf_fs fs'" by (rule rename_wf [OF run wf d])
  with p ok show ok': "queue_ok qx fs'" by (auto simp: queue_ok_def)
  show "view qx fs' = (view qx fs)(i \<mapsto> \<lparr>rv_state = Pending,
      rv_content = (\<lambda>q. if is_sidecar q then None else lookup fs (a @ q)),
      rv_phase = lookup fs (a @ [PHASE_FILE_NAME]), rv_result = lookup fs (a @ [RESULT_FILE_NAME])\<rparr>)"
    using view_changes_one [OF ok', of Pending i fs] p moved by (simp add: entry_view_def cong: if_cong)
qed

text \<open>A sidecar renamed into the package of a request.\<close>

definition with_sidecar :: "string \<Rightarrow> node option \<Rightarrow> request_view \<Rightarrow> request_view" where
  "with_sidecar f n r = (if f = PHASE_FILE_NAME then r\<lparr>rv_phase := n\<rparr> else r\<lparr>rv_result := n\<rparr>)"

lemma place_sidecar:
  assumes ok: "queue_ok qx fs" and inj: "inj (show_ulid qx)" and at: "present qx fs s i"
    and f: "f \<in> {PHASE_FILE_NAME, RESULT_FILE_NAME}" and a: "a = [c, t]" "c \<notin> range directory_name"
    and run: "rename a (state_path qx s i @ [f]) fs = Inr fs'"
  shows "queue_ok qx fs'" and "lookup fs a \<noteq> None" and "present qx fs' = present qx fs"
    and "view qx fs' = (view qx fs)(i \<mapsto> with_sidecar f (lookup fs a) (entry_view qx fs s i))"
proof -
  have wf: "wf_fs fs" using ok by (simp add: queue_ok_def)
  have d: "a \<noteq> state_path qx s i @ [f]" using a by (simp add: state_path_eq)
  note l = lookup_rename [OF run wf d]
  show "lookup fs a \<noteq> None" by (rule rename_Inr(1) [OF run wf d])
  have ne: "PHASE_FILE_NAME \<noteq> RESULT_FILE_NAME" by (simp add: PHASE_FILE_NAME_def RESULT_FILE_NAME_def)
  have far: "\<not> prefix a (state_path qx u j @ q)" for u j q
    using a by (auto simp: state_path_eq)
  have moved: "lookup fs' (state_path qx u j @ q) =
      (if j = i \<and> u = s \<and> prefix [f] q then lookup fs (a @ drop 1 q) else lookup fs (state_path qx u j @ q))"
    for u j q
    using far by (cases "j = i"; cases "u = s")
      (simp_all add: l state_path_eq request_name_inject [OF inj])
  show p: "present qx fs' = present qx fs"
    using moved [of _ _ "[]"] by (simp add: present_def fun_eq_iff)
  have "wf_fs fs'" by (rule rename_wf [OF run wf d])
  with p ok show ok': "queue_ok qx fs'" by (auto simp: queue_ok_def)
  have side: "is_sidecar q" if "prefix [f] q" for q
    using that f by (cases q) (auto simp: is_sidecar_def)
  have "entry_view qx fs' s i = with_sidecar f (lookup fs a) (entry_view qx fs s i)"
    using moved side f ne by (auto simp: entry_view_def with_sidecar_def fun_eq_iff)
  then show "view qx fs' = (view qx fs)(i \<mapsto> with_sidecar f (lookup fs a) (entry_view qx fs s i))"
    using view_changes_one [OF ok', of s i fs] p at moved by simp
qed

section \<open>Steps that leave accepted requests alone\<close>

definition keeps :: "(path \<Rightarrow> bool) \<Rightarrow> fs \<Rightarrow> fs \<Rightarrow> bool" where
  "keeps P fs fs' \<longleftrightarrow> (wf_fs fs \<longrightarrow> wf_fs fs' \<and> (\<forall>q. P q \<longrightarrow> lookup fs' q = lookup fs q))"

abbreviation quiet :: "fs \<Rightarrow> fs \<Rightarrow> bool" where
  "quiet \<equiv> keeps accepted_path"

interpretation keeping: tree_relation "keeps P" for P
  by unfold_locales (simp_all add: keeps_def)

context tree_step
begin

lemma keeps_run:
  assumes "run fs = Inr fs'" and "\<And>q. touches fs q \<Longrightarrow> \<not> P q"
  shows "keeps P fs fs'"
  using assms run_wf run_frame unfolding keeps_def by blast

lemma keeps_ignoring:
  assumes "\<And>q. touches fs q \<Longrightarrow> \<not> P q"
  shows "keeps P fs (ignoring run fs)"
  using assms keeps_run by (auto simp: ignoring_def keeping.R_refl split: sum.splits)

end

lemma outside_Cons: "c \<notin> range directory_name \<Longrightarrow> \<not> accepted_path (c # q)"
  by (simp add: accepted_path_def)

lemma outside_prefix: "c \<notin> range directory_name \<Longrightarrow> prefix (c # p) q \<Longrightarrow> \<not> accepted_path q"
  by (cases q) (auto simp: accepted_path_def)

lemma outside_short: "\<not> accepted_path [c]"
  by (simp add: accepted_path_def)

lemma outside_names:
  "''incoming'' \<notin> range directory_name" "WORKER_TEMP_DIRECTORY_NAME \<notin> range directory_name"
  "NEXT_SEQUENCE_FILE_NAME \<notin> range directory_name" "''.next-sequence-'' @ x \<notin> range directory_name"
proof -
  have u: "UNIV = {Pending, Processing, Completed, Failed}" using queue_state.exhaust by auto
  have r: "range directory_name = {''pending'', ''processing'', ''completed'', ''failed''}"
    by (subst u) simp
  show "''incoming'' \<notin> range directory_name" "WORKER_TEMP_DIRECTORY_NAME \<notin> range directory_name"
    "NEXT_SEQUENCE_FILE_NAME \<notin> range directory_name" "''.next-sequence-'' @ x \<notin> range directory_name"
    by (simp_all add: r WORKER_TEMP_DIRECTORY_NAME_def NEXT_SEQUENCE_FILE_NAME_def)
qed

lemma quiet_view:
  assumes "quiet fs fs'" and "queue_ok qx fs"
  shows "queue_ok qx fs'" and "view qx fs' = view qx fs" and "present qx fs' s i = present qx fs s i"
    and "entry_view qx fs' s i = entry_view qx fs s i"
proof -
  have q: "wf_fs fs'" "\<And>q. accepted_path q \<Longrightarrow> lookup fs' q = lookup fs q"
    using assms by (auto simp: keeps_def queue_ok_def)
  show "queue_ok qx fs'" "view qx fs' = view qx fs" by (rule view_frame [OF assms(2) q]; assumption)+
  have "lookup fs' (state_path qx s i @ q) = lookup fs (state_path qx s i @ q)" for q by (rule q(2)) simp
  from this this [of "[]"] show "present qx fs' s i = present qx fs s i"
    "entry_view qx fs' s i = entry_view qx fs s i"
    by (simp_all add: present_def entry_view_def fun_eq_iff)
qed

lemma drop_incoming_quiet: "quiet fs (drop_incoming (''incoming'' # p) fs)"
  unfolding drop_incoming_def
  by (rule remove_dir_all_step.keeps_ignoring) (rule outside_prefix [OF outside_names(1)])

section \<open>Finding a request\<close>

lemma symlink_metadata_wf:
  "wf_fs fs \<Longrightarrow> symlink_metadata fs p = (case lookup fs p of None \<Rightarrow> symlink_metadata fs p | Some n \<Rightarrow> Inr n)"
  by (auto simp: symlink_metadata_ok_iff split: option.splits)

lemma find_existing_Inr:
  assumes "wf_fs fs" and "find_existing qx i fs = Inr existing"
  shows "case existing of None \<Rightarrow> \<forall>s. \<not> present qx fs s i
    | Some (s, _) \<Rightarrow> present qx fs s i \<and> (\<forall>t. present qx fs t i \<longrightarrow> t = s)"
proof -
  have step: "case (x, y) of (None, None) \<Rightarrow> \<not> present qx fs s i
      | (None, Some (t, _)) \<Rightarrow> t = s \<and> present qx fs s i
      | (Some z, y) \<Rightarrow> y = Some z \<and> \<not> present qx fs s i"
    if "find_existing_in qx fs i s x = Inr y" for s x y
    using that assms(1) symlink_metadata_wf [OF assms(1), of "state_path qx s i"]
    by (auto simp: find_existing_in_def Let_def present_def attempt_Inr_iff symlink_metadata_def
        split: sum.splits option.splits if_splits)
  from assms(2) obtain x y z where
    "find_existing_in qx fs i Pending None = Inr x" "find_existing_in qx fs i Processing x = Inr y"
    "find_existing_in qx fs i Completed y = Inr z" "find_existing_in qx fs i Failed z = Inr existing"
    by (auto simp: find_existing_def queue_states_def attempt_Inr_iff)
  note steps = this [THEN step]
  have all: "(\<forall>s. P s) \<longleftrightarrow> P Pending \<and> P Processing \<and> P Completed \<and> P Failed" for P
    by (metis queue_state.exhaust)
  from steps show ?thesis
    by (cases x; cases y; cases z; cases existing) (auto simp: all split: option.splits)
qed

section \<open>Refinement\<close>

definition queue_reach :: "('a queue_externals_scheme) \<Rightarrow> fs \<Rightarrow> fs \<Rightarrow> bool" where
  "queue_reach qx fs fs' \<longleftrightarrow> (queue_ok qx fs \<longrightarrow> queue_ok qx fs' \<and> queue_step\<^sup>*\<^sup>* (view qx fs) (view qx fs'))"

interpretation reach: tree_relation "queue_reach qx" for qx
  by unfold_locales (auto simp: queue_reach_def)

lemma quiet_reach: "quiet fs fs' \<Longrightarrow> queue_reach qx fs fs'"
  using quiet_view [of fs fs' qx] by (simp add: queue_reach_def)

lemma quiet_runs_reach: "runs_in quiet m fs \<Longrightarrow> runs_in (queue_reach qx) m fs"
  by (simp add: runs_in_def quiet_reach)

lemma reach_assuming: "(queue_ok qx fs \<Longrightarrow> runs_in (queue_reach qx) m fs) \<Longrightarrow> runs_in (queue_reach qx) m fs"
  by (auto simp: runs_in_def queue_reach_def)

lemma queue_reach_step:
  "queue_ok qx fs' \<Longrightarrow> queue_step (view qx fs) (view qx fs') \<Longrightarrow> queue_reach qx fs fs'"
  by (simp add: queue_reach_def r_into_rtranclp)

lemma write_sidecar_view:
  assumes ok: "queue_ok qx fs" and inj: "inj (show_ulid qx)" and at: "present qx fs s i"
    and f: "f \<in> {PHASE_FILE_NAME, RESULT_FILE_NAME}"
    and run: "write_sidecar root (state_path qx s i @ [f]) (worker_temporary_root @ [t]) encoded nr fs = (res, fs')"
  shows "queue_ok qx fs' \<and> present qx fs' s i \<and> (view qx fs' = view qx fs \<and> res \<noteq> Inr () \<or>
    (\<exists>n. view qx fs' = (view qx fs)(i \<mapsto> with_sidecar f (Some n) (entry_view qx fs s i))))"
proof -
  define Q :: "worker_queue_error + unit \<Rightarrow> fs \<Rightarrow> bool" where
    "Q r v \<longleftrightarrow> queue_ok qx v \<and> present qx v s i \<and> (view qx v = view qx fs \<and> r \<noteq> Inr () \<or>
    (\<exists>n. view qx v = (view qx fs)(i \<mapsto> with_sidecar f (Some n) (entry_view qx fs s i))))" for r v
  let ?tmp = "[WORKER_TEMP_DIRECTORY_NAME, t]"
  have q1: "Q (Inl e) u" if "quiet fs u" for e u
    using quiet_view [OF that ok] ok at by (simp add: Q_def)
  have q2: "Q r v" if "quiet fs u" "rename ?tmp (state_path qx s i @ [f]) u = Inr v" for r u v
  proof -
    note u = quiet_view [OF that(1) ok]
    have p: "present qx u s i" using u(3) at by simp
    note v = place_sidecar [OF u(1) inj p f refl outside_names(2) that(2)]
    have "lookup u ?tmp \<noteq> None" "present qx v s i" using v(2,3) p by simp_all
    with v(1,4) u(2,4) show ?thesis by (auto simp: Q_def)
  qed
  have q3: "Q r w" if "Q r v" "quiet v w" for r v w
    using that(1) quiet_view(1-3) [OF that(2), of qx] by (simp add: Q_def)
  have rm: "quiet u (ignoring (remove_file ?tmp) u)" for u
    by (rule remove_file_step.keeps_ignoring) (simp add: outside_Cons outside_names)
  have cn: "quiet u v" if "create_new ?tmp b u = Inr v" for b u v
    using that by (rule create_new_step.keeps_run) (simp add: outside_Cons outside_names)
  have wf: "quiet u v" if "Filesystem.write_file ?tmp b u = Inr v" for b u v
    using that by (rule write_file_step.keeps_run) (simp add: outside_Cons outside_names)
  have chain: "quiet fs v" if "create_new ?tmp a fs = Inr u" "Filesystem.write_file ?tmp b u = Inr v" for a b u v
    using cn [OF that(1)] wf [OF that(2)] by (rule keeping.R_trans)
  have "wp (write_sidecar root (state_path qx s i @ [f]) (worker_temporary_root @ [t]) encoded nr) Q fs"
    unfolding write_sidecar_def worker_temporary_root_def append_Cons append_Nil
    by (rule wp_observe_then, rule q1 [OF keeping.R_refl], rule wp_cleanup [where Q' = Q],
        intro wp_perform_then wp_observe_then)
      (auto simp: wp_observe intro: q1 [OF keeping.R_refl] q1 [OF cn] q1 [OF chain] q2 [OF chain] q3 [OF _ rm])
  from wpD [OF this run] show ?thesis by (simp add: Q_def)
qed

lemma write_sidecar_reach:
  assumes ok: "queue_ok qx fs" and inj: "inj (show_ulid qx)" and at: "present qx fs s i"
    and f: "f = PHASE_FILE_NAME \<and> s = Pending \<or> f = RESULT_FILE_NAME \<and> s \<in> {Pending, Processing}"
  shows "runs_in (queue_reach qx)
    (write_sidecar root (state_path qx s i @ [f]) (worker_temporary_root @ [t]) encoded nr) fs"
proof -
  obtain res fs' where run:
    "write_sidecar root (state_path qx s i @ [f]) (worker_temporary_root @ [t]) encoded nr fs = (res, fs')"
    by fastforce
  have f': "f \<in> {PHASE_FILE_NAME, RESULT_FILE_NAME}" using f by auto
  have v: "view qx fs i = Some (entry_view qx fs s i)" "rv_state (entry_view qx fs s i) = s"
    using view_present [OF ok at] by (simp_all add: entry_view_def)
  have "queue_step (view qx fs) ((view qx fs)(i \<mapsto> with_sidecar f (Some n) (entry_view qx fs s i)))" for n
    using v f by (auto simp: with_sidecar_def PHASE_FILE_NAME_def RESULT_FILE_NAME_def
        intro: queue_step.set_phase queue_step.set_result)
  with write_sidecar_view [OF ok inj at f' run] have "queue_reach qx fs fs'"
    by (auto simp: queue_reach_def)
  then show ?thesis by (simp add: runs_in_def run)
qed

lemma write_sidecar_done:
  assumes "queue_ok qx fs" and "inj (show_ulid qx)" and "present qx fs s i"
    and "f \<in> {PHASE_FILE_NAME, RESULT_FILE_NAME}"
    and "write_sidecar root (state_path qx s i @ [f]) (worker_temporary_root @ [t]) encoded nr fs = (Inr u, fs')"
  shows "queue_ok qx fs'" and "present qx fs' s i" and "lookup fs' (state_path qx s i @ [f]) \<noteq> None"
proof -
  note w = write_sidecar_view [OF assms]
  then show ok: "queue_ok qx fs'" and at: "present qx fs' s i" by simp_all
  from w obtain n where "view qx fs' i = Some (with_sidecar f (Some n) (entry_view qx fs s i))" by auto
  with view_present [OF ok at] have e: "entry_view qx fs' s i = with_sidecar f (Some n) (entry_view qx fs s i)" by simp
  have "rv_phase (entry_view qx fs' s i) \<noteq> None" if "f = PHASE_FILE_NAME"
    unfolding e by (simp add: with_sidecar_def that)
  moreover have "rv_result (entry_view qx fs' s i) \<noteq> None" if "f \<noteq> PHASE_FILE_NAME"
    unfolding e by (simp add: with_sidecar_def that)
  ultimately show "lookup fs' (state_path qx s i @ [f]) \<noteq> None"
    using assms(4) by (cases "f = PHASE_FILE_NAME") (auto simp: entry_view_def)
qed

lemma move_reach:
  assumes "queue_ok qx fs" and "inj (show_ulid qx)" and "present qx fs s i" and "s \<noteq> t"
    and "queue_step (view qx fs) ((view qx fs)(i \<mapsto> (entry_view qx fs s i)\<lparr>rv_state := t\<rparr>))"
    and "rename (state_path qx s i) (state_path qx t i) fs = Inr fs'"
  shows "queue_reach qx fs fs'"
  using move_entry [OF assms(1-4,6)] assms(5) by (intro queue_reach_step) simp_all

lemma entry_view_fields [simp]:
  "rv_state (entry_view qx fs s i) = s"
  "rv_phase (entry_view qx fs s i) = lookup fs (state_path qx s i @ [PHASE_FILE_NAME])"
  "rv_result (entry_view qx fs s i) = lookup fs (state_path qx s i @ [RESULT_FILE_NAME])"
  by (simp_all add: entry_view_def)

lemma ensure_pending_Inr:
  assumes "wf_fs fs" and "ensure_pending_locked wx i fs = Inr d"
  shows "present wx fs Pending i"
proof -
  from assms(2) have "find_existing wx i fs = Inr (Some (Pending, d))"
    by (auto simp: ensure_pending_locked_def attempt_Inr_iff split: option.split_asm if_split_asm)
  from find_existing_Inr [OF assms(1) this] show ?thesis by simp
qed

lemma sync_states_reach: "runs_in (queue_reach qx) (sync_states s t) fs"
  unfolding sync_states_def by (intro reach.run_observe_then reach.run_observe)

lemma claim_prepared_reach:
  assumes inj: "inj (show_ulid wx)"
  shows "runs_in (queue_reach wx) (claim_prepared_with_hook wx queue hook now fresh i batch prepared) fs"
proof (rule reach_assuming)
  assume ok: "queue_ok wx fs"
  show "runs_in (queue_reach wx) (claim_prepared_with_hook wx queue hook now fresh i batch prepared) fs"
    unfolding claim_prepared_with_hook_def Let_def
  proof (intro reach.run_observe_then reach.run_reject_then, goal_cases)
    case (1 _ d n)
    then have at: "present wx fs Pending i" using ok ensure_pending_Inr by (auto simp: queue_ok_def)
    show ?case
    proof (rule reach.run_then)
      show "runs_in (queue_reach wx) (write_phase_record wx fresh (state_path wx Pending i) r) fs" for r
        unfolding write_phase_record_def by (rule write_sidecar_reach [OF ok inj at]) simp
    next
      fix u fs' r
      assume "write_phase_record wx fresh (state_path wx Pending i) r fs = (Inr u, fs')"
      note w = write_sidecar_done [OF ok inj at _ this [unfolded write_phase_record_def]]
      have w: "queue_ok wx fs'" "present wx fs' Pending i" "rv_phase (entry_view wx fs' Pending i) \<noteq> None"
        using w by simp_all
      have "queue_step (view wx fs') ((view wx fs')(i \<mapsto> (entry_view wx fs' Pending i)\<lparr>rv_state := Processing\<rparr>))"
        using w view_present [OF w(1,2)] by (intro queue_step.claim) simp_all
      note move = move_reach [OF w(1) inj w(2) _ this]
      show "runs_in (queue_reach wx) (andthen (observe (\<lambda>_. map_err WorkerIo (hook ClaimPhaseSynchronized))) (\<lambda>_.
          andthen (identity_check queue) (\<lambda>_.
          andthen (perform WorkerIo (rename (state_path wx Pending i) (state_path wx Processing i))) (\<lambda>_.
          andthen (observe (\<lambda>_. map_err WorkerIo (hook ClaimRenamed))) (\<lambda>_.
          andthen (sync_states Processing Pending) (\<lambda>_.
          andthen (observe (\<lambda>_. map_err WorkerIo (hook ClaimDirectoriesSynchronized))) (\<lambda>_.
          andthen (identity_check queue) (\<lambda>_. finish c)))))))) fs'" for c
        by (intro reach.run_observe_then reach.run_perform_then reach.run_then [OF sync_states_reach]
            reach.run_finish) (auto intro: move)
    qed
  qed
qed

lemma check_claim_record_Inr:
  assumes "check_claim_record wx root token state fs = Inr ()"
  shows "\<exists>record bytes m l. lookup fs (root @ [PHASE_FILE_NAME]) = Some (File bytes m l) \<and>
    wx_phase_from_json wx (take (MAXIMUM_PHASE_FILE_BYTES + 1) bytes) = Inr record \<and>
    wp_request_id record = ct_request_id token \<and> wp_batch_id record = ct_batch_id token \<and>
    wp_attempt record = ct_attempt token"
  using assms
  by (auto simp: check_claim_record_def read_required_phase_record_def read_optional_phase_record_def
      read_phase_record_def Let_def attempt_Inr_iff symlink_metadata_def read_file_def
      split: sum.split_asm node.split_asm if_split_asm option.split_asm)

lemma find_existing_state_Inr:
  assumes "wf_fs fs" and "find_existing_state_without_package_read wx i fs = Inr existing"
  shows "case existing of None \<Rightarrow> \<forall>s. \<not> present wx fs s i
    | Some s \<Rightarrow> present wx fs s i \<and> (\<forall>t. present wx fs t i \<longrightarrow> t = s)"
proof -
  have step: "case (x, y) of (None, None) \<Rightarrow> \<not> present wx fs s i
      | (None, Some t) \<Rightarrow> t = s \<and> present wx fs s i
      | (Some z, y) \<Rightarrow> y = Some z \<and> \<not> present wx fs s i"
    if "find_existing_state_in wx fs i s x = Inr y" for s x y
    using that assms(1) symlink_metadata_wf [OF assms(1), of "state_path wx s i"]
    by (auto simp: find_existing_state_in_def Let_def present_def attempt_Inr_iff symlink_metadata_def
        split: sum.splits option.splits if_splits)
  from assms(2) obtain x y z where
    "find_existing_state_in wx fs i Pending None = Inr x" "find_existing_state_in wx fs i Processing x = Inr y"
    "find_existing_state_in wx fs i Completed y = Inr z" "find_existing_state_in wx fs i Failed z = Inr existing"
    by (auto simp: find_existing_state_without_package_read_def queue_states_def attempt_Inr_iff)
  note steps = this [THEN step]
  have all: "(\<forall>s. P s) \<longleftrightarrow> P Pending \<and> P Processing \<and> P Completed \<and> P Failed" for P
    by (metis queue_state.exhaust)
  from steps show ?thesis
    by (cases x; cases y; cases z; cases existing) (auto simp: all split: option.splits)
qed

lemma requeue_reach:
  assumes inj: "inj (show_ulid wx)"
  shows "runs_in (queue_reach wx) (requeue_claimed wx queue token) fs"
proof (rule reach_assuming)
  assume ok: "queue_ok wx fs"
  let ?i = "ct_request_id token"
  have move: "queue_reach wx fs fs'" if "present wx fs Processing ?i"
    "check_claim_record wx (state_path wx Processing ?i) token Processing fs = Inr ()"
    "rename (state_path wx Processing ?i) (state_path wx Pending ?i) fs = Inr fs'" for fs'
  proof -
    from check_claim_record_Inr [OF that(2)]
    have "lookup fs (state_path wx Processing ?i @ [PHASE_FILE_NAME]) \<noteq> None" by auto
    then have "queue_step (view wx fs) ((view wx fs)(?i \<mapsto> (entry_view wx fs Processing ?i)\<lparr>rv_state := Pending\<rparr>))"
      using view_present [OF ok that(1)] by (intro queue_step.requeue) simp_all
    from move_reach [OF ok inj that(1) _ this that(3)] show ?thesis by simp
  qed
  show "runs_in (queue_reach wx) (requeue_claimed wx queue token) fs"
    unfolding requeue_claimed_def Let_def
  proof (intro reach.run_observe_then, goal_cases)
    case (1 _ existing)
    show ?case
    proof (cases existing)
      case None
      then show ?thesis by (simp add: reach.run_observe)
    next
      case (Some sd)
      obtain s d where sd: "sd = (s, d)" by fastforce
      have "present wx fs s ?i"
        using find_existing_Inr [of fs wx ?i existing] 1(2) Some sd ok by (simp add: queue_ok_def)
      then show ?thesis
        unfolding Some sd option.case prod.case
        by (intro reach.run_reject_then reach.run_observe_then reach.run_perform_then
            reach.run_then [OF sync_states_reach] reach.run_finish) (auto intro: move)
    qed
  qed
qed

lemma result_absent_Inr:
  "wf_fs fs \<Longrightarrow> ensure_result_absent root i s fs = Inr () \<Longrightarrow> lookup fs (root @ [RESULT_FILE_NAME]) = None"
  using symlink_metadata_wf [of fs "root @ [RESULT_FILE_NAME]"]
  by (auto simp: ensure_result_absent_def split: sum.splits option.splits if_splits)

lemma ensure_result_record_reach:
  assumes "queue_ok wx fs" and "inj (show_ulid wx)" and "present wx fs s i" and "s \<in> {Pending, Processing}"
  shows "runs_in (queue_reach wx) (ensure_result_record wx now fresh (state_path wx s i) token c state) fs"
  using write_sidecar_reach [OF assms(1-3), of RESULT_FILE_NAME] assms(4) reach.R_refl [of wx fs]
  by (auto simp: ensure_result_record_def runs_in_def write_result_record_def split: sum.splits)

lemma ensure_result_record_done:
  assumes "queue_ok wx fs" and "inj (show_ulid wx)" and "present wx fs s i"
    and "ensure_result_record wx now fresh (state_path wx s i) token c state fs = (Inr u, fs')"
  shows "queue_ok wx fs'" and "present wx fs' s i"
    and "lookup fs' (state_path wx s i @ [RESULT_FILE_NAME]) \<noteq> None"
proof -
  have "queue_ok wx fs' \<and> present wx fs' s i \<and> lookup fs' (state_path wx s i @ [RESULT_FILE_NAME]) \<noteq> None"
  proof (cases "symlink_metadata fs (state_path wx s i @ [RESULT_FILE_NAME])")
    case (Inr n)
    then have "lookup fs (state_path wx s i @ [RESULT_FILE_NAME]) = Some n"
      by (auto simp: symlink_metadata_def attempt_Inr_iff)
    with Inr assms show ?thesis by (auto simp: ensure_result_record_def)
  next
    case (Inl e)
    with assms(4) have "write_result_record wx fresh (state_path wx s i)
        (failed_result (ct_request_id token) (ct_batch_id token) c now) fs = (Inr u, fs')"
      by (auto simp: ensure_result_record_def split: if_splits)
    from write_sidecar_done [OF assms(1-3) _ this [unfolded write_result_record_def]] show ?thesis by auto
  qed
  then show "queue_ok wx fs'" and "present wx fs' s i"
    and "lookup fs' (state_path wx s i @ [RESULT_FILE_NAME]) \<noteq> None" by simp_all
qed

lemma fail_move:
  assumes "queue_ok wx fs" and "inj (show_ulid wx)" and "present wx fs s i" and "s \<in> {Pending, Processing}"
    and "lookup fs (state_path wx s i @ [RESULT_FILE_NAME]) \<noteq> None"
    and "rename (state_path wx s i) (state_path wx Failed i) fs = Inr fs'"
  shows "queue_reach wx fs fs'"
proof -
  have "queue_step (view wx fs) ((view wx fs)(i \<mapsto> (entry_view wx fs s i)\<lparr>rv_state := Failed\<rparr>))"
    using view_present [OF assms(1,3)] assms(4,5) by (intro queue_step.fail) simp_all
  from move_reach [OF assms(1-3) _ this assms(6)] assms(4) show ?thesis by auto
qed

lemma fail_pending_reach:
  assumes inj: "inj (show_ulid wx)"
  shows "runs_in (queue_reach wx) (fail_pending wx queue now fresh i batch c) fs"
proof (rule reach_assuming)
  assume ok: "queue_ok wx fs"
  show "runs_in (queue_reach wx) (fail_pending wx queue now fresh i batch c) fs"
    unfolding fail_pending_def Let_def
  proof (intro reach.run_observe_then, goal_cases)
    case (1 _ existing)
    show ?case
    proof (cases existing)
      case None
      then show ?thesis by (simp add: reach.run_observe)
    next
      case (Some s)
      have at: "present wx fs s i"
        using find_existing_state_Inr [of fs wx i existing] 1(2) Some ok by (simp add: queue_ok_def)
      note w = write_sidecar_reach [OF ok inj, of Pending i RESULT_FILE_NAME]
        and d = write_sidecar_done [OF ok inj, of Pending i RESULT_FILE_NAME]
      show ?thesis
        unfolding Some option.case write_result_record_def
        by (intro reach.run_reject_then reach.run_then [OF w] reach.run_observe_then reach.run_perform_then
            reach.run_then [OF sync_states_reach] reach.run_finish) (use at inj in \<open>auto intro: fail_move dest: d\<close>)
    qed
  qed
qed

lemma transition_reach:
  assumes inj: "inj (show_ulid wx)" and t: "t = Completed \<and> c = None \<or> t = Failed \<and> c \<noteq> None"
  shows "runs_in (queue_reach wx) (transition_claimed wx queue now fresh token t c) fs"
proof (rule reach_assuming)
  assume ok: "queue_ok wx fs"
  let ?i = "ct_request_id token"
  show "runs_in (queue_reach wx) (transition_claimed wx queue now fresh token t c) fs"
    unfolding transition_claimed_def Let_def
  proof (intro reach.run_observe_then, goal_cases)
    case (1 _ existing)
    show ?case
    proof (cases existing)
      case None
      then show ?thesis by (simp add: reach.run_observe)
    next
      case (Some s)
      have at: "present wx fs s ?i"
        using find_existing_state_Inr [of fs wx ?i existing] 1(2) Some ok by (simp add: queue_ok_def)
      have complete: "queue_reach wx fs fs'" if "s = Processing" "c = None"
        "check_claim_record wx (state_path wx Processing ?i) token Processing fs = Inr ()"
        "ensure_result_absent (state_path wx Processing ?i) ?i Processing fs = Inr ()"
        "rename (state_path wx Processing ?i) (state_path wx Completed ?i) fs = Inr fs'" for fs'
      proof -
        have "queue_step (view wx fs) ((view wx fs)(?i \<mapsto> (entry_view wx fs s ?i)\<lparr>rv_state := Completed\<rparr>))"
          using view_present [OF ok at] check_claim_record_Inr [OF that(3)] result_absent_Inr [OF _ that(4)] ok that(1)
          by (intro queue_step.complete) (auto simp: queue_ok_def)
        from move_reach [OF ok inj at _ this] that(1,5) show ?thesis by simp
      qed
      show ?thesis
      proof (cases c)
        case c: None
        with t show ?thesis unfolding Some option.case
          by (auto intro!: reach.run_observe reach.run_reject_then reach.run_observe_then reach.run_perform_then
              reach.run_then [OF sync_states_reach] reach.run_finish intro: complete)
      next
        case c: (Some failure)
        note w = ensure_result_record_reach [OF ok inj, of Processing ?i]
          and d = ensure_result_record_done [OF ok inj, of Processing ?i]
        from c t at inj show ?thesis unfolding Some option.case
          by (auto intro!: reach.run_observe reach.run_reject_then reach.run_then [OF w] reach.run_observe_then
              reach.run_perform_then reach.run_then [OF sync_states_reach] reach.run_finish
              intro: fail_move dest: d)
      qed
    qed
  qed
qed

section \<open>Accepting\<close>

definition staged :: "string \<Rightarrow> path \<Rightarrow> bool" where
  "staged n q \<longleftrightarrow> accepted_path q \<or> q = [''incoming'', n, PHASE_FILE_NAME] \<or> q = [''incoming'', n, RESULT_FILE_NAME]"

lemma keeps_mono: "keeps P fs fs' \<Longrightarrow> (\<And>q. Q q \<Longrightarrow> P q) \<Longrightarrow> keeps Q fs fs'"
  by (simp add: keeps_def)

lemma staged_quiet: "keeps (staged n) fs fs' \<Longrightarrow> quiet fs fs'"
  by (erule keeps_mono) (simp add: staged_def)

lemma incoming_distinct: "NEXT_SEQUENCE_FILE_NAME \<noteq> ''incoming''" "''.next-sequence-'' @ x \<noteq> ''incoming''"
  by (simp_all add: NEXT_SEQUENCE_FILE_NAME_def)

lemma unstaged_names:
  "\<not> staged n [''incoming'', n, DIGEST_FILE_NAME]" "\<not> staged n [''incoming'', n, ACCEPTANCE_FILE_NAME]"
  by (simp_all add: staged_def outside_Cons outside_names DIGEST_FILE_NAME_def ACCEPTANCE_FILE_NAME_def
      PHASE_FILE_NAME_def RESULT_FILE_NAME_def)

lemma allocate_sequence_keeps:
  assumes "\<And>q. P q \<Longrightarrow> q \<noteq> [] \<and> hd q \<in> insert ''incoming'' (range directory_name)"
  shows "runs_in (keeps P) (allocate_sequence qx fresh) fs"
proof -
  have out: "\<not> P q" if "c \<notin> range directory_name" "c \<noteq> ''incoming''" "prefix [c] q" for c q
    using that assms [of q] by (cases q) auto
  have r: "keeps P u v" if
    "rename [''.next-sequence-'' @ show_ulid qx fresh] [NEXT_SEQUENCE_FILE_NAME] u = Inr v" for u v
    using that
    by (rule rename_step.keeps_run)
      (use out [OF outside_names(4) incoming_distinct(2)] out [OF outside_names(3) incoming_distinct(1)] in blast)
  have p: "\<not> P [''.next-sequence-'' @ show_ulid qx fresh]"
    by (rule out [OF outside_names(4) incoming_distinct(2)]) simp
  show ?thesis
    unfolding allocate_sequence_def Let_def
    by (intro keeping.run_observe_then keeping.run_perform_then keeping.run_then keeping.run_cleanup
        keeping.run_perform keeping.run_finish)
      (auto intro: create_new_step.keeps_run remove_file_step.keeps_ignoring r
        simp: p simp del: append_Cons append_Nil)
qed

lemma write_digest_keeps:
  "\<not> P [''incoming'', n, DIGEST_FILE_NAME] \<Longrightarrow> runs_in (keeps P) (write_digest_file [''incoming'', n] digest) fs"
  unfolding write_digest_file_def by (intro keeping.run_perform create_new_step.keeps_run) auto

lemma write_acceptance_keeps:
  "\<not> P [''incoming'', n, ACCEPTANCE_FILE_NAME] \<Longrightarrow> runs_in (keeps P) (write_acceptance_file qx [''incoming'', n] a) fs"
  unfolding write_acceptance_file_def Let_def
  by (intro keeping.run_perform_then keeping.run_observe_then keeping.run_perform create_new_step.keeps_run
      write_file_step.keeps_run) auto

lemma allocate_sequence_staged: "runs_in (keeps (staged n)) (allocate_sequence qx fresh) fs"
  by (rule allocate_sequence_keeps) (auto simp: staged_def accepted_path_def)

lemma write_digest_staged: "runs_in (keeps (staged n)) (write_digest_file [''incoming'', n] digest) fs"
  by (rule write_digest_keeps) (rule unstaged_names)

lemma write_acceptance_staged: "runs_in (keeps (staged n)) (write_acceptance_file qx [''incoming'', n] a) fs"
  by (rule write_acceptance_keeps) (rule unstaged_names)

lemma root_names:
  assumes "try_fold (check_root_entry False deadline) entries names = Inr r" and "(k, c) \<in> set entries"
  shows "c \<in> {REQUEST_FILE_NAME, PAYLOAD_DIRECTORY_NAME}"
  using assms
  by (induction entries arbitrary: names) (auto simp: attempt_Inr_iff check_root_entry_def Let_def split: if_splits)

lemma validated_incoming_names:
  assumes "validate_package_until ex (subtree p fs) policy deadline = Inr pkg" and "wf_fs fs"
    and "lookup fs (p @ [c]) \<noteq> None"
  shows "c \<in> {REQUEST_FILE_NAME, PAYLOAD_DIRECTORY_NAME}"
proof -
  have d: "distinct (map fst (filter (\<lambda>(q, _). prefix p q) fs))"
    using assms(2) by (auto simp: wf_fs_def distinct_map inj_on_def)
  have "distinct (map fst (subtree p fs))"
    unfolding subtree_def map_map
  proof (subst distinct_map, intro conjI)
    show "distinct (filter (\<lambda>(q, _). prefix p q) fs)" using d by (simp add: distinct_map)
    show "inj_on (fst \<circ> (\<lambda>(q, n). (drop (length p) q, n))) (set (filter (\<lambda>(q, _). prefix p q) fs))"
    proof (rule inj_onI)
      fix x y
      assume x: "x \<in> set (filter (\<lambda>(q, _). prefix p q) fs)" and y: "y \<in> set (filter (\<lambda>(q, _). prefix p q) fs)"
        and e: "(fst \<circ> (\<lambda>(q, n). (drop (length p) q, n))) x = (fst \<circ> (\<lambda>(q, n). (drop (length p) q, n))) y"
      from x y e have "fst x = fst y" by (auto simp: prefix_def)
      with d x y show "x = y" by (metis (no_types, lifting) distinct_map inj_onD)
    qed
  qed
  then have c: "c \<in> set (children (subtree p fs) [])"
    using assms(3) by (simp add: children_iff lookup_subtree)
  from assms(1) obtain r where
    "try_fold (check_root_entry False deadline) (List.enumerate 0 (children (subtree p fs) [])) [] = Inr r"
    by (auto simp: validate_package_until_def validate_package_root_def attempt_Inr_iff read_dir_Inr_iff
        Let_def split: if_splits)
  moreover obtain k where "k < length (children (subtree p fs) [])" "children (subtree p fs) [] ! k = c"
    using c by (auto simp: in_set_conv_nth)
  then have "(k, c) \<in> set (List.enumerate 0 (children (subtree p fs) []))"
    by (simp add: in_set_enumerate_eq)
  ultimately show ?thesis by (rule root_names)
qed

lemma accept_move:
  assumes ok: "queue_ok qx fs" and inj: "inj (show_ulid qx)" and none: "\<And>s. \<not> present qx fs s i"
    and side: "lookup fs [''incoming'', n, PHASE_FILE_NAME] = None" "lookup fs [''incoming'', n, RESULT_FILE_NAME] = None"
    and run: "rename [''incoming'', n] (state_path qx Pending i) fs = Inr fs'"
  shows "queue_reach qx fs fs'"
proof -
  have "view qx fs i = None" using none by (simp add: view_None_iff)
  note p = place_entry [OF ok inj this outside_Cons [OF outside_names(1)] _ _ run]
  have "queue_step (view qx fs) (view qx fs')"
    using p(2) side \<open>view qx fs i = None\<close> by (simp add: queue_step.accept)
  then show ?thesis using p(1) by (intro queue_reach_step) simp_all
qed

lemma keeps_wf: "keeps P fs fs' \<Longrightarrow> wf_fs fs \<Longrightarrow> wf_fs fs'"
  by (simp add: keeps_def)

lemma runs_inD: "runs_in R m fs \<Longrightarrow> m fs = (r, fs') \<Longrightarrow> R fs fs'"
  by (simp add: runs_in_def)

lemma accept_stage_reach:
  assumes inj: "inj (show_ulid qx)"
  shows "runs_in (queue_reach qx) (accept_stage qx queue deadline locked hook client now fresh [''incoming'', n]) fs"
proof (rule reach_assuming)
  assume ok: "queue_ok qx fs"
  then have wf: "wf_fs fs" by (simp add: queue_ok_def)
  note reach = quiet_runs_reach
  have quiet: "runs_in quiet m u" if "runs_in (keeps (staged n)) m u" for m :: "('e, 'x) action" and u
    using that by (simp add: runs_in_def staged_quiet)
  show "runs_in (queue_reach qx) (accept_stage qx queue deadline locked hook client now fresh [''incoming'', n]) fs"
    unfolding accept_stage_def Let_def
  proof (intro reach.run_observe_then reach.run_then [OF quiet_runs_reach [OF quiet [OF write_digest_staged]]], goal_cases)
    case (1 _ pkg _ fs1 _ _ _ _ existing)
    let ?i = "cr_request_id (vp_request pkg)"
    have names: "c \<in> {REQUEST_FILE_NAME, PAYLOAD_DIRECTORY_NAME}" if "lookup fs ([''incoming'', n] @ [c]) \<noteq> None" for c
      using 1(2) by (intro validated_incoming_names [OF _ wf that]) simp
    have side: "lookup fs [''incoming'', n, PHASE_FILE_NAME] = None" "lookup fs [''incoming'', n, RESULT_FILE_NAME] = None"
      by (rule ccontr, drule names [simplified append_Cons append_Nil], simp add: PHASE_FILE_NAME_def
          RESULT_FILE_NAME_def REQUEST_FILE_NAME_def PAYLOAD_DIRECTORY_NAME_def)+
    have k1: "keeps (staged n) fs fs1" using runs_inD [OF write_digest_staged 1(3)] .
    show ?case
    proof (cases existing)
      case (Some sd)
      then show ?thesis by (cases sd) (auto intro!: reach.run_observe_then reach.run_finish)
    next
      case None
      have move: "queue_reach qx fs3 fs4" if "keeps (staged n) fs1 fs3"
        "rename [''incoming'', n] (state_path qx Pending ?i) fs3 = Inr fs4" for fs3 fs4
      proof (rule accept_move [OF _ inj _ _ _ that(2)])
        have k: "keeps (staged n) fs fs3" using k1 that(1) by (rule keeping.R_trans)
        show "queue_ok qx fs3" using quiet_view(1) [OF staged_quiet [OF k] ok] .
        show "lookup fs3 [''incoming'', n, PHASE_FILE_NAME] = None" "lookup fs3 [''incoming'', n, RESULT_FILE_NAME] = None"
          using k wf side by (simp_all add: keeps_def staged_def)
        have "\<not> present qx fs1 s ?i" for s
          using find_existing_Inr [OF keeps_wf [OF k1 wf]] 1(8) None by fastforce
        then show "\<not> present qx fs3 s ?i" for s
          using quiet_view(3) [OF staged_quiet [OF that(1)] quiet_view(1) [OF staged_quiet [OF k1] ok]] by simp
      qed
      show ?thesis
        unfolding None option.case
        by (intro reach.run_then [OF quiet_runs_reach [OF quiet [OF allocate_sequence_staged]]]
            reach.run_then [OF quiet_runs_reach [OF quiet [OF write_acceptance_staged]]] reach.run_reject_then
            reach.run_observe_then reach.run_perform_then reach.run_finish)
          (rule move, rule keeping.R_trans, erule runs_inD [OF allocate_sequence_staged],
            erule runs_inD [OF write_acceptance_staged], assumption)
    qed
  qed
qed

lemma accept_reach:
  assumes inj: "inj (show_ulid qx)"
  shows "runs_in (queue_reach qx)
    (accept_with_hook_until qx queue deadline locked hook client now fresh [''incoming'', n]) fs"
  using accept_stage_reach [OF inj, of queue deadline locked hook client now fresh n fs]
    quiet_reach [OF drop_incoming_quiet [of _ "[n]"], of qx]
  by (auto simp: runs_in_def accept_with_hook_until_def intro: reach.R_trans split: prod.splits sum.splits)

section \<open>Claims, sessions and batches\<close>

lemma claim_with_hook_reach:
  assumes "inj (show_ulid wx)"
  shows "runs_in (queue_reach wx) (claim_with_hook wx queue hook now fresh i batch) fs"
  unfolding claim_with_hook_def by (intro reach.run_observe_then claim_prepared_reach [OF assms])

lemma claim_each_reach:
  assumes "inj (show_ulid wx)"
  shows "runs_in (queue_reach wx) (claim_each wx queue clock fresh batch prepared) fs"
proof (induction prepared arbitrary: fs)
  case (Cons x prepared)
  then show ?case
    by (cases x) (auto intro!: reach.run_then [OF claim_prepared_reach [OF assms]] reach.run_then [OF Cons.IH] reach.run_finish)
qed (simp add: reach.run_finish)

lemma complete_claimed_reach:
  "inj (show_ulid wx) \<Longrightarrow> runs_in (queue_reach wx) (complete_claimed wx queue now fresh token) fs"
  by (simp add: complete_claimed_def transition_reach)

lemma fail_claimed_reach:
  "inj (show_ulid wx) \<Longrightarrow> runs_in (queue_reach wx) (fail_claimed wx queue now fresh token c) fs"
  by (simp add: fail_claimed_def transition_reach)

lemma reconcile_reach:
  assumes "inj (show_ulid wx)"
  shows "runs_in (queue_reach wx) (reconcile_batch wx queue clock fresh batch successful failures session) fs"
  unfolding reconcile_batch_def Let_def
  by (intro reach.run_observe_then reach.run_reject_then reach.run_then reach.run_finish reach.run_each)
    (auto intro: complete_claimed_reach [OF assms] fail_claimed_reach [OF assms])

text \<open>A session step that does the same.\<close>

definition session_runs ::
  "(fs \<Rightarrow> fs \<Rightarrow> bool) \<Rightarrow> 'a session_step \<Rightarrow> worker_session \<Rightarrow> fs \<Rightarrow> bool" where
  "session_runs R m session fs \<longleftrightarrow> R fs (snd (snd (m session fs)))"

lemma guarded_reach:
  "runs_in (queue_reach wx) m fs \<Longrightarrow> session_runs (queue_reach wx) (guarded_transition queue m) session fs"
  by (auto simp: session_runs_def runs_in_def guarded_transition_def reach.R_refl split: sum.splits prod.splits)

lemma retain_reach:
  assumes "inj (show_ulid wx)"
  shows "runs_in (queue_reach wx) (retain_pending_candidate wx queue clock fresh batch m name scan) fs"
  unfolding retain_pending_candidate_def
proof (rule reach.run_observe_then)
  fix i
  have "runs_in (queue_reach wx) (andthen (fail_pending wx queue (clock i) (fresh i) i batch c) (\<lambda>_. finish x)) fs" for c and x :: pending_batch_scan
    by (intro reach.run_then [OF fail_pending_reach [OF assms]] reach.run_finish)
  then show "runs_in (queue_reach wx) (\<lambda>fs. case inspect_pending_candidate wx queue (pb_maximum_sequence scan) i fs of
      Inl e \<Rightarrow> if is_corrupt e then andthen (fail_pending wx queue (clock i) (fresh i) i batch (worker_error_code e))
          (\<lambda>_. finish (scan\<lparr>pb_failed_requests := saturating_add_u64 (pb_failed_requests scan) 1\<rparr>)) fs else (Inl e, fs)
    | Inr None \<Rightarrow> (Inr scan, fs)
    | Inr (Some candidate) \<Rightarrow> (Inr (scan\<lparr>pb_candidates := retain_candidate m candidate (pb_candidates scan)\<rparr>), fs)) fs"
    by (auto simp: runs_in_def reach.R_refl split: sum.split option.split)
qed

lemma scan_reach:
  assumes "inj (show_ulid wx)"
  shows "queue_reach wx fs (snd (snd (scan_candidates wx queue clock fresh batch m budget scanned scan fs)))"
proof (induction budget arbitrary: scanned scan fs)
  case (Suc budget)
  have step: "queue_reach wx fs fs'"
    if "retain_pending_candidate wx queue clock fresh batch m name scan' fs = (r, fs')" for name scan' r fs'
    by (rule runs_inD [OF retain_reach [OF assms] that])
  show ?case
    by (auto simp: reach.R_refl intro: step reach.R_trans [OF step Suc] split: option.split list.split prod.splits sum.split)
qed (simp add: reach.R_refl)

lemma claim_candidates_reach:
  assumes "inj (show_ulid wx)"
  shows "session_runs (queue_reach wx) (claim_candidates wx queue clock fresh batch candidates failed) session fs"
  by (auto simp: session_runs_def claim_candidates_def reach.R_refl split: sum.split prod.splits
      intro: runs_inD [OF claim_each_reach [OF assms]])

lemma claim_batch_reach:
  assumes "inj (show_ulid wx)"
  shows "session_runs (queue_reach wx) (claim_batch wx queue clock fresh batch entries m requested) session fs"
proof -
  have scan: "queue_reach wx fs fs'"
    if "scan_candidates wx queue clock fresh batch m entries 0 scan fs = (r, scan', fs')" for scan r scan' fs'
    using scan_reach [OF assms, of fs queue clock fresh batch m entries 0 scan] that by simp
  note claim = claim_candidates_reach [OF assms, unfolded session_runs_def]
  show ?thesis
    unfolding session_runs_def claim_batch_def
    by (auto simp: reach.R_refl split: sum.split prod.splits intro: scan reach.R_trans [OF scan claim])
qed

end
