(* ===== verification/Queue_Maintenance.thy ===== *)
theory Queue_Maintenance
  imports Queue_Storage
begin

text \<open>
  The maintenance of abandoned staging directories (\<open>crates/queue/src/file_queue.rs\<close>):
  \<open>quarantine_stale_incoming\<close> moves them aside, \<open>reap_quarantined_incoming\<close> removes them
  later. Modification times, the clock, the advisory locks on the directories and the timestamp
  codec are the record \<open>maintenance\<close>. The position of a directory scan is kept between calls:
  it is the list of names still to come, or nothing before the scan starts.
\<close>

definition QUARANTINE_MARKER_FILE_NAME :: string where "QUARANTINE_MARKER_FILE_NAME = ''.quarantined-at''"
definition MAXIMUM_QUARANTINE_MARKER_BYTES :: nat where "MAXIMUM_QUARANTINE_MARKER_BYTES = 64"

datatype stale_age_source = DirectoryAge | QuarantineMarkerAge

datatype quarantine_marker = MarkerComplete nat | MissingOrIncomplete | UnsafeType

record maintenance =
  me_now :: nat
  me_modified :: "path \<Rightarrow> io_error + nat"
  me_lease :: "path \<Rightarrow> try_lock_result"
  me_rfc3339_parses :: "string \<Rightarrow> bool"
  me_timestamp :: "string + string"
  me_fresh :: "path \<Rightarrow> ulid"

definition is_staging_directory_name :: "('a queue_externals_scheme) \<Rightarrow> string \<Rightarrow> bool" where
  "is_staging_directory_name qx name =
     (case strip_prefix ''.incoming-'' name of
        None \<Rightarrow> False
      | Some value \<Rightarrow>
          (case qx_ulid_parse qx value of
             Inl _ \<Rightarrow> False
           | Inr identifier \<Rightarrow> show_ulid qx identifier = value))"

definition inspect_quarantine_marker ::
  "maintenance \<Rightarrow> path \<Rightarrow> fs \<Rightarrow> queue_error + quarantine_marker" where
  "inspect_quarantine_marker env package_root fs =
     (let marker_path = package_root @ [QUARANTINE_MARKER_FILE_NAME] in
      case symlink_metadata fs marker_path of
        Inl e \<Rightarrow> if e = NotFound then Inr MissingOrIncomplete else Inl (QueueIo e)
      | Inr (File contents _ _) \<Rightarrow>
          (let bytes = take (MAXIMUM_QUARANTINE_MARKER_BYTES + 1) contents in
           if length bytes > MAXIMUM_QUARANTINE_MARKER_BYTES then Inr MissingOrIncomplete
           else if \<not> is_utf8 bytes then Inr MissingOrIncomplete
           else (case strip_suffix_char lf bytes of
                   None \<Rightarrow> Inr MissingOrIncomplete
                 | Some timestamp \<Rightarrow>
                     if lf \<in> set timestamp \<or> \<not> me_rfc3339_parses env timestamp
                     then Inr MissingOrIncomplete
                     else attempt (map_err QueueIo (me_modified env marker_path)) (\<lambda>modified.
                            Inr (MarkerComplete modified))))
      | Inr _ \<Rightarrow> Inr UnsafeType)"

definition remove_incoming_quarantine_marker :: "path \<Rightarrow> (queue_error, unit) action" where
  "remove_incoming_quarantine_marker package_root fs =
     (let marker_path = package_root @ [QUARANTINE_MARKER_FILE_NAME] in
      case symlink_metadata fs marker_path of
        Inr (File _ _ _) \<Rightarrow>
          andthen (perform QueueIo (remove_file marker_path)) (\<lambda>_. observe (sync_path package_root)) fs
      | Inr _ \<Rightarrow> (Inl (InvalidStoragePath marker_path), fs)
      | Inl e \<Rightarrow> (if e = NotFound then Inr () else Inl (QueueIo e), fs))"

definition replace_quarantine_marker ::
  "('a queue_externals_scheme) \<Rightarrow> maintenance \<Rightarrow> path \<Rightarrow> (queue_error, unit) action" where
  "replace_quarantine_marker qx env package_root =
     (let marker_path = package_root @ [QUARANTINE_MARKER_FILE_NAME];
          temporary_path = package_root @ [''.quarantine-marker-'' @ show_ulid qx (me_fresh env package_root)] in
     andthen (observe (\<lambda>fs. case symlink_metadata fs marker_path of
         Inr (File _ _ _) \<Rightarrow> Inr ()
       | Inr _ \<Rightarrow> Inl (InvalidStoragePath marker_path)
       | Inl e \<Rightarrow> if e = NotFound then Inr () else Inl (QueueIo e))) (\<lambda>_.
     or_cleanup (ignoring (remove_file temporary_path))
      (andthen (perform QueueIo (create_new temporary_path [])) (\<lambda>_.
       andthen (observe (\<lambda>_. map_err QuarantineTimestamp (me_timestamp env))) (\<lambda>timestamp.
       andthen (perform QueueIo (Filesystem.write_file temporary_path (timestamp @ [lf]))) (\<lambda>_.
       andthen (perform QueueIo (rename temporary_path marker_path)) (\<lambda>_.
         observe (sync_path package_root))))))))"

datatype stale_verdict = SkipEntry | RepairedMarker | StaleEntry

text \<open>The age check of the loop, and the lease: a directory whose lease is held is in use.\<close>

definition stale_age :: "maintenance \<Rightarrow> nat \<Rightarrow> path \<Rightarrow> nat \<Rightarrow> queue_error + stale_verdict" where
  "stale_age env minimum_age p modified =
     (if modified > me_now env then Inr SkipEntry
      else if me_now env - modified < minimum_age then Inr SkipEntry
      else (case me_lease env p of
              LockTaken \<Rightarrow> Inr StaleEntry
            | WouldBlock \<Rightarrow> Inr SkipEntry
            | LockError e \<Rightarrow> Inl (QueueIo e)))"

text \<open>One round of the loop of \<open>inactive_stale_directories\<close>.\<close>

definition stale_entry ::
  "('a queue_externals_scheme) \<Rightarrow> maintenance \<Rightarrow> path \<Rightarrow> nat \<Rightarrow> stale_age_source \<Rightarrow> string \<Rightarrow>
   (queue_error, stale_verdict) action" where
  "stale_entry qx env root minimum_age age_source name fs =
     (let p = root @ [name] in
      if \<not> is_utf8 name then (Inr SkipEntry, fs)
      else if \<not> is_staging_directory_name qx name then (Inr SkipEntry, fs)
      else (case symlink_metadata fs p of
              Inl e \<Rightarrow> (Inl (QueueIo e), fs)
            | Inr metadata \<Rightarrow>
                if metadata \<noteq> Dir then (Inr SkipEntry, fs)
                else (case age_source of
                        DirectoryAge \<Rightarrow>
                          (attempt (map_err QueueIo (me_modified env p)) (stale_age env minimum_age p), fs)
                      | QuarantineMarkerAge \<Rightarrow>
                          (case inspect_quarantine_marker env p fs of
                             Inl e \<Rightarrow> (Inl e, fs)
                           | Inr (MarkerComplete modified) \<Rightarrow> (stale_age env minimum_age p modified, fs)
                           | Inr MissingOrIncomplete \<Rightarrow>
                               andthen (replace_quarantine_marker qx env p) (\<lambda>_. finish RepairedMarker) fs
                           | Inr UnsafeType \<Rightarrow> (Inr SkipEntry, fs)))))"

text \<open>The loop: how many entries may still be looked at, how many actions are left, the names to
  come, the directories found so far. It gives the position of the scan too.\<close>

fun stale_entries ::
  "('a queue_externals_scheme) \<Rightarrow> maintenance \<Rightarrow> path \<Rightarrow> nat \<Rightarrow> stale_age_source \<Rightarrow> nat \<Rightarrow> nat \<Rightarrow>
   string list \<Rightarrow> path list \<Rightarrow> fs \<Rightarrow> (queue_error + path list) \<times> string list option \<times> fs" where
  "stale_entries qx env root minimum_age age_source scans actions entries stale fs =
     (if scans = 0 \<or> actions = 0 then (Inr stale, Some entries, fs)
      else case entries of
        [] \<Rightarrow> (Inr stale, None, fs)
      | name # rest \<Rightarrow>
          (case stale_entry qx env root minimum_age age_source name fs of
             (Inl e, fs') \<Rightarrow> (Inl e, Some rest, fs')
           | (Inr SkipEntry, fs') \<Rightarrow>
               stale_entries qx env root minimum_age age_source (scans - 1) actions rest stale fs'
           | (Inr RepairedMarker, fs') \<Rightarrow>
               stale_entries qx env root minimum_age age_source (scans - 1) (actions - 1) rest stale fs'
           | (Inr StaleEntry, fs') \<Rightarrow>
               stale_entries qx env root minimum_age age_source (scans - 1) (actions - 1) rest
                 (stale @ [root @ [name]]) fs'))"

declare stale_entries.simps [simp del]

definition inactive_stale_directories ::
  "('a queue_externals_scheme) \<Rightarrow> maintenance \<Rightarrow> path \<Rightarrow> nat \<Rightarrow> nat \<Rightarrow> nat \<Rightarrow> stale_age_source \<Rightarrow>
   string list option \<Rightarrow> fs \<Rightarrow> (queue_error + path list) \<times> string list option \<times> fs" where
  "inactive_stale_directories qx env root minimum_age maximum_scan_entries maximum_actions age_source scanner fs =
     (if maximum_scan_entries = 0 \<or> maximum_actions = 0 then (Inr [], scanner, fs)
      else case (case scanner of
                   Some entries \<Rightarrow> Inr entries
                 | None \<Rightarrow> map_err QueueIo (read_dir fs root)) of
        Inl e \<Rightarrow> (Inl e, scanner, fs)
      | Inr entries \<Rightarrow>
          stale_entries qx env root minimum_age age_source maximum_scan_entries maximum_actions entries [] fs)"

text \<open>The moves into \<open>quarantine\<close>: a marker that cannot be written still synchronizes both
  directories before the error is returned.\<close>

fun quarantine_each ::
  "('a queue_externals_scheme) \<Rightarrow> maintenance \<Rightarrow> path list \<Rightarrow> nat \<Rightarrow> (queue_error, nat) action" where
  "quarantine_each qx env [] moved = finish moved"
| "quarantine_each qx env (candidate # rest) moved =
     (let destination = [''quarantine'', last candidate] in
     andthen (remove_incoming_quarantine_marker candidate) (\<lambda>_.
     andthen (perform QueueIo (rename candidate destination)) (\<lambda>_.
     (\<lambda>fs. case replace_quarantine_marker qx env destination fs of
        (Inl e, fs') \<Rightarrow>
          (attempt (sync_path [''quarantine''] fs') (\<lambda>_.
           attempt (sync_path [''incoming''] fs') (\<lambda>_. Inl e)), fs')
      | (Inr _, fs') \<Rightarrow> quarantine_each qx env rest (moved + 1) fs'))))"

definition quarantine_candidates ::
  "('a queue_externals_scheme) \<Rightarrow> file_queue \<Rightarrow> maintenance \<Rightarrow> path list \<Rightarrow> (queue_error, nat) action" where
  "quarantine_candidates qx queue env candidates =
     andthen (quarantine_each qx env candidates 0) (\<lambda>moved.
     andthen (observe (\<lambda>fs. if moved > 0
       then attempt (sync_path [''quarantine''] fs) (\<lambda>_. sync_path [''incoming''] fs) else Inr ())) (\<lambda>_.
     andthen (observe (current_identity_locked queue)) (\<lambda>_. finish moved)))"

definition quarantine_stale_incoming ::
  "('a queue_externals_scheme) \<Rightarrow> file_queue \<Rightarrow> maintenance \<Rightarrow> queue_error + unit \<Rightarrow> nat \<Rightarrow> nat \<Rightarrow> nat \<Rightarrow>
   string list option \<Rightarrow> fs \<Rightarrow> (queue_error + nat) \<times> string list option \<times> fs" where
  "quarantine_stale_incoming qx queue env locked minimum_age maximum_scan_entries maximum_actions scanner fs =
     (case attempt locked (\<lambda>_. current_identity_locked queue fs) of
        Inl e \<Rightarrow> (Inl e, scanner, fs)
      | Inr _ \<Rightarrow>
          (case inactive_stale_directories qx env [''incoming''] minimum_age maximum_scan_entries
                  maximum_actions DirectoryAge scanner fs of
             (Inl e, scanner', fs') \<Rightarrow> (Inl e, scanner', fs')
           | (Inr candidates, scanner', fs') \<Rightarrow>
               (case quarantine_candidates qx queue env candidates fs' of
                  (result, fs'') \<Rightarrow> (result, scanner', fs''))))"

definition reap_candidates :: "file_queue \<Rightarrow> path list \<Rightarrow> (queue_error, nat) action" where
  "reap_candidates queue candidates =
     andthen (act_each (\<lambda>candidate. perform QueueIo (remove_dir_all candidate)) candidates) (\<lambda>_.
     andthen (observe (\<lambda>fs. if length candidates > 0 then sync_path [''quarantine''] fs else Inr ())) (\<lambda>_.
     andthen (observe (current_identity_locked queue)) (\<lambda>_. finish (length candidates))))"

definition reap_quarantined_incoming ::
  "('a queue_externals_scheme) \<Rightarrow> file_queue \<Rightarrow> maintenance \<Rightarrow> queue_error + unit \<Rightarrow> nat \<Rightarrow> nat \<Rightarrow> nat \<Rightarrow>
   string list option \<Rightarrow> fs \<Rightarrow> (queue_error + nat) \<times> string list option \<times> fs" where
  "reap_quarantined_incoming qx queue env locked minimum_age maximum_scan_entries maximum_actions scanner fs =
     (case attempt locked (\<lambda>_. current_identity_locked queue fs) of
        Inl e \<Rightarrow> (Inl e, scanner, fs)
      | Inr _ \<Rightarrow>
          (case inactive_stale_directories qx env [''quarantine''] minimum_age maximum_scan_entries
                  maximum_actions QuarantineMarkerAge scanner fs of
             (Inl e, scanner', fs') \<Rightarrow> (Inl e, scanner', fs')
           | (Inr candidates, scanner', fs') \<Rightarrow>
               (case reap_candidates queue candidates fs' of
                  (result, fs'') \<Rightarrow> (result, scanner', fs''))))"

end
