(* ===== verification/Queue_Operations.thy ===== *)
theory Queue_Operations
  imports Queue_Protocol Queue_Maintenance
begin

text \<open>
  The calls of the queue's public interface as one step relation on the tree. Uploads and the
  maintenance of staging directories leave accepted requests alone; so every sequence of calls, in
  any interleaving, is a sequence of protocol steps.
\<close>

section \<open>Receiving leaves accepted requests alone\<close>

lemma outside_incoming: "\<not> accepted_path (''incoming'' # q)"
  by (rule outside_Cons [OF outside_names(1)])

lemma remove_dir_quiet: "quiet fs (ignoring (remove_dir (''incoming'' # p)) fs)"
proof -
  have "quiet fs fs'" if r: "remove_dir (''incoming'' # p) fs = Inr fs'" for fs'
  proof -
    have e: "fs' = filter (\<lambda>(q, _). q \<noteq> ''incoming'' # p) fs" "children fs (''incoming'' # p) = []"
      using r by (auto simp: remove_dir_def attempt_Inr_iff split: if_splits)
    have "wf_fs fs'" if wf: "wf_fs fs"
    proof -
      have "lookup fs ((''incoming'' # p) @ [c]) = None" for c
        using children_iff [of fs c "''incoming'' # p"] wf e(2) by (auto simp: wf_fs_def)
      then show ?thesis unfolding e(1) by (intro wf_fs_filter [OF wf]) auto
    qed
    moreover have "lookup fs' q = lookup fs q" if "accepted_path q" for q
      using that outside_incoming [of p] lookup_filter [of "\<lambda>q. q \<noteq> ''incoming'' # p" fs q] e(1) by auto
    ultimately show ?thesis by (simp add: keeps_def)
  qed
  then show ?thesis by (auto simp: ignoring_def keeping.R_refl split: sum.split)
qed

lemma remove_incoming_quiet: "quiet fs (ignoring (remove_dir_all (''incoming'' # p)) fs)"
  using drop_incoming_quiet by (simp add: drop_incoming_def)

lemma create_incoming_quiet: "create_dir (''incoming'' # p) fs = Inr fs' \<Longrightarrow> quiet fs fs'"
  by (erule create_dir_step.keeps_run) (simp add: outside_incoming)

lemma begin_attempts_quiet: "runs_in quiet (begin_attempts qx queue lease names) fs"
proof (induction names arbitrary: fs)
  case Nil
  then show ?case by (simp add: runs_in_def keeping.R_refl)
next
  case (Cons fresh names)
  let ?p = "[''incoming'', ''.incoming-'' @ show_ulid qx fresh]"
  have two: "quiet fs v" if "create_dir ?p fs = Inr u" "create_dir (?p @ [PAYLOAD_DIRECTORY_NAME]) u = Inr v" for u v
    by (rule keeping.R_trans [OF create_incoming_quiet [OF that(1)] create_incoming_quiet [OF that(2) [unfolded append_Cons append_Nil]]])
  have rm: "quiet fs w" if "create_dir ?p fs = Inr u" "w = ignoring (remove_dir ?p) u" for u w
    unfolding that(2) by (rule keeping.R_trans [OF create_incoming_quiet [OF that(1)] remove_dir_quiet])
  have rma: "quiet fs w" if "quiet fs u" "w = ignoring (remove_dir_all ?p) u" for u w
    unfolding that(2) by (rule keeping.R_trans [OF that(1) remove_incoming_quiet])
  show ?case
  proof (cases "create_dir ?p fs")
    case (Inl e)
    with Cons show ?thesis by (auto simp: runs_in_def Let_def keeping.R_refl simp del: append_Cons append_Nil)
  next
    case u: (Inr u)
    show ?thesis
    proof (cases "create_dir (?p @ [PAYLOAD_DIRECTORY_NAME]) u")
      case (Inl e)
      with u rm [OF u refl] show ?thesis by (simp add: runs_in_def Let_def del: append_Cons append_Nil)
    next
      case v: (Inr v)
      with u two [OF u v] rma [OF two [OF u v] refl] show ?thesis
        by (simp add: runs_in_def Let_def del: append_Cons append_Nil split: sum.split)
    qed
  qed
qed

lemma begin_until_quiet: "runs_in quiet (begin_until qx queue locked lease fresh) fs"
  unfolding begin_until_def by (intro keeping.run_observe_then begin_attempts_quiet)

lemma begin_staging:
  "begin_attempts qx queue lease names fs = (Inr package, fs') \<Longrightarrow> \<exists>n. ip_staging_path package = [''incoming'', n]"
  by (induction names arbitrary: fs) (auto simp: Let_def split: sum.split_asm if_split_asm)

text \<open>A package handle whose directory is a staging directory.\<close>

definition staging :: "incoming_package \<Rightarrow> bool" where
  "staging package \<longleftrightarrow> (\<exists>n. ip_staging_path package = [''incoming'', n])"

lemma incoming_write_quiet:
  "quiet fs (snd (snd (incoming_write_file queue package (''incoming'' # p) source fs)))"
proof -
  have "runs_in quiet (andthen (observe (\<lambda>_. next_counts limits d f)) (\<lambda>next_file_count.
      andthen (perform QueueIo (create_new (''incoming'' # p) [])) (\<lambda>_.
      andthen (or_cleanup (ignoring (remove_file (''incoming'' # p)))
        (observe (\<lambda>_. copy_chunks limits w source []))) (\<lambda>copied.
      andthen (perform QueueIo (Filesystem.write_file (''incoming'' # p) copied)) (\<lambda>_.
        finish (next_file_count, copied)))))) fs" for limits d f w
    by (intro keeping.run_observe_then keeping.run_perform_then keeping.run_then keeping.run_cleanup
        keeping.run_observe keeping.run_finish)
      (auto intro: create_new_step.keeps_run write_file_step.keeps_run remove_file_step.keeps_ignoring
        simp: outside_incoming)
  from runs_inD [OF this] show ?thesis
    by (auto simp: incoming_write_file_def Let_def split: prod.split sum.split)
qed

lemma incoming_write_staging:
  "incoming_write_file queue package p source fs = (r, package', fs') \<Longrightarrow>
   ip_staging_path package' = ip_staging_path package"
  by (auto simp: incoming_write_file_def Let_def split: prod.split_asm sum.split_asm)

lemma incoming_write_quietD:
  "incoming_write_file queue package (''incoming'' # p) source fs = (r, package', fs') \<Longrightarrow> quiet fs fs'"
  using incoming_write_quiet [of fs queue package p source] by simp

lemma write_request_quiet:
  "staging package \<Longrightarrow> quiet fs (snd (snd (write_request queue package source fs)))"
  by (auto simp: staging_def write_request_def keeping.R_refl intro: incoming_write_quietD
      split: prod.split sum.split)

lemma add_payload_quiet:
  assumes "staging package"
  shows "quiet fs (snd (snd (add_payload queue package path source fs)))"
proof -
  obtain n where n: "ip_staging_path package = [''incoming'', n]" using assms by (auto simp: staging_def)
  let ?d = "ip_staging_path package @ [PAYLOAD_DIRECTORY_NAME] @ split_on (CHR ''/'') (payload_str path)"
  obtain q where q: "butlast ?d = ''incoming'' # q" using n by (cases "split_on (CHR ''/'') (payload_str path)") auto
  have c: "quiet fs fs'" if "create_dir_all (butlast ?d) fs = Inr fs'" for fs'
  proof (rule create_dir_all_step.keeps_run [OF that])
    fix p
    assume "prefix p (butlast ?d) \<and> lookup fs p = None"
    then show "\<not> accepted_path p"
      unfolding q using outside_incoming by (cases p) (auto simp: accepted_path_def)
  qed
  have w: "quiet u (snd (snd (incoming_write_file queue p ?d source u)))" for p u
    using incoming_write_quiet n by simp
  show ?thesis
  proof (cases "check_new_payload (pp_limits (fq_policy queue)) package path")
    case (Inl e)
    then show ?thesis by (simp add: add_payload_def Let_def keeping.R_refl)
  next
    case (Inr parents)
    show ?thesis
    proof (cases "create_dir_all (butlast ?d) fs")
      case (Inl e)
      with Inr show ?thesis by (simp add: add_payload_def Let_def keeping.R_refl)
    next
      case fs': (Inr fs')
      let ?p = "package\<lparr>ip_written_directories := ip_written_directories package @
        filter (\<lambda>p. p \<notin> set (ip_written_directories package)) parents\<rparr>"
      have "quiet fs (snd (snd (incoming_write_file queue ?p ?d source fs')))"
        by (rule keeping.R_trans [OF c [OF fs'] w])
      with Inr fs' show ?thesis by (auto simp: add_payload_def Let_def split: prod.split sum.split)
    qed
  qed
qed

lemma staging_kept:
  assumes "staging package"
  shows "write_request queue package source fs = (r, package', fs') \<Longrightarrow> staging package'"
    and "add_payload queue package path source fs = (r, package', fs') \<Longrightarrow> staging package'"
  using assms
  by (auto simp: staging_def write_request_def add_payload_def Let_def split: prod.split_asm sum.split_asm if_split_asm
      dest!: incoming_write_staging)

section \<open>Maintenance leaves accepted requests alone\<close>

text \<open>A directory of the queue root that is none of the four states.\<close>

lemma outside_quarantine: "''quarantine'' \<notin> range directory_name"
proof
  assume "''quarantine'' \<in> range directory_name"
  then obtain s where "''quarantine'' = directory_name s" by blast
  then show False by (cases s) simp_all
qed

lemma remove_marker_quiet:
  assumes "c \<notin> range directory_name"
  shows "runs_in quiet (remove_incoming_quarantine_marker (c # p)) fs"
proof -
  have "runs_in quiet (andthen (perform QueueIo (remove_file ((c # p) @ [QUARANTINE_MARKER_FILE_NAME])))
      (\<lambda>_. observe (sync_path (c # p)))) fs"
    by (intro keeping.run_perform_then keeping.run_observe) (auto intro: remove_file_step.keeps_run simp: outside_Cons [OF assms])
  then show ?thesis
    by (auto simp: runs_in_def remove_incoming_quarantine_marker_def Let_def keeping.R_refl split: sum.split node.split)
qed

lemma replace_marker_quiet:
  assumes "c \<notin> range directory_name"
  shows "runs_in quiet (replace_quarantine_marker qx env (c # p)) fs"
proof -
  have r: "quiet u v" if "rename ((c # p) @ [a]) ((c # p) @ [b]) u = Inr v" for a b u v
    using that by (rule rename_step.keeps_run) (use outside_prefix [OF assms] in \<open>auto simp: prefix_def\<close>)
  show ?thesis
    unfolding replace_quarantine_marker_def Let_def
    by (intro keeping.run_observe_then keeping.run_cleanup keeping.run_perform_then keeping.run_observe)
      (auto intro: create_new_step.keeps_run write_file_step.keeps_run remove_file_step.keeps_ignoring r [simplified]
        simp: outside_Cons [OF assms])
qed

lemma stale_entry_quiet:
  assumes "c \<notin> range directory_name"
  shows "runs_in quiet (stale_entry qx env [c] age source name) fs"
proof -
  have "runs_in quiet (andthen (replace_quarantine_marker qx env [c, name]) (\<lambda>_. finish RepairedMarker)) fs"
    by (intro keeping.run_then [OF replace_marker_quiet [OF assms]] keeping.run_finish)
  then show ?thesis
    by (simp add: runs_in_def stale_entry_def Let_def keeping.R_refl split: sum.split stale_age_source.split quarantine_marker.split)
qed

lemma stale_entries_quiet:
  assumes "c \<notin> range directory_name"
  shows "quiet fs (snd (snd (stale_entries qx env [c] age source scans actions entries stale fs)))"
proof (induction entries arbitrary: scans actions stale fs)
  case Nil
  then show ?case by (subst stale_entries.simps) (simp add: keeping.R_refl)
next
  case (Cons name entries)
  have step: "quiet fs fs'" if "stale_entry qx env [c] age source name fs = (r, fs')" for r fs'
    by (rule runs_inD [OF stale_entry_quiet [OF assms] that])
  show ?case
    by (subst stale_entries.simps)
      (auto simp: keeping.R_refl intro: step keeping.R_trans [OF step Cons.IH]
        split: prod.split sum.split stale_verdict.split)
qed

lemma inactive_stale_quiet:
  assumes "c \<notin> range directory_name"
  shows "quiet fs (snd (snd (inactive_stale_directories qx env [c] age scans actions source scanner fs)))"
  by (auto simp: inactive_stale_directories_def keeping.R_refl intro: stale_entries_quiet [OF assms]
      split: option.split sum.split)

text \<open>What is handed on is a name below the scanned directory, with a free lease.\<close>

lemma stale_entries_found:
  assumes "stale_entries qx env root age source scans actions entries stale fs = (Inr found, scanner, fs')"
    and "p \<in> set found" and "p \<notin> set stale"
  shows "\<exists>name. p = root @ [name] \<and> is_staging_directory_name qx name \<and> me_lease env p = LockTaken"
  using assms(1,3)
proof (induction entries arbitrary: scans actions stale fs)
  case Nil
  then show ?case using assms(2) by (subst (asm) stale_entries.simps) (auto split: if_splits)
next
  case (Cons name entries)
  have stale: "is_staging_directory_name qx name \<and> me_lease env (root @ [name]) = LockTaken"
    if "stale_entry qx env root age source name fs = (Inr StaleEntry, u)" for u
    using that
    by (auto simp: stale_entry_def Let_def stale_age_def andthen_def finish_def attempt_Inr_iff
        split: if_splits sum.splits stale_age_source.splits quarantine_marker.splits try_lock_result.splits prod.splits)
  from Cons.prems(1) show ?case
    by (subst (asm) stale_entries.simps)
      (use Cons.IH Cons.prems(2) assms(2) stale in
        \<open>force split: if_splits prod.splits sum.splits stale_verdict.splits\<close>)
qed

lemma inactive_stale_found:
  assumes "inactive_stale_directories qx env root age scans actions source scanner fs = (Inr found, scanner', fs')"
    and "p \<in> set found"
  shows "\<exists>name. p = root @ [name] \<and> is_staging_directory_name qx name \<and> me_lease env p = LockTaken"
  using assms stale_entries_found [OF _ assms(2)]
  by (fastforce simp: inactive_stale_directories_def split: if_splits option.splits sum.splits)

lemma quarantine_each_quiet:
  assumes "\<And>p. p \<in> set candidates \<Longrightarrow> \<exists>name. p = [''incoming'', name]"
  shows "runs_in quiet (quarantine_each qx env candidates moved) fs"
  using assms
proof (induction candidates arbitrary: moved fs)
  case Nil
  then show ?case by (simp add: keeping.run_finish)
next
  case (Cons p candidates)
  obtain name where p: "p = [''incoming'', name]" using Cons.prems [of p] by auto
  have r: "quiet u v" if "rename [''incoming'', name] [''quarantine'', x] u = Inr v" for x u v
    using that by (rule rename_step.keeps_run)
      (use outside_prefix [OF outside_names(1)] outside_prefix [OF outside_quarantine] in blast)
  have step: "quiet u v" if "replace_quarantine_marker qx env [''quarantine'', x] u = (res, v)" for x u res v
    by (rule runs_inD [OF replace_marker_quiet [OF outside_quarantine] that])
  have IH: "runs_in quiet (quarantine_each qx env candidates m) u" for m u using Cons by auto
  show ?case
    unfolding quarantine_each.simps Let_def p
  proof (intro keeping.run_then [OF remove_marker_quiet [OF outside_names(1)]] keeping.run_perform_then)
    show "runs_in quiet (\<lambda>fs. case replace_quarantine_marker qx env [''quarantine'', last [''incoming'', name]] fs of
        (Inl e, fs') \<Rightarrow> (attempt (sync_path [''quarantine''] fs') (\<lambda>_. attempt (sync_path [''incoming''] fs') (\<lambda>_. Inl e)), fs')
      | (Inr _, fs') \<Rightarrow> quarantine_each qx env candidates (moved + 1) fs') u" for u
      using IH [unfolded runs_in_def]
      by (auto simp: runs_in_def intro: step keeping.R_trans [OF step] split: prod.split sum.split)
  qed (auto intro: r)
qed

lemma quarantine_candidates_quiet:
  assumes "\<And>p. p \<in> set candidates \<Longrightarrow> \<exists>name. p = [''incoming'', name]"
  shows "runs_in quiet (quarantine_candidates qx queue env candidates) fs"
  unfolding quarantine_candidates_def
  by (intro keeping.run_then [OF quarantine_each_quiet] keeping.run_observe_then keeping.run_finish) (auto dest: assms)

lemma reap_candidates_quiet:
  assumes "\<And>p. p \<in> set candidates \<Longrightarrow> \<exists>name. p = [''quarantine'', name]"
  shows "runs_in quiet (reap_candidates queue candidates) fs"
proof -
  have "runs_in quiet (perform QueueIo (remove_dir_all p)) u" if p: "p \<in> set candidates" for p u
  proof (rule keeping.run_perform)
    obtain name where "p = [''quarantine'', name]" using assms p by blast
    then show "quiet u v" if "remove_dir_all p u = Inr v" for v
      using that remove_dir_all_step.keeps_run [of "''quarantine''" "[name]" u v accepted_path]
        outside_prefix [OF outside_quarantine] by blast
  qed
  then show ?thesis
    unfolding reap_candidates_def
    by (intro keeping.run_then keeping.run_each keeping.run_observe_then keeping.run_finish) auto
qed

lemma quarantine_quiet:
  "quiet fs (snd (snd (quarantine_stale_incoming qx queue env locked age scans actions scanner fs)))"
proof -
  obtain r s fs' where c: "inactive_stale_directories qx env [''incoming''] age scans actions DirectoryAge scanner fs = (r, s, fs')"
    by (metis prod_cases3)
  have i: "quiet fs fs'"
    using inactive_stale_quiet [OF outside_names(1), of fs qx env age scans actions DirectoryAge scanner] c by simp
  have "quiet fs fs''" if "r = Inr candidates" "quarantine_candidates qx queue env candidates fs' = (res, fs'')" for candidates res fs''
  proof (rule keeping.R_trans [OF i runs_inD [OF quarantine_candidates_quiet that(2)]])
    show "\<exists>name. p = [''incoming'', name]" if "p \<in> set candidates" for p
      using inactive_stale_found [OF c [unfolded \<open>r = Inr candidates\<close>] that] by auto
  qed
  with c i show ?thesis
    by (auto simp: quarantine_stale_incoming_def keeping.R_refl split: sum.split prod.split)
qed

lemma reap_quiet:
  "quiet fs (snd (snd (reap_quarantined_incoming qx queue env locked age scans actions scanner fs)))"
proof -
  obtain r s fs' where c: "inactive_stale_directories qx env [''quarantine''] age scans actions QuarantineMarkerAge scanner fs = (r, s, fs')"
    by (metis prod_cases3)
  have i: "quiet fs fs'"
    using inactive_stale_quiet [OF outside_quarantine, of fs qx env age scans actions QuarantineMarkerAge scanner] c by simp
  have "quiet fs fs''" if "r = Inr candidates" "reap_candidates queue candidates fs' = (res, fs'')" for candidates res fs''
  proof (rule keeping.R_trans [OF i runs_inD [OF reap_candidates_quiet that(2)]])
    show "\<exists>name. p = [''quarantine'', name]" if "p \<in> set candidates" for p
      using inactive_stale_found [OF c [unfolded \<open>r = Inr candidates\<close>] that] by auto
  qed
  with c i show ?thesis
    by (auto simp: reap_quarantined_incoming_def keeping.R_refl split: sum.split prod.split)
qed

section \<open>The operations of the queue\<close>

text \<open>
  One call of the public interface, by whichever process: a client's upload and its acceptance, the
  Worker's claims and transitions, the maintenance of staging directories. Only the calls that
  change the tree are here.
\<close>

inductive queue_operation :: "worker_externals \<Rightarrow> file_queue \<Rightarrow> fs \<Rightarrow> fs \<Rightarrow> bool"
  for wx :: worker_externals and queue :: file_queue where
  op_begin: "queue_operation wx queue fs (snd (begin_until wx queue locked lease fresh fs))"
| op_write_request: "staging package \<Longrightarrow>
    queue_operation wx queue fs (snd (snd (write_request queue package source fs)))"
| op_add_payload: "staging package \<Longrightarrow>
    queue_operation wx queue fs (snd (snd (add_payload queue package payload source fs)))"
| op_drop: "staging package \<Longrightarrow> queue_operation wx queue fs (drop_incoming (ip_staging_path package) fs)"
| op_accept: "staging package \<Longrightarrow> queue_operation wx queue fs
    (snd (accept_with_hook_until wx queue deadline locked hook client now fresh_id (ip_staging_path package) fs))"
| op_quarantine: "queue_operation wx queue fs
    (snd (snd (quarantine_stale_incoming wx queue env locked age scans actions scanner fs)))"
| op_reap: "queue_operation wx queue fs
    (snd (snd (reap_quarantined_incoming wx queue env locked age scans actions scanner fs)))"
| op_claim: "queue_operation wx queue fs
    (snd (snd (session_claim wx queue now fresh_id i batch session fs)))"
| op_requeue: "queue_operation wx queue fs (snd (snd (session_requeue_claimed wx queue token session fs)))"
| op_claim_batch: "queue_operation wx queue fs
    (snd (snd (claim_batch wx queue clock ids batch entries requests requested session fs)))"
| op_reconcile: "queue_operation wx queue fs
    (snd (reconcile_batch wx queue clock ids batch successful failures session fs))"

lemma queue_operation_reach:
  assumes inj: "inj (show_ulid wx)" and "queue_operation wx queue fs fs'"
  shows "queue_reach wx fs fs'"
  using assms(2)
proof cases
  case (op_begin locked lease fresh)
  then show ?thesis by (simp add: quiet_reach begin_until_quiet [unfolded runs_in_def])
next
  case (op_accept package deadline locked hook client now fresh)
  then show ?thesis using accept_reach [OF inj, unfolded runs_in_def] by (auto simp: staging_def)
next
  case (op_drop package)
  then show ?thesis using drop_incoming_quiet by (auto simp: staging_def quiet_reach)
next
  case (op_claim now fresh i batch session)
  then show ?thesis
    using guarded_reach [OF claim_with_hook_reach [OF inj], unfolded session_runs_def] by (simp add: session_claim_def)
next
  case (op_requeue token session)
  then show ?thesis
    using guarded_reach [OF requeue_reach [OF inj], unfolded session_runs_def] by (simp add: session_requeue_claimed_def)
next
  case (op_claim_batch clock ids batch entries requests requested session)
  then show ?thesis using claim_batch_reach [OF inj, unfolded session_runs_def] by simp
next
  case (op_reconcile clock ids batch successful failures session)
  then show ?thesis using reconcile_reach [OF inj, unfolded runs_in_def] by simp
qed (simp_all add: quiet_reach write_request_quiet add_payload_quiet quarantine_quiet reap_quiet)

lemma queue_operations_reach:
  assumes "inj (show_ulid wx)" and "(queue_operation wx queue)\<^sup>*\<^sup>* fs fs'"
  shows "queue_reach wx fs fs'"
  using assms(2) by induction (auto intro: reach.R_refl reach.R_trans queue_operation_reach [OF assms(1)])

end
