(* ===== verification/Queue_Status.thy ===== *)
theory Queue_Status
  imports Queue_Session
begin

text \<open>
  \<open>crates/queue/src/file_queue/status.rs\<close>: a reader that takes no lock. The queue may change
  between any two of its file system calls, so it sees a sequence of trees: \<open>ob_tree k\<close> is the tree
  at its \<open>k\<close>-th look. A directory handle stays with the directory it was opened on, wherever
  that is moved: \<open>ob_below j p k\<close> is what is below the directory opened as \<open>p\<close> at look
  \<open>j\<close> when it is read at look \<open>k\<close>.
\<close>

section \<open>Pinned directories and files\<close>

text \<open>\<open>PinnedPathError\<close>, \<open>PinnedDirectory::open\<close> and \<open>open_regular_beneath\<close> of
  \<open>crates/core/src/input.rs\<close> on Linux. What opening a node that is neither a directory nor a
  regular file gives depends on its kind: it is the argument \<open>special\<close>.\<close>

datatype pinned_path_error =
  PinnedIo io_error | ExpectedDirectory | ExpectedRegularFile | InvalidRelativePath | UnsupportedPlatform

definition pinned_open :: "fs \<Rightarrow> path \<Rightarrow> pinned_path_error + unit" where
  "pinned_open fs p =
     (case symlink_metadata fs p of
        Inl e \<Rightarrow> if e = NotADirectory then Inl ExpectedDirectory else Inl (PinnedIo e)
      | Inr n \<Rightarrow> if n \<noteq> Dir then Inl ExpectedDirectory else Inr ())"

definition open_regular_beneath ::
  "pinned_path_error \<Rightarrow> fs \<Rightarrow> path \<Rightarrow> pinned_path_error + node" where
  "open_regular_beneath special directory p =
     (if p = [] then Inl InvalidRelativePath
      else case symlink_metadata directory p of
        Inl e \<Rightarrow> Inl (PinnedIo e)
      | Inr n \<Rightarrow>
          (case n of
             Dir \<Rightarrow> Inl ExpectedRegularFile
           | File _ _ _ \<Rightarrow> Inr n
           | OtherNode \<Rightarrow> Inl special))"

section \<open>One request\<close>

definition MAXIMUM_STATE_OBSERVATION_ATTEMPTS :: nat where "MAXIMUM_STATE_OBSERVATION_ATTEMPTS = 3"

datatype queue_request_status =
    StatusPending | StatusProcessing | StatusCompleted
  | StatusFailed error_code offset_datetime

record observer =
  ob_tree :: "nat \<Rightarrow> fs"
  ob_below :: "nat \<Rightarrow> path \<Rightarrow> nat \<Rightarrow> fs"
  ob_expired :: "nat \<Rightarrow> bool"
  ob_special :: pinned_path_error

definition ensure_deadline :: "observer \<Rightarrow> nat \<Rightarrow> queue_error + unit" where
  "ensure_deadline ob k = (if ob_expired ob k then Inl OperationDeadlineExceeded else Inr ())"

definition read_failed_status ::
  "worker_externals \<Rightarrow> pinned_path_error \<Rightarrow> fs \<Rightarrow> request_id \<Rightarrow> queue_error + queue_request_status" where
  "read_failed_status wx special directory request_id =
     (let corrupt = QueueCorruptState request_id Failed in
      case open_regular_beneath special directory [RESULT_FILE_NAME] of
        Inl (PinnedIo e) \<Rightarrow>
          if e = NotFound then Inl (corrupt ''failed request is missing result metadata'') else Inl (QueueIo e)
      | Inl _ \<Rightarrow> Inl (corrupt ''failed request result metadata is not a regular file'')
      | Inr n \<Rightarrow>
          if length (file_bytes n) > MAXIMUM_RESULT_FILE_BYTES
          then Inl (corrupt ''failed request result metadata exceeds its byte limit'')
          else attempt (map_err (\<lambda>_. corrupt ''failed request result metadata is invalid'')
              (wx_result_from_json wx (take (MAXIMUM_RESULT_FILE_BYTES + 1) (file_bytes n)))) (\<lambda>record.
            if wr_schema_version record \<noteq> CURRENT_WORKER_RESULT_SCHEMA_VERSION \<or>
               wr_request_id record \<noteq> request_id \<or> wr_status record \<noteq> ResultFailed
            then Inl (corrupt ''failed request result metadata does not match its queue entry'')
            else Inr (StatusFailed (wr_error_code record) (wr_failed_at record))))"

text \<open>One pass over the four states, with the look at which each directory was opened.\<close>

fun observe_states ::
  "worker_externals \<Rightarrow> observer \<Rightarrow> request_id \<Rightarrow> queue_state list \<Rightarrow> nat \<Rightarrow>
   queue_error + (queue_state \<times> nat) list" where
  "observe_states wx ob request_id [] k = Inr []"
| "observe_states wx ob request_id (state # states) k =
     attempt (ensure_deadline ob k) (\<lambda>_.
       let p = state_path wx state request_id in
       case pinned_open (ob_tree ob k) p of
         Inr _ \<Rightarrow> attempt (observe_states wx ob request_id states (k + 1)) (\<lambda>observed.
                    Inr ((state, k) # observed))
       | Inl (PinnedIo e) \<Rightarrow>
           if e = NotFound then observe_states wx ob request_id states (k + 1) else Inl (QueueIo e)
       | Inl ExpectedDirectory \<Rightarrow>
           Inl (QueueCorruptState request_id state ''request entry is not a directory'')
       | Inl _ \<Rightarrow> Inl (InvalidStoragePath p))"

text \<open>The passes, from the look \<open>k\<close>: each pass takes four looks.\<close>

fun observe_attempts ::
  "worker_externals \<Rightarrow> observer \<Rightarrow> request_id \<Rightarrow> nat \<Rightarrow> nat \<Rightarrow> queue_error + (queue_state \<times> nat) option" where
  "observe_attempts wx ob request_id 0 k = Inl (RequestInMultipleStates request_id)"
| "observe_attempts wx ob request_id (Suc attempts) k =
     attempt (observe_states wx ob request_id queue_states k) (\<lambda>observed.
       case observed of
         [] \<Rightarrow>
           if attempts = 0 then Inr None
           else attempt (ensure_deadline ob (k + 4)) (\<lambda>_. observe_attempts wx ob request_id attempts (k + 4))
       | [single] \<Rightarrow> Inr (Some single)
       | _ \<Rightarrow> attempt (ensure_deadline ob (k + 4)) (\<lambda>_. observe_attempts wx ob request_id attempts (k + 4)))"

definition observe_single_state_until ::
  "worker_externals \<Rightarrow> observer \<Rightarrow> request_id \<Rightarrow> nat \<Rightarrow> queue_error + (queue_state \<times> nat) option" where
  "observe_single_state_until wx ob request_id k =
     observe_attempts wx ob request_id MAXIMUM_STATE_OBSERVATION_ATTEMPTS k"

text \<open>The identity is read at look 0 and after the passes; the passes take the looks 1 to 12.\<close>

definition status_until ::
  "worker_externals \<Rightarrow> file_queue \<Rightarrow> observer \<Rightarrow> request_id \<Rightarrow> queue_error + queue_request_status option" where
  "status_until wx queue ob request_id =
     attempt (ensure_deadline ob 0) (\<lambda>_.
     attempt (current_identity_locked queue (ob_tree ob 0)) (\<lambda>_.
     attempt (observe_single_state_until wx ob request_id 1) (\<lambda>observed.
       case observed of
         None \<Rightarrow>
           attempt (current_identity_locked queue (ob_tree ob 13)) (\<lambda>_.
           attempt (ensure_deadline ob 14) (\<lambda>_. Inr None))
       | Some (state, k) \<Rightarrow>
           attempt (case state of
               Pending \<Rightarrow> Inr StatusPending
             | Processing \<Rightarrow> Inr StatusProcessing
             | Completed \<Rightarrow> Inr StatusCompleted
             | Failed \<Rightarrow> read_failed_status wx (ob_special ob)
                 (ob_below ob k (state_path wx Failed request_id) 13) request_id) (\<lambda>status.
           attempt (current_identity_locked queue (ob_tree ob 14)) (\<lambda>_.
           attempt (ensure_deadline ob 14) (\<lambda>_. Inr (Some status)))))))"

section \<open>The overview\<close>

record queue_overview =
  qo_pending :: nat
  qo_processing :: nat
  qo_completed :: nat
  qo_failed :: nat
  qo_oldest_pending_at :: "offset_datetime option"
  qo_worker_active :: bool
  qo_snapshot_exact :: bool

definition read_pending_acceptance ::
  "worker_externals \<Rightarrow> pinned_path_error \<Rightarrow> fs \<Rightarrow> request_id \<Rightarrow> queue_error + offset_datetime" where
  "read_pending_acceptance wx special directory request_id =
     (let corrupt = QueueCorruptState request_id Pending ''pending request acceptance metadata is invalid'' in
      case open_regular_beneath special directory [ACCEPTANCE_FILE_NAME] of
        Inl (PinnedIo e) \<Rightarrow> if e \<noteq> NotFound then Inl (QueueIo e) else Inl corrupt
      | Inl _ \<Rightarrow> Inl corrupt
      | Inr n \<Rightarrow>
          attempt (map_err (\<lambda>_. corrupt) (validate_regular_file n [ACCEPTANCE_FILE_NAME])) (\<lambda>_.
            if length (file_bytes n) > MAXIMUM_ACCEPTANCE_FILE_BYTES then Inl corrupt
            else attempt (map_err (\<lambda>_. corrupt) (ex_acceptance_from_json (qx_base wx)
                   (take (MAXIMUM_ACCEPTANCE_FILE_BYTES + 1) (file_bytes n)))) (\<lambda>acceptance.
              Inr (am_accepted_at acceptance))))"

text \<open>What has been seen: a map from requests to a state and, for a pending one, its acceptance time.
  It is an association list, newest first, without duplicate keys.\<close>

type_synonym observations = "(request_id \<times> queue_state \<times> offset_datetime option) list"

record overview_scan =
  os_scanned :: nat
  os_look :: nat
  os_observations :: observations
  os_duplicates :: "request_id list"

text \<open>The acceptance time that goes with an observed state.\<close>

definition observed_acceptance ::
  "worker_externals \<Rightarrow> pinned_path_error \<Rightarrow> queue_state \<Rightarrow> fs \<Rightarrow> request_id \<Rightarrow> queue_error + offset_datetime option" where
  "observed_acceptance wx special state directory request_id =
     (if state = Pending
      then attempt (read_pending_acceptance wx special directory request_id) (\<lambda>at. Inr (Some at))
      else Inr None)"

definition overview_entry ::
  "worker_externals \<Rightarrow> observer \<Rightarrow> nat \<Rightarrow> queue_state \<Rightarrow> string \<Rightarrow> overview_scan \<Rightarrow> queue_error + overview_scan" where
  "overview_entry wx ob maximum_entries state name scan =
     (let k = os_look scan; p = state_root state @ [name] in
     attempt (ensure_deadline ob k) (\<lambda>_.
       if os_scanned scan = maximum_entries then Inl (StatusScanLimitExceeded maximum_entries)
       else if \<not> is_utf8 name then Inl (InvalidStoragePath p)
       else attempt (map_err (\<lambda>_. InvalidStoragePath p)
           (request_id_from_str (qx_ulid_parse wx) (show_ulid wx) name)) (\<lambda>request_id.
         let scan = scan\<lparr>os_scanned := os_scanned scan + 1, os_look := k + 1\<rparr> in
         if request_id \<in> fst ` set (os_observations scan)
         then Inr (scan\<lparr>os_duplicates := List.insert request_id (os_duplicates scan)\<rparr>)
         else case pinned_open (ob_tree ob k) p of
           Inl (PinnedIo e) \<Rightarrow> if e = NotFound then Inr scan else Inl (QueueIo e)
         | Inl _ \<Rightarrow> Inl (QueueCorruptState request_id state ''request entry is not a real directory'')
         | Inr _ \<Rightarrow>
             attempt (observed_acceptance wx (ob_special ob) state (ob_below ob k p (k + 1)) request_id) (\<lambda>accepted_at.
               Inr (scan\<lparr>os_observations := (request_id, state, accepted_at) # os_observations scan\<rparr>)))))"

definition overview_state ::
  "worker_externals \<Rightarrow> observer \<Rightarrow> nat \<Rightarrow> queue_state \<Rightarrow> overview_scan \<Rightarrow> queue_error + overview_scan" where
  "overview_state wx ob maximum_entries state scan =
     attempt (ensure_deadline ob (os_look scan)) (\<lambda>_.
     attempt (map_err QueueIo (read_dir (ob_tree ob (os_look scan)) (state_root state))) (\<lambda>entries.
       try_fold (overview_entry wx ob maximum_entries state) entries (scan\<lparr>os_look := os_look scan + 1\<rparr>)))"

definition forget_observation :: "request_id \<Rightarrow> observations \<Rightarrow> observations" where
  "forget_observation request_id observations = filter (\<lambda>(i, _). i \<noteq> request_id) observations"

definition overview_duplicate ::
  "worker_externals \<Rightarrow> observer \<Rightarrow> request_id \<Rightarrow> overview_scan \<Rightarrow> queue_error + overview_scan" where
  "overview_duplicate wx ob request_id scan =
     (let k = os_look scan; later = scan\<lparr>os_look := k + 13\<rparr>;
          others = forget_observation request_id (os_observations scan) in
     attempt (observe_single_state_until wx ob request_id k) (\<lambda>observed.
       case observed of
         None \<Rightarrow> Inr (later\<lparr>os_observations := others\<rparr>)
       | Some (state, j) \<Rightarrow>
           attempt (observed_acceptance wx (ob_special ob) state
               (ob_below ob j (state_path wx state request_id) (k + 12)) request_id) (\<lambda>accepted_at.
             Inr (later\<lparr>os_observations := (request_id, state, accepted_at) # others\<rparr>))))"

definition oldest_acceptance :: "observations \<Rightarrow> offset_datetime option" where
  "oldest_acceptance observations =
     foldr (\<lambda>(_, _, at) oldest. case at of
         None \<Rightarrow> oldest
       | Some accepted_at \<Rightarrow> Some (case oldest of
             None \<Rightarrow> accepted_at
           | Some earlier \<Rightarrow> if before_instant accepted_at earlier then accepted_at else earlier))
       observations None"

definition count_state :: "queue_state \<Rightarrow> observations \<Rightarrow> nat" where
  "count_state state observations = min u64_max (length (filter (\<lambda>(_, s, _). s = state) observations))"

text \<open>\<open>worker_lock\<close> is the outcome of probing the Worker lock with a shared lock.\<close>

definition overview_until ::
  "worker_externals \<Rightarrow> file_queue \<Rightarrow> observer \<Rightarrow> try_lock_result \<Rightarrow> nat \<Rightarrow> queue_error + queue_overview" where
  "overview_until wx queue ob worker_lock maximum_entries =
     (if maximum_entries = 0 then Inl InvalidStatusScanLimit
      else
     attempt (ensure_deadline ob 0) (\<lambda>_.
     attempt (current_identity_locked queue (ob_tree ob 0)) (\<lambda>_.
     attempt (try_fold (overview_state wx ob maximum_entries) queue_states
       \<lparr>os_scanned = 0, os_look = 1, os_observations = [], os_duplicates = []\<rparr>) (\<lambda>scan.
     attempt (try_fold (overview_duplicate wx ob) (os_duplicates scan) scan) (\<lambda>scan.
     attempt (case worker_lock of
         LockTaken \<Rightarrow> Inr False | WouldBlock \<Rightarrow> Inr True | LockError e \<Rightarrow> Inl (QueueIo e)) (\<lambda>worker_active.
     attempt (current_identity_locked queue (ob_tree ob (os_look scan))) (\<lambda>_.
     attempt (ensure_deadline ob (os_look scan)) (\<lambda>_.
       let seen = os_observations scan in
       Inr \<lparr>qo_pending = count_state Pending seen, qo_processing = count_state Processing seen,
            qo_completed = count_state Completed seen, qo_failed = count_state Failed seen,
            qo_oldest_pending_at = oldest_acceptance seen, qo_worker_active = worker_active,
            qo_snapshot_exact = False\<rparr>))))))))"

end
