(* ===== verification/Queue_Functional.thy ===== *)
theory Queue_Functional
  imports Queue_Operations Queue_Status "HOL-Library.Multiset"
begin

text \<open>
  What single operations of the queue achieve: the invariants of the protocol, the rounds of the
  lock, sequence numbers, an accepted package and where it is found, claims and their records,
  the bytes an upload can store, the selection of a batch, failures and what an unlocked reader
  sees of them.
\<close>

section \<open>What every protocol step keeps\<close>

lemma step_keeps:
  assumes "queue_step v v'" and "v i = Some r"
  shows "\<exists>r'. v' i = Some r' \<and> rv_content r' = rv_content r \<and> (rv_state r \<in> {Completed, Failed} \<longrightarrow> r' = r)"
  using assms by cases auto

lemma steps_keep:
  assumes "queue_step\<^sup>*\<^sup>* v v'" and "v i = Some r"
  shows "\<exists>r'. v' i = Some r' \<and> rv_content r' = rv_content r \<and> (rv_state r \<in> {Completed, Failed} \<longrightarrow> r' = r)"
  using assms
proof induction
  case (step v v')
  then obtain r1 where "v i = Some r1" "rv_content r1 = rv_content r" "rv_state r \<in> {Completed, Failed} \<longrightarrow> r1 = r"
    by blast
  with step_keeps [OF step.hyps(2) this(1)] show ?case by auto
qed simp

text \<open>The records that go with a state.\<close>

definition records_match :: "request_view \<Rightarrow> bool" where
  "records_match r \<longleftrightarrow>
     (rv_state r = Processing \<longrightarrow> rv_phase r \<noteq> None) \<and>
     (rv_state r = Completed \<longrightarrow> rv_phase r \<noteq> None \<and> rv_result r = None) \<and>
     (rv_state r = Failed \<longrightarrow> rv_result r \<noteq> None)"

lemma step_records:
  assumes "queue_step v v'" and "\<And>i r. v i = Some r \<Longrightarrow> records_match r" and "v' i = Some r"
  shows "records_match r"
proof -
  obtain j s' where v': "v' = v(j \<mapsto> s')" "records_match s'"
    using assms(1)
  proof cases
    case (set_phase j s n)
    then have "records_match (s\<lparr>rv_phase := Some n\<rparr>)" by (auto simp: records_match_def)
    with set_phase(1) show ?thesis by (rule that)
  next
    case (set_result j s n)
    then have "records_match (s\<lparr>rv_result := Some n\<rparr>)" using assms(2) [of j s] by (auto simp: records_match_def)
    with set_result(1) show ?thesis by (rule that)
  qed (rule that, assumption, simp add: records_match_def)+
  then show ?thesis using assms(2,3) by (cases "i = j") auto
qed

lemma steps_records:
  assumes "queue_step\<^sup>*\<^sup>* v v'" and "\<And>i r. v i = Some r \<Longrightarrow> records_match r" and "v' i = Some r"
  shows "records_match r"
  using assms by (induction arbitrary: i r) (auto intro: step_records)

section \<open>The queue lock\<close>

text \<open>A round sleeps at least as long as it asks to.\<close>

definition clock_advances :: "nat \<Rightarrow> lock_rounds \<Rightarrow> bool" where
  "clock_advances expires_at rounds \<longleftrightarrow> (\<forall>k. lr_checked rounds k \<le> lr_waited rounds k \<and>
     lr_waited rounds k + lock_sleep expires_at (lr_waited rounds k) \<le> lr_checked rounds (Suc k))"

lemma lock_rounds_decide:
  assumes "clock_advances expires_at rounds"
  shows "\<exists>r waited. lock_rounds_from expires_at rounds k observed = Some (r, waited) \<and>
    (r = Inr () \<longrightarrow> (\<exists>j. lr_try_lock rounds j = LockTaken \<and> lr_checked rounds j < expires_at \<and> \<not> lr_cancelled rounds j))"
proof (induction "expires_at - lr_checked rounds k" arbitrary: k observed rule: less_induct)
  case less
  note unfold = lock_rounds_from.simps [of expires_at rounds k observed]
  show ?case
  proof (cases "lr_cancelled rounds k \<or> expires_at \<le> lr_checked rounds k")
    case True
    then show ?thesis by (simp add: unfold ensure_active_def)
  next
    case active: False
    show ?thesis
    proof (cases "lr_try_lock rounds k")
      case LockTaken
      with active show ?thesis by (auto simp: unfold ensure_active_def)
    next
      case WouldBlock
      have "lr_checked rounds k \<le> lr_waited rounds k"
        "lr_waited rounds k + lock_sleep expires_at (lr_waited rounds k) \<le> lr_checked rounds (Suc k)"
        using assms by (auto simp: clock_advances_def)
      with active have "expires_at - lr_checked rounds (Suc k) < expires_at - lr_checked rounds k"
        by (auto simp: lock_sleep_def LOCK_POLL_INTERVAL_def min_def split: if_splits)
      from less [OF this] WouldBlock active show ?thesis by (simp add: unfold ensure_active_def)
    next
      case (LockError e)
      with active show ?thesis by (simp add: unfold ensure_active_def)
    qed
  qed
qed

section \<open>Acceptance sequences\<close>

lemma strip_suffix_snoc: "strip_suffix_char c (s @ [c]) = Some s"
  by (simp add: strip_suffix_char_def)

lemma show_nat_length: "n < 10 ^ k \<Longrightarrow> 0 < k \<Longrightarrow> length (show_nat n) \<le> k"
proof (induction n arbitrary: k rule: show_nat.induct)
  case (1 n)
  show ?case
  proof (cases "n < 10")
    case True
    with 1 show ?thesis by (subst show_nat.simps) simp
  next
    case False
    obtain j where k: "k = Suc j" using 1(3) by (cases k) auto
    have j: "n div 10 < 10 ^ j" "0 < j" using 1(2) k False by (auto simp: less_mult_imp_div_less) (cases j; simp)+
    from 1(1) [OF False j] False k show ?thesis by (subst show_nat.simps) simp
  qed
qed

lemma read_written_sequence:
  assumes "0 < n" and "n \<le> u64_max" and "symlink_metadata fs p = Inr (File (show_nat n @ [lf]) m l)"
  shows "read_next_sequence p fs = Inr n"
proof -
  have "n < 10 ^ 20" using assms(2) by (simp add: u64_max_def)
  then have len: "length (show_nat n) \<le> 20" by (rule show_nat_length) simp
  have nl: "lf \<notin> set (show_nat n)" using show_nat_digits [of lf n] by (auto simp: is_ascii_digit_def code_def)
  have digits: "list_all is_ascii_digit (show_nat n)" by (simp add: list_all_iff show_nat_digits)
  have utf8: "is_utf8 (show_nat n @ [lf])"
    using ascii_show_nat [of n] by (intro ascii_is_utf8) (simp add: is_ascii_def code_def)
  have hd: "\<not> starts_with_char (CHR ''0'') (show_nat n)"
    using show_nat_hd [OF assms(1)] by (cases "show_nat n") (auto simp: starts_with_char_def)
  from len nl digits utf8 hd assms show ?thesis
    by (simp add: read_next_sequence_def read_file_def MAXIMUM_SEQUENCE_FILE_BYTES_def
        strip_suffix_snoc digits_value_show_nat Let_def)
qed

lemma digits_value_ge: "acc \<le> digits_value acc s"
proof (induction s arbitrary: acc)
  case (Cons c s)
  from Cons [of "10 * acc + (code c - 48)"] show ?case by simp
qed simp

lemma read_next_sequence_pos:
  assumes "read_next_sequence p fs = Inr n"
  shows "0 < n \<and> n \<le> u64_max"
proof -
  from assms obtain ds where v: "ds \<noteq> []" "hd ds \<noteq> CHR ''0''" "list_all is_ascii_digit ds"
    "n = digits_value 0 ds" "n \<le> u64_max"
    by (auto simp: read_next_sequence_def Let_def attempt_Inr_iff starts_with_char_def split: if_splits option.splits)
  then obtain c s where c: "ds = c # s" "is_ascii_digit c" "c \<noteq> CHR ''0''" by (cases ds) auto
  have "code c \<noteq> 48" using c(3) using of_char_eq_iff [where 'a = nat, of c "CHR ''0''"] by (simp add: code_def)
  with c(2) have "0 < code c - 48" by (auto simp: is_ascii_digit_def)
  also have "\<dots> \<le> n" using digits_value_ge [of "code c - 48" s] v(4) c(1) by simp
  finally show ?thesis using v(5) by simp
qed

lemma allocate_sequence_allocates:
  assumes wf: "wf_fs fs" and run: "allocate_sequence qx fresh fs = (Inr n, fs')"
  shows "read_next_sequence [NEXT_SEQUENCE_FILE_NAME] fs = Inr n"
    and "read_next_sequence [NEXT_SEQUENCE_FILE_NAME] fs' = Inr (n + 1)" and "0 < n"
proof -
  let ?tmp = "[''.next-sequence-'' @ show_ulid qx fresh]"
  from run obtain fs1 where n: "read_next_sequence [NEXT_SEQUENCE_FILE_NAME] fs = Inr n" "n + 1 \<le> u64_max"
    and c: "create_new ?tmp (show_nat (n + 1) @ [lf]) fs = Inr fs1"
    and r: "rename ?tmp [NEXT_SEQUENCE_FILE_NAME] fs1 = Inr fs'"
    by (auto simp: allocate_sequence_def Let_def action_Inr_iffs simp del: append_Cons append_Nil)
  show "read_next_sequence [NEXT_SEQUENCE_FILE_NAME] fs = Inr n" by (rule n)
  then show "0 < n" using read_next_sequence_pos by blast
  have wf1: "wf_fs fs1" using create_new_step.run_wf [OF wf c] .
  have d: "?tmp \<noteq> [NEXT_SEQUENCE_FILE_NAME]" by (simp add: NEXT_SEQUENCE_FILE_NAME_def)
  have "lookup fs' [NEXT_SEQUENCE_FILE_NAME] = lookup fs1 ?tmp"
    using lookup_rename [OF r wf1 d, of "[NEXT_SEQUENCE_FILE_NAME]"] by simp
  also have "\<dots> = Some (new_file (show_nat (n + 1) @ [lf]))"
    by (rule create_new_lookup [OF c])
  finally have "symlink_metadata fs' [NEXT_SEQUENCE_FILE_NAME] = Inr (File (show_nat (n + 1) @ [lf]) 420 1)"
    using metadata_of_lookup [OF rename_wf [OF r wf1 d]] by (simp add: new_file_def)
  from read_written_sequence [OF _ n(2) this]
  show "read_next_sequence [NEXT_SEQUENCE_FILE_NAME] fs' = Inr (n + 1)" by simp
qed

section \<open>A package that was accepted\<close>

lemma not_Some_pair [simp]: "(\<forall>a b. x \<noteq> Some (a, b)) \<longleftrightarrow> x = None"
  by (cases x) auto

lemma accept_Accepted:
  assumes "accept_with_hook_until qx queue deadline locked hook client now fresh staging_path fs = (Inr (Accepted i d), fs')"
  obtains pkg fs1 fs2 fs3 sequence where
    "validate_package_until (qx_base qx) (subtree staging_path fs) (fq_policy queue) (validation_deadline deadline) = Inr pkg"
    "i = cr_request_id (vp_request pkg)" "d = vp_digest pkg"
    "write_digest_file staging_path d fs = (Inr (), fs1)"
    "find_existing qx i fs1 = Inr None"
    "allocate_sequence qx fresh fs1 = (Inr sequence, fs2)"
    "write_acceptance_file qx staging_path
       \<lparr>am_sequence = sequence, am_accepted_at = now, am_client_id = client\<rparr> fs2 = (Inr (), fs3)"
    "rename staging_path (state_path qx Pending i) fs3 = Inr fs'"
proof -
  obtain x fs4 where s: "accept_stage qx queue deadline locked hook client now fresh staging_path fs = (x, fs4)"
    by fastforce
  have dupl: "existing_outcome qx queue hook r e s f \<noteq> Inr (Accepted i d)" for r e s f
    by (auto simp: existing_outcome_def attempt_Inr_iff split: if_splits)
  have pair: "\<exists>r e. x = Inr (Inr (r, e)) \<and> fs' = fs4 \<and> accept_promoted queue hook r e fs4 = Inr (Accepted i d)"
  proof -
    have "x \<noteq> Inr (Inl (Accepted i d))"
      using s dupl by (auto simp: accept_stage_def Let_def action_Inr_iffs split: option.split_asm)
    with assms s show ?thesis
      by (auto simp: accept_with_hook_until_def split: sum.split_asm prod.split_asm)
  qed
  then have x: "x = Inr (Inr (i, d))" "fs' = fs4"
    by (auto simp: accept_promoted_def attempt_Inr_iff)
  show thesis
    using s x by (auto simp: accept_stage_def Let_def action_Inr_iffs split: option.split_asm intro: that)
qed

lemma display_revision_chars:
  assumes c: "c \<in> set (display_revision r)"
  shows "48 \<le> code c \<and> code c < 128"
proof (cases "c \<in> set PREFIX")
  case True
  then show ?thesis by (auto simp: PREFIX_def code_def)
next
  case False
  with c have "c \<in> set (concat (map format_02x (revision_bytes r)))"
    unfolding display_revision_def set_append by blast
  with concat_format_lower_hex [of "revision_bytes r"] have "is_lower_hex c" unfolding list_all_iff by blast
  then show ?thesis by (auto simp: is_lower_hex_def is_ascii_digit_def)
qed

lemma display_revision_line:
  "is_ascii (display_revision r @ [lf])" "is_utf8 (display_revision r @ [lf])" "lf \<notin> set (display_revision r)"
proof -
  show a: "is_ascii (display_revision r @ [lf])"
    using display_revision_chars [of _ r] by (simp add: is_ascii_def list_all_iff code_def)
  show "is_utf8 (display_revision r @ [lf])" by (rule ascii_is_utf8 [OF a])
  show "lf \<notin> set (display_revision r)" using display_revision_chars [of lf r] by (auto simp: code_def)
qed

lemma display_revision_length: "wf_revision r \<Longrightarrow> length (display_revision r) = 71"
  using length_concat_format [of "revision_bytes r"]
  by (simp add: display_revision_def PREFIX_def wf_revision_def DIGEST_BYTES_def)

lemma digest_file_reads:
  assumes "wf_revision r" and "symlink_metadata fs (p @ [DIGEST_FILE_NAME]) = Inr (File (display_revision r @ [lf]) m l)"
  shows "read_stored_digest p i s fs = Inr (PackageDigest r)"
  using assms display_revision_line [of r] display_revision_length [OF assms(1)] revision_text.from_str_to_str [OF assms(1)]
  by (simp add: read_stored_digest_def Let_def MAXIMUM_DIGEST_FILE_BYTES_def strip_suffix_snoc)

lemma identity_file_reads:
  assumes "wf_revision r" and "symlink_metadata fs p = Inr (File (display_revision r @ [lf]) m l)"
  shows "read_queue_identity p fs = Inr r"
proof -
  let ?s = "display_revision r"
  have black: "\<not> is_whitespace (code c)" if "c \<in> set ?s" for c
    using display_revision_chars [OF that] by (auto simp: is_whitespace_def)
  have "dropWhile is_whitespace (map code (?s @ [lf])) = map code (?s @ [lf])"
    using black display_revision_length [OF assms(1)] by (cases ?s) auto
  moreover have "dropWhile is_whitespace (rev (map code (?s @ [lf]))) = rev (map code ?s)"
    using black display_revision_length [OF assms(1)]
    by (cases ?s rule: rev_cases) (auto simp: is_whitespace_def code_def)
  ultimately have t: "trim (chars (?s @ [lf])) = map code ?s"
    using ascii_chars [OF display_revision_line(1)] by (simp add: trim_def)
  have c: "map char_of (map code ?s) = ?s" by (simp add: code_def comp_def)
  have "list_all (\<lambda>c. c < 128) (map code ?s)"
    using display_revision_chars [of _ r] by (simp add: list_all_iff)
  with t c assms(2) display_revision_line [of r] display_revision_length [OF assms(1)]
    revision_text.from_str_to_str [OF assms(1)]
  show ?thesis
    by (simp add: read_queue_identity_def read_identity_file_def MAXIMUM_QUEUE_IDENTITY_BYTES_def Let_def)
qed

text \<open>Where \<open>find_existing\<close> finds a request, or that it finds none.\<close>

lemma find_existing_fold:
  assumes "try_fold (find_existing_in qx fs i) states x = Inr y" and "distinct states"
  shows "case y of
      None \<Rightarrow> x = None \<and> (\<forall>s \<in> set states. symlink_metadata fs (state_path qx s i) = Inl NotFound)
    | Some (t, d) \<Rightarrow> (\<forall>s \<in> set states - {t}. symlink_metadata fs (state_path qx s i) = Inl NotFound) \<and>
        (x = y \<and> (t \<in> set states \<longrightarrow> symlink_metadata fs (state_path qx t i) = Inl NotFound) \<or>
         x = None \<and> t \<in> set states \<and> symlink_metadata fs (state_path qx t i) = Inr Dir \<and>
           read_stored_digest (state_path qx t i) i t fs = Inr d)"
  using assms
proof (induction states arbitrary: x)
  case Nil
  then show ?case by (cases y) auto
next
  case (Cons s states)
  from Cons.prems(1) obtain z where z: "find_existing_in qx fs i s x = Inr z"
    and f: "try_fold (find_existing_in qx fs i) states z = Inr y" by (auto simp: attempt_Inr_iff)
  have "z = x \<and> symlink_metadata fs (state_path qx s i) = Inl NotFound \<or>
    x = None \<and> (\<exists>d. z = Some (s, d) \<and> symlink_metadata fs (state_path qx s i) = Inr Dir \<and>
      read_stored_digest (state_path qx s i) i s fs = Inr d)"
    using z by (auto simp: find_existing_in_def Let_def attempt_Inr_iff split: sum.splits if_splits)
  with Cons.IH [OF f] Cons.prems(2) show ?case by (cases y) auto
qed

definition only_in :: "('a queue_externals_scheme) \<Rightarrow> fs \<Rightarrow> queue_state \<Rightarrow> request_id \<Rightarrow> bool" where
  "only_in qx fs s i \<longleftrightarrow> symlink_metadata fs (state_path qx s i) = Inr Dir \<and>
     (\<forall>t. t \<noteq> s \<longrightarrow> symlink_metadata fs (state_path qx t i) = Inl NotFound)"

lemma find_existing_Some_iff:
  "find_existing qx i fs = Inr (Some (s, d)) \<longleftrightarrow>
     only_in qx fs s i \<and> read_stored_digest (state_path qx s i) i s fs = Inr d"
  unfolding only_in_def
proof
  have all: "set queue_states = UNIV" "distinct queue_states"
    using queue_states_all by (auto simp: queue_states_def)
  assume "find_existing qx i fs = Inr (Some (s, d))"
  from find_existing_fold [OF this [unfolded find_existing_def] all(2)] all(1)
  show "(symlink_metadata fs (state_path qx s i) = Inr Dir \<and>
     (\<forall>t. t \<noteq> s \<longrightarrow> symlink_metadata fs (state_path qx t i) = Inl NotFound)) \<and>
     read_stored_digest (state_path qx s i) i s fs = Inr d" by auto
next
  assume "(symlink_metadata fs (state_path qx s i) = Inr Dir \<and>
     (\<forall>t. t \<noteq> s \<longrightarrow> symlink_metadata fs (state_path qx t i) = Inl NotFound)) \<and>
     read_stored_digest (state_path qx s i) i s fs = Inr d"
  then show "find_existing qx i fs = Inr (Some (s, d))" by (cases s) (simp_all add: find_existing_def queue_states_def find_existing_in_def)
qed

lemma find_existing_None:
  assumes "find_existing qx i fs = Inr None"
  shows "symlink_metadata fs (state_path qx s i) = Inl NotFound"
proof -
  have all: "set queue_states = UNIV" "distinct queue_states"
    using queue_states_all by (auto simp: queue_states_def)
  from find_existing_fold [OF assms [unfolded find_existing_def] all(2)] all(1) show ?thesis by simp
qed

lemma stored_digest_moves:
  assumes "read_stored_digest p i s fs = Inr d"
    and "symlink_metadata fs' (p' @ [DIGEST_FILE_NAME]) = symlink_metadata fs (p @ [DIGEST_FILE_NAME])"
  shows "read_stored_digest p' j t fs' = Inr d"
  using assms
  by (auto simp: read_stored_digest_def Let_def split: sum.split_asm node.split_asm if_split_asm option.split_asm)

lemma moved_only_in:
  assumes wf: "wf_fs fs" and at: "only_in qx fs s i" and ne: "s \<noteq> t"
    and run: "rename (state_path qx s i) (state_path qx t i) fs = Inr fs'"
  shows "only_in qx fs' t i"
proof -
  have dis: "state_path qx s i \<noteq> state_path qx t i" using ne by (simp add: state_path_eq)
  note l = lookup_rename [OF run wf dis]
  have wf': "wf_fs fs'" by (rule rename_wf [OF run wf dis])
  have dir: "lookup fs (state_path qx s i) = Some Dir" using at wf by (simp add: only_in_def symlink_metadata_ok_iff)
  then have "symlink_metadata fs' (state_path qx t i) = Inr Dir"
    using metadata_of_lookup [OF wf'] by (simp add: l)
  moreover have "symlink_metadata fs' (state_path qx u i) = Inl NotFound" if "u \<noteq> t" for u
  proof (cases "u = s")
    case True
    have "lookup fs [directory_name s] = Some Dir"
      using wf_fs_parent [OF wf, of "[directory_name s]" "request_name qx i"] dir by (simp add: state_path_eq)
    then have "lookup fs' [directory_name s] = Some Dir" by (simp add: l state_path_eq)
    moreover have "lookup fs' (state_path qx s i) = None" using ne by (simp add: l state_path_eq)
    ultimately show ?thesis using metadata_missing [OF wf'] True by (simp add: state_path_eq)
  next
    case False
    have "symlink_metadata fs' (state_path qx u i) = symlink_metadata fs (state_path qx u i)"
      using that False by (intro symlink_metadata_cong) (auto simp: l state_path_eq prefix_Cons)
    with at False show ?thesis by (simp add: only_in_def)
  qed
  ultimately show ?thesis by (simp add: only_in_def)
qed

text \<open>What the steps of an acceptance leave as it was: the state directories, and the uploaded part of
  the staging directory.\<close>

definition uploaded :: "string \<Rightarrow> path \<Rightarrow> bool" where
  "uploaded n q \<longleftrightarrow> q \<noteq> [] \<and> hd q \<in> range directory_name \<or>
     prefix [''incoming'', n] q \<and> q \<notin> {[''incoming'', n, DIGEST_FILE_NAME], [''incoming'', n, ACCEPTANCE_FILE_NAME]}"

lemma uploaded_facts:
  "uploaded n q \<Longrightarrow> q \<noteq> [] \<and> hd q \<in> insert ''incoming'' (range directory_name)"
  "\<not> uploaded n [''incoming'', n, DIGEST_FILE_NAME]" "\<not> uploaded n [''incoming'', n, ACCEPTANCE_FILE_NAME]"
  using outside_names(1) by (auto simp: uploaded_def prefix_def)

text \<open>An acceptance, from the tree it starts with to the tree it leaves.\<close>

lemma accepted_tree:
  assumes wf: "wf_fs fs" and inj: "inj (show_ulid qx)"
    and run: "accept_with_hook_until qx queue deadline locked hook client now fresh [''incoming'', n] fs = (Inr (Accepted i d), fs')"
  shows "\<exists>fs1 fs3 sequence json. wf_fs fs3 \<and> keeps (uploaded n) fs fs3 \<and> keeps (uploaded n) fs fs1 \<and> wf_fs fs1 \<and>
    find_existing qx i fs1 = Inr None \<and>
    lookup fs3 [''incoming'', n, DIGEST_FILE_NAME] =
      Some (new_file ((case d of PackageDigest r \<Rightarrow> display_revision r) @ [lf])) \<and>
    read_next_sequence [NEXT_SEQUENCE_FILE_NAME] fs1 = Inr sequence \<and>
    qx_acceptance_to_json qx \<lparr>am_sequence = sequence, am_accepted_at = now, am_client_id = client\<rparr> = Inr json \<and>
    lookup fs3 [''incoming'', n, ACCEPTANCE_FILE_NAME] = Some (new_file (json @ [lf])) \<and>
    rename [''incoming'', n] (state_path qx Pending i) fs3 = Inr fs'"
proof (rule accept_Accepted [OF run], goal_cases)
  case (1 pkg fs1 fs2 fs3 sequence)
  let ?D = "[''incoming'', n, DIGEST_FILE_NAME]" and ?A = "[''incoming'', n, ACCEPTANCE_FILE_NAME]"
  have k1: "keeps (uploaded n) fs fs1"
    by (rule runs_inD [OF write_digest_keeps 1(4)]) (rule uploaded_facts)
  then have wf1: "wf_fs fs1" using wf by (rule keeps_wf)
  have k2: "keeps (uploaded n) fs1 fs2"
    by (rule runs_inD [OF allocate_sequence_keeps 1(6)]) (rule uploaded_facts)
  have k3: "keeps (uploaded n) fs2 fs3"
    by (rule runs_inD [OF write_acceptance_keeps 1(7)]) (rule uploaded_facts)
  have k: "keeps (uploaded n) fs fs3" by (rule keeping.R_trans [OF keeping.R_trans [OF k1 k2] k3])
  have d1: "keeps (\<lambda>q. q = ?D) fs1 fs2"
    by (rule runs_inD [OF allocate_sequence_keeps 1(6)]) auto
  have d2: "keeps (\<lambda>q. q = ?D) fs2 fs3"
    by (rule runs_inD [OF write_acceptance_keeps 1(7)]) (simp add: DIGEST_FILE_NAME_def ACCEPTANCE_FILE_NAME_def)
  have "lookup fs1 ?D = Some (new_file ((case d of PackageDigest r \<Rightarrow> display_revision r) @ [lf]))"
    using 1(4) create_new_lookup by (force simp: write_digest_file_def perform_Inr_iff)
  then have D: "lookup fs3 ?D = Some (new_file ((case d of PackageDigest r \<Rightarrow> display_revision r) @ [lf]))"
    using keeping.R_trans [OF d1 d2] wf1 by (simp add: keeps_def)
  from 1(7) obtain u json where "create_new ?A [] fs2 = Inr u" "Filesystem.write_file ?A (json @ [lf]) u = Inr fs3"
    and json: "qx_acceptance_to_json qx \<lparr>am_sequence = sequence, am_accepted_at = now, am_client_id = client\<rparr> = Inr json"
    by (auto simp: write_acceptance_file_def Let_def action_Inr_iffs)
  then have A: "lookup fs3 ?A = Some (new_file (json @ [lf]))"
    using create_new_lookup [of ?A "[]" fs2 u]
    by (auto simp: Filesystem.write_file_def attempt_Inr_iff lookup_put new_file_def split: option.split_asm node.split_asm)
  have "read_next_sequence [NEXT_SEQUENCE_FILE_NAME] fs1 = Inr sequence"
    by (rule allocate_sequence_allocates(1) [OF wf1 1(6)])
  with k k1 wf1 keeps_wf [OF k wf] D A json 1(5,8) show ?case by blast
qed

section \<open>A package that was claimed\<close>

lemma write_sidecar_content:
  assumes wf: "wf_fs fs" and d: "dest \<noteq> tmp"
    and run: "write_sidecar root dest tmp encoded nr fs = (Inr u, fs')"
  shows "\<exists>json. encoded = Inr json \<and> lookup fs' dest = Some (new_file (json @ [lf]))"
    and "keeps (\<lambda>q. \<not> prefix tmp q \<and> \<not> prefix dest q) fs fs'"
proof -
  from run obtain json fs1 fs2 where e: "encoded = Inr json" and c: "create_new tmp [] fs = Inr fs1"
    and w: "Filesystem.write_file tmp (json @ [lf]) fs1 = Inr fs2" and r: "rename tmp dest fs2 = Inr fs'"
    by (auto simp: write_sidecar_def action_Inr_iffs)
  have wf2: "wf_fs fs2" using write_file_step.run_wf [OF create_new_step.run_wf [OF wf c] w] .
  have "lookup fs' dest = lookup fs2 tmp"
    using lookup_rename [OF r wf2 d [symmetric], of dest] by simp
  with e lookup_write_new [OF c w] show "\<exists>json. encoded = Inr json \<and> lookup fs' dest = Some (new_file (json @ [lf]))"
    by simp
  have k1: "keeps (\<lambda>q. \<not> prefix tmp q \<and> \<not> prefix dest q) fs fs1"
    by (rule create_new_step.keeps_run [OF c]) auto
  have k2: "keeps (\<lambda>q. \<not> prefix tmp q \<and> \<not> prefix dest q) fs1 fs2"
    by (rule write_file_step.keeps_run [OF w]) auto
  have k3: "keeps (\<lambda>q. \<not> prefix tmp q \<and> \<not> prefix dest q) fs2 fs'"
    by (rule rename_step.keeps_run [OF r]) auto
  show "keeps (\<lambda>q. \<not> prefix tmp q \<and> \<not> prefix dest q) fs fs'"
    by (rule keeping.R_trans [OF keeping.R_trans [OF k1 k2] k3])
qed

lemma claim_Inr:
  assumes "claim_prepared_with_hook wx queue hook now fresh i batch prepared fs = (Inr claim, fs')"
  obtains number fs1 where
    "ensure_pending_locked wx i fs = Inr (vp_digest prepared)"
    "next_attempt wx (state_path wx Pending i) i Pending fs = Inr number"
    "write_phase_record wx fresh (state_path wx Pending i)
       \<lparr>wp_schema_version = CURRENT_WORKER_PHASE_SCHEMA_VERSION, wp_request_id = i, wp_batch_id = batch,
        wp_attempt = number, wp_phase = Claimed, wp_updated_at = now\<rparr> fs = (Inr (), fs1)"
    "rename (state_path wx Pending i) (state_path wx Processing i) fs1 = Inr fs'"
    "claim = \<lparr>cp_token = \<lparr>ct_request_id = i, ct_batch_id = batch, ct_attempt = number\<rparr>,
       cp_package = prepared, cp_package_root = state_path wx Processing i\<rparr>"
    "\<exists>identity. current_identity_locked queue fs' = Inr identity"
  using assms
  by (auto simp: claim_prepared_with_hook_def Let_def action_Inr_iffs sync_states_def intro: that)

text \<open>The codec of the claim records: what is written reads back.\<close>

definition phase_codec :: "worker_externals \<Rightarrow> bool" where
  "phase_codec wx \<longleftrightarrow> (\<forall>record json. wx_phase_to_json wx record = Inr json \<longrightarrow>
     wx_phase_from_json wx (json @ [lf]) = Inr record \<and> length json < MAXIMUM_PHASE_FILE_BYTES)"

lemma written_phase_reads:
  assumes codec: "phase_codec wx" and wf: "wf_fs fs" and j: "wx_phase_to_json wx record = Inr json"
    and l: "lookup fs (root @ [PHASE_FILE_NAME]) = Some (new_file (json @ [lf]))"
    and r: "wp_schema_version record = CURRENT_WORKER_PHASE_SCHEMA_VERSION" "wp_request_id record = i"
  shows "read_required_phase_record wx root i s fs = Inr record"
proof -
  have c: "wx_phase_from_json wx (json @ [lf]) = Inr record" "length json < MAXIMUM_PHASE_FILE_BYTES"
    using codec j by (auto simp: phase_codec_def)
  show ?thesis
    using metadata_of_lookup [OF wf l] c r
    by (simp add: read_required_phase_record_def read_optional_phase_record_def Let_def read_phase_record_def
        read_file_def new_file_def)
qed

lemma check_claim_record_iff:
  assumes "read_required_phase_record wx root (ct_request_id token) s fs = Inr record" and "wp_phase record = Claimed"
  shows "check_claim_record wx root token s fs = Inr () \<longleftrightarrow>
    ct_batch_id token = wp_batch_id record \<and> ct_attempt token = wp_attempt record"
  using assms by (auto simp: check_claim_record_def)


text \<open>A request after the rename that moves it: found in the new state, with its digest.\<close>

lemma moved_is_found:
  assumes wf: "wf_fs fs" and found: "find_existing qx i fs = Inr (Some (s, d))" and ne: "s \<noteq> t"
    and run: "rename (state_path qx s i) (state_path qx t i) fs = Inr fs'"
  shows "find_existing qx i fs' = Inr (Some (t, d))"
proof -
  from found have at: "only_in qx fs s i" and digest: "read_stored_digest (state_path qx s i) i s fs = Inr d"
    by (simp_all add: find_existing_Some_iff)
  have dis: "state_path qx s i \<noteq> state_path qx t i" using ne by (simp add: state_path_eq)
  obtain n where n: "lookup fs (state_path qx s i @ [DIGEST_FILE_NAME]) = Some n"
    using digest wf by (auto simp: read_stored_digest_def Let_def symlink_metadata_def attempt_Inr_iff split: sum.split_asm if_split_asm)
  then have "lookup fs' (state_path qx t i @ [DIGEST_FILE_NAME]) = Some n"
    by (simp add: lookup_rename [OF run wf dis])
  with n metadata_of_lookup [OF rename_wf [OF run wf dis]] metadata_of_lookup [OF wf]
  have "symlink_metadata fs' (state_path qx t i @ [DIGEST_FILE_NAME]) = symlink_metadata fs (state_path qx s i @ [DIGEST_FILE_NAME])"
    by simp
  with stored_digest_moves [OF digest] moved_only_in [OF wf at ne run] show ?thesis by (simp add: find_existing_Some_iff)
qed

lemma find_existing_keeps:
  assumes "keeps P fs fs'" and "wf_fs fs"
    and "\<And>q s. q \<noteq> [] \<Longrightarrow> prefix q (state_path qx s i @ [DIGEST_FILE_NAME]) \<Longrightarrow> P q"
  shows "find_existing qx i fs' = find_existing qx i fs"
proof -
  have l: "lookup fs' q = lookup fs q" if "prefix q (state_path qx s i @ [DIGEST_FILE_NAME])" for q s
    using assms(1,2) assms(3) [of q s] that wf_fs_root by (cases "q = []") (auto simp: keeps_def)
  have m: "symlink_metadata fs' p = symlink_metadata fs p" if "prefix p (state_path qx s i @ [DIGEST_FILE_NAME])" for p s
    by (rule symlink_metadata_cong) (rule l, rule prefix_order.trans [OF _ that])
  have d: "read_stored_digest (state_path qx s i) i s fs' = read_stored_digest (state_path qx s i) i s fs" for s
    using m [of "state_path qx s i @ [DIGEST_FILE_NAME]" s] by (simp add: read_stored_digest_def)
  have "find_existing_in qx fs' i s x = find_existing_in qx fs i s x" for s x
    using m [of "state_path qx s i" s] by (simp only: find_existing_in_def Let_def d) (simp cong: sum.case_cong)
  then have "find_existing_in qx fs' i = find_existing_in qx fs i" by (intro ext)
  then show ?thesis by (simp add: find_existing_def)
qed

lemma sidecar_apart:
  assumes "q \<noteq> []" and "prefix q (state_path qx s i @ [DIGEST_FILE_NAME])" and "f \<in> {PHASE_FILE_NAME, RESULT_FILE_NAME}"
  shows "\<not> prefix (worker_temporary_root @ [t]) q \<and> \<not> prefix (state_path qx u i @ [f]) q"
proof -
  have "directory_name s \<noteq> WORKER_TEMP_DIRECTORY_NAME" using outside_names(2) by (metis rangeI)
  moreover have "DIGEST_FILE_NAME \<noteq> f" using assms(3) by (auto simp: DIGEST_FILE_NAME_def PHASE_FILE_NAME_def RESULT_FILE_NAME_def)
  ultimately show ?thesis using assms(1,2)
    by (auto simp: state_path_eq worker_temporary_root_def prefix_Cons)
qed

text \<open>A claim, from the tree it starts with to the tree it leaves.\<close>

lemma claimed_tree:
  assumes wf: "wf_fs fs" and codec: "phase_codec wx"
    and run: "claim_prepared_with_hook wx queue hook now fresh i batch prepared fs = (Inr claim, fs')"
  obtains number where
    "next_attempt wx (state_path wx Pending i) i Pending fs = Inr number"
    "find_existing wx i fs' = Inr (Some (Processing, vp_digest prepared))"
    "read_required_phase_record wx (state_path wx Processing i) i Processing fs' = Inr
       \<lparr>wp_schema_version = CURRENT_WORKER_PHASE_SCHEMA_VERSION, wp_request_id = i, wp_batch_id = batch,
        wp_attempt = number, wp_phase = Claimed, wp_updated_at = now\<rparr>"
    "claim = \<lparr>cp_token = \<lparr>ct_request_id = i, ct_batch_id = batch, ct_attempt = number\<rparr>,
       cp_package = prepared, cp_package_root = state_path wx Processing i\<rparr>"
    "\<exists>identity. current_identity_locked queue fs' = Inr identity"
proof (rule claim_Inr [OF run], goal_cases)
  case (1 number fs1)
  let ?pending = "state_path wx Pending i" and ?processing = "state_path wx Processing i"
  let ?written = "\<lparr>wp_schema_version = CURRENT_WORKER_PHASE_SCHEMA_VERSION, wp_request_id = i, wp_batch_id = batch,
    wp_attempt = number, wp_phase = Claimed, wp_updated_at = now\<rparr>"
  from 1(2) have found: "find_existing wx i fs = Inr (Some (Pending, vp_digest prepared))"
    by (auto simp: ensure_pending_locked_def attempt_Inr_iff split: option.split_asm if_split_asm)
  have ne: "?pending @ [PHASE_FILE_NAME] \<noteq> worker_temporary_root @ [x]" for x
    by (simp add: state_path_eq worker_temporary_root_def)
  note w = write_sidecar_content [OF wf ne 1(4) [unfolded write_phase_record_def]]
  obtain json where json: "wx_phase_to_json wx ?written = Inr json"
    and l: "lookup fs1 (?pending @ [PHASE_FILE_NAME]) = Some (new_file (json @ [lf]))" using w(1) by auto
  have wf1: "wf_fs fs1" using w(2) wf by (rule keeps_wf)
  have "find_existing wx i fs1 = find_existing wx i fs"
    by (rule find_existing_keeps [OF w(2) wf]) (rule sidecar_apart, auto)
  then have f: "find_existing wx i fs' = Inr (Some (Processing, vp_digest prepared))"
    using moved_is_found [OF wf1 _ _ 1(5)] found by simp
  have dis: "?pending \<noteq> ?processing" by (simp add: state_path_eq)
  have "lookup fs' (?processing @ [PHASE_FILE_NAME]) = Some (new_file (json @ [lf]))"
    using lookup_rename [OF 1(5) wf1 dis, of "?processing @ [PHASE_FILE_NAME]"] l by simp
  from written_phase_reads [OF codec rename_wf [OF 1(5) wf1 dis] json this]
  have "read_required_phase_record wx ?processing i Processing fs' = Inr ?written" by simp
  with f 1 show ?case by (intro 1(1)) assumption+
qed

lemma claim_validates:
  assumes wf: "wf_fs fs" and codec: "phase_codec wx"
    and run: "claim_prepared_with_hook wx queue hook now fresh i batch prepared fs = (Inr claim, fs')"
  shows "queue_validate_claimed wx queue claim fs' = Inr ()"
    and "check_claim_record wx (state_path wx Processing i) token Processing fs' = Inr () \<Longrightarrow>
      ct_request_id token = i \<Longrightarrow> token = cp_token claim"
proof -
  obtain number where t:
    "find_existing wx i fs' = Inr (Some (Processing, vp_digest prepared))"
    "read_required_phase_record wx (state_path wx Processing i) i Processing fs' = Inr
       \<lparr>wp_schema_version = CURRENT_WORKER_PHASE_SCHEMA_VERSION, wp_request_id = i, wp_batch_id = batch,
        wp_attempt = number, wp_phase = Claimed, wp_updated_at = now\<rparr>"
    "claim = \<lparr>cp_token = \<lparr>ct_request_id = i, ct_batch_id = batch, ct_attempt = number\<rparr>,
       cp_package = prepared, cp_package_root = state_path wx Processing i\<rparr>"
    "\<exists>identity. current_identity_locked queue fs' = Inr identity"
    using claimed_tree [OF wf codec run] by metis
  show "queue_validate_claimed wx queue claim fs' = Inr ()"
    using t by (auto simp: queue_validate_claimed_def Let_def check_claim_record_def)
  show "token = cp_token claim" if "check_claim_record wx (state_path wx Processing i) token Processing fs' = Inr ()"
    "ct_request_id token = i"
    using that t by (simp add: check_claim_record_def split: if_split_asm)
qed

section \<open>What an upload can store\<close>

definition stored_bytes :: "path \<Rightarrow> fs \<Rightarrow> nat" where
  "stored_bytes p fs = sum_list (map (\<lambda>(q, n). if prefix p q then node_length n else 0) fs)"

lemma stored_put_fresh:
  "lookup fs q = None \<Longrightarrow> stored_bytes p (put q n fs) = stored_bytes p fs + (if prefix p q then node_length n else 0)"
  unfolding lookup_def put_def stored_bytes_def by (induction fs) (auto split: if_splits)

lemma stored_put:
  "lookup fs q = Some old \<Longrightarrow>
   stored_bytes p (put q n fs) + (if prefix p q then node_length old else 0) =
   stored_bytes p fs + (if prefix p q then node_length n else 0)"
  unfolding lookup_def put_def stored_bytes_def by (induction fs) (auto split: if_splits)

lemma stored_filter: "stored_bytes p (filter P fs) \<le> stored_bytes p fs"
  unfolding stored_bytes_def by (induction fs) auto

lemma stored_remove_file: "stored_bytes p (ignoring (remove_file q) fs) \<le> stored_bytes p fs"
  using stored_filter by (auto simp: ignoring_def remove_file_def attempt_def split: sum.split if_splits)

lemma stored_create_new:
  "create_new q b fs = Inr fs' \<Longrightarrow> prefix p q \<Longrightarrow> stored_bytes p fs' = stored_bytes p fs + length b"
  by (auto simp: create_new_Inr_iff stored_put_fresh new_file_def node_length_def)

lemma stored_write_new:
  "create_new q [] fs = Inr u \<Longrightarrow> Filesystem.write_file q b u = Inr v \<Longrightarrow> prefix p q \<Longrightarrow>
   stored_bytes p v = stored_bytes p fs + length b"
  using create_new_lookup [of q "[]" fs u] stored_create_new [of q "[]" fs u p]
    stored_put [of u q "new_file []" p "File b 420 1"]
  by (auto simp: Filesystem.write_file_def attempt_Inr_iff new_file_def node_length_def)

lemma stored_make_dir: "make_dir t q fs = Inr fs' \<Longrightarrow> stored_bytes p fs' = stored_bytes p fs"
  by (auto simp: make_dir_def stored_put_fresh node_length_def split: option.split_asm node.split_asm)

lemma stored_create_dir_all: "create_dir_all q fs = Inr fs' \<Longrightarrow> stored_bytes p fs' = stored_bytes p fs"
proof -
  have "try_fold (make_dir t) ps fs = Inr fs' \<Longrightarrow> stored_bytes p fs' = stored_bytes p fs" for t ps fs
    by (induction ps arbitrary: fs) (auto simp: attempt_Inr_iff dest!: stored_make_dir [where p = p])
  then show "create_dir_all q fs = Inr fs' \<Longrightarrow> stored_bytes p fs' = stored_bytes p fs"
    by (simp add: create_dir_all_def)
qed

lemma copy_chunks_bounds:
  assumes "copy_chunks limits written chunks copied = Inr bytes"
    and "length copied \<le> pl_maximum_file_bytes limits" and "written + length copied \<le> pl_maximum_total_bytes limits"
  shows "length bytes \<le> pl_maximum_file_bytes limits \<and> written + length bytes \<le> pl_maximum_total_bytes limits"
  using assms
proof (induction limits written chunks copied rule: copy_chunks.induct)
  case (3 limits written chunk rest copied)
  then show ?case
    by (cases "chunk = []") (auto simp: attempt_Inr_iff checked_add_u64_Some_iff add.assoc split: if_split_asm)
qed auto

text \<open>The counters of an upload cover what is stored, and stay within the limits.\<close>

definition upload_ok :: "package_limits \<Rightarrow> incoming_package \<Rightarrow> fs \<Rightarrow> bool" where
  "upload_ok limits package fs \<longleftrightarrow>
     stored_bytes (ip_staging_path package) fs \<le> ip_written_bytes package \<and>
     ip_written_bytes package \<le> pl_maximum_total_bytes limits \<and>
     ip_written_files package \<le> pl_maximum_file_count limits"

lemma next_counts_Inr:
  "next_counts limits d f = Inr n \<Longrightarrow> n = f + 1 \<and> n \<le> pl_maximum_file_count limits \<and> d + n \<le> pl_maximum_entry_count limits"
  by (auto simp: next_counts_def attempt_Inr_iff checked_add_u64_Some_iff split: if_split_asm)

lemma incoming_write_ok:
  assumes ok: "upload_ok (pp_limits (fq_policy queue)) package fs" and dest: "prefix (ip_staging_path package) dest"
    and run: "incoming_write_file queue package dest source fs = (r, package', fs')"
  shows "upload_ok (pp_limits (fq_policy queue)) package' fs'"
proof -
  let ?limits = "pp_limits (fq_policy queue)" and ?p = "ip_staging_path package"
  define m where "m = andthen (observe (\<lambda>_. next_counts ?limits (length (ip_written_directories package))
        (ip_written_files package))) (\<lambda>next_file_count.
      andthen (perform QueueIo (create_new dest [])) (\<lambda>_.
      andthen (or_cleanup (ignoring (remove_file dest))
        (observe (\<lambda>_. copy_chunks ?limits (ip_written_bytes package) source []))) (\<lambda>copied.
      andthen (perform QueueIo (Filesystem.write_file dest copied)) (\<lambda>_. finish (next_file_count, copied)))))"
  have same: "stored_bytes ?p v \<le> stored_bytes ?p fs" if "m fs = (Inl e, v)" for e v
    using that stored_create_new [of dest "[]" fs _ ?p, OF _ dest]
    by (auto simp: m_def andthen_def observe_def perform_def or_cleanup_def finish_def
        split: sum.split_asm prod.split_asm intro: le_trans [OF stored_remove_file])
  show ?thesis
  proof (cases "fst (m fs)")
    case (Inl e)
    then obtain v where v: "m fs = (Inl e, v)" by (cases "m fs") auto
    with run have "package' = package" "fs' = v"
      by (auto simp: incoming_write_file_def m_def [symmetric] Let_def)
    with same [OF v] ok show ?thesis by (simp add: upload_ok_def)
  next
    case (Inr x)
    then obtain count copied v where v: "m fs = (Inr (count, copied), v)" by (cases "m fs"; cases x) auto
    with run have p': "package' = package\<lparr>ip_written_files := count, ip_written_bytes := ip_written_bytes package + length copied\<rparr>"
      "fs' = v" by (auto simp: incoming_write_file_def m_def [symmetric] Let_def)
    from v obtain u where c: "next_counts ?limits (length (ip_written_directories package)) (ip_written_files package) = Inr count"
      and u: "create_new dest [] fs = Inr u" "Filesystem.write_file dest copied u = Inr v"
      and copy: "copy_chunks ?limits (ip_written_bytes package) source [] = Inr copied"
      by (auto simp: m_def action_Inr_iffs)
    from copy_chunks_bounds [OF copy] ok have "ip_written_bytes package + length copied \<le> pl_maximum_total_bytes ?limits"
      by (simp add: upload_ok_def)
    with stored_write_new [OF u dest] next_counts_Inr [OF c] ok p' show ?thesis by (simp add: upload_ok_def)
  qed
qed

inductive upload_step :: "file_queue \<Rightarrow> incoming_package \<times> fs \<Rightarrow> incoming_package \<times> fs \<Rightarrow> bool"
  for queue :: file_queue where
  upload_request: "write_request queue package source fs = (r, package', fs') \<Longrightarrow>
    upload_step queue (package, fs) (package', fs')"
| upload_payload: "add_payload queue package path source fs = (r, package', fs') \<Longrightarrow>
    upload_step queue (package, fs) (package', fs')"

lemma upload_step_ok:
  assumes "upload_step queue (package, fs) (package', fs')" and ok: "upload_ok (pp_limits (fq_policy queue)) package fs"
  shows "upload_ok (pp_limits (fq_policy queue)) package' fs'"
  using assms(1)
proof cases
  case (upload_request source r)
  then show ?thesis
    using incoming_write_ok [OF ok, of "ip_staging_path package @ [REQUEST_FILE_NAME]" source] ok
    by (auto simp: write_request_def upload_ok_def split: if_split_asm prod.split_asm sum.split_asm)
next
  case (upload_payload path source r)
  let ?d = "ip_staging_path package @ [PAYLOAD_DIRECTORY_NAME] @ split_on (CHR ''/'') (payload_str path)"
  show ?thesis
  proof (cases "check_new_payload (pp_limits (fq_policy queue)) package path")
    case (Inl e)
    with upload_payload ok show ?thesis by (auto simp: add_payload_def Let_def)
  next
    case (Inr parents)
    let ?p = "package\<lparr>ip_written_directories := ip_written_directories package @
      filter (\<lambda>p. p \<notin> set (ip_written_directories package)) parents\<rparr>"
    show ?thesis
    proof (cases "create_dir_all (butlast ?d) fs")
      case (Inl e)
      with Inr upload_payload ok show ?thesis by (auto simp: add_payload_def Let_def)
    next
      case u: (Inr u)
      have "upload_ok (pp_limits (fq_policy queue)) ?p u"
        using ok stored_create_dir_all [OF u] by (simp add: upload_ok_def)
      note w = incoming_write_ok [OF this, of ?d source]
      obtain r' q v where run: "incoming_write_file queue ?p ?d source u = (r', q, v)" by (metis prod_cases3)
      have "upload_ok (pp_limits (fq_policy queue)) q v" by (rule w [OF _ run]) simp
      with Inr u run upload_payload show ?thesis
        by (auto simp: add_payload_def Let_def upload_ok_def split: sum.split_asm)
    qed
  qed
qed

lemma uploads_ok:
  assumes "(upload_step queue)\<^sup>*\<^sup>* (package, fs) (package', fs')" and "upload_ok (pp_limits (fq_policy queue)) package fs"
  shows "upload_ok (pp_limits (fq_policy queue)) package' fs'"
  using assms by (induction rule: rtranclp_induct2) (auto intro: upload_step_ok)

lemma stored_nothing:
  assumes "wf_fs fs" and "lookup fs p = None"
  shows "stored_bytes p fs = 0"
proof -
  have "\<not> prefix p q" if "(q, n) \<in> set fs" for q n
  proof
    assume "prefix p q"
    then obtain z where "q = p @ z" by (auto simp: prefix_def)
    moreover have "lookup fs q \<noteq> None" using that weak_map_of_SomeI [of q n fs] by (auto simp: lookup_def)
    ultimately have "lookup fs p \<noteq> None" using wf_fs_prefix [OF assms(1), of p z] by (cases "z = []") auto
    with assms(2) show False by simp
  qed
  then show ?thesis unfolding stored_bytes_def by (auto simp: sum_list_eq_0_iff)
qed

lemma begin_upload_ok:
  assumes "wf_fs fs" and "begin_attempts qx queue lease names fs = (Inr package, fs')"
  shows "upload_ok limits package fs'"
  using assms(2)
proof (induction names)
  case (Cons fresh names)
  let ?p = "[''incoming'', ''.incoming-'' @ show_ulid qx fresh]"
  show ?case
  proof (cases "create_dir ?p fs")
    case (Inl e)
    with Cons show ?thesis by (auto simp: Let_def simp del: append_Cons append_Nil split: if_split_asm)
  next
    case u: (Inr u)
    with Cons.prems obtain v where v: "create_dir (?p @ [PAYLOAD_DIRECTORY_NAME]) u = Inr v"
      and r: "fs' = v" "ip_staging_path package = ?p" "ip_written_bytes package = 0" "ip_written_files package = 0"
      by (auto simp: Let_def simp del: append_Cons append_Nil split: sum.split_asm)
    have "stored_bytes ?p fs = 0" using u by (intro stored_nothing [OF assms(1)]) (simp add: create_dir_Inr_iff)
    moreover have "stored_bytes ?p v = stored_bytes ?p fs"
      using u v by (simp add: create_dir_Inr_iff stored_put_fresh node_length_def del: append_Cons append_Nil)
    ultimately show ?thesis using r by (simp add: upload_ok_def del: append_Cons append_Nil)
  qed
qed simp

section \<open>Batch selection\<close>

lemma take_insort_take: "take n (insort x (take n xs)) = take n (insort x xs)"
proof (induction xs arbitrary: n)
  case (Cons y xs)
  then show ?case by (cases n; cases "n - 1") auto
qed (cases n; simp)

lemma retain_take: "retain_candidate n x (take n xs) = take n (insort x xs)"
proof -
  have "retain_candidate n x ys = take n (insort x ys)" if "length ys \<le> n" for ys
    using that by (cases "n = length ys") (auto simp: retain_candidate_def Let_def butlast_conv_take)
  then show ?thesis by (simp add: take_insort_take)
qed

lemma retain_all: "fold (retain_candidate n) cs (take n (sort xs)) = take n (sort (cs @ xs))"
proof (induction cs arbitrary: xs)
  case (Cons c cs)
  have "fold (retain_candidate n) (c # cs) (take n (sort xs)) = fold (retain_candidate n) cs (take n (sort (c # xs)))"
    by (simp add: retain_take)
  also have "\<dots> = take n (sort (cs @ c # xs))" by (rule Cons)
  also have "sort (cs @ c # xs) = sort ((c # cs) @ xs)" by (rule properties_for_sort) (simp_all add: sorted_insort)
  finally show ?case .
qed simp


text \<open>A scan over entries that all inspect well keeps the earliest candidates.\<close>

lemma scan_selects:
  assumes "\<And>name. name \<in> set names \<Longrightarrow>
      request_entry wx InvalidPendingEntry Pending name fs = Inr (requests name) \<and>
      inspect_pending_candidate wx queue (pb_maximum_sequence scan) (requests name) fs = Inr (found name)"
    and "pb_entries scan = Some names" and "pb_candidates scan = take m (sort cs)" and "length names < budget"
  shows "scan_candidates wx queue clock fresh batch m budget scanned scan fs =
    (Inr (scanned + length names, True),
     scan\<lparr>pb_entries := Some [], pb_candidates := take m (sort (List.map_filter found names @ cs))\<rparr>, fs)"
  using assms
proof (induction names arbitrary: budget scanned scan cs)
  case Nil
  then obtain b where "budget = Suc b" by (cases budget) auto
  with Nil show ?case by (simp add: List.map_filter_def)
next
  case (Cons name names)
  from Cons.prems(4) obtain b where b: "budget = Suc b" "length names < b" by (cases budget) auto
  have h: "request_entry wx InvalidPendingEntry Pending name fs = Inr (requests name)"
    "inspect_pending_candidate wx queue (pb_maximum_sequence scan) (requests name) fs = Inr (found name)"
    using Cons.prems(1) by simp_all
  define scan' where "scan' = (case found name of None \<Rightarrow> scan\<lparr>pb_entries := Some names\<rparr>
    | Some c \<Rightarrow> scan\<lparr>pb_entries := Some names, pb_candidates := retain_candidate m c (pb_candidates scan)\<rparr>)"
  have r: "retain_pending_candidate wx queue clock fresh batch m name (scan\<lparr>pb_entries := Some names\<rparr>) fs = (Inr scan', fs)"
    by (simp add: retain_pending_candidate_def andthen_def observe_def h scan'_def split: option.split)
  define cs' where "cs' = (case found name of None \<Rightarrow> cs | Some c \<Rightarrow> c # cs)"
  have s: "pb_maximum_sequence scan' = pb_maximum_sequence scan" "pb_entries scan' = Some names"
    "pb_candidates scan' = take m (sort cs')"
    using Cons.prems(3) by (simp_all add: scan'_def cs'_def retain_take split: option.split)
  have "sort (List.map_filter found (name # names) @ cs) = sort (List.map_filter found names @ cs')"
    by (rule properties_for_sort) (simp_all add: cs'_def List.map_filter_def split: option.split)
  moreover have "scan_candidates wx queue clock fresh batch m b (Suc scanned) scan' fs =
      (Inr (Suc scanned + length names, True),
       scan'\<lparr>pb_entries := Some [], pb_candidates := take m (sort (List.map_filter found names @ cs'))\<rparr>, fs)"
    by (rule Cons.IH) (use Cons.prems(1) s b(2) in auto)
  moreover have "scan'\<lparr>pb_entries := Some [], pb_candidates := x\<rparr> = scan\<lparr>pb_entries := Some [], pb_candidates := x\<rparr>" for x
    by (simp add: scan'_def split: option.split)
  ultimately show ?case using Cons.prems(2) r b by simp
qed

section \<open>Observing a queue that moves\<close>

lemma observed_nothing:
  assumes "observe_states wx ob i states k = Inr []" and "j < length states" and "wf_fs (ob_tree ob (k + j))"
  shows "\<not> present wx (ob_tree ob (k + j)) (states ! j) i"
  using assms
proof (induction states arbitrary: k j)
  case (Cons s states)
  from Cons.prems(1) have rest: "observe_states wx ob i states (k + 1) = Inr []"
    and here: "pinned_open (ob_tree ob k) (state_path wx s i) = Inl (PinnedIo NotFound)"
    by (auto simp: attempt_Inr_iff Let_def split: sum.split_asm pinned_path_error.split_asm if_split_asm)
  show ?case
  proof (cases j)
    case 0
    with here Cons.prems(3) show ?thesis
      by (cases "lookup (ob_tree ob k) (state_path wx s i)")
        (auto simp: present_def pinned_open_def metadata_of_lookup split: if_split_asm)
  next
    case (Suc m)
    with Cons.IH [OF rest, of m] Cons.prems show ?thesis by simp
  qed
qed simp

lemma attempts_none:
  "observe_attempts wx ob i n k = Inr None \<Longrightarrow> 0 < n \<and> observe_states wx ob i queue_states (k + 4 * (n - 1)) = Inr []"
proof (induction n arbitrary: k)
  case (Suc n)
  then obtain observed where o: "observe_states wx ob i queue_states k = Inr observed" by (auto simp: attempt_Inr_iff)
  have again: "observe_states wx ob i queue_states (k + 4 * n) = Inr []" if "observe_attempts wx ob i n (k + 4) = Inr None"
    using Suc.IH [OF that] by (cases n) (auto simp: algebra_simps)
  show ?case
  proof (cases observed)
    case Nil
    with Suc.prems o again show ?thesis by (auto simp: attempt_Inr_iff split: if_split_asm)
  next
    case (Cons x xs)
    with Suc.prems o again show ?thesis by (cases xs) (auto simp: attempt_Inr_iff)
  qed
qed simp

text \<open>\<open>QueueState::index\<close> gives the order in which a pass looks at the states. A monotone choice of
  one of four states per look meets the look of its own number.\<close>

lemma monotone_meets:
  fixes f :: "nat \<Rightarrow> nat"
  assumes "\<And>j. j < 4 \<Longrightarrow> f j < 4" and "\<And>j. j < 3 \<Longrightarrow> f j \<le> f (Suc j)"
  shows "\<exists>j < 4. f j = j"
proof (rule ccontr)
  assume "\<not> (\<exists>j < 4. f j = j)"
  then have n: "f 0 \<noteq> 0" "f 1 \<noteq> 1" "f 2 \<noteq> 2" "f 3 \<noteq> 3" by auto
  from assms(2) [of 0] assms(2) [of 1] assms(2) [of 2] have "f 0 \<le> f 1" "f 1 \<le> f 2" "f 2 \<le> f 3"
    by (simp_all add: numeral_2_eq_2 numeral_3_eq_3)
  with n assms(1) [of 3] show False by simp
qed

lemma queue_states_index: "queue_state_index s < 4" "queue_states ! queue_state_index s = s"
  by (cases s; simp add: queue_states_def)+

lemma pass_finds:
  assumes "\<And>j. j < 4 \<Longrightarrow> wf_fs (ob_tree ob (k + j)) \<and> present wx (ob_tree ob (k + j)) (states j) i"
    and "\<And>j. j < 3 \<Longrightarrow> queue_state_index (states j) \<le> queue_state_index (states (Suc j))"
  shows "observe_states wx ob i queue_states k \<noteq> Inr []"
proof
  assume none: "observe_states wx ob i queue_states k = Inr []"
  obtain j where j: "j < 4" "queue_state_index (states j) = j"
    using monotone_meets [of "queue_state_index \<circ> states"] queue_states_index(1) assms(2) by auto
  have "\<not> present wx (ob_tree ob (k + j)) (queue_states ! j) i"
    using none j(1) assms(1) [of j] by (intro observed_nothing) (auto simp: queue_states_def)
  moreover have "queue_states ! j = states j" using queue_states_index(2) [of "states j"] j(2) by simp
  ultimately show False using assms(1) [OF j(1)] by simp
qed

text \<open>A queue that stands still while it is observed.\<close>

lemma pinned_only_in:
  assumes "only_in wx fs s i"
  shows "pinned_open fs (state_path wx t i) = (if t = s then Inr () else Inl (PinnedIo NotFound))"
  using assms by (simp add: only_in_def pinned_open_def)

lemma observe_still:
  assumes "only_in wx fs s i" and "\<And>k. ob_tree ob k = fs" and "\<And>k. \<not> ob_expired ob k"
  shows "observe_single_state_until wx ob i k = Inr (Some (s, k + queue_state_index s))"
proof -
  have "observe_states wx ob i queue_states k = Inr [(s, k + queue_state_index s)]"
    using assms(2,3) pinned_only_in [OF assms(1)]
    by (cases s) (simp_all add: queue_states_def ensure_deadline_def Let_def)
  then show ?thesis
    by (simp add: observe_single_state_until_def MAXIMUM_STATE_OBSERVATION_ATTEMPTS_def numeral_3_eq_3)
qed

text \<open>An observer of a tree that stands still.\<close>

definition still_observer :: "fs \<Rightarrow> observer" where
  "still_observer fs = \<lparr>ob_tree = (\<lambda>_. fs), ob_below = (\<lambda>_ p _. subtree p fs), ob_expired = (\<lambda>_. False),
     ob_special = ExpectedRegularFile\<rparr>"

lemma find_existing_state_fold:
  assumes "try_fold (find_existing_state_in wx fs i) states x = Inr y" and "distinct states"
  shows "case y of
      None \<Rightarrow> x = None \<and> (\<forall>s \<in> set states. symlink_metadata fs (state_path wx s i) = Inl NotFound)
    | Some t \<Rightarrow> (\<forall>s \<in> set states - {t}. symlink_metadata fs (state_path wx s i) = Inl NotFound) \<and>
        (x = y \<and> (t \<in> set states \<longrightarrow> symlink_metadata fs (state_path wx t i) = Inl NotFound) \<or>
         x = None \<and> t \<in> set states \<and> symlink_metadata fs (state_path wx t i) = Inr Dir)"
  using assms
proof (induction states arbitrary: x)
  case Nil
  then show ?case by (cases y) auto
next
  case (Cons s states)
  from Cons.prems(1) obtain z where z: "find_existing_state_in wx fs i s x = Inr z"
    and f: "try_fold (find_existing_state_in wx fs i) states z = Inr y" by (auto simp: attempt_Inr_iff)
  have "z = x \<and> symlink_metadata fs (state_path wx s i) = Inl NotFound \<or>
    x = None \<and> z = Some s \<and> symlink_metadata fs (state_path wx s i) = Inr Dir"
    using z by (auto simp: find_existing_state_in_def split: sum.splits if_splits)
  with Cons.IH [OF f] Cons.prems(2) show ?case by (cases y) auto
qed

lemma find_existing_state_Some:
  assumes "find_existing_state_without_package_read wx i fs = Inr (Some s)"
  shows "only_in wx fs s i"
proof -
  have all: "set queue_states = UNIV" "distinct queue_states"
    using queue_states_all by (auto simp: queue_states_def)
  from find_existing_state_fold [OF assms [unfolded find_existing_state_without_package_read_def] all(2)] all(1)
  show ?thesis by (auto simp: only_in_def)
qed

section \<open>A request that was failed\<close>

definition result_codec :: "worker_externals \<Rightarrow> bool" where
  "result_codec wx \<longleftrightarrow> (\<forall>record json. wx_result_to_json wx record = Inr json \<longrightarrow>
     wx_result_from_json wx (json @ [lf]) = Inr record \<and> length json < MAXIMUM_RESULT_FILE_BYTES)"

text \<open>A result file that records the failure of a claim.\<close>

definition failure_recorded :: "worker_externals \<Rightarrow> claim_token \<Rightarrow> error_code \<Rightarrow> node option \<Rightarrow> bool" where
  "failure_recorded wx token c n \<longleftrightarrow> (\<exists>bytes m l record. n = Some (File bytes m l) \<and>
     length bytes \<le> MAXIMUM_RESULT_FILE_BYTES \<and> wx_result_from_json wx bytes = Inr record \<and>
     wr_schema_version record = CURRENT_WORKER_RESULT_SCHEMA_VERSION \<and>
     wr_request_id record = ct_request_id token \<and> wr_status record = ResultFailed \<and> wr_error_code record = c)"

lemma validate_result_Inr:
  assumes "validate_result_record wx root token c s fs = Inr ()"
  shows "failure_recorded wx token c (lookup fs (root @ [RESULT_FILE_NAME]))"
proof -
  from assms obtain n where n: "symlink_metadata fs (root @ [RESULT_FILE_NAME]) = Inr n"
    by (auto simp: validate_result_record_def Let_def attempt_Inr_iff)
  then have l: "lookup fs (root @ [RESULT_FILE_NAME]) = Some n" by (simp add: symlink_metadata_def attempt_Inr_iff)
  show ?thesis
    using assms l
    by (cases n) (auto simp: validate_result_record_def Let_def n attempt_Inr_iff failure_recorded_def split: if_split_asm)
qed

lemma ensure_result_recorded:
  assumes wf: "wf_fs fs" and codec: "result_codec wx"
    and ne: "\<And>x. root @ [RESULT_FILE_NAME] \<noteq> worker_temporary_root @ [x]"
    and run: "ensure_result_record wx now fresh root token c s fs = (Inr u, fs')"
  shows "failure_recorded wx token c (lookup fs' (root @ [RESULT_FILE_NAME]))"
    and "\<exists>t. keeps (\<lambda>q. \<not> prefix (worker_temporary_root @ [t]) q \<and> \<not> prefix (root @ [RESULT_FILE_NAME]) q) fs fs'"
proof -
  have "failure_recorded wx token c (lookup fs' (root @ [RESULT_FILE_NAME])) \<and>
    (\<exists>t. keeps (\<lambda>q. \<not> prefix (worker_temporary_root @ [t]) q \<and> \<not> prefix (root @ [RESULT_FILE_NAME]) q) fs fs')"
  proof (cases "symlink_metadata fs (root @ [RESULT_FILE_NAME])")
    case (Inr n)
    with run have "validate_result_record wx root token c s fs = Inr ()" "fs' = fs"
      by (auto simp: ensure_result_record_def)
    then show ?thesis using validate_result_Inr keeping.R_refl by blast
  next
    case (Inl e)
    with run have w: "write_result_record wx fresh root (failed_result (ct_request_id token) (ct_batch_id token) c now) fs = (Inr u, fs')"
      by (auto simp: ensure_result_record_def split: if_split_asm)
    note w = write_sidecar_content [OF wf ne this [unfolded write_result_record_def]]
    then obtain json where "wx_result_to_json wx (failed_result (ct_request_id token) (ct_batch_id token) c now) = Inr json"
      "lookup fs' (root @ [RESULT_FILE_NAME]) = Some (new_file (json @ [lf]))" by auto
    then have "failure_recorded wx token c (lookup fs' (root @ [RESULT_FILE_NAME]))"
      using codec by (force simp: failure_recorded_def result_codec_def new_file_def failed_result_def)
    with w(2) show ?thesis by blast
  qed
  then show "failure_recorded wx token c (lookup fs' (root @ [RESULT_FILE_NAME]))"
    and "\<exists>t. keeps (\<lambda>q. \<not> prefix (worker_temporary_root @ [t]) q \<and> \<not> prefix (root @ [RESULT_FILE_NAME]) q) fs fs'" by simp_all
qed

lemma only_in_keeps:
  assumes "keeps P fs fs'" and "wf_fs fs" and "only_in qx fs s i"
    and "\<And>q t. q \<noteq> [] \<Longrightarrow> prefix q (state_path qx t i) \<Longrightarrow> P q"
  shows "only_in qx fs' s i"
proof -
  have "symlink_metadata fs' (state_path qx t i) = symlink_metadata fs (state_path qx t i)" for t
  proof (rule symlink_metadata_cong)
    fix q
    assume "prefix q (state_path qx t i)"
    then show "lookup fs' q = lookup fs q"
      using assms(1,2) assms(4) [of q t] wf_fs_root by (cases "q = []") (auto simp: keeps_def)
  qed
  with assms(3) show ?thesis by (simp add: only_in_def)
qed

lemma sidecar_apart_state:
  assumes "q \<noteq> []" and "prefix q (state_path qx t i)"
  shows "\<not> prefix (worker_temporary_root @ [x]) q \<and> \<not> prefix (state_path qx u i @ [RESULT_FILE_NAME]) q"
  using sidecar_apart [OF assms(1), of qx t i RESULT_FILE_NAME x u] assms(2) by (auto simp: prefix_def)

text \<open>The two ways a transition succeeds: the request is already there, or it is moved.\<close>

lemma transition_Inr:
  assumes "transition_claimed wx queue now fresh token t c fs = (Inr u, fs')"
  obtains
    (there) "only_in wx fs t (ct_request_id token)" "validate_terminal_claim wx token t c fs = Inr ()" "fs' = fs"
  | (moved) fs1 where "only_in wx fs Processing (ct_request_id token)" "t \<noteq> Processing"
    "(case c of
       Some failure \<Rightarrow> ensure_result_record wx now fresh (state_path wx Processing (ct_request_id token)) token failure Processing
     | None \<Rightarrow> observe (ensure_result_absent (state_path wx Processing (ct_request_id token)) (ct_request_id token) Processing))
       fs = (Inr (), fs1)"
    "rename (state_path wx Processing (ct_request_id token)) (state_path wx t (ct_request_id token)) fs1 = Inr fs'"
proof -
  from assms obtain existing where e: "find_existing_state_without_package_read wx (ct_request_id token) fs = Inr existing"
    by (auto simp: transition_claimed_def Let_def action_Inr_iffs)
  obtain s where s: "existing = Some s"
    using assms e by (cases existing) (auto simp: transition_claimed_def Let_def action_Inr_iffs)
  have o: "only_in wx fs s (ct_request_id token)" using find_existing_state_Some e s by simp
  show thesis
  proof (cases "s = t")
    case True
    with assms e s o show thesis
      by (intro there) (auto simp: transition_claimed_def Let_def action_Inr_iffs)
  next
    case False
    with assms e s o show thesis
      by (auto simp: transition_claimed_def Let_def action_Inr_iffs sync_states_def intro: moved)
  qed
qed

lemma transition_done:
  assumes wf: "wf_fs fs" and codec: "result_codec wx"
    and run: "transition_claimed wx queue now fresh token t c fs = (Inr u, fs')"
  shows "only_in wx fs' t (ct_request_id token)"
    and "c = Some failure \<Longrightarrow>
      failure_recorded wx token failure (lookup fs' (state_path wx t (ct_request_id token) @ [RESULT_FILE_NAME]))"
proof -
  let ?i = "ct_request_id token"
  have ne: "state_path wx Processing ?i @ [RESULT_FILE_NAME] \<noteq> worker_temporary_root @ [x]" for x
    by (simp add: state_path_eq worker_temporary_root_def)
  have "only_in wx fs' t ?i \<and> (\<forall>failure. c = Some failure \<longrightarrow>
    failure_recorded wx token failure (lookup fs' (state_path wx t ?i @ [RESULT_FILE_NAME])))"
  proof (rule transition_Inr [OF run], goal_cases)
    case 1
    then show ?case
      by (auto simp: validate_terminal_claim_def Let_def attempt_Inr_iff intro: validate_result_Inr)
  next
    case (2 fs1)
    have "only_in wx fs1 Processing ?i \<and> wf_fs fs1 \<and> (\<forall>failure. c = Some failure \<longrightarrow>
      failure_recorded wx token failure (lookup fs1 (state_path wx Processing ?i @ [RESULT_FILE_NAME])))"
    proof (cases c)
      case None
      with 2 wf show ?thesis by (simp add: observe_def)
    next
      case (Some failure)
      with 2(3) have r: "ensure_result_record wx now fresh (state_path wx Processing ?i) token failure Processing fs = (Inr (), fs1)"
        by simp
      note e = ensure_result_recorded [OF wf codec ne r]
      from e(2) obtain x where k: "keeps (\<lambda>q. \<not> prefix (worker_temporary_root @ [x]) q \<and>
        \<not> prefix (state_path wx Processing ?i @ [RESULT_FILE_NAME]) q) fs fs1" by blast
      have "only_in wx fs1 Processing ?i"
        by (rule only_in_keeps [OF k wf 2(1)]) (rule sidecar_apart_state)
      with e(1) keeps_wf [OF k wf] Some show ?thesis by simp
    qed
    moreover have dis: "state_path wx Processing ?i \<noteq> state_path wx t ?i"
      using 2(2) by (auto simp: state_path_eq simp del: directory_name.simps)
    ultimately show ?case
      using moved_only_in [OF _ _ _ 2(4)] 2(2) lookup_rename [OF 2(4) _ dis] by simp
  qed
  then show "only_in wx fs' t ?i" and "c = Some failure \<Longrightarrow>
      failure_recorded wx token failure (lookup fs' (state_path wx t ?i @ [RESULT_FILE_NAME]))" by simp_all
qed

lemma failed_status_reads:
  assumes wf: "wf_fs fs" and "failure_recorded wx token c (lookup fs (state_path wx Failed (ct_request_id token) @ [RESULT_FILE_NAME]))"
  shows "\<exists>at. read_failed_status wx special (subtree (state_path wx Failed (ct_request_id token)) fs) (ct_request_id token) =
    Inr (StatusFailed c at)"
proof -
  let ?p = "state_path wx Failed (ct_request_id token)"
  from assms(2) obtain bytes m l written where r: "lookup fs (?p @ [RESULT_FILE_NAME]) = Some (File bytes m l)"
    "length bytes \<le> MAXIMUM_RESULT_FILE_BYTES" "wx_result_from_json wx bytes = Inr written"
    "wr_schema_version written = CURRENT_WORKER_RESULT_SCHEMA_VERSION"
    "wr_request_id written = ct_request_id token" "wr_status written = ResultFailed" "wr_error_code written = c"
    by (auto simp: failure_recorded_def)
  have "lookup fs ?p = Some Dir" using wf_fs_parent [OF wf r(1)] .
  then have "symlink_metadata (subtree ?p fs) [RESULT_FILE_NAME] = Inr (File bytes m l)"
    using r(1) by (simp add: symlink_metadata_def resolve_parent_def strict_prefixes_def lookup_subtree)
  with r show ?thesis
    by (simp add: read_failed_status_def Let_def open_regular_beneath_def)
qed

lemma only_in_view:
  "queue_ok qx fs \<Longrightarrow> only_in qx fs s i \<Longrightarrow> view qx fs i = Some (entry_view qx fs s i)"
  by (rule view_present) (auto simp: only_in_def present_def symlink_metadata_def attempt_Inr_iff)

text \<open>A terminal state stays through whatever runs afterwards.\<close>

lemma terminal_stays:
  assumes "queue_reach wx fs fs'" and "queue_ok wx fs" and "view wx fs i = Some r" and "rv_state r \<in> {Completed, Failed}"
  shows "view wx fs' i = Some r"
  using assms steps_keep [of "view wx fs" "view wx fs'" i r] by (auto simp: queue_reach_def)

lemma each_reaches:
  assumes "inj (show_ulid wx)" and "queue_ok wx fs" and "act_each f xs fs = (Inr u, fs')"
    and "\<And>x fs. x \<in> set xs \<Longrightarrow> runs_in (queue_reach wx) (f x) fs"
    and "\<And>x fs fs' u. x \<in> set xs \<Longrightarrow> queue_ok wx fs \<Longrightarrow> f x fs = (Inr u, fs') \<Longrightarrow>
      \<exists>r. view wx fs' (g x) = Some r \<and> rv_state r = t" and "t \<in> {Completed, Failed}"
  shows "queue_ok wx fs' \<and> queue_reach wx fs fs' \<and> (\<forall>x \<in> set xs. \<exists>r. view wx fs' (g x) = Some r \<and> rv_state r = t)"
  using assms(2-5)
proof (induction xs arbitrary: fs u)
  case Nil
  then show ?case by (simp add: finish_def reach.R_refl)
next
  case (Cons x xs)
  from Cons.prems(2) obtain v fs1 w where r: "f x fs = (Inr v, fs1)" "act_each f xs fs1 = (Inr w, fs')"
    by (auto simp: andthen_Inr_iff)
  have q: "queue_reach wx fs fs1" using runs_inD [OF Cons.prems(3) r(1)] by simp
  then have ok: "queue_ok wx fs1" using Cons.prems(1) by (simp add: queue_reach_def)
  note IH = Cons.IH [OF ok r(2) Cons.prems(3,4)]
  obtain z where z: "view wx fs1 (g x) = Some z" "rv_state z = t"
    using Cons.prems(4) [OF _ Cons.prems(1) r(1)] by auto
  with IH terminal_stays [OF _ ok z(1)] assms(6) reach.R_trans [OF q] show ?case by auto
qed

lemma reconcile_done:
  assumes inj: "inj (show_ulid wx)" and codec: "result_codec wx" and ok: "queue_ok wx fs"
    and run: "reconcile_batch wx queue clock fresh batch successful failures session fs = (Inr proof_record, fs')"
  shows "reconciliation_validates proof_record (fq_identity queue) batch successful failures"
    and "token \<in> set successful \<Longrightarrow> \<exists>r. view wx fs' (ct_request_id token) = Some r \<and> rv_state r = Completed"
    and "(token, c) \<in> set failures \<Longrightarrow> \<exists>r. view wx fs' (ct_request_id token) = Some r \<and> rv_state r = Failed"
proof -
  from run obtain fs1 u v identity where
    one: "act_each (\<lambda>token. complete_claimed wx queue (clock (ct_request_id token)) (fresh (ct_request_id token)) token) successful fs = (Inr u, fs1)"
    and two: "act_each (\<lambda>(token, failure). fail_claimed wx queue (clock (ct_request_id token)) (fresh (ct_request_id token)) token failure) failures fs1 = (Inr v, fs')"
    and id: "current_identity_locked queue fs' = Inr identity"
    and p: "proof_record = \<lparr>br_queue_identity = identity, br_batch_id = batch,
      br_outcomes = sort_outcomes (expected_outcomes successful failures)\<rparr>"
    by (auto simp: reconcile_batch_def Let_def action_Inr_iffs)
  from id have "identity = fq_identity queue" by (auto simp: current_identity_locked_def attempt_Inr_iff split: if_split_asm)
  with p show "reconciliation_validates proof_record (fq_identity queue) batch successful failures"
    by (simp add: reconciliation_validates_def)
  have wf: "queue_ok wx u \<Longrightarrow> wf_fs u" for u by (simp add: queue_ok_def)
  have "queue_ok wx fs1 \<and> queue_reach wx fs fs1 \<and>
    (\<forall>token \<in> set successful. \<exists>r. view wx fs1 (ct_request_id token) = Some r \<and> rv_state r = Completed)"
  proof (rule each_reaches [OF inj ok one])
    show "\<exists>r. view wx b (ct_request_id x) = Some r \<and> rv_state r = Completed"
      if "queue_ok wx a" "complete_claimed wx queue (clock (ct_request_id x)) (fresh (ct_request_id x)) x a = (Inr y, b)" for x a b y
    proof -
      have "queue_ok wx b" using runs_inD [OF complete_claimed_reach [OF inj] that(2)] that(1) by (simp add: queue_reach_def)
      with transition_done(1) [OF wf [OF that(1)] codec that(2) [unfolded complete_claimed_def]] show ?thesis
        by (simp add: only_in_view)
    qed
  qed (simp_all add: complete_claimed_reach [OF inj])
  then have ok1: "queue_ok wx fs1"
    and finished: "\<And>token. token \<in> set successful \<Longrightarrow> \<exists>r. view wx fs1 (ct_request_id token) = Some r \<and> rv_state r = Completed"
    by auto
  have "queue_ok wx fs' \<and> queue_reach wx fs1 fs' \<and>
    (\<forall>x \<in> set failures. \<exists>r. view wx fs' ((ct_request_id \<circ> fst) x) = Some r \<and> rv_state r = Failed)"
  proof (rule each_reaches [OF inj ok1 two])
    show "\<exists>r. view wx b ((ct_request_id \<circ> fst) x) = Some r \<and> rv_state r = Failed"
      if "queue_ok wx a" "(case x of (token, failure) \<Rightarrow> fail_claimed wx queue (clock (ct_request_id token))
        (fresh (ct_request_id token)) token failure) a = (Inr y, b)" for x a b y
    proof -
      obtain token failure where x: "x = (token, failure)" by fastforce
      have r: "fail_claimed wx queue (clock (ct_request_id token)) (fresh (ct_request_id token)) token failure a = (Inr y, b)"
        using that(2) x by simp
      have "queue_ok wx b" using runs_inD [OF fail_claimed_reach [OF inj] r] that(1) by (simp add: queue_reach_def)
      with transition_done(1) [OF wf [OF that(1)] codec r [unfolded fail_claimed_def]] x show ?thesis
        by (simp add: only_in_view)
    qed
  qed (auto simp: fail_claimed_reach [OF inj])
  then show "token \<in> set successful \<Longrightarrow> \<exists>r. view wx fs' (ct_request_id token) = Some r \<and> rv_state r = Completed"
    and "(token, c) \<in> set failures \<Longrightarrow> \<exists>r. view wx fs' (ct_request_id token) = Some r \<and> rv_state r = Failed"
    using finished terminal_stays [OF _ ok1] by fastforce+
qed

end
