(* ===== verification/Queue_Progress.thy ===== *)
theory Queue_Progress
  imports Queue_Functional
begin

text \<open>
  When the operations of the queue succeed. On a queue in working order, with free temporary names
  and encodable records, an acceptance, a claim, a completion and a failure go through: no check
  or call on the way turns them down.
\<close>

section \<open>Calls that succeed\<close>

lemma resolve_parent_dir:
  assumes "wf_fs fs" and "lookup fs p = Some Dir"
  shows "resolve_parent fs (p @ [c]) = Inr ()"
proof -
  have "lookup fs q = Some Dir" if "strict_prefix q (p @ [c])" for q
  proof -
    from that have "prefix q p" by (auto simp: strict_prefix_def)
    then obtain z where "p = q @ z" by (auto simp: prefix_def)
    with assms wf_fs_prefix [OF assms(1), of q z] show ?thesis by (cases "z = []") auto
  qed
  then show ?thesis by (simp add: resolve_parent_ok_iff)
qed

lemma metadata_absent:
  "wf_fs fs \<Longrightarrow> lookup fs p = Some Dir \<Longrightarrow> lookup fs (p @ [c]) = None \<Longrightarrow> symlink_metadata fs (p @ [c]) = Inl NotFound"
  by (simp add: symlink_metadata_def resolve_parent_dir)

lemma rename_succeeds:
  assumes "wf_fs fs" and "lookup fs a = Some n" and "lookup fs p = Some Dir" and "\<not> prefix a (p @ [c])"
    and "lookup fs (p @ [c]) = None \<or> n \<noteq> Dir \<and> lookup fs (p @ [c]) \<noteq> Some Dir"
  shows "\<exists>fs'. rename a (p @ [c]) fs = Inr fs'"
proof -
  have "rename_target_ok n (p @ [c]) fs = Inr ()"
    using assms(5) by (auto simp: rename_target_ok_def split: option.split node.split)
  with assms show ?thesis by (simp add: rename_def metadata_of_lookup resolve_parent_dir)
qed

lemma create_new_succeeds:
  "wf_fs fs \<Longrightarrow> lookup fs p = Some Dir \<Longrightarrow> lookup fs (p @ [c]) = None \<Longrightarrow>
   create_new (p @ [c]) b fs = Inr (put (p @ [c]) (new_file b) fs)"
  by (simp add: create_new_Inr_iff resolve_parent_dir)

lemma sync_path_succeeds: "wf_fs fs \<Longrightarrow> lookup fs p = Some Dir \<Longrightarrow> sync_path p fs = Inr ()"
  by (simp add: sync_path_def metadata_of_lookup)

lemma write_sidecar_succeeds:
  assumes wf: "wf_fs fs" and root: "lookup fs root = Some Dir" and temporary: "lookup fs worker_temporary_root = Some Dir"
    and fresh: "lookup fs (worker_temporary_root @ [t]) = None"
    and dest: "lookup fs (root @ [f]) \<in> {None} \<union> {Some (File b m l) | b m l. True}"
    and encoded: "encoded = Inr json" and apart: "\<not> prefix worker_temporary_root root" "root \<noteq> []"
  shows "\<exists>fs'. write_sidecar root (root @ [f]) (worker_temporary_root @ [t]) encoded e fs = (Inr (), fs')"
proof -
  let ?tmp = "worker_temporary_root @ [t]" and ?dest = "root @ [f]"
  let ?fs2 = "put ?tmp (new_file (json @ [lf])) (put ?tmp (new_file []) fs)"
  have below: "\<not> prefix ?dest worker_temporary_root" "\<not> prefix ?dest root" "\<not> prefix ?tmp worker_temporary_root"
    using apart(2) by (auto simp: worker_temporary_root_def prefix_def Cons_eq_append_conv)
  have far: "\<not> prefix ?tmp ?dest" "\<not> prefix ?tmp root" "?tmp \<noteq> root" "?dest \<noteq> ?tmp"
    using apart(1) append_prefixD [of worker_temporary_root "[t]" root] by (auto simp: prefix_snoc)
  have meta: "(case symlink_metadata fs ?dest of Inr (File _ _ _) \<Rightarrow> Inr () | Inr _ \<Rightarrow> Inl e
      | Inl io \<Rightarrow> if io = NotFound then Inr () else Inl (WorkerIo io)) = Inr ()"
    using dest metadata_absent [OF wf root, of f] metadata_of_lookup [OF wf, of ?dest] by (cases "lookup fs ?dest") auto
  have c: "create_new ?tmp [] fs = Inr (put ?tmp (new_file []) fs)" by (rule create_new_succeeds [OF wf temporary fresh])
  have wf1: "wf_fs (put ?tmp (new_file []) fs)" by (rule create_new_step.run_wf [OF wf c])
  have "lookup (put ?tmp (new_file []) fs) worker_temporary_root = Some Dir" using temporary by (simp add: lookup_put)
  from resolve_parent_dir [OF wf1 this, of t]
  have w: "Filesystem.write_file ?tmp (json @ [lf]) (put ?tmp (new_file []) fs) = Inr ?fs2"
    by (simp add: Filesystem.write_file_def lookup_put) (simp add: new_file_def)
  have wf2: "wf_fs ?fs2" by (rule write_file_step.run_wf [OF wf1 w])
  obtain fs' where r: "rename ?tmp ?dest ?fs2 = Inr fs'"
    using rename_succeeds [OF wf2, of ?tmp "new_file (json @ [lf])" root f] root dest far
    by (auto simp: lookup_put new_file_def)
  have wf': "wf_fs fs'" by (rule rename_wf [OF r wf2 far(4) [symmetric]])
  have "lookup fs' root = Some Dir" "lookup fs' worker_temporary_root = Some Dir"
    using lookup_rename [OF r wf2 far(4) [symmetric]] far below root temporary by (simp_all add: lookup_put)
  then have "sync_path root fs' = Inr ()" "sync_path worker_temporary_root fs' = Inr ()"
    by (simp_all add: sync_path_succeeds [OF wf'])
  then show ?thesis
    using meta c w r encoded
    by (simp add: write_sidecar_def andthen_def observe_def or_cleanup_def perform_def)
qed

section \<open>A queue in working order\<close>

text \<open>The directories are there, the identity file holds the identity the handle was opened with, and
  the pinned descriptors still name the queue.\<close>

definition queue_ready :: "file_queue \<Rightarrow> fs \<Rightarrow> bool" where
  "queue_ready queue fs \<longleftrightarrow> wf_fs fs \<and> wf_revision (fq_identity queue) \<and> fq_pinned queue = (\<lambda>_. Inr ()) \<and>
     lookup fs [QUEUE_IDENTITY_FILE_NAME] = Some (new_file (display_revision (fq_identity queue) @ [lf])) \<and>
     lookup fs worker_temporary_root = Some Dir \<and> (\<forall>s. lookup fs [directory_name s] = Some Dir)"

lemma ready_wf: "queue_ready queue fs \<Longrightarrow> wf_fs fs"
  by (simp add: queue_ready_def)

lemma ready_identity:
  assumes "queue_ready queue fs"
  shows "current_identity_locked queue fs = Inr (fq_identity queue)"
proof -
  have "symlink_metadata fs [QUEUE_IDENTITY_FILE_NAME] = Inr (File (display_revision (fq_identity queue) @ [lf]) 420 1)"
    using assms metadata_of_lookup by (simp add: queue_ready_def new_file_def)
  from identity_file_reads [OF _ this] assms show ?thesis by (simp add: current_identity_locked_def queue_ready_def)
qed

lemma ready_keeps:
  assumes "queue_ready queue fs" and "keeps P fs fs'" and "\<And>a. P [a]"
  shows "queue_ready queue fs'"
  using assms by (simp add: queue_ready_def keeps_def worker_temporary_root_def)

lemma ready_sync: "queue_ready queue fs \<Longrightarrow> sync_path (state_root s) fs = Inr ()"
  by (rule sync_path_succeeds) (simp_all add: queue_ready_def state_root_def)

lemma move_succeeds:
  assumes ready: "queue_ready queue fs" and at: "only_in wx fs s i" and ne: "s \<noteq> t"
  shows "\<exists>fs'. rename (state_path wx s i) (state_path wx t i) fs = Inr fs' \<and> queue_ready queue fs'"
proof -
  have wf: "wf_fs fs" by (rule ready_wf [OF ready])
  have n: "lookup fs (state_path wx s i) = Some Dir" using at wf by (simp add: only_in_def symlink_metadata_ok_iff)
  have "symlink_metadata fs (state_path wx t i) = Inl NotFound" using at ne by (auto simp: only_in_def)
  then have "lookup fs ([directory_name t] @ [request_name wx i]) = None"
    using metadata_of_lookup [OF wf, of "state_path wx t i"] by (cases "lookup fs (state_path wx t i)") (auto simp: state_path_eq)
  then obtain fs' where r: "rename (state_path wx s i) (state_path wx t i) fs = Inr fs'"
    using rename_succeeds [OF wf n, of "[directory_name t]" "request_name wx i"] ne ready
    by (auto simp: state_path_eq queue_ready_def simp del: directory_name.simps)
  have dis: "state_path wx s i \<noteq> state_path wx t i" using ne by (simp add: state_path_eq)
  have "keeps (\<lambda>q. length q = 1) fs fs'"
    by (rule rename_step.keeps_run [OF r]) (auto simp: state_path_eq prefix_def)
  from ready_keeps [OF ready this] r show ?thesis by simp
qed

lemma sidecar_succeeds:
  assumes ready: "queue_ready queue fs" and at: "only_in wx fs s i"
    and fresh: "lookup fs (worker_temporary_root @ [t]) = None"
    and dest: "lookup fs (state_path wx s i @ [f]) \<in> {None} \<union> {Some (File b m l) | b m l. True}"
    and encoded: "encoded = Inr json" and f: "f \<in> {PHASE_FILE_NAME, RESULT_FILE_NAME}"
  shows "\<exists>fs'. write_sidecar (state_path wx s i) (state_path wx s i @ [f]) (worker_temporary_root @ [t]) encoded e fs = (Inr (), fs') \<and>
    queue_ready queue fs' \<and> only_in wx fs' s i \<and>
    keeps (\<lambda>q. \<not> prefix (worker_temporary_root @ [t]) q \<and> \<not> prefix (state_path wx s i @ [f]) q) fs fs'"
proof -
  have wf: "wf_fs fs" by (rule ready_wf [OF ready])
  have root: "lookup fs (state_path wx s i) = Some Dir" using at wf by (simp add: only_in_def symlink_metadata_ok_iff)
  have "directory_name s \<noteq> WORKER_TEMP_DIRECTORY_NAME" using outside_names(2) by (metis rangeI)
  then have apart: "\<not> prefix worker_temporary_root (state_path wx s i)" "state_path wx s i \<noteq> []"
    "state_path wx s i @ [f] \<noteq> worker_temporary_root @ [t]"
    by (auto simp: state_path_eq worker_temporary_root_def)
  obtain fs' where r: "write_sidecar (state_path wx s i) (state_path wx s i @ [f]) (worker_temporary_root @ [t]) encoded e fs = (Inr (), fs')"
    using write_sidecar_succeeds [OF wf root _ fresh dest encoded apart(1,2)] ready by (auto simp: queue_ready_def)
  have k: "keeps (\<lambda>q. \<not> prefix (worker_temporary_root @ [t]) q \<and> \<not> prefix (state_path wx s i @ [f]) q) fs fs'"
    by (rule write_sidecar_content(2) [OF wf apart(3) r])
  have "queue_ready queue fs'" by (rule ready_keeps [OF ready k]) (auto simp: state_path_eq worker_temporary_root_def)
  moreover have "only_in wx fs' s i"
  proof (rule only_in_keeps [OF k wf at])
    fix q u
    assume "q \<noteq> []" "prefix q (state_path wx u i)"
    then show "\<not> prefix (worker_temporary_root @ [t]) q \<and> \<not> prefix (state_path wx s i @ [f]) q"
      using sidecar_apart [of q wx u i f t s] f by (auto simp: prefix_def)
  qed
  ultimately show ?thesis using r k by blast
qed

section \<open>Claims that succeed\<close>

lemma next_attempt_entry:
  assumes "next_attempt wx root i s fs = Inr number" and "wf_fs fs"
  shows "lookup fs (root @ [PHASE_FILE_NAME]) \<in> {None} \<union> {Some (File b m l) | b m l. True}"
  using assms metadata_of_lookup [OF assms(2), of "root @ [PHASE_FILE_NAME]"]
  by (cases "lookup fs (root @ [PHASE_FILE_NAME])")
    (auto simp: next_attempt_def read_optional_phase_record_def Let_def attempt_Inr_iff split: node.split_asm)

lemma claim_succeeds:
  assumes ready: "queue_ready queue fs" and found: "find_existing wx i fs = Inr (Some (Pending, vp_digest prepared))"
    and number: "next_attempt wx (state_path wx Pending i) i Pending fs = Inr number"
    and encodes: "wx_phase_to_json wx \<lparr>wp_schema_version = CURRENT_WORKER_PHASE_SCHEMA_VERSION, wp_request_id = i,
       wp_batch_id = batch, wp_attempt = number, wp_phase = Claimed, wp_updated_at = now\<rparr> = Inr json"
    and fresh: "lookup fs (worker_temporary_root @ [''.phase-'' @ show_ulid wx fresh]) = None"
  shows "\<exists>claim fs'. claim_prepared_with_hook wx queue (\<lambda>_. Inr ()) now fresh i batch prepared fs = (Inr claim, fs') \<and>
    queue_ready queue fs' \<and> cp_token claim = \<lparr>ct_request_id = i, ct_batch_id = batch, ct_attempt = number\<rparr> \<and>
    lookup fs' (state_path wx Processing i @ [RESULT_FILE_NAME]) = lookup fs (state_path wx Pending i @ [RESULT_FILE_NAME])"
proof -
  let ?pending = "state_path wx Pending i" and ?t = "''.phase-'' @ show_ulid wx fresh"
  have at: "only_in wx fs Pending i" using found by (simp add: find_existing_Some_iff)
  obtain fs1 where w: "write_phase_record wx fresh ?pending \<lparr>wp_schema_version = CURRENT_WORKER_PHASE_SCHEMA_VERSION,
      wp_request_id = i, wp_batch_id = batch, wp_attempt = number, wp_phase = Claimed, wp_updated_at = now\<rparr> fs = (Inr (), fs1)"
    and ready1: "queue_ready queue fs1" and at1: "only_in wx fs1 Pending i"
    and k: "keeps (\<lambda>q. \<not> prefix (worker_temporary_root @ [?t]) q \<and> \<not> prefix (?pending @ [PHASE_FILE_NAME]) q) fs fs1"
    using sidecar_succeeds [OF ready at fresh next_attempt_entry [OF number ready_wf [OF ready]], of _ json] encodes
    by (fastforce simp: write_phase_record_def simp del: append_Cons append_Nil)
  obtain fs' where m: "rename ?pending (state_path wx Processing i) fs1 = Inr fs'" and ready': "queue_ready queue fs'"
    using move_succeeds [OF ready1 at1, of Processing] by auto
  have dis: "?pending \<noteq> state_path wx Processing i" by (simp add: state_path_eq)
  have "lookup fs' (state_path wx Processing i @ [RESULT_FILE_NAME]) = lookup fs1 (?pending @ [RESULT_FILE_NAME])"
    by (simp add: lookup_rename [OF m ready_wf [OF ready1] dis])
  also have "\<dots> = lookup fs (?pending @ [RESULT_FILE_NAME])"
    using k ready_wf [OF ready]
    by (auto simp: keeps_def state_path_eq worker_temporary_root_def PHASE_FILE_NAME_def RESULT_FILE_NAME_def WORKER_TEMP_DIRECTORY_NAME_def)
  finally show ?thesis
    using ready1 ready' found number w m
    by (simp add: claim_prepared_with_hook_def Let_def andthen_def observe_def reject_if_def perform_def finish_def
        ready_identity [OF ready] ready_identity [OF ready1] ready_identity [OF ready'] ensure_pending_locked_def
        sync_states_def ready_sync [OF ready'])
qed

section \<open>Transitions that succeed\<close>

lemma only_in_state:
  "only_in wx fs s i \<Longrightarrow> find_existing_state_without_package_read wx i fs = Inr (Some s)"
  by (cases s) (simp_all add: only_in_def find_existing_state_without_package_read_def queue_states_def find_existing_state_in_def)

lemma transition_succeeds:
  assumes ready: "queue_ready queue fs" and at: "only_in wx fs Processing (ct_request_id token)"
    and owns: "check_claim_record wx (state_path wx Processing (ct_request_id token)) token Processing fs = Inr ()"
    and t: "t \<noteq> Processing"
    and result: "(case c of
       Some failure \<Rightarrow> ensure_result_record wx now fresh (state_path wx Processing (ct_request_id token)) token failure Processing
     | None \<Rightarrow> observe (ensure_result_absent (state_path wx Processing (ct_request_id token)) (ct_request_id token) Processing))
       fs = (Inr (), fs1)"
    and left: "queue_ready queue fs1" "only_in wx fs1 Processing (ct_request_id token)"
  shows "\<exists>fs'. transition_claimed wx queue now fresh token t c fs = (Inr (), fs') \<and> queue_ready queue fs'"
proof -
  obtain fs' where "rename (state_path wx Processing (ct_request_id token)) (state_path wx t (ct_request_id token)) fs1 = Inr fs'"
    and ready': "queue_ready queue fs'" using move_succeeds [OF left, of t] t by auto
  then show ?thesis
    using result owns t only_in_state [OF at]
    by (simp add: transition_claimed_def Let_def andthen_def observe_def reject_if_def perform_def finish_def sync_states_def
        ready_identity [OF ready] ready_identity [OF left(1)] ready_identity [OF ready'] ready_sync [OF ready'])
qed

lemma result_absent:
  assumes "wf_fs fs" and "only_in wx fs s i" and "lookup fs (state_path wx s i @ [RESULT_FILE_NAME]) = None"
  shows "symlink_metadata fs (state_path wx s i @ [RESULT_FILE_NAME]) = Inl NotFound"
  using assms by (intro metadata_absent) (simp_all add: only_in_def symlink_metadata_ok_iff)

lemma complete_succeeds:
  assumes ready: "queue_ready queue fs" and at: "only_in wx fs Processing (ct_request_id token)"
    and owns: "check_claim_record wx (state_path wx Processing (ct_request_id token)) token Processing fs = Inr ()"
    and none: "lookup fs (state_path wx Processing (ct_request_id token) @ [RESULT_FILE_NAME]) = None"
  shows "\<exists>fs'. complete_claimed wx queue now fresh token fs = (Inr (), fs') \<and> queue_ready queue fs'"
  using transition_succeeds [OF ready at owns _ _ ready at, where t = Completed and c = None]
    result_absent [OF ready_wf [OF ready] at none] ready at
  by (auto simp: complete_claimed_def observe_def ensure_result_absent_def)

lemma fail_succeeds:
  assumes ready: "queue_ready queue fs" and at: "only_in wx fs Processing (ct_request_id token)"
    and owns: "check_claim_record wx (state_path wx Processing (ct_request_id token)) token Processing fs = Inr ()"
    and none: "lookup fs (state_path wx Processing (ct_request_id token) @ [RESULT_FILE_NAME]) = None"
    and encodes: "wx_result_to_json wx (failed_result (ct_request_id token) (ct_batch_id token) c now) = Inr json"
    and fresh: "lookup fs (worker_temporary_root @ [''.result-'' @ show_ulid wx fresh]) = None"
  shows "\<exists>fs'. fail_claimed wx queue now fresh token c fs = (Inr (), fs') \<and> queue_ready queue fs'"
proof -
  let ?root = "state_path wx Processing (ct_request_id token)"
  have d: "lookup fs (?root @ [RESULT_FILE_NAME]) \<in> {None} \<union> {Some (File b m l) | b m l. True}" using none by simp
  obtain fs1 where w: "write_result_record wx fresh ?root (failed_result (ct_request_id token) (ct_batch_id token) c now) fs = (Inr (), fs1)"
    and left: "queue_ready queue fs1" "only_in wx fs1 Processing (ct_request_id token)"
    using sidecar_succeeds [OF ready at fresh d, of _ json] encodes
    by (fastforce simp: write_result_record_def simp del: append_Cons append_Nil)
  have "ensure_result_record wx now fresh ?root token c Processing fs = (Inr (), fs1)"
    using w result_absent [OF ready_wf [OF ready] at none] by (simp add: ensure_result_record_def)
  with transition_succeeds [OF ready at owns _ _ left, where t = Failed and c = "Some c"] show ?thesis
    by (auto simp: fail_claimed_def)
qed

text \<open>From pending to completed.\<close>

lemma claim_then_complete:
  assumes codec: "phase_codec wx" and ready: "queue_ready queue fs"
    and found: "find_existing wx i fs = Inr (Some (Pending, vp_digest prepared))"
    and number: "next_attempt wx (state_path wx Pending i) i Pending fs = Inr number"
    and encodes: "wx_phase_to_json wx \<lparr>wp_schema_version = CURRENT_WORKER_PHASE_SCHEMA_VERSION, wp_request_id = i,
       wp_batch_id = batch, wp_attempt = number, wp_phase = Claimed, wp_updated_at = now\<rparr> = Inr json"
    and fresh: "lookup fs (worker_temporary_root @ [''.phase-'' @ show_ulid wx fresh]) = None"
    and none: "lookup fs (state_path wx Pending i @ [RESULT_FILE_NAME]) = None"
  shows "\<exists>claim fs1 fs2. claim_prepared_with_hook wx queue (\<lambda>_. Inr ()) now fresh i batch prepared fs = (Inr claim, fs1) \<and>
    complete_claimed wx queue later fresh' (cp_token claim) fs1 = (Inr (), fs2)"
proof -
  from claim_succeeds [OF ready found number encodes fresh]
  obtain claim fs1 where run: "claim_prepared_with_hook wx queue (\<lambda>_. Inr ()) now fresh i batch prepared fs = (Inr claim, fs1)"
    and ready1: "queue_ready queue fs1"
    and token: "cp_token claim = \<lparr>ct_request_id = i, ct_batch_id = batch, ct_attempt = number\<rparr>"
    and none1: "lookup fs1 (state_path wx Processing i @ [RESULT_FILE_NAME]) = None"
    using none by auto
  have "queue_validate_claimed wx queue claim fs1 = Inr ()" by (rule claim_validates(1) [OF ready_wf [OF ready] codec run])
  then have "only_in wx fs1 Processing i" "check_claim_record wx (state_path wx Processing i) (cp_token claim) Processing fs1 = Inr ()"
    using token by (auto simp: queue_validate_claimed_def Let_def attempt_Inr_iff find_existing_Some_iff split: if_split_asm option.split_asm)
  with complete_succeeds [OF ready1, of wx "cp_token claim"] none1 token run show ?thesis by auto
qed

section \<open>Acceptances that succeed\<close>

lemma allocate_succeeds:
  assumes wf: "wf_fs fs" and n: "read_next_sequence [NEXT_SEQUENCE_FILE_NAME] fs = Inr n" "n + 1 \<le> u64_max"
    and fresh: "lookup fs [''.next-sequence-'' @ show_ulid qx fresh] = None"
  shows "\<exists>fs'. allocate_sequence qx fresh fs = (Inr n, fs') \<and>
    keeps (\<lambda>q. \<not> prefix [''.next-sequence-'' @ show_ulid qx fresh] q \<and> \<not> prefix [NEXT_SEQUENCE_FILE_NAME] q) fs fs'"
proof -
  let ?t = "''.next-sequence-'' @ show_ulid qx fresh"
  let ?fs1 = "put [?t] (new_file (show_nat (n + 1) @ [lf])) fs"
  have c: "create_new [?t] (show_nat (n + 1) @ [lf]) fs = Inr ?fs1"
    using create_new_succeeds [OF wf wf_fs_root [OF wf], of ?t] fresh by (simp del: append_Cons)
  have wf1: "wf_fs ?fs1" by (rule create_new_step.run_wf [OF wf c])
  have ne: "?t \<noteq> NEXT_SEQUENCE_FILE_NAME" by (simp add: NEXT_SEQUENCE_FILE_NAME_def)
  obtain b m l where "symlink_metadata fs [NEXT_SEQUENCE_FILE_NAME] = Inr (File b m l)"
    using n(1) by (auto simp: read_next_sequence_def attempt_Inr_iff read_file_metadata_iff)
  then have "lookup fs [NEXT_SEQUENCE_FILE_NAME] = Some (File b m l)" using wf by (simp add: symlink_metadata_ok_iff)
  then obtain fs' where r: "rename [?t] [NEXT_SEQUENCE_FILE_NAME] ?fs1 = Inr fs'"
    using rename_succeeds [OF wf1, of "[?t]" "new_file (show_nat (n + 1) @ [lf])" "[]" NEXT_SEQUENCE_FILE_NAME] ne wf_fs_root [OF wf]
    by (auto simp: lookup_put new_file_def simp del: append_Cons)
  have "wf_fs fs'" using r wf1 ne by (intro rename_wf [OF r wf1]) auto
  then have "sync_path [] fs' = Inr ()" by (simp add: sync_path_succeeds wf_fs_root)
  moreover have "keeps (\<lambda>q. \<not> prefix [?t] q \<and> \<not> prefix [NEXT_SEQUENCE_FILE_NAME] q) fs ?fs1"
    by (rule create_new_step.keeps_run [OF c]) (simp del: append_Cons)
  then have "keeps (\<lambda>q. \<not> prefix [?t] q \<and> \<not> prefix [NEXT_SEQUENCE_FILE_NAME] q) fs fs'"
    by (rule keeping.R_trans) (rule rename_step.keeps_run [OF r], simp del: append_Cons)
  ultimately show ?thesis using n c r
    by (simp add: allocate_sequence_def Let_def andthen_def observe_def perform_def or_cleanup_def finish_def
        checked_add_u64_def del: append_Cons)
qed

lemma write_acceptance_succeeds:
  assumes wf: "wf_fs fs" and root: "lookup fs root = Some Dir" and none: "lookup fs (root @ [ACCEPTANCE_FILE_NAME]) = None"
    and json: "qx_acceptance_to_json qx acceptance = Inr json"
  shows "\<exists>fs' b. write_acceptance_file qx root acceptance fs = (Inr (), fs') \<and>
    lookup fs' (root @ [ACCEPTANCE_FILE_NAME]) = Some (new_file b) \<and>
    keeps (\<lambda>q. q \<noteq> root @ [ACCEPTANCE_FILE_NAME]) fs fs'"
proof -
  let ?p = "root @ [ACCEPTANCE_FILE_NAME]"
  have c: "create_new ?p [] fs = Inr (put ?p (new_file []) fs)" by (rule create_new_succeeds [OF wf root none])
  have wf1: "wf_fs (put ?p (new_file []) fs)" by (rule create_new_step.run_wf [OF wf c])
  have "resolve_parent (put ?p (new_file []) fs) ?p = Inr ()"
    using root by (intro resolve_parent_dir wf1) (simp add: lookup_put)
  then have w: "Filesystem.write_file ?p (json @ [lf]) (put ?p (new_file []) fs)
      = Inr (put ?p (new_file (json @ [lf])) (put ?p (new_file []) fs))"
    by (simp add: Filesystem.write_file_def lookup_put) (simp add: new_file_def)
  have "keeps (\<lambda>q. q \<noteq> ?p) fs (put ?p (new_file []) fs)" by (rule create_new_step.keeps_run [OF c]) simp
  then have "keeps (\<lambda>q. q \<noteq> ?p) fs (put ?p (new_file (json @ [lf])) (put ?p (new_file []) fs))"
    by (rule keeping.R_trans) (rule write_file_step.keeps_run [OF w], simp)
  with w c json show ?thesis
    by (auto simp: write_acceptance_file_def Let_def andthen_def observe_def perform_def lookup_put)
qed

lemma absent_everywhere:
  assumes "queue_ready queue fs" and "\<And>s. lookup fs (state_path qx s i) = None"
  shows "find_existing qx i fs = Inr None"
proof -
  have "symlink_metadata fs (state_path qx s i) = Inl NotFound" for s
    using metadata_missing [OF ready_wf [OF assms(1)]] assms by (simp add: state_path_eq queue_ready_def)
  then show ?thesis by (simp add: find_existing_def queue_states_def find_existing_in_def)
qed

lemma read_next_keeps:
  assumes "keeps P fs fs'" and "wf_fs fs" and "P [NEXT_SEQUENCE_FILE_NAME]"
  shows "read_next_sequence [NEXT_SEQUENCE_FILE_NAME] fs' = read_next_sequence [NEXT_SEQUENCE_FILE_NAME] fs"
proof -
  have "symlink_metadata fs' [NEXT_SEQUENCE_FILE_NAME] = symlink_metadata fs [NEXT_SEQUENCE_FILE_NAME]"
    using assms wf_fs_root by (intro symlink_metadata_cong) (auto simp: keeps_def prefix_Cons)
  then show ?thesis by (simp add: read_next_sequence_def read_file_def)
qed

text \<open>The sequence number and the acceptance record, of a package that waits in its staging directory.\<close>

lemma acceptance_recorded:
  assumes ready: "queue_ready queue fs" and staged: "lookup fs [''incoming'', n] = Some Dir"
    and none: "lookup fs [''incoming'', n, ACCEPTANCE_FILE_NAME] = None"
    and k: "read_next_sequence [NEXT_SEQUENCE_FILE_NAME] fs = Inr k" "k + 1 \<le> u64_max"
    and fresh: "lookup fs [''.next-sequence-'' @ show_ulid qx fresh] = None"
    and json: "qx_acceptance_to_json qx \<lparr>am_sequence = k, am_accepted_at = now, am_client_id = client\<rparr> = Inr json"
  obtains fs2 fs3 b where "allocate_sequence qx fresh fs = (Inr k, fs2)"
    "write_acceptance_file qx [''incoming'', n] \<lparr>am_sequence = k, am_accepted_at = now, am_client_id = client\<rparr> fs2 = (Inr (), fs3)"
    "queue_ready queue fs3" "lookup fs3 [''incoming'', n, ACCEPTANCE_FILE_NAME] = Some (new_file b)"
    "\<And>c q. c \<in> {''incoming''} \<union> range directory_name \<Longrightarrow> c # q \<noteq> [''incoming'', n, ACCEPTANCE_FILE_NAME] \<Longrightarrow>
      lookup fs3 (c # q) = lookup fs (c # q)"
proof -
  let ?A = "[''incoming'', n] @ [ACCEPTANCE_FILE_NAME]" and ?t = "''.next-sequence-'' @ show_ulid qx fresh"
  obtain fs2 where a: "allocate_sequence qx fresh fs = (Inr k, fs2)"
    and k2: "keeps (\<lambda>q. \<not> prefix [?t] q \<and> \<not> prefix [NEXT_SEQUENCE_FILE_NAME] q) fs fs2"
    using allocate_succeeds [OF ready_wf [OF ready] k fresh] by auto
  have outside: "\<not> prefix [?t] (c # q)" "\<not> prefix [NEXT_SEQUENCE_FILE_NAME] (c # q)"
    if "c \<in> {''incoming'', QUEUE_IDENTITY_FILE_NAME, WORKER_TEMP_DIRECTORY_NAME} \<union> range directory_name" for c q
    using that outside_names(3,4)
    by (auto simp: QUEUE_IDENTITY_FILE_NAME_def WORKER_TEMP_DIRECTORY_NAME_def NEXT_SEQUENCE_FILE_NAME_def)
  have l2: "lookup fs2 (c # q) = lookup fs (c # q)"
    if "c \<in> {''incoming'', QUEUE_IDENTITY_FILE_NAME, WORKER_TEMP_DIRECTORY_NAME} \<union> range directory_name" for c q
    using k2 ready_wf [OF ready] outside [OF that] by (simp add: keeps_def)
  have ready2: "queue_ready queue fs2"
    using ready l2 keeps_wf [OF k2] by (simp add: queue_ready_def worker_temporary_root_def)
  obtain fs3 b where w: "write_acceptance_file qx [''incoming'', n] \<lparr>am_sequence = k, am_accepted_at = now, am_client_id = client\<rparr> fs2 = (Inr (), fs3)"
    and A: "lookup fs3 ?A = Some (new_file b)" and k3: "keeps (\<lambda>q. q \<noteq> ?A) fs2 fs3"
    using write_acceptance_succeeds [OF ready_wf [OF ready2] _ _ json, of "[''incoming'', n]"] l2 none staged by auto
  show thesis
  proof (rule that [OF a w])
    show "queue_ready queue fs3" by (rule ready_keeps [OF ready2 k3]) simp
    show "lookup fs3 [''incoming'', n, ACCEPTANCE_FILE_NAME] = Some (new_file b)" using A by simp
    show "lookup fs3 (c # q) = lookup fs (c # q)"
      if "c \<in> {''incoming''} \<union> range directory_name" "c # q \<noteq> [''incoming'', n, ACCEPTANCE_FILE_NAME]" for c q
      using k3 ready_wf [OF ready2] l2 [of c q] that by (auto simp: keeps_def)
  qed
qed

lemma accept_succeeds:
  assumes ready: "queue_ready queue fs" and incoming: "lookup fs [''incoming''] = Some Dir" "lookup fs [''incoming'', n] = Some Dir"
    and valid: "validate_package_until (qx_base qx) (subtree [''incoming'', n] fs) (fq_policy queue) None = Inr package"
    and fresh_files: "lookup fs [''incoming'', n, DIGEST_FILE_NAME] = None" "lookup fs [''incoming'', n, ACCEPTANCE_FILE_NAME] = None"
    and digest: "vp_digest package = PackageDigest r"
    and synced: "sync_package [''incoming'', n] package None
      (put [''incoming'', n, DIGEST_FILE_NAME] (new_file (display_revision r @ [lf])) fs) = Inr ()"
    and new: "\<And>s. lookup fs (state_path qx s (cr_request_id (vp_request package))) = None"
    and k: "read_next_sequence [NEXT_SEQUENCE_FILE_NAME] fs = Inr k" "k + 1 \<le> u64_max"
    and fresh: "lookup fs [''.next-sequence-'' @ show_ulid qx fresh] = None"
    and json: "qx_acceptance_to_json qx \<lparr>am_sequence = k, am_accepted_at = now, am_client_id = None\<rparr> = Inr json"
  shows "\<exists>fs'. accept_package qx queue (Inr ()) now fresh [''incoming'', n] fs =
    (Inr (Accepted (cr_request_id (vp_request package)) (vp_digest package)), fs')"
proof -
  let ?D = "[''incoming'', n, DIGEST_FILE_NAME]" and ?A = "[''incoming'', n, ACCEPTANCE_FILE_NAME]"
    and ?i = "cr_request_id (vp_request package)" and ?t = "''.next-sequence-'' @ show_ulid qx fresh"
  define fs1 where "fs1 = put ?D (new_file (display_revision r @ [lf])) fs"
  have wf: "wf_fs fs" by (rule ready_wf [OF ready])
  have c: "create_new ([''incoming'', n] @ [DIGEST_FILE_NAME]) (display_revision r @ [lf]) fs = Inr fs1"
    using create_new_succeeds [OF wf incoming(2), of DIGEST_FILE_NAME] fresh_files(1) by (simp add: fs1_def)
  have k1: "keeps (\<lambda>q. q \<noteq> ?D) fs fs1" by (rule create_new_step.keeps_run [OF c]) simp
  have ready1: "queue_ready queue fs1" by (rule ready_keeps [OF ready k1]) simp
  have s: "read_next_sequence [NEXT_SEQUENCE_FILE_NAME] fs1 = Inr k"
    using read_next_keeps [OF k1 wf] k(1) by simp
  have at1: "lookup fs1 [''incoming'', n] = Some Dir" "lookup fs1 ?A = None" "lookup fs1 [?t] = None"
    using incoming fresh_files fresh
    by (simp_all add: fs1_def lookup_put DIGEST_FILE_NAME_def ACCEPTANCE_FILE_NAME_def del: append_Cons)
  from acceptance_recorded [OF ready1 at1(1,2) s k(2) at1(3) json]
  obtain fs2 fs3 b where a: "allocate_sequence qx fresh fs1 = (Inr k, fs2)"
    and w: "write_acceptance_file qx [''incoming'', n] \<lparr>am_sequence = k, am_accepted_at = now, am_client_id = None\<rparr> fs2 = (Inr (), fs3)"
    and ready3: "queue_ready queue fs3" and A: "lookup fs3 ?A = Some (new_file b)"
    and l: "\<And>c q. c \<in> {''incoming''} \<union> range directory_name \<Longrightarrow> c # q \<noteq> ?A \<Longrightarrow> lookup fs3 (c # q) = lookup fs1 (c # q)"
    by metis
  have l3: "lookup fs3 (c # q) = lookup fs (c # q)"
    if "c \<in> {''incoming''} \<union> range directory_name" "c # q \<noteq> ?D" "c # q \<noteq> ?A" for c q
    using l [of c q] that by (auto simp: fs1_def lookup_put)
  have staged: "lookup fs3 [''incoming'', n] = Some Dir" using l3 [of "''incoming''" "[n]"] incoming by simp
  have "lookup fs3 (state_path qx Pending ?i) = None"
    using l3 [of "directory_name Pending" "[request_name qx ?i]"] new [of Pending] rangeI [of directory_name Pending] by (simp add: state_path_eq)
  moreover have "lookup fs3 [directory_name Pending] = Some Dir" using ready3 by (simp add: queue_ready_def del: directory_name.simps)
  ultimately obtain fs' where m: "rename [''incoming'', n] (state_path qx Pending ?i) fs3 = Inr fs'"
    using rename_succeeds [OF ready_wf [OF ready3] staged, of "[directory_name Pending]" "request_name qx ?i"]
    by (auto simp: state_path_eq)
  have "keeps (\<lambda>q. length q = 1) fs3 fs'"
    by (rule rename_step.keeps_run [OF m]) (auto simp: state_path_eq prefix_def)
  then have ready': "queue_ready queue fs'" and "lookup fs' [''incoming''] = lookup fs3 [''incoming'']"
    using ready_keeps [OF ready3] ready_wf [OF ready3] by (auto simp: keeps_def)
  then have sync': "sync_path [''incoming''] fs' = Inr ()"
    using l3 [of "''incoming''" "[]"] incoming by (intro sync_path_succeeds ready_wf) auto
  have sync3: "sync_path ?A fs3 = Inr ()" "sync_path [''incoming'', n] fs3 = Inr ()"
    using A staged metadata_of_lookup [OF ready_wf [OF ready3]]
    by (simp_all add: sync_path_def new_file_def)
  have none: "find_existing qx ?i fs1 = Inr None"
    by (rule absent_everywhere [OF ready1]) (use new in \<open>simp add: fs1_def lookup_put state_path_eq\<close>)
  have "0 < k" using read_next_sequence_pos [OF k(1)] by simp
  then show ?thesis
    using valid c synced none a w sync3 m sync' digest
    by (simp add: accept_package_def accept_with_hook_def accept_with_hook_until_def accept_stage_def andthen_def observe_def
        queue_operation_active_def validation_deadline_def write_digest_file_def perform_def fs1_def [symmetric]
        ready_identity [OF ready1] ready_identity [OF ready3] ready_identity [OF ready'] Let_def reject_if_def finish_def
        accept_promoted_def ready_sync [OF ready'])
qed

end
