(* ===== verification/Queue_Example.thy ===== *)
theory Queue_Example
  imports Queue_Progress Package_Properties
begin

text \<open>
  A sample queue with one request: uploaded, pending and claimed, and the operations that move it
  on. The statements about the queue are applied to it.
\<close>

definition sample_phase :: worker_phase_record where
  "sample_phase = \<lparr>wp_schema_version = 1, wp_request_id = RequestId 1, wp_batch_id = BatchId 7, wp_attempt = 1,
     wp_phase = Claimed, wp_updated_at = sample_datetime\<rparr>"

definition sample_failure :: worker_result_record where
  "sample_failure = \<lparr>wr_schema_version = 1, wr_request_id = RequestId 1, wr_batch_id = BatchId 7,
     wr_status = ResultFailed, wr_error_code = InvalidRequest, wr_failed_at = sample_datetime\<rparr>"

definition queue_sample :: worker_externals where
  "queue_sample = \<lparr>qx_base = valid_externals, qx_ulid_parse = (\<lambda>s. Inr (of_nat (digits_value 0 s))),
     qx_acceptance_to_json = (\<lambda>_. Inr ''{}''),
     wx_phase_from_json = (\<lambda>s. if s = ''p'' @ [lf] then Inr sample_phase else Inl ''''),
     wx_phase_to_json = (\<lambda>r. if r = sample_phase then Inr ''p'' else Inl ''''),
     wx_result_from_json = (\<lambda>s. if s = ''r'' @ [lf] then Inr sample_failure else Inl ''''),
     wx_result_to_json = (\<lambda>r. if r = sample_failure then Inr ''r'' else Inl '''')\<rparr>"

definition queue_identity :: revision where "queue_identity = Revision (replicate 32 0)"

definition queue_of :: file_queue where
  "queue_of = \<lparr>fq_identity = queue_identity, fq_policy = sample_policy, fq_pinned = (\<lambda>_. Inr ())\<rparr>"

definition queue_base :: "string \<Rightarrow> fs" where
  "queue_base next_sequence = [([], Dir), ([''incoming''], Dir), ([''quarantine''], Dir), ([''worker-tmp''], Dir),
     ([''pending''], Dir), ([''processing''], Dir), ([''completed''], Dir), ([''failed''], Dir),
     ([''queue-id''], new_file (display_revision queue_identity @ [lf])),
     ([''next-sequence''], new_file (next_sequence @ [lf]))]"

definition below :: "path \<Rightarrow> fs \<Rightarrow> fs" where
  "below p fs = map (\<lambda>(q, n). (p @ q, n)) fs"

definition valid_digest_text :: string where
  "valid_digest_text = (case vp_digest valid_result of PackageDigest r \<Rightarrow> display_revision r)"

definition accepted_package :: fs where
  "accepted_package = valid_package @ [([DIGEST_FILE_NAME], new_file (valid_digest_text @ [lf])),
     ([ACCEPTANCE_FILE_NAME], new_file (''{}'' @ [lf]))]"

definition upload_tree :: fs where
  "upload_tree = queue_base ''1'' @ below [''incoming'', ''u''] valid_package"

definition pending_tree :: fs where
  "pending_tree = queue_base ''2'' @ below [''pending'', ''1''] accepted_package"

definition processing_tree :: fs where
  "processing_tree = queue_base ''2'' @ below [''processing'', ''1'']
     (accepted_package @ [([PHASE_FILE_NAME], new_file (''p'' @ [lf]))])"


lemmas queue_trees = queue_base_def below_def accepted_package_def valid_package_def file_names

lemma queue_names:
  "request_name queue_sample (RequestId 1) = ''1''"
  "state_path queue_sample s (RequestId 1) = [directory_name s, ''1'']"
  by (simp_all add: request_name_def request_id_to_string_def show_ulid_def queue_sample_def valid_externals_def
      sample_externals_def show_nat.simps state_path_def state_root_def)

lemma queue_sample_inj: "inj (show_ulid queue_sample)"
  by (simp add: inj_def show_ulid_def queue_sample_def valid_externals_def sample_externals_def word_unat_eq_iff)

lemma queue_codecs: "phase_codec queue_sample" "result_codec queue_sample"
  by (auto simp: phase_codec_def result_codec_def queue_sample_def MAXIMUM_PHASE_FILE_BYTES_def MAXIMUM_RESULT_FILE_BYTES_def
      split: if_splits)

lemma queue_trees_wf: "wf_fs upload_tree" "wf_fs pending_tree" "wf_fs processing_tree"
  unfolding upload_tree_def pending_tree_def processing_tree_def
  by (rule wf_fs_check; simp add: queue_trees lookup_def)+

lemma wf_queue_identity: "wf_revision queue_identity"
  by (simp add: wf_revision_def queue_identity_def DIGEST_BYTES_def)

lemma queue_identity_holds:
  assumes "wf_fs fs" and "lookup fs [''queue-id''] = Some (new_file (display_revision queue_identity @ [lf]))"
  shows "current_identity_locked queue_of fs = Inr queue_identity"
  using identity_file_reads [OF wf_queue_identity, of fs "[''queue-id'']" 420 1] metadata_of_lookup [OF assms]
  by (simp add: current_identity_locked_def queue_of_def QUEUE_IDENTITY_FILE_NAME_def new_file_def)

lemma valid_digest_wf: "case vp_digest valid_result of PackageDigest r \<Rightarrow> wf_revision r"
  by (simp add: valid_result_def revision_of_def wf_revision_def DIGEST_BYTES_def valid_externals_def)

text \<open>The checks that only read, by what is at the paths they read.\<close>

lemma queue_only_in:
  assumes "wf_fs fs" and "\<And>t. lookup fs [directory_name t] = Some Dir"
    and "\<And>t. lookup fs [directory_name t, ''1''] = (if t = s then Some Dir else None)"
  shows "only_in queue_sample fs s (RequestId 1)"
  using assms metadata_of_lookup [OF assms(1)] metadata_missing [OF assms(1)]
  by (simp add: only_in_def queue_names)

lemma queue_find_existing:
  assumes "only_in queue_sample fs s (RequestId 1)" and "wf_fs fs"
    and "lookup fs [directory_name s, ''1'', DIGEST_FILE_NAME] = Some (new_file (valid_digest_text @ [lf]))"
  shows "find_existing queue_sample (RequestId 1) fs = Inr (Some (s, vp_digest valid_result))"
proof -
  obtain r where r: "vp_digest valid_result = PackageDigest r" by (cases "vp_digest valid_result")
  have "read_stored_digest [directory_name s, ''1''] (RequestId 1) s fs = Inr (PackageDigest r)"
    using digest_file_reads [of r fs "[directory_name s, ''1'']" 420 1] metadata_of_lookup [OF assms(2,3)]
      valid_digest_wf by (simp add: valid_digest_text_def r new_file_def)
  with assms(1) show ?thesis by (simp add: find_existing_Some_iff queue_names r)
qed

text \<open>The three trees are in working order.\<close>

lemma queue_ok_check:
  assumes wf: "wf_fs fs" and "\<And>t. t \<noteq> s \<Longrightarrow> children fs [directory_name t] = []"
  shows "queue_ok qx fs"
proof -
  have "t = s" if "present qx fs t i" for t i
  proof (rule ccontr)
    assume "t \<noteq> s"
    have "request_name qx i \<in> set (children fs [directory_name t])"
      using that wf by (simp add: children_iff wf_fs_def present_def state_path_eq)
    with assms(2) [OF \<open>t \<noteq> s\<close>] show False by simp
  qed
  with wf show ?thesis by (auto simp: queue_ok_def)
qed

lemma queue_trees_ok:
  "queue_ok queue_sample upload_tree" "queue_ok queue_sample pending_tree" "queue_ok queue_sample processing_tree"
proof -
  show "queue_ok queue_sample upload_tree"
    by (rule queue_ok_check [OF queue_trees_wf(1), of Pending])
      (case_tac t; simp add: children_def upload_tree_def queue_trees)
  show "queue_ok queue_sample pending_tree"
    by (rule queue_ok_check [OF queue_trees_wf(2), of Pending])
      (case_tac t; simp add: children_def pending_tree_def queue_trees)
  show "queue_ok queue_sample processing_tree"
    by (rule queue_ok_check [OF queue_trees_wf(3), of Processing])
      (case_tac t; simp add: children_def processing_tree_def queue_trees)
qed

lemma queue_trees_ready:
  "queue_ready queue_of upload_tree" "queue_ready queue_of pending_tree" "queue_ready queue_of processing_tree"
proof -
  have s: "lookup upload_tree [directory_name s] = Some Dir" "lookup pending_tree [directory_name s] = Some Dir"
    "lookup processing_tree [directory_name s] = Some Dir" for s
    by (cases s; simp add: lookup_def upload_tree_def pending_tree_def processing_tree_def queue_trees)+
  have "lookup fs [QUEUE_IDENTITY_FILE_NAME] = Some (new_file (display_revision queue_identity @ [lf]))"
    "lookup fs worker_temporary_root = Some Dir" if "fs \<in> {upload_tree, pending_tree, processing_tree}" for fs
    using that by (auto simp: QUEUE_IDENTITY_FILE_NAME_def lookup_def upload_tree_def pending_tree_def processing_tree_def
        queue_base_def worker_temporary_root_def WORKER_TEMP_DIRECTORY_NAME_def)
  with s show "queue_ready queue_of upload_tree" "queue_ready queue_of pending_tree" "queue_ready queue_of processing_tree"
    by (simp_all add: queue_ready_def queue_trees_wf wf_queue_identity queue_of_def)
qed

text \<open>The upload is accepted.\<close>

lemma upload_subtree: "subtree [''incoming'', ''u''] upload_tree = valid_package"
  by (simp add: subtree_def upload_tree_def queue_trees)

lemma upload_synced:
  assumes "vp_digest valid_result = PackageDigest r"
  shows "sync_package [''incoming'', ''u''] valid_result None
      (put [''incoming'', ''u'', DIGEST_FILE_NAME] (new_file (display_revision r @ [lf])) upload_tree) = Inr ()"
proof -
  let ?fs = "put [''incoming'', ''u'', DIGEST_FILE_NAME] (new_file (display_revision r @ [lf])) upload_tree"
  have wf: "wf_fs ?fs"
    using create_new_step.run_wf [OF queue_trees_wf(1) create_new_succeeds [OF queue_trees_wf(1), of "[''incoming'', ''u'']" DIGEST_FILE_NAME]]
    by (simp add: lookup_def upload_tree_def queue_trees)
  have "package_sync_paths [''incoming'', ''u''] valid_result =
    [[''incoming'', ''u'', REQUEST_FILE_NAME], [''incoming'', ''u'', DIGEST_FILE_NAME],
     [''incoming'', ''u'', PAYLOAD_DIRECTORY_NAME, ''a.md''], [''incoming'', ''u'', PAYLOAD_DIRECTORY_NAME], [''incoming'', ''u'']]"
  proof -
    have "vp_payload valid_result = [\<lparr>pm_path = PayloadPath ''a.md'', pm_byte_length = 8,
       pm_revision = revision_of valid_externals sample_document\<rparr>]" by (simp add: valid_result_def)
    moreover have "strict_prefixes [''incoming'', ''u'', ''payload'', ''a.md''] =
      [[], [''incoming''], [''incoming'', ''u''], [''incoming'', ''u'', ''payload'']]"
      by code_simp
    ultimately show ?thesis
      by (simp add: package_sync_paths_def Let_def PAYLOAD_DIRECTORY_NAME_def)
  qed
  moreover have "sync_path p ?fs = Inr ()" if "p \<in> set (package_sync_paths [''incoming'', ''u''] valid_result)" for p
  proof -
    have "lookup ?fs p \<in> {Some Dir} \<union> {Some (File b m l) | b m l. True}"
      using that calculation by (auto simp: lookup_def put_def upload_tree_def queue_trees new_file_def)
    with metadata_of_lookup [OF wf, of p] show ?thesis by (auto simp: sync_path_def)
  qed
  ultimately show ?thesis by (simp add: sync_package_def queue_operation_active_def)
qed

lemma sample_accept:
  "\<exists>fs'. accept_package queue_sample queue_of (Inr ()) sample_datetime 9 [''incoming'', ''u''] upload_tree =
    (Inr (Accepted (RequestId 1) (vp_digest valid_result)), fs')"
proof -
  obtain r where r: "vp_digest valid_result = PackageDigest r" by (cases "vp_digest valid_result")
  have i: "cr_request_id (vp_request valid_result) = RequestId 1"
    by (simp add: valid_result_def decoded_request_def)
  have s: "read_next_sequence [NEXT_SEQUENCE_FILE_NAME] upload_tree = Inr 1"
  proof (rule read_written_sequence [of 1 _ _ 420 1])
    show "symlink_metadata upload_tree [NEXT_SEQUENCE_FILE_NAME] = Inr (File (show_nat 1 @ [lf]) 420 1)"
      by (rule metadata_of_lookup [OF queue_trees_wf(1)])
        (simp add: lookup_def upload_tree_def queue_trees NEXT_SEQUENCE_FILE_NAME_def show_nat.simps new_file_def)
  qed (simp_all add: u64_max_def)
  have v: "validate_package_until (qx_base queue_sample) (subtree [''incoming'', ''u''] upload_tree) (fq_policy queue_of) None
    = Inr valid_result"
    using valid_package_validates by (simp add: upload_subtree queue_sample_def queue_of_def)
  have new: "lookup upload_tree (state_path queue_sample s (cr_request_id (vp_request valid_result))) = None" for s
    by (cases s) (simp_all add: i queue_names lookup_def upload_tree_def queue_trees)
  have "\<exists>fs'. accept_package queue_sample queue_of (Inr ()) sample_datetime 9 [''incoming'', ''u''] upload_tree =
    (Inr (Accepted (cr_request_id (vp_request valid_result)) (vp_digest valid_result)), fs')"
    by (rule accept_succeeds [OF queue_trees_ready(1) _ _ v _ _ r upload_synced [OF r] new s])
      (simp_all add: lookup_def upload_tree_def queue_trees u64_max_def queue_sample_def)
  with i show ?thesis by simp
qed

text \<open>The pending request is claimed, and the claimed one is failed.\<close>

definition sample_token :: claim_token where
  "sample_token = \<lparr>ct_request_id = RequestId 1, ct_batch_id = BatchId 7, ct_attempt = 1\<rparr>"

lemma pending_facts:
  "find_existing queue_sample (RequestId 1) pending_tree = Inr (Some (Pending, vp_digest valid_result))"
  "next_attempt queue_sample (state_path queue_sample Pending (RequestId 1)) (RequestId 1) Pending pending_tree = Inr 1"
  "lookup pending_tree (state_path queue_sample Pending (RequestId 1) @ [RESULT_FILE_NAME]) = None"
  "lookup pending_tree (worker_temporary_root @ [n]) = None"
proof -
  have "only_in queue_sample pending_tree Pending (RequestId 1)"
  proof (rule queue_only_in [OF queue_trees_wf(2)])
    show "lookup pending_tree [directory_name t] = Some Dir"
      "lookup pending_tree [directory_name t, ''1''] = (if t = Pending then Some Dir else None)" for t
      by (cases t; simp add: lookup_def pending_tree_def queue_trees)+
  qed
  then show "find_existing queue_sample (RequestId 1) pending_tree = Inr (Some (Pending, vp_digest valid_result))"
    by (rule queue_find_existing [OF _ queue_trees_wf(2)]) (simp add: lookup_def pending_tree_def queue_trees)
  have "symlink_metadata pending_tree ([''pending'', ''1''] @ [PHASE_FILE_NAME]) = Inl NotFound"
    by (rule metadata_absent [OF queue_trees_wf(2)]; simp add: lookup_def pending_tree_def queue_trees)
  then show "next_attempt queue_sample (state_path queue_sample Pending (RequestId 1)) (RequestId 1) Pending pending_tree = Inr 1"
    by (simp add: next_attempt_def read_optional_phase_record_def queue_names checked_add_u32_def u32_max_def)
  show "lookup pending_tree (state_path queue_sample Pending (RequestId 1) @ [RESULT_FILE_NAME]) = None"
    "lookup pending_tree (worker_temporary_root @ [n]) = None"
    by (simp_all add: queue_names lookup_def pending_tree_def queue_trees worker_temporary_root_def WORKER_TEMP_DIRECTORY_NAME_def)
qed

lemma sample_phase_encodes:
  "wx_phase_to_json queue_sample \<lparr>wp_schema_version = CURRENT_WORKER_PHASE_SCHEMA_VERSION, wp_request_id = RequestId 1,
     wp_batch_id = BatchId 7, wp_attempt = 1, wp_phase = Claimed, wp_updated_at = sample_datetime\<rparr> = Inr ''p''"
  by (simp add: queue_sample_def sample_phase_def CURRENT_WORKER_PHASE_SCHEMA_VERSION_def)

lemma sample_claim:
  "\<exists>claim fs'. claim_prepared_with_hook queue_sample queue_of (\<lambda>_. Inr ()) sample_datetime 9 (RequestId 1) (BatchId 7)
     valid_result pending_tree = (Inr claim, fs') \<and> cp_token claim = sample_token"
  using claim_succeeds [OF queue_trees_ready(2) pending_facts(1,2) sample_phase_encodes pending_facts(4), where fresh = 9]
  by (auto simp: sample_token_def)

lemma processing_facts:
  "only_in queue_sample processing_tree Processing (RequestId 1)"
  "check_claim_record queue_sample (state_path queue_sample Processing (RequestId 1)) sample_token Processing processing_tree = Inr ()"
  "lookup processing_tree (state_path queue_sample Processing (RequestId 1) @ [RESULT_FILE_NAME]) = None"
  "lookup processing_tree (worker_temporary_root @ [n]) = None"
proof -
  show "only_in queue_sample processing_tree Processing (RequestId 1)"
  proof (rule queue_only_in [OF queue_trees_wf(3)])
    show "lookup processing_tree [directory_name t] = Some Dir"
      "lookup processing_tree [directory_name t, ''1''] = (if t = Processing then Some Dir else None)" for t
      by (cases t; simp add: lookup_def processing_tree_def queue_trees)+
  qed
  have "lookup processing_tree ([''processing'', ''1''] @ [PHASE_FILE_NAME]) = Some (new_file (''p'' @ [lf]))"
    by (simp add: lookup_def processing_tree_def queue_trees)
  from written_phase_reads [OF queue_codecs(1) queue_trees_wf(3) sample_phase_encodes this]
  have "read_required_phase_record queue_sample [''processing'', ''1''] (RequestId 1) Processing processing_tree =
    Inr \<lparr>wp_schema_version = CURRENT_WORKER_PHASE_SCHEMA_VERSION, wp_request_id = RequestId 1,
     wp_batch_id = BatchId 7, wp_attempt = 1, wp_phase = Claimed, wp_updated_at = sample_datetime\<rparr>" by simp
  then show "check_claim_record queue_sample (state_path queue_sample Processing (RequestId 1)) sample_token Processing processing_tree = Inr ()"
    by (simp add: check_claim_record_def queue_names sample_token_def)
  show "lookup processing_tree (state_path queue_sample Processing (RequestId 1) @ [RESULT_FILE_NAME]) = None"
    "lookup processing_tree (worker_temporary_root @ [n]) = None"
    by (simp_all add: queue_names lookup_def processing_tree_def queue_trees worker_temporary_root_def WORKER_TEMP_DIRECTORY_NAME_def)
qed

lemma sample_fail:
  "\<exists>fs'. fail_claimed queue_sample queue_of sample_datetime 9 sample_token InvalidRequest processing_tree = (Inr (), fs') \<and>
     queue_ready queue_of fs'"
proof (rule fail_succeeds [OF queue_trees_ready(3)])
  show "wx_result_to_json queue_sample (failed_result (ct_request_id sample_token) (ct_batch_id sample_token) InvalidRequest sample_datetime)
    = Inr ''r''"
    by (simp add: queue_sample_def sample_failure_def failed_result_def sample_token_def CURRENT_WORKER_RESULT_SCHEMA_VERSION_def)
qed (use processing_facts in \<open>simp_all add: sample_token_def\<close>)

definition sample_session :: worker_session where
  "sample_session = new_worker_session\<lparr>ws_processing_recovery_complete := True\<rparr>"

lemma sample_reconcile:
  "\<exists>proof_record fs'. reconcile_batch queue_sample queue_of (\<lambda>_. sample_datetime) (\<lambda>_. 9) (BatchId 7) []
     [(sample_token, InvalidRequest)] sample_session processing_tree = (Inr proof_record, fs')"
proof -
  obtain fs' where "fail_claimed queue_sample queue_of sample_datetime 9 sample_token InvalidRequest processing_tree = (Inr (), fs')"
    and "queue_ready queue_of fs'" using sample_fail by blast
  then show ?thesis
    using ready_identity [OF queue_trees_ready(3)] ready_identity [of queue_of fs']
    by (simp add: reconcile_batch_def andthen_def observe_def reject_if_def finish_def
        sample_session_def ensure_no_active_scan_def ensure_recovery_complete_def
        new_worker_session_def default_batch_scan_def default_observation_def)
       (simp add: sample_token_def)
qed

end
