(* ===== verification/Queue_Correct.thy ===== *)
theory Queue_Correct
  imports Queue_Example
begin

text \<open>
  The properties of the request queue, each applied to the sample queue.
\<close>

section \<open>The protocol\<close>

text \<open>C1: every sequence of public calls on a queue refines the protocol: started on a tree in which each
  request is in at most one state, it leaves such a tree, and the abstract queue read off it is
  reached by protocol steps, whichever calls fail and wherever they stop.\<close>

theorem queue_refines_protocol:
  assumes "inj (show_ulid wx)" and "queue_ok wx fs" and "(queue_operation wx queue)\<^sup>*\<^sup>* fs fs'"
  shows "queue_ok wx fs' \<and> queue_step\<^sup>*\<^sup>* (view wx fs) (view wx fs')"
  using queue_operations_reach [OF assms(1,3)] assms(2) by (simp add: queue_reach_def)

lemma sample_operation:
  "\<exists>fs'. (queue_operation queue_sample queue_of)\<^sup>*\<^sup>* processing_tree fs' \<and> only_in queue_sample fs' Failed (RequestId 1)"
proof -
  obtain p fs' where run: "reconcile_batch queue_sample queue_of (\<lambda>_. sample_datetime) (\<lambda>_. 9) (BatchId 7) []
     [(sample_token, InvalidRequest)] sample_session processing_tree = (Inr p, fs')"
    using sample_reconcile by blast
  have "(queue_operation queue_sample queue_of)\<^sup>*\<^sup>* processing_tree fs'"
    using op_reconcile [of queue_sample queue_of processing_tree "\<lambda>_. sample_datetime" "\<lambda>_. 9" "BatchId 7" "[]"
      "[(sample_token, InvalidRequest)]" sample_session] run by (intro r_into_rtranclp) simp
  moreover from run have "\<exists>u. fail_claimed queue_sample queue_of sample_datetime 9 sample_token InvalidRequest processing_tree = (Inr u, fs')"
    by (auto simp: reconcile_batch_def Let_def action_Inr_iffs act_each.simps)
  then have "only_in queue_sample fs' Failed (ct_request_id sample_token)"
    using transition_done(1) [OF queue_trees_wf(3) queue_codecs(2)] unfolding fail_claimed_def by blast
  then have "only_in queue_sample fs' Failed (RequestId 1)" by (simp add: sample_token_def)
  ultimately show ?thesis by blast
qed

theorem queue_refines_protocol_witness:
  "\<exists>fs'. (queue_operation queue_sample queue_of)\<^sup>*\<^sup>* processing_tree fs' \<and>
     queue_step\<^sup>*\<^sup>* (view queue_sample processing_tree) (view queue_sample fs') \<and>
     view queue_sample fs' (RequestId 1) = Some (entry_view queue_sample fs' Failed (RequestId 1))"
proof -
  obtain fs' where f: "(queue_operation queue_sample queue_of)\<^sup>*\<^sup>* processing_tree fs'"
    "only_in queue_sample fs' Failed (RequestId 1)" using sample_operation by blast
  with queue_refines_protocol [OF queue_sample_inj queue_trees_ok(3) f(1)] show ?thesis
    by (blast intro: only_in_view)
qed

text \<open>C5: an accepted request is never lost. After any sequence of calls it is still in the queue
  with the same package content, and once it is completed or failed nothing about it changes.\<close>

theorem accepted_requests_kept:
  assumes "inj (show_ulid wx)" and "queue_ok wx fs" and "(queue_operation wx queue)\<^sup>*\<^sup>* fs fs'" and "view wx fs i = Some r"
  shows "\<exists>r'. view wx fs' i = Some r' \<and> rv_content r' = rv_content r \<and> (rv_state r \<in> {Completed, Failed} \<longrightarrow> r' = r)"
  using queue_operations_reach [OF assms(1,3)] assms(2,4) steps_keep [of "view wx fs" "view wx fs'" i r]
  by (simp add: queue_reach_def)

theorem accepted_requests_kept_witness:
  "\<exists>fs' r'. (queue_operation queue_sample queue_of)\<^sup>*\<^sup>* processing_tree fs' \<and> view queue_sample fs' (RequestId 1) = Some r' \<and>
     rv_content r' = rv_content (entry_view queue_sample processing_tree Processing (RequestId 1))"
proof -
  obtain fs' where f: "(queue_operation queue_sample queue_of)\<^sup>*\<^sup>* processing_tree fs'" using sample_operation by blast
  from accepted_requests_kept [OF queue_sample_inj queue_trees_ok(3) f
      only_in_view [OF queue_trees_ok(3) processing_facts(1)]] f
  show ?thesis by blast
qed

text \<open>C10: the records that go with a state are an invariant: a processing request has a claim
  record, a completed one a claim record and no failure record, a failed one a failure record.\<close>

theorem queue_records_match:
  assumes "inj (show_ulid wx)" and "queue_ok wx fs" and "\<And>i r. view wx fs i = Some r \<Longrightarrow> records_match r"
    and "(queue_operation wx queue)\<^sup>*\<^sup>* fs fs'" and "view wx fs' i = Some r"
  shows "records_match r"
  using queue_operations_reach [OF assms(1,4)] assms(2,3,5)
  by (auto simp: queue_reach_def intro: steps_records [of "view wx fs" "view wx fs'"])

lemma processing_view:
  assumes "view queue_sample processing_tree i = Some r"
  shows "records_match r"
proof -
  have v: "present queue_sample processing_tree (rv_state r) i" "r = entry_view queue_sample processing_tree (rv_state r) i"
    using assms by (simp_all add: view_Some_iff [OF queue_trees_ok(3)])
  have "request_name queue_sample i \<in> set (children processing_tree [directory_name (rv_state r)])"
    using v(1) queue_trees_wf(3) by (simp add: children_iff wf_fs_def present_def state_path_eq)
  moreover have "set (children processing_tree [directory_name s]) = (if s = Processing then {''1''} else {})" for s
    by (cases s) (auto simp: children_def processing_tree_def queue_trees)
  ultimately have s: "rv_state r = Processing" "request_name queue_sample i = ''1''" by (auto split: if_split_asm)
  have "lookup processing_tree (state_path queue_sample Processing i @ [PHASE_FILE_NAME]) \<noteq> None"
    by (simp add: state_path_eq s lookup_def processing_tree_def queue_trees)
  then have "records_match (entry_view queue_sample processing_tree Processing i)"
    by (simp add: records_match_def entry_view_def)
  then show ?thesis using v(2) s(1) by simp
qed

theorem queue_records_match_witness:
  "\<exists>fs'. (queue_operation queue_sample queue_of)\<^sup>*\<^sup>* processing_tree fs' \<and>
     records_match (entry_view queue_sample fs' Failed (RequestId 1))"
proof -
  obtain fs' where f: "(queue_operation queue_sample queue_of)\<^sup>*\<^sup>* processing_tree fs'"
    "only_in queue_sample fs' Failed (RequestId 1)" using sample_operation by blast
  have "queue_ok queue_sample fs'"
    using queue_operations_reach [OF queue_sample_inj f(1)] queue_trees_ok(3) by (simp add: queue_reach_def)
  then have v: "view queue_sample fs' (RequestId 1) = Some (entry_view queue_sample fs' Failed (RequestId 1))"
    using f(2) by (rule only_in_view)
  have "records_match (entry_view queue_sample fs' Failed (RequestId 1))"
    by (rule queue_records_match [where i = "RequestId 1", OF queue_sample_inj queue_trees_ok(3) _ f(1) v])
      (erule processing_view)
  with f(1) show ?thesis by blast
qed

section \<open>Acceptance\<close>

lemma validated_digest_wf:
  assumes "validate_package_until ex fs policy deadline = Inr pkg" and "\<And>s. length (ex_sha256 ex s) = 32"
  shows "case vp_digest pkg of PackageDigest r \<Rightarrow> wf_revision r"
proof -
  from assms(1) have "validate_package_contents ex fs policy deadline = Inr pkg"
    by (simp add: validate_package_until_def attempt_Inr_iff)
  then obtain canonical payload where "calculate_digest ex canonical fs payload deadline = Inr (vp_digest pkg, vp_payload pkg)"
    by (rule validate_package_contents_Inr) blast
  from calculate_digest_Inr [OF this] obtain s where "vp_digest pkg = PackageDigest (revision_of ex s)" by blast
  then show ?thesis using assms(2) by (simp add: revision_of_def wf_revision_def DIGEST_BYTES_def)
qed

lemma accepted_entry:
  assumes wf: "wf_fs fs" and inj: "inj (show_ulid qx)"
    and run: "accept_with_hook_until qx queue deadline locked hook client now fresh [''incoming'', n] fs = (Inr (Accepted i d), fs')"
  shows "only_in qx fs' Pending i" and "wf_fs fs'"
    and "lookup fs' (state_path qx Pending i @ [DIGEST_FILE_NAME]) =
      Some (new_file ((case d of PackageDigest r \<Rightarrow> display_revision r) @ [lf]))"
    and "\<exists>sequence json. qx_acceptance_to_json qx \<lparr>am_sequence = sequence, am_accepted_at = now, am_client_id = client\<rparr> = Inr json \<and>
      lookup fs' (state_path qx Pending i @ [ACCEPTANCE_FILE_NAME]) = Some (new_file (json @ [lf]))"
    and "q \<notin> {[DIGEST_FILE_NAME], [ACCEPTANCE_FILE_NAME]} \<Longrightarrow>
      lookup fs' (state_path qx Pending i @ q) = lookup fs ([''incoming'', n] @ q)"
    and "lookup fs' [''incoming'', n] = None"
proof -
  let ?S = "[''incoming'', n]" and ?P = "state_path qx Pending i"
  obtain fs1 fs3 sequence json where t: "wf_fs fs3" "keeps (uploaded n) fs fs3" "keeps (uploaded n) fs fs1" "wf_fs fs1"
    "find_existing qx i fs1 = Inr None"
    "lookup fs3 [''incoming'', n, DIGEST_FILE_NAME] = Some (new_file ((case d of PackageDigest r \<Rightarrow> display_revision r) @ [lf]))"
    "qx_acceptance_to_json qx \<lparr>am_sequence = sequence, am_accepted_at = now, am_client_id = client\<rparr> = Inr json"
    "lookup fs3 [''incoming'', n, ACCEPTANCE_FILE_NAME] = Some (new_file (json @ [lf]))"
    "rename ?S ?P fs3 = Inr fs'"
    using accepted_tree [OF wf inj run] by blast
  have dis: "?S \<noteq> ?P" by (simp add: state_path_eq)
  note l = lookup_rename [OF t(9,1) dis]
  show wf': "wf_fs fs'" by (rule rename_wf [OF t(9,1) dis])
  have moved: "lookup fs' (?P @ q) = lookup fs3 (?S @ q)" for q by (simp add: l)
  show "lookup fs' (?P @ [DIGEST_FILE_NAME]) = Some (new_file ((case d of PackageDigest r \<Rightarrow> display_revision r) @ [lf]))"
    "\<exists>sequence json. qx_acceptance_to_json qx \<lparr>am_sequence = sequence, am_accepted_at = now, am_client_id = client\<rparr> = Inr json \<and>
      lookup fs' (?P @ [ACCEPTANCE_FILE_NAME]) = Some (new_file (json @ [lf]))"
    using moved [of "[DIGEST_FILE_NAME]"] moved [of "[ACCEPTANCE_FILE_NAME]"] t(6-8) by auto
  show "lookup fs' (?P @ q) = lookup fs (?S @ q)" if "q \<notin> {[DIGEST_FILE_NAME], [ACCEPTANCE_FILE_NAME]}"
    using moved [of q] t(2) wf that by (simp add: keeps_def uploaded_def)
  show "lookup fs' ?S = None" using l [of ?S] by (simp add: state_path_eq)
  have "lookup fs' ?P = Some Dir"
    using moved [of "[]"] wf_fs_parent [OF t(1), of ?S DIGEST_FILE_NAME] t(6) by simp
  moreover have "symlink_metadata fs' (state_path qx s i) = Inl NotFound" if "s \<noteq> Pending" for s
  proof -
    have "lookup fs' q = lookup fs1 q" if "prefix q (state_path qx s i)" for q
    proof (cases "q = []")
      case False
      with that have "uploaded n q" "\<not> prefix ?P q" "\<not> prefix ?S q"
        using \<open>s \<noteq> Pending\<close> outside_names(1) by (auto simp: uploaded_def state_path_eq prefix_Cons simp del: directory_name.simps)
      then show ?thesis using l [of q] t(2,3) wf by (simp add: keeps_def)
    qed (simp add: wf_fs_root wf' t(4))
    then have "symlink_metadata fs' (state_path qx s i) = symlink_metadata fs1 (state_path qx s i)"
      by (rule symlink_metadata_cong)
    then show ?thesis using find_existing_None [OF t(5)] by simp
  qed
  ultimately show "only_in qx fs' Pending i" using metadata_of_lookup [OF wf'] by (simp add: only_in_def)
qed

text \<open>C18: an accepted package is found pending under its identifier and digest, holds the uploaded
  files byte for byte together with its acceptance record, and its staging directory is gone. The
  hypothesis on SHA-256 is the length of its result.\<close>

theorem accepted_package_found:
  assumes "wf_fs fs" and "inj (show_ulid qx)" and "\<And>s. length (ex_sha256 (qx_base qx) s) = 32"
    and "accept_with_hook_until qx queue deadline locked hook client now fresh [''incoming'', n] fs = (Inr (Accepted i d), fs')"
  shows "find_existing qx i fs' = Inr (Some (Pending, d)) \<and> lookup fs' [''incoming'', n] = None \<and>
    (\<forall>q. q \<notin> {[DIGEST_FILE_NAME], [ACCEPTANCE_FILE_NAME]} \<longrightarrow>
      lookup fs' (state_path qx Pending i @ q) = lookup fs ([''incoming'', n] @ q)) \<and>
    (\<exists>sequence json. qx_acceptance_to_json qx \<lparr>am_sequence = sequence, am_accepted_at = now, am_client_id = client\<rparr> = Inr json \<and>
      lookup fs' (state_path qx Pending i @ [ACCEPTANCE_FILE_NAME]) = Some (new_file (json @ [lf])))"
proof (rule accept_Accepted [OF assms(4)], goal_cases)
  case (1 pkg fs1 fs2 fs3 sequence)
  note e = accepted_entry [OF assms(1,2,4)]
  obtain r where r: "d = PackageDigest r" by (cases d)
  then have "vp_digest pkg = PackageDigest r" using 1(3) by simp
  then have "wf_revision r" using validated_digest_wf [OF 1(1) assms(3)] by simp
  then have "read_stored_digest (state_path qx Pending i) i Pending fs' = Inr d"
    using digest_file_reads [of r fs' _ 420 1] metadata_of_lookup [OF e(2,3)] r by (simp add: new_file_def)
  with e show ?case by (auto simp: find_existing_Some_iff)
qed

lemma sample_acceptance:
  "\<exists>fs'. accept_with_hook_until queue_sample queue_of None (Inr ()) (\<lambda>_. Inr ()) None sample_datetime 9 [''incoming'', ''u''] upload_tree =
    (Inr (Accepted (RequestId 1) (vp_digest valid_result)), fs')"
  using sample_accept by (simp add: accept_package_def accept_with_hook_def)

lemma sample_digest_length: "length (ex_sha256 (qx_base queue_sample) s) = 32"
  by (simp add: queue_sample_def valid_externals_def)

theorem accepted_package_found_witness:
  "\<exists>fs'. find_existing queue_sample (RequestId 1) fs' = Inr (Some (Pending, vp_digest valid_result)) \<and>
     lookup fs' [''incoming'', ''u''] = None \<and>
     lookup fs' (state_path queue_sample Pending (RequestId 1) @ [REQUEST_FILE_NAME]) = Some (new_file ''{}'')"
proof -
  obtain fs' where run: "accept_with_hook_until queue_sample queue_of None (Inr ()) (\<lambda>_. Inr ()) None sample_datetime 9
      [''incoming'', ''u''] upload_tree = (Inr (Accepted (RequestId 1) (vp_digest valid_result)), fs')"
    using sample_acceptance by blast
  note t = accepted_package_found [OF queue_trees_wf(1) queue_sample_inj sample_digest_length run]
  have "lookup fs' (state_path queue_sample Pending (RequestId 1) @ [REQUEST_FILE_NAME]) = lookup upload_tree ([''incoming'', ''u''] @ [REQUEST_FILE_NAME])"
    using t by (auto simp: file_names)
  also have "\<dots> = Some (new_file ''{}'')" by (simp add: lookup_def upload_tree_def queue_trees)
  finally show ?thesis using t by blast
qed

text \<open>C21: a request identifier is accepted at most once: after an acceptance and any further calls, no
  call accepts a package under that identifier again.\<close>

theorem request_accepted_once:
  assumes "inj (show_ulid wx)" and "queue_ok wx fs"
    and "accept_with_hook_until wx queue deadline locked hook client now fresh [''incoming'', n] fs = (Inr (Accepted i d), fs1)"
    and "(queue_operation wx queue)\<^sup>*\<^sup>* fs1 fs2"
  shows "fst (accept_with_hook_until wx queue deadline' locked' hook' client' now' fresh' [''incoming'', m] fs2) \<noteq> Inr (Accepted i e)"
proof
  assume "fst (accept_with_hook_until wx queue deadline' locked' hook' client' now' fresh' [''incoming'', m] fs2) = Inr (Accepted i e)"
  then obtain fs3 where again: "accept_with_hook_until wx queue deadline' locked' hook' client' now' fresh' [''incoming'', m] fs2 = (Inr (Accepted i e), fs3)"
    by (cases "accept_with_hook_until wx queue deadline' locked' hook' client' now' fresh' [''incoming'', m] fs2") auto
  have wf: "wf_fs fs" using assms(2) by (simp add: queue_ok_def)
  have ok1: "queue_ok wx fs1"
    using runs_inD [OF accept_reach [OF assms(1)] assms(3)] assms(2) by (simp add: queue_reach_def)
  have "queue_reach wx fs1 fs2" by (rule queue_operations_reach [OF assms(1,4)])
  then have ok2: "queue_ok wx fs2" and steps: "queue_step\<^sup>*\<^sup>* (view wx fs1) (view wx fs2)" using ok1 by (simp_all add: queue_reach_def)
  obtain r where r: "view wx fs2 i = Some r"
    using steps_keep [OF steps only_in_view [OF ok1 accepted_entry(1) [OF wf assms(1,3)]]] by blast
  then have p: "present wx fs2 (rv_state r) i" using view_Some_iff [OF ok2] by blast
  have wf2: "wf_fs fs2" using ok2 by (simp add: queue_ok_def)
  obtain u where u: "keeps (uploaded m) fs2 u" "find_existing wx i u = Inr None" "wf_fs u"
    using accepted_tree [OF wf2 assms(1) again] by blast
  have "lookup u (state_path wx (rv_state r) i) \<noteq> None"
    using u(1) wf2 p by (simp add: keeps_def uploaded_def state_path_eq present_def)
  then show False using find_existing_None [OF u(2), of "rv_state r"] metadata_of_lookup [OF u(3)] by force
qed

theorem request_accepted_once_witness:
  "\<exists>fs'. accept_with_hook_until queue_sample queue_of None (Inr ()) (\<lambda>_. Inr ()) None sample_datetime 9 [''incoming'', ''u''] upload_tree =
      (Inr (Accepted (RequestId 1) (vp_digest valid_result)), fs') \<and>
    fst (accept_with_hook_until queue_sample queue_of None (Inr ()) (\<lambda>_. Inr ()) None sample_datetime 9 [''incoming'', ''v''] fs')
      \<noteq> Inr (Accepted (RequestId 1) (vp_digest valid_result))"
proof -
  obtain fs' where run: "accept_with_hook_until queue_sample queue_of None (Inr ()) (\<lambda>_. Inr ()) None sample_datetime 9
      [''incoming'', ''u''] upload_tree = (Inr (Accepted (RequestId 1) (vp_digest valid_result)), fs')"
    using sample_acceptance by blast
  with request_accepted_once [OF queue_sample_inj queue_trees_ok(1) run rtranclp.rtrancl_refl] show ?thesis by blast
qed

section \<open>Claims, the lock and selection\<close>

text \<open>C22: a claim is exclusive. After it the queue validates the claim, and no other token for the
  request passes the check that every later transition makes.\<close>

theorem claim_is_exclusive:
  assumes "wf_fs fs" and "phase_codec wx"
    and "claim_prepared_with_hook wx queue hook now fresh i batch prepared fs = (Inr claim, fs')"
  shows "queue_validate_claimed wx queue claim fs' = Inr () \<and>
    (\<forall>token. ct_request_id token = i \<and>
       check_claim_record wx (state_path wx Processing i) token Processing fs' = Inr () \<longrightarrow> token = cp_token claim)"
  using claim_validates [OF assms] by blast

theorem claim_is_exclusive_witness:
  "\<exists>claim fs'. claim_prepared_with_hook queue_sample queue_of (\<lambda>_. Inr ()) sample_datetime 9 (RequestId 1) (BatchId 7)
       valid_result pending_tree = (Inr claim, fs') \<and>
     queue_validate_claimed queue_sample queue_of claim fs' = Inr () \<and>
     check_claim_record queue_sample (state_path queue_sample Processing (RequestId 1)) (sample_token\<lparr>ct_attempt := 2\<rparr>) Processing fs' \<noteq> Inr ()"
proof -
  obtain claim fs' where run: "claim_prepared_with_hook queue_sample queue_of (\<lambda>_. Inr ()) sample_datetime 9 (RequestId 1) (BatchId 7)
       valid_result pending_tree = (Inr claim, fs')" and token: "cp_token claim = sample_token"
    using sample_claim by blast
  have "ct_request_id (sample_token\<lparr>ct_attempt := 2\<rparr>) = RequestId 1" "sample_token\<lparr>ct_attempt := 2\<rparr> \<noteq> sample_token"
    by (simp_all add: sample_token_def)
  with claim_is_exclusive [OF queue_trees_wf(2) queue_codecs(1) run] token run show ?thesis by metis
qed

text \<open>C13: a pending request of a queue in working order can be claimed and completed: both calls
  succeed when the claim record encodes, the temporary name is free and no failure record is there.\<close>

theorem pending_request_completes:
  assumes "phase_codec wx" and "queue_ready queue fs"
    and "find_existing wx i fs = Inr (Some (Pending, vp_digest prepared))"
    and "next_attempt wx (state_path wx Pending i) i Pending fs = Inr number"
    and "wx_phase_to_json wx \<lparr>wp_schema_version = CURRENT_WORKER_PHASE_SCHEMA_VERSION, wp_request_id = i,
       wp_batch_id = batch, wp_attempt = number, wp_phase = Claimed, wp_updated_at = now\<rparr> = Inr json"
    and "lookup fs (worker_temporary_root @ [''.phase-'' @ show_ulid wx fresh]) = None"
    and "lookup fs (state_path wx Pending i @ [RESULT_FILE_NAME]) = None"
  shows "\<exists>claim fs1 fs2. claim_prepared_with_hook wx queue (\<lambda>_. Inr ()) now fresh i batch prepared fs = (Inr claim, fs1) \<and>
    complete_claimed wx queue later fresh' (cp_token claim) fs1 = (Inr (), fs2)"
  by (rule claim_then_complete [OF assms])

theorem pending_request_completes_witness:
  "\<exists>claim fs1 fs2. claim_prepared_with_hook queue_sample queue_of (\<lambda>_. Inr ()) sample_datetime 9 (RequestId 1) (BatchId 7)
       valid_result pending_tree = (Inr claim, fs1) \<and>
     complete_claimed queue_sample queue_of sample_datetime 9 (cp_token claim) fs1 = (Inr (), fs2)"
  by (rule pending_request_completes [OF queue_codecs(1) queue_trees_ready(2) pending_facts(1,2) sample_phase_encodes
        pending_facts(4,3)])

text \<open>C31: waiting for the queue lock with a deadline ends when the clock advances by the time
  slept, and the lock is held afterwards only if it was taken before the deadline.\<close>

theorem lock_until_decides:
  assumes "clock_advances expires_at rounds"
  shows "\<exists>r waited. lock_until blocking (Some (expires_at, rounds)) = Some (r, waited) \<and>
    (r = Inr () \<longrightarrow> (\<exists>j. lr_try_lock rounds j = LockTaken \<and> lr_checked rounds j < expires_at \<and> \<not> lr_cancelled rounds j))"
  using lock_rounds_decide [OF assms] by (simp add: lock_until_def)

theorem lock_until_decides_witness:
  "\<exists>r waited. lock_until (Inr ()) (Some (25000000, \<lparr>lr_checked = (\<lambda>k. k * LOCK_POLL_INTERVAL),
      lr_waited = (\<lambda>k. k * LOCK_POLL_INTERVAL), lr_cancelled = (\<lambda>_. False), lr_try_lock = (\<lambda>_. WouldBlock)\<rparr>)) = Some (r, waited) \<and> r \<noteq> Inr ()"
proof -
  have "clock_advances 25000000 \<lparr>lr_checked = (\<lambda>k. k * LOCK_POLL_INTERVAL),
      lr_waited = (\<lambda>k. k * LOCK_POLL_INTERVAL), lr_cancelled = (\<lambda>_. False), lr_try_lock = (\<lambda>_. WouldBlock)\<rparr>"
    by (simp add: clock_advances_def lock_sleep_def)
  from lock_until_decides [OF this, of "Inr ()"] show ?thesis by auto
qed

text \<open>Allocating a sequence number returns the positive number in the file and leaves its
  successor there.\<close>

theorem sequence_numbers_advance:
  assumes "wf_fs fs" and "allocate_sequence qx fresh fs = (Inr n, fs')"
  shows "0 < n \<and> read_next_sequence [NEXT_SEQUENCE_FILE_NAME] fs = Inr n \<and>
    read_next_sequence [NEXT_SEQUENCE_FILE_NAME] fs' = Inr (n + 1)"
  using allocate_sequence_allocates [OF assms] by blast

lemma upload_sequence: "read_next_sequence [NEXT_SEQUENCE_FILE_NAME] upload_tree = Inr 1"
proof (rule read_written_sequence [of 1 _ _ 420 1])
  show "symlink_metadata upload_tree [NEXT_SEQUENCE_FILE_NAME] = Inr (File (show_nat 1 @ [lf]) 420 1)"
    by (rule metadata_of_lookup [OF queue_trees_wf(1)])
      (simp add: lookup_def upload_tree_def queue_trees NEXT_SEQUENCE_FILE_NAME_def show_nat.simps new_file_def)
qed (simp_all add: u64_max_def)

theorem sequence_numbers_advance_witness:
  "\<exists>fs'. allocate_sequence queue_sample 9 upload_tree = (Inr 1, fs') \<and>
     read_next_sequence [NEXT_SEQUENCE_FILE_NAME] fs' = Inr 2"
proof -
  have "lookup upload_tree [''.next-sequence-'' @ show_ulid queue_sample 9] = None"
    by (simp add: lookup_def upload_tree_def queue_trees)
  from allocate_succeeds [OF queue_trees_wf(1) upload_sequence _ this]
  obtain fs' where run: "allocate_sequence queue_sample 9 upload_tree = (Inr 1, fs')" by (auto simp: u64_max_def)
  from sequence_numbers_advance [OF queue_trees_wf(1) run] run show ?thesis by simp
qed



lemma sample_begin:
  "\<exists>package fs1. begin_until queue_sample queue_of (Inr ()) (\<lambda>_. Inr ()) (\<lambda>_. 5) upload_tree = (Inr package, fs1)"
proof -
  let ?p = "[''incoming'', ''.incoming-5'']"
  let ?fs1 = "put ?p Dir upload_tree" and ?fs2 = "put (?p @ [PAYLOAD_DIRECTORY_NAME]) Dir (put ?p Dir upload_tree)"
  have name: "show_ulid queue_sample 5 = ''5''"
    by (simp add: show_ulid_def queue_sample_def valid_externals_def sample_externals_def show_nat.simps)
  have l: "lookup upload_tree [''incoming''] = Some Dir" "lookup upload_tree ?p = None" "lookup upload_tree (?p @ [PAYLOAD_DIRECTORY_NAME]) = None"
    by (simp_all add: lookup_def upload_tree_def queue_trees)
  have c: "create_dir ?p upload_tree = Inr ?fs1"
    using resolve_parent_dir [OF queue_trees_wf(1) l(1), of "''.incoming-5''"] l(2) by (simp add: create_dir_Inr_iff)
  have wf1: "wf_fs ?fs1" using create_dir_step.run_wf [OF queue_trees_wf(1) c] .
  have d: "create_dir (?p @ [PAYLOAD_DIRECTORY_NAME]) ?fs1 = Inr ?fs2"
    using resolve_parent_dir [OF wf1, of ?p PAYLOAD_DIRECTORY_NAME] l(3) by (simp add: create_dir_Inr_iff lookup_put)
  have "keeps (\<lambda>q. length q = 1) upload_tree ?fs1" by (rule create_dir_step.keeps_run [OF c]) simp
  then have "keeps (\<lambda>q. length q = 1) upload_tree ?fs2"
    by (rule keeping.R_trans) (rule create_dir_step.keeps_run [OF d], simp)
  then have "queue_ready queue_of ?fs2" by (rule ready_keeps [OF queue_trees_ready(1)]) simp
  with c d show ?thesis
    by (simp add: begin_until_def andthen_def observe_def ready_identity [OF queue_trees_ready(1)] ready_identity
        MAXIMUM_STAGING_NAME_ATTEMPTS_def upt_rec name Let_def)
qed


text \<open>C19: an unlocked status query does not miss a request that moves only forward while it looks.\<close>

theorem status_never_misses:
  assumes "\<And>k. wf_fs (ob_tree ob k) \<and> present wx (ob_tree ob k) (states k) i"
    and "\<And>k. queue_state_index (states k) \<le> queue_state_index (states (Suc k))"
  shows "observe_single_state_until wx ob i k \<noteq> Inr None \<and> status_until wx queue ob i \<noteq> Inr None"
proof -
  have "observe_single_state_until wx ob i k \<noteq> Inr None" for k
  proof
    assume "observe_single_state_until wx ob i k = Inr None"
    from attempts_none [OF this [unfolded observe_single_state_until_def]]
    obtain m where "observe_states wx ob i queue_states m = Inr []" by blast
    then show False using pass_finds [of ob m wx "\<lambda>j. states (m + j)" i] assms by simp
  qed
  moreover have "status_until wx queue ob i \<noteq> Inr None" if "observe_single_state_until wx ob i 1 \<noteq> Inr None"
    using that by (auto simp: status_until_def attempt_Inr_iff split: option.split_asm)
  ultimately show ?thesis by blast
qed

theorem status_never_misses_witness:
  "observe_single_state_until queue_sample (still_observer pending_tree) (RequestId 1) 1 \<noteq> Inr None"
proof -
  have "present queue_sample pending_tree Pending (RequestId 1)"
    by (simp add: present_def queue_names lookup_def pending_tree_def queue_trees)
  then show ?thesis
    using status_never_misses [of "still_observer pending_tree" queue_sample "\<lambda>_. Pending" "RequestId 1" 1] queue_trees_wf(2)
    by (simp add: still_observer_def)
qed

text \<open>C30: after a claim is failed, a status query on the queue reports exactly that error code.\<close>

lemma transition_identity:
  assumes "transition_claimed wx queue now fresh token t c fs = (Inr u, fs')"
  shows "\<exists>identity. current_identity_locked queue fs' = Inr identity"
proof -
  from assms obtain s where "find_existing_state_without_package_read wx (ct_request_id token) fs = Inr (Some s)"
    by (auto simp: transition_claimed_def Let_def action_Inr_iffs split: option.split_asm)
  with assms show ?thesis
    by (cases "s = t") (auto simp: transition_claimed_def Let_def action_Inr_iffs)
qed

theorem failure_is_reported:
  assumes "inj (show_ulid wx)" and "result_codec wx" and "queue_ok wx fs"
    and "fail_claimed wx queue now fresh token c fs = (Inr (), fs')"
  shows "\<exists>failed_at. status_until wx queue (still_observer fs') (ct_request_id token) = Inr (Some (StatusFailed c failed_at))"
proof -
  note run = assms(4) [unfolded fail_claimed_def]
  have wf: "wf_fs fs" "wf_fs fs'"
    using assms(3) runs_inD [OF fail_claimed_reach [OF assms(1)] assms(4)] by (simp_all add: queue_reach_def queue_ok_def)
  obtain identity where identity: "current_identity_locked queue fs' = Inr identity" using transition_identity [OF run] by blast
  have at: "only_in wx fs' Failed (ct_request_id token)" by (rule transition_done(1) [OF wf(1) assms(2) run])
  have "\<exists>failed_at. read_failed_status wx ExpectedRegularFile (subtree (state_path wx Failed (ct_request_id token)) fs') (ct_request_id token) =
    Inr (StatusFailed c failed_at)"
    by (rule failed_status_reads [OF wf(2) transition_done(2) [OF wf(1) assms(2) run refl]])
  moreover have "observe_single_state_until wx (still_observer fs') (ct_request_id token) 1 =
      Inr (Some (Failed, 1 + queue_state_index Failed))"
    by (rule observe_still [OF at]) (simp_all add: still_observer_def)
  ultimately show ?thesis
    using identity by (auto simp: status_until_def still_observer_def ensure_deadline_def)
qed

theorem failure_is_reported_witness:
  "\<exists>fs' failed_at. fail_claimed queue_sample queue_of sample_datetime 9 sample_token InvalidRequest processing_tree = (Inr (), fs') \<and>
     status_until queue_sample queue_of (still_observer fs') (RequestId 1) = Inr (Some (StatusFailed InvalidRequest failed_at))"
proof -
  obtain fs' where run: "fail_claimed queue_sample queue_of sample_datetime 9 sample_token InvalidRequest processing_tree = (Inr (), fs')"
    using sample_fail by blast
  from failure_is_reported [OF queue_sample_inj queue_codecs(2) queue_trees_ok(3) run] run show ?thesis
    by (auto simp: sample_token_def)
qed

text \<open>C6: reconciling a batch settles it: each successful request ends completed, each failed one
  failed, and the proof the caller gets validates for exactly this batch and these outcomes.\<close>

theorem reconciliation_settles_batch:
  assumes "inj (show_ulid wx)" and "result_codec wx" and "queue_ok wx fs"
    and "reconcile_batch wx queue clock fresh batch successful failures session fs = (Inr proof_record, fs')"
  shows "reconciliation_validates proof_record (fq_identity queue) batch successful failures \<and>
    (\<forall>token \<in> set successful. \<exists>r. view wx fs' (ct_request_id token) = Some r \<and> rv_state r = Completed) \<and>
    (\<forall>(token, c) \<in> set failures. \<exists>r. view wx fs' (ct_request_id token) = Some r \<and> rv_state r = Failed)"
  using reconcile_done [OF assms] by blast

theorem reconciliation_settles_batch_witness:
  "\<exists>proof_record fs' r. reconcile_batch queue_sample queue_of (\<lambda>_. sample_datetime) (\<lambda>_. 9) (BatchId 7) []
     [(sample_token, InvalidRequest)] sample_session processing_tree = (Inr proof_record, fs') \<and>
     reconciliation_validates proof_record queue_identity (BatchId 7) [] [(sample_token, InvalidRequest)] \<and>
     view queue_sample fs' (RequestId 1) = Some r \<and> rv_state r = Failed"
proof -
  obtain p fs' where run: "reconcile_batch queue_sample queue_of (\<lambda>_. sample_datetime) (\<lambda>_. 9) (BatchId 7) []
     [(sample_token, InvalidRequest)] sample_session processing_tree = (Inr p, fs')"
    using sample_reconcile by blast
  have i: "ct_request_id sample_token = RequestId 1" by (simp add: sample_token_def)
  from reconciliation_settles_batch [OF queue_sample_inj queue_codecs(2) queue_trees_ok(3) run] run i show ?thesis
    by (auto simp: queue_of_def)
qed

end
