(* ===== verification/Batch_Schedule.thy ===== *)
theory Batch_Schedule
  imports Queue_Session
begin

text \<open>
  \<open>crates/worker/src/schedule.rs\<close>: when the Worker closes a batch. The decision is taken on the
  snapshot of \<open>scan_pending\<close> in \<open>Queue_Session\<close>. Durations are nanoseconds;
  \<open>OffsetDateTime::saturating_add\<close> of the time crate is a parameter.
\<close>

record batch_schedule =
  bs_debounce :: int
  bs_maximum_age :: int

datatype batch_close_reason = InvalidAcceptance | MaximumRequests | MaximumAge | Debounce

datatype batch_readiness = BatchEmpty | BatchWaiting offset_datetime | BatchReady batch_close_reason

datatype batch_schedule_error = InvalidDebounce | InvalidMaximumAge

definition new_batch_schedule :: "int \<Rightarrow> int \<Rightarrow> batch_schedule_error + batch_schedule" where
  "new_batch_schedule debounce maximum_age =
     (if \<not> debounce > 0 then Inl InvalidDebounce
      else if \<not> maximum_age > 0 then Inl InvalidMaximumAge
      else Inr \<lparr>bs_debounce = debounce, bs_maximum_age = maximum_age\<rparr>)"

text \<open>\<open>Default\<close> panics when the constructor refuses; \<open>None\<close> is the panic.\<close>

definition default_batch_schedule :: "batch_schedule option" where
  "default_batch_schedule =
     (case new_batch_schedule (30 * 1000000000) (5 * 60 * 1000000000) of Inr s \<Rightarrow> Some s | Inl _ \<Rightarrow> None)"

definition readiness_for ::
  "(offset_datetime \<Rightarrow> int \<Rightarrow> offset_datetime) \<Rightarrow> nat \<Rightarrow> bool \<Rightarrow> offset_datetime option \<Rightarrow>
   offset_datetime option \<Rightarrow> nat \<Rightarrow> batch_schedule \<Rightarrow> offset_datetime \<Rightarrow> batch_readiness" where
  "readiness_for saturating_add requests has_invalid_acceptance oldest_accepted_at newest_accepted_at
     maximum_requests schedule now =
     (if requests = 0 then BatchEmpty
      else if has_invalid_acceptance then BatchReady InvalidAcceptance
      else if requests \<ge> maximum_requests then BatchReady MaximumRequests
      else case oldest_accepted_at of
        None \<Rightarrow> BatchReady InvalidAcceptance
      | Some oldest \<Rightarrow>
          (case newest_accepted_at of
             None \<Rightarrow> BatchReady InvalidAcceptance
           | Some newest \<Rightarrow>
               let maximum_age_at = saturating_add oldest (bs_maximum_age schedule) in
               if \<not> before_instant now maximum_age_at then BatchReady MaximumAge
               else
               let debounce_at = saturating_add newest (bs_debounce schedule) in
               if \<not> before_instant now debounce_at then BatchReady Debounce
               else BatchWaiting (if before_instant debounce_at maximum_age_at then debounce_at else maximum_age_at)))"

definition readiness ::
  "(offset_datetime \<Rightarrow> int \<Rightarrow> offset_datetime) \<Rightarrow> batch_schedule \<Rightarrow> pending_snapshot \<Rightarrow> nat \<Rightarrow> offset_datetime \<Rightarrow>
   batch_readiness" where
  "readiness saturating_add schedule snapshot maximum_requests now =
     readiness_for saturating_add (sn_requests snapshot) (sn_has_invalid_acceptance snapshot)
       (sn_oldest_accepted_at snapshot) (sn_newest_accepted_at snapshot) maximum_requests schedule now"

text \<open>The two deadlines of a snapshot, and what a decision says about them.\<close>

lemma readiness_waits_iff:
  "readiness add schedule snapshot m now = BatchWaiting ready_at \<longleftrightarrow>
     (\<exists>oldest newest. sn_requests snapshot \<noteq> 0 \<and> \<not> sn_has_invalid_acceptance snapshot \<and> sn_requests snapshot < m \<and>
       sn_oldest_accepted_at snapshot = Some oldest \<and> sn_newest_accepted_at snapshot = Some newest \<and>
       (let age_at = add oldest (bs_maximum_age schedule); debounce_at = add newest (bs_debounce schedule) in
        before_instant now age_at \<and> before_instant now debounce_at \<and>
        ready_at = (if before_instant debounce_at age_at then debounce_at else age_at)))"
  by (auto simp: readiness_def readiness_for_def Let_def split: option.splits)


definition schedule_snapshot :: pending_snapshot where
  "schedule_snapshot = \<lparr>sn_maximum_sequence = 1, sn_requests = 1,
     sn_oldest_accepted_at = Some \<lparr>dt_instant = 0, dt_year = 1970, dt_month = 1, dt_day = 1, dt_hour = 0, dt_minute = 0, dt_second = 0\<rparr>,
     sn_newest_accepted_at = Some \<lparr>dt_instant = 0, dt_year = 1970, dt_month = 1, dt_day = 1, dt_hour = 0, dt_minute = 0, dt_second = 0\<rparr>,
     sn_has_invalid_acceptance = False\<rparr>"

definition add_instant :: "offset_datetime \<Rightarrow> int \<Rightarrow> offset_datetime" where
  "add_instant t d = t\<lparr>dt_instant := dt_instant t + d\<rparr>"


end
