(* ===== verification/Git_Commit.thy ===== *)
theory Git_Commit
  imports Apply_Plan Queue_Worker
begin

text \<open>
  The parts of \<open>crates/repository/src/git.rs\<close> that compute: the message of a batch commit and
  the check of its trailers when the journal is read back, the account of the staged changes that
  refuses a deletion which no applied move explains. Git itself is not modelled: its output is an
  argument.
\<close>

text \<open>An error that carries another keeps it. The bytes of \<open>stderr\<close> are those before the
  lossy decoding, and a failure of the release store has no detail.\<close>

datatype git_transaction_error =
    UnsupportedGitVersion string
  | TrialBuildFailed
  | TrialBuildMutatedWorktree
  | InvalidIdentity
  | InvalidOfficialBranch
  | RepositoryNotBare
  | CanonicalWorktreeMismatch
  | CanonicalWorktreeBranchMismatch
  | OverlappingRepositoryPaths
  | RepositoryBusy path
  | RepositoryBindingMismatch
  | UnsafeGitConfig
  | InvalidDirectory path
  | EmptyBatch
  | InvalidClaims
  | CanonicalWorktreeDirty
  | WorktreeAlreadyExists path
  | InvalidJournal
  | JournalMismatch
  | JournalMissing
  | InvalidJournalState
  | PublicationIncomplete
  | TransactionRequiresRecovery batch_id
  | UnfinishedTransaction
  | GitApply request_id apply_error
  | GitQueue worker_queue_error
  | GitRelease
  | OfficialBranchChanged string string
  | CanonicalWorktreeSync string git_transaction_error
  | PostCommitCleanup string git_transaction_error
  | InvalidGitOutput
  | GitDeadlineExceeded
  | GitCancelled
  | PhysicalDeletion
  | GitCommand "string list" string
  | GitIo io_error

section \<open>The commit message\<close>

record file_stats =
  fst_added :: nat
  fst_modified :: nat
  fst_deleted :: nat

definition batch_id_to_string :: "(ulid \<Rightarrow> string) \<Rightarrow> batch_id \<Rightarrow> string" where
  "batch_id_to_string show_id i = show_id (batch_ulid i)"

definition commit_entry :: "(ulid \<Rightarrow> string) \<Rightarrow> claim_token list \<Rightarrow> claimed_package \<Rightarrow> string" where
  "commit_entry show_id successful claim =
     (if cp_token claim \<in> set successful
      then let request = vp_request (cp_package claim) in
        ''- ['' @ request_id_to_string show_id (cr_request_id request) @ ''] '' @ cr_title request @ [lf]
      else [])"

definition commit_message ::
  "(ulid \<Rightarrow> string) \<Rightarrow> batch_id \<Rightarrow> claimed_package list \<Rightarrow> claim_token list \<Rightarrow> file_stats \<Rightarrow> string" where
  "commit_message show_id batch_id claims successful stats =
     ''knowledge snapshot: '' @ show_nat (length successful) @ '' changes'' @ [lf] @ [lf] @
     concat (map (commit_entry show_id successful) claims) @
     [lf] @ ''Requests: '' @ show_nat (length successful) @ [lf] @
     ''Files-Added: '' @ show_nat (fst_added stats) @ [lf] @
     ''Files-Modified: '' @ show_nat (fst_modified stats) @ [lf] @
     ''Files-Deleted: '' @ show_nat (fst_deleted stats) @ [lf] @
     [lf] @ ''Batch-ID: '' @ batch_id_to_string show_id batch_id @ [lf] @
     concat (map (\<lambda>token. ''Knowledge-Request: '' @ request_id_to_string show_id (ct_request_id token) @ [lf])
       successful)"

text \<open>\<open>str::lines\<close>.\<close>

definition strip_line :: "string \<Rightarrow> string" where
  "strip_line line =
     (case strip_suffix_char lf line of
        None \<Rightarrow> line
      | Some line \<Rightarrow> (case strip_suffix_char cr line of None \<Rightarrow> line | Some line \<Rightarrow> line))"

definition str_lines :: "string \<Rightarrow> string list" where
  "str_lines s = map strip_line (split_inclusive lf s)"

text \<open>The trailers that \<open>validate_committed_journal\<close> demands of the message Git prints for the
  commit.\<close>

definition check_committed_message ::
  "(ulid \<Rightarrow> string) \<Rightarrow> batch_id \<Rightarrow> request_id list \<Rightarrow> string \<Rightarrow> git_transaction_error + unit" where
  "check_committed_message show_id batch_id successful message =
     (if \<not> is_utf8 message then Inl InvalidGitOutput
      else
        let batch_trailers = filter (prefix ''Batch-ID:'') (str_lines message);
            request_trailers = filter (prefix ''Knowledge-Request:'') (str_lines message);
            expected_requests = map (\<lambda>request_id. ''Knowledge-Request: '' @ request_id_to_string show_id request_id) successful in
        if batch_trailers \<noteq> [''Batch-ID: '' @ batch_id_to_string show_id batch_id] \<or> request_trailers \<noteq> expected_requests
        then Inl JournalMismatch else Inr ())"

subsection \<open>Lines\<close>

text \<open>A text that is a list of lines, each with its line feed.\<close>

definition unlines :: "string list \<Rightarrow> string" where
  "unlines ls = concat (map (\<lambda>l. l @ [lf]) ls)"

lemma str_lines_unlines:
  "(\<And>l. l \<in> set ls \<Longrightarrow> lf \<notin> set l) \<Longrightarrow> str_lines (unlines ls) = map (\<lambda>l. strip_line (l @ [lf])) ls"
  by (induction ls) (auto simp: unlines_def str_lines_def split_inclusive_append)

lemma is_utf8_unlines: "is_utf8 (unlines ls) \<longleftrightarrow> (\<forall>l \<in> set ls. is_utf8 l)"
proof (induction ls)
  case (Cons l ls)
  have "is_utf8 (l @ lf # unlines ls) \<longleftrightarrow> is_utf8 l \<and> is_utf8 (unlines ls)"
    by (rule is_utf8_cut) (simp add: code_def)
  with Cons show ?case by (simp add: unlines_def)
qed (simp add: unlines_def)

lemma strip_line_prefix: "prefix (strip_line (l @ [lf])) l"
  by (auto simp: strip_line_def strip_suffix_char_def split: option.splits)
     (metis append_butlast_last_id prefixI)

lemma strip_line_keeps:
  assumes "cr \<notin> set l"
  shows "strip_line (l @ [lf]) = l"
proof -
  have "strip_suffix_char lf (l @ [lf]) = Some l" by (simp add: strip_suffix_char_Some_iff)
  moreover have "strip_suffix_char cr l = None"
    using assms by (cases "strip_suffix_char cr l") (auto simp: strip_suffix_char_Some_iff)
  ultimately show ?thesis by (simp add: strip_line_def)
qed

text \<open>A line that begins with neither trailer.\<close>

definition plain_line :: "string \<Rightarrow> bool" where
  "plain_line l \<longleftrightarrow> \<not> prefix ''Batch-ID:'' l \<and> \<not> prefix ''Knowledge-Request:'' l"

lemma plain_strip: "plain_line l \<Longrightarrow> plain_line (strip_line (l @ [lf]))"
  using strip_line_prefix [of l] by (auto simp: plain_line_def dest: prefix_order.trans)

lemma plain_hd: "l = [] \<or> hd l \<notin> {CHR ''B'', CHR ''K''} \<Longrightarrow> plain_line l"
  by (cases l) (auto simp: plain_line_def)

lemma filter_plain:
  assumes "\<And>l. l \<in> set ls \<Longrightarrow> plain_line l"
  shows "filter (prefix ''Batch-ID:'') (map (\<lambda>l. strip_line (l @ [lf])) ls) = []"
    and "filter (prefix ''Knowledge-Request:'') (map (\<lambda>l. strip_line (l @ [lf])) ls) = []"
  using plain_strip assms by (auto simp: filter_empty_conv plain_line_def)

section \<open>The message and its trailers\<close>

definition entry_line :: "(ulid \<Rightarrow> string) \<Rightarrow> claimed_package \<Rightarrow> string" where
  "entry_line show_id claim =
     ''- ['' @ request_id_to_string show_id (cr_request_id (vp_request (cp_package claim))) @ ''] '' @
     cr_title (vp_request (cp_package claim))"

lemma commit_entries:
  "concat (map (commit_entry show_id successful) claims) =
     unlines (map (entry_line show_id) (filter (\<lambda>claim. cp_token claim \<in> set successful) claims))"
  by (induction claims) (simp_all add: unlines_def commit_entry_def entry_line_def Let_def)

lemma commit_message_lines:
  "commit_message show_id batch claims successful stats @ replicate n lf =
     unlines ([''knowledge snapshot: '' @ show_nat (length successful) @ '' changes'', []] @
       map (entry_line show_id) (filter (\<lambda>claim. cp_token claim \<in> set successful) claims) @
       [[], ''Requests: '' @ show_nat (length successful), ''Files-Added: '' @ show_nat (fst_added stats),
        ''Files-Modified: '' @ show_nat (fst_modified stats), ''Files-Deleted: '' @ show_nat (fst_deleted stats), []] @
       [''Batch-ID: '' @ batch_id_to_string show_id batch] @
       map (\<lambda>token. ''Knowledge-Request: '' @ request_id_to_string show_id (ct_request_id token)) successful @
       replicate n [])"
proof -
  have "replicate n lf = unlines (replicate n [])" by (induction n) (simp_all add: unlines_def)
  then show ?thesis by (simp add: commit_message_def commit_entries unlines_def comp_def)
qed

lemma digits_plain: "lf \<notin> set (show_nat n)" "is_ascii (show_nat n)"
  using show_nat_digits [of lf n] by (auto simp: ascii_show_nat is_ascii_digit_def code_def)

lemma entry_line_facts:
  assumes "is_ascii (request_id_to_string show_id (cr_request_id (vp_request (cp_package claim))))"
    and "lf \<notin> set (request_id_to_string show_id (cr_request_id (vp_request (cp_package claim))))"
    and "is_utf8 (cr_title (vp_request (cp_package claim)))" and "lf \<notin> set (cr_title (vp_request (cp_package claim)))"
  shows "lf \<notin> set (entry_line show_id claim)" and "is_utf8 (entry_line show_id claim)" and "plain_line (entry_line show_id claim)"
proof -
  let ?a = "''- ['' @ request_id_to_string show_id (cr_request_id (vp_request (cp_package claim))) @ '']''"
    and ?t = "cr_title (vp_request (cp_package claim))"
  have e: "entry_line show_id claim = ?a @ CHR '' '' # ?t" by (simp add: entry_line_def)
  have "is_utf8 ?a" using assms(1) by (intro ascii_is_utf8) (auto simp: is_ascii_def code_def)
  then show "is_utf8 (entry_line show_id claim)" using assms(3) is_utf8_cut [of "CHR '' ''" ?a ?t] by (simp add: e code_def)
  show "lf \<notin> set (entry_line show_id claim)" using assms(2,4) by (auto simp: e)
  show "plain_line (entry_line show_id claim)" by (rule plain_hd) (simp add: e)
qed


definition commit_claim :: "string \<Rightarrow> claimed_package" where
  "commit_claim title = \<lparr>cp_token = \<lparr>ct_request_id = RequestId 1, ct_batch_id = BatchId 7, ct_attempt = 1\<rparr>,
     cp_package = \<lparr>vp_request = sample_request\<lparr>cr_title := title\<rparr>, vp_digest = PackageDigest (Revision []),
       vp_payload = [], vp_acceptance = None\<rparr>, cp_package_root = []\<rparr>"


lemma str_lines_cut: "str_lines (s @ lf # t) = str_lines (s @ [lf]) @ str_lines t"
  using split_inclusive_ends_append [of lf "s @ [lf]" t] by (simp add: str_lines_def ends_with_char_def)

lemma strip_line_cases: "strip_line s = s \<or> s = strip_line s @ [lf] \<or> s = strip_line s @ [cr, lf]"
proof (cases "strip_suffix_char lf s")
  case l: (Some l)
  then have s: "s = l @ [lf]" by (simp add: strip_suffix_char_Some_iff)
  show ?thesis
  proof (cases "strip_suffix_char cr l")
    case None
    with l s show ?thesis by (simp add: strip_line_def)
  next
    case (Some k)
    then have "l = k @ [cr]" by (simp add: strip_suffix_char_Some_iff)
    with l s Some show ?thesis by (simp add: strip_line_def)
  qed
qed (simp add: strip_line_def)

lemma prefix_without: "prefix p (s @ [c]) \<Longrightarrow> c \<notin> set p \<Longrightarrow> prefix p s"
  by (metis in_set_conv_decomp prefix_snoc)

lemma first_line:
  assumes "lf \<notin> set p" and "cr \<notin> set p" and "p \<noteq> []"
  shows "filter (prefix p) (str_lines (p @ s)) \<noteq> []"
proof -
  obtain y rest where y: "split_inclusive lf (p @ s) = (p @ y) # rest"
  proof (cases "lf \<in> set s")
    case True
    then obtain a b where "s = a @ lf # b" "lf \<notin> set a" by (meson split_list_first)
    then show thesis using that [of "a @ [lf]"] split_inclusive_append [of lf "p @ a" b] assms(1) by simp
  next
    case False
    then have "lf \<notin> set (butlast (p @ s))" using in_set_butlastD [of lf "p @ s"] assms(1) by auto
    then show thesis using that [of s "[]"] split_inclusive_line [of "p @ s" lf] assms(3) by simp
  qed
  consider (plain) "strip_line (p @ y) = p @ y" | (line) "p @ y = strip_line (p @ y) @ [lf]"
    | (cr_line) "p @ y = strip_line (p @ y) @ [cr, lf]"
    using strip_line_cases [of "p @ y"] by blast
  then have "prefix p (strip_line (p @ y))"
  proof cases
    case line
    then have "prefix p (strip_line (p @ y) @ [lf])" by (metis prefixI)
    then show ?thesis using assms(1) by (rule prefix_without)
  next
    case cr_line
    then have "prefix p ((strip_line (p @ y) @ [cr]) @ [lf])" by (metis append.assoc append_Cons append_Nil prefixI)
    then have "prefix p (strip_line (p @ y) @ [cr])" using assms(1) by (rule prefix_without)
    then show ?thesis using assms(2) by (rule prefix_without)
  qed simp
  with y show ?thesis by (simp add: str_lines_def)
qed

lemma two_lines:
  assumes p: "lf \<notin> set p" "cr \<notin> set p" "p \<noteq> []"
  shows "2 \<le> length (filter (prefix p) (str_lines (a @ lf # p @ b @ lf # p @ d)))"
proof -
  have "str_lines (a @ lf # p @ b @ lf # p @ d) = str_lines (a @ [lf]) @ str_lines (p @ (b @ [lf])) @ str_lines (p @ d)"
    using str_lines_cut [of a "p @ b @ lf # p @ d"] str_lines_cut [of "p @ b" "p @ d"] by simp
  then have l: "filter (prefix p) (str_lines (a @ lf # p @ b @ lf # p @ d)) = filter (prefix p) (str_lines (a @ [lf])) @
    filter (prefix p) (str_lines (p @ (b @ [lf]))) @ filter (prefix p) (str_lines (p @ d))" by simp
  have "0 < length (filter (prefix p) (str_lines (p @ (b @ [lf]))))" "0 < length (filter (prefix p) (str_lines (p @ d)))"
    using first_line [OF p] by blast+
  then show ?thesis unfolding l length_append by linarith
qed




section \<open>Staged changes\<close>

text \<open>\<open>PathBuf::from\<close>, by its components: a leading slash and a leading dot are components.\<close>

definition path_from_str :: "string \<Rightarrow> path" where
  "path_from_str s =
     (let pieces = split_on (CHR ''/'') s in
      (if starts_with_char (CHR ''/'') s then [''/''] else if hd pieces = ''.'' then [''.''] else []) @
      filter (\<lambda>c. c \<noteq> [] \<and> c \<noteq> ''.'') pieces)"

text \<open>The path and its parents, longest first.\<close>

definition ancestor_paths :: "path \<Rightarrow> path list" where
  "ancestor_paths p =
     filter (\<lambda>q. q \<noteq> [] \<or> p = [] \<or> hd p \<noteq> ''/'') (map (\<lambda>i. take i p) (rev [0..<Suc (length p)]))"

fun reduce_origins :: "applied_move list \<Rightarrow> (path \<times> path) list \<Rightarrow> git_transaction_error + (path \<times> path) list" where
  "reduce_origins [] origins = Inr origins"
| "reduce_origins (AppliedMove source destination # moves) origins =
     (let origin = (case map_of origins source of Some origin \<Rightarrow> origin | None \<Rightarrow> source);
          others = filter (\<lambda>(d, _). d \<noteq> source) origins in
      if map_of others destination \<noteq> None then Inl InvalidGitOutput
      else reduce_origins moves ((destination, origin) # others))"

definition reduce_moves :: "applied_move list \<Rightarrow> git_transaction_error + (path \<times> path) list" where
  "reduce_moves moves =
     attempt (reduce_origins moves []) (\<lambda>origins.
       if distinct (map snd origins) then Inr (map (\<lambda>(destination, origin). (origin, destination)) origins)
       else Inl InvalidGitOutput)"

definition moved_file_destination :: "path \<Rightarrow> (path \<times> path) list \<Rightarrow> path option" where
  "moved_file_destination source final_moves =
     (case find (\<lambda>candidate. map_of final_moves candidate \<noteq> None) (ancestor_paths source) of
        None \<Rightarrow> None
      | Some candidate \<Rightarrow>
          map_option (\<lambda>destination. destination @ drop (length candidate) source) (map_of final_moves candidate))"

record staged_changes =
  sc_added :: "path list"
  sc_modified :: nat
  sc_deleted :: "path list"

text \<open>The entries of \<open>git diff --name-status -z\<close>.\<close>

fun name_status :: "string list \<Rightarrow> staged_changes \<Rightarrow> git_transaction_error + staged_changes" where
  "name_status [] changes = Inr changes"
| "name_status [status] changes = (if status = [] then Inr changes else Inl InvalidGitOutput)"
| "name_status (status # name # parts) changes =
     (if status = [] then Inr changes
      else if \<not> is_utf8 name then Inl InvalidGitOutput
      else if name = [] then Inl InvalidGitOutput
      else
        let p = path_from_str name in
        if status = ''A'' then
          if p \<in> set (sc_added changes) then Inl InvalidGitOutput
          else name_status parts (changes\<lparr>sc_added := sc_added changes @ [p]\<rparr>)
        else if status = ''M'' then name_status parts (changes\<lparr>sc_modified := sc_modified changes + 1\<rparr>)
        else if status = ''D'' then name_status parts (changes\<lparr>sc_deleted := sc_deleted changes @ [p]\<rparr>)
        else Inl InvalidGitOutput)"

definition account_deletion ::
  "(path \<times> path) list \<Rightarrow> path \<Rightarrow> path list \<times> nat \<Rightarrow> git_transaction_error + path list \<times> nat" where
  "account_deletion final_moves source = (\<lambda>(added, modified).
     attempt (ok_or PhysicalDeletion (moved_file_destination source final_moves)) (\<lambda>destination.
       if destination = source \<or> destination \<notin> set added then Inl PhysicalDeletion
       else Inr (remove1 destination added, modified + 1)))"

definition staged_stats :: "applied_move list \<Rightarrow> string \<Rightarrow> git_transaction_error + file_stats" where
  "staged_stats moves output =
     attempt (reduce_moves moves) (\<lambda>final_moves.
     attempt (name_status (split_on (CHR 0x00) output) \<lparr>sc_added = [], sc_modified = 0, sc_deleted = []\<rparr>) (\<lambda>changes.
     attempt (try_fold (account_deletion final_moves) (sc_deleted changes) (sc_added changes, sc_modified changes)) (\<lambda>(added, modified).
       Inr \<lparr>fst_added = length added, fst_modified = modified, fst_deleted = 0\<rparr>)))"

section \<open>What the account of moves says\<close>

text \<open>Where a file ends up when the moves are made one after the other, and that no move goes to a place
  where the file is.\<close>

fun track :: "applied_move list \<Rightarrow> path \<Rightarrow> path" where
  "track [] p = p"
| "track (AppliedMove source destination # moves) p = track moves (relocate source destination p)"

fun clear_run :: "applied_move list \<Rightarrow> path \<Rightarrow> bool" where
  "clear_run [] p \<longleftrightarrow> True"
| "clear_run (AppliedMove source destination # moves) p \<longleftrightarrow>
     \<not> prefix destination p \<and> clear_run moves (relocate source destination p)"

definition move_paths :: "applied_move list \<Rightarrow> path set" where
  "move_paths moves = move_source ` set moves \<union> move_destination ` set moves"

text \<open>No path of a move is empty or lies below another.\<close>

definition separated :: "path set \<Rightarrow> bool" where
  "separated ps \<longleftrightarrow> [] \<notin> ps \<and> (\<forall>a \<in> ps. \<forall>b \<in> ps. prefix a b \<longrightarrow> a = b)"

lemma separated_same:
  assumes "separated ps" and "a \<in> ps" and "b \<in> ps" and "prefix a p" and "prefix b p"
  shows "a = b"
  using assms prefix_same_cases [OF assms(4,5)] by (auto simp: separated_def)

definition accounted_for :: "(path \<times> path) list \<Rightarrow> path \<Rightarrow> path \<Rightarrow> bool" where
  "accounted_for origins p cur \<longleftrightarrow>
     (\<exists>d origin. (d, origin) \<in> set origins \<and> prefix origin p \<and> cur = d @ drop (length origin) p) \<or>
     (\<forall>(d, origin) \<in> set origins. \<not> prefix origin p \<and> \<not> prefix d p) \<and> cur = p"

lemma reduce_step:
  assumes sep: "separated ps" and paths: "fst ` set origins \<union> snd ` set origins \<subseteq> ps" "s \<in> ps"
    and dist: "distinct (map fst origins)" and acc: "accounted_for origins p cur" and clear: "\<not> prefix d cur"
  shows "accounted_for ((d, case map_of origins s of Some origin \<Rightarrow> origin | None \<Rightarrow> s) # filter (\<lambda>(d, _). d \<noteq> s) origins)
    p (relocate s d cur)"
  using acc unfolding accounted_for_def
proof (elim disjE exE conjE, goal_cases)
  case (1 d0 o0)
  show ?case
  proof (cases "s = d0")
    case True
    then have "map_of origins s = Some o0" using 1 dist by simp
    with 1 True show ?thesis by (intro disjI1 exI [of _ d] exI [of _ o0]) (simp add: relocate_def)
  next
    case False
    have "\<not> prefix s cur"
    proof
      assume "prefix s cur"
      moreover have "prefix d0 cur" "d0 \<in> ps" using 1 paths(1) by force+
      ultimately show False using separated_same [OF sep paths(2)] False by blast
    qed
    with 1 False show ?thesis by (intro disjI1 exI [of _ d0] exI [of _ o0]) (auto simp: relocate_def)
  qed
next
  case 2
  show ?case
  proof (cases "prefix s p")
    case True
    have "s \<notin> fst ` set origins" using 2 True by force
    then have "map_of origins s = None" by (simp add: map_of_eq_None_iff)
    with 2 True show ?thesis by (intro disjI1 exI [of _ d] exI [of _ s]) (simp add: relocate_def)
  next
    case False
    have "\<not> prefix (case map_of origins s of Some origin \<Rightarrow> origin | None \<Rightarrow> s) p"
      using 2(1) False by (auto dest: map_of_SomeD split: option.split)
    with 2 False clear show ?thesis by (auto simp: relocate_def)
  qed
qed

lemma reduce_origins_accounts:
  assumes "reduce_origins moves origins = Inr final" and "separated ps" and "move_paths moves \<subseteq> ps"
    and "fst ` set origins \<union> snd ` set origins \<subseteq> ps" and "distinct (map fst origins)"
    and "accounted_for origins p cur" and "clear_run moves cur"
  shows "accounted_for final p (track moves cur) \<and> distinct (map fst final) \<and> snd ` set final \<subseteq> ps"
  using assms
proof (induction moves origins arbitrary: cur rule: reduce_origins.induct)
  case (2 s d moves origins)
  let ?o = "case map_of origins s of Some origin \<Rightarrow> origin | None \<Rightarrow> s"
  let ?others = "filter (\<lambda>(d, _). d \<noteq> s) origins"
  have none: "map_of ?others d = None" and run: "reduce_origins moves ((d, ?o) # ?others) = Inr final"
    using 2(2) by (auto simp: Let_def split: if_split_asm)
  have sd: "s \<in> ps" "d \<in> ps" "move_paths moves \<subseteq> ps" using 2(4) by (auto simp: move_paths_def)
  have o: "?o \<in> ps" using 2(5) sd(1) by (force dest: map_of_SomeD split: option.split)
  have d: "distinct (map fst ((d, ?o) # ?others))"
    using none 2(6) by (auto simp: map_of_eq_None_iff distinct_map_filter)
  have a: "accounted_for ((d, ?o) # ?others) p (relocate s d cur)"
    using 2(8) by (intro reduce_step [OF 2(3,5) sd(1) 2(6,7)]) simp
  have "accounted_for final p (track moves (relocate s d cur)) \<and> distinct (map fst final) \<and> snd ` set final \<subseteq> ps"
    by (rule 2(1) [OF refl refl _ run 2(3) sd(3) _ d a]) (use none 2(5,8) sd o in auto)
  then show ?case by simp
qed auto

lemma ancestor_paths_iff: "q \<in> set (ancestor_paths p) \<longleftrightarrow> prefix q p \<and> (q \<noteq> [] \<or> p = [] \<or> hd p \<noteq> ''/'')"
proof -
  have "q \<in> (\<lambda>i. take i p) ` {..<Suc (length p)} \<longleftrightarrow> prefix q p"
  proof
    assume "prefix q p"
    then show "q \<in> (\<lambda>i. take i p) ` {..<Suc (length p)}"
      by (intro image_eqI [of _ _ "length q"]) (auto simp: prefix_def)
  qed (auto simp: take_is_prefix)
  then show ?thesis by (auto simp: ancestor_paths_def lessThan_atLeast0 simp del: upt_Suc)
qed

lemma destination_of_origin:
  assumes "separated ps" and "snd ` set origins \<subseteq> ps" and "distinct (map snd origins)"
    and "(d, origin) \<in> set origins" and "prefix origin p"
  shows "moved_file_destination p (map (\<lambda>(d, origin). (origin, d)) origins) = Some (d @ drop (length origin) p)"
proof -
  let ?final = "map (\<lambda>(d, origin). (origin, d)) origins"
  have dist: "distinct (map fst ?final)" using assms(3) by (simp add: comp_def case_prod_unfold)
  then have final: "map_of ?final origin = Some d" using assms(4) by (intro map_of_is_SomeI) (auto intro!: bexI [of _ "(d, origin)"] simp: image_iff)
  have ne: "origin \<noteq> []" using assms(1,2,4) by (force simp: separated_def)
  have only: "candidate = origin" if "candidate \<in> set (ancestor_paths p)" "map_of ?final candidate \<noteq> None" for candidate
  proof -
    from that(2) have "candidate \<in> snd ` set origins" by (auto dest!: map_of_SomeD simp: rev_image_eqI)
    then have "candidate \<in> ps" "origin \<in> ps" using assms(2,4) by force+
    with separated_same [OF assms(1)] that(1) assms(5) show ?thesis by (auto simp: ancestor_paths_iff)
  qed
  have "origin \<in> set (ancestor_paths p)" using assms(5) ne by (simp add: ancestor_paths_iff)
  then obtain candidate where "find (\<lambda>candidate. map_of ?final candidate \<noteq> None) (ancestor_paths p) = Some candidate"
    using final by (cases "find (\<lambda>candidate. map_of ?final candidate \<noteq> None) (ancestor_paths p)") (auto simp: find_None_iff)
  moreover from this have "candidate \<in> set (ancestor_paths p)" "map_of ?final candidate \<noteq> None"
    by (auto simp: find_Some_iff)
  ultimately show ?thesis using only final by (simp add: moved_file_destination_def)
qed



lemma account_deletion_Inr_iff: "account_deletion final_moves source (added, modified) = Inr r \<longleftrightarrow>
  (\<exists>destination. moved_file_destination source final_moves = Some destination \<and> destination \<noteq> source \<and>
     destination \<in> set added \<and> r = (remove1 destination added, modified + 1))"
  by (auto simp: account_deletion_def ok_or_def split: option.split)

lemma account_deletions:
  assumes "try_fold (account_deletion final_moves) deleted (added, modified) = Inr (added', modified')" and "distinct added"
  shows "length added = length added' + length deleted \<and> modified' = modified + length deleted \<and>
    set added' \<subseteq> set added \<and> (\<forall>source \<in> set deleted. \<exists>destination.
      moved_file_destination source final_moves = Some destination \<and> destination \<noteq> source \<and> destination \<in> set added)"
  using assms
proof (induction deleted arbitrary: added modified)
  case (Cons source deleted)
  from Cons.prems(1) obtain destination where d: "moved_file_destination source final_moves = Some destination"
    "destination \<noteq> source" "destination \<in> set added"
    and rest: "try_fold (account_deletion final_moves) deleted (remove1 destination added, modified + 1) = Inr (added', modified')"
    by (auto simp: attempt_Inr_iff account_deletion_Inr_iff)
  have "length added = Suc (length (remove1 destination added))"
    using d(3) length_pos_if_in_set [OF d(3)] by (simp add: length_remove1)
  with Cons.IH [OF rest] Cons.prems(2) d show ?case by auto
qed simp

lemma name_status_distinct:
  "name_status parts changes = Inr changes' \<Longrightarrow> distinct (sc_added changes) \<Longrightarrow> distinct (sc_added changes')"
  by (induction parts changes rule: name_status.induct) (auto simp: Let_def split: if_split_asm)

text \<open>C16: nothing is deleted from the repository. Staged changes are counted only if every file that
  Git reports as deleted has a destination in the reduced moves which Git reports as added; each such
  pair then counts as one modification, and the count of deletions is zero.\<close>

theorem staged_deletions_are_moves:
  assumes "staged_stats moves output = Inr stats"
  shows "\<exists>final_moves changes. reduce_moves moves = Inr final_moves \<and>
    name_status (split_on (CHR 0x00) output) \<lparr>sc_added = [], sc_modified = 0, sc_deleted = []\<rparr> = Inr changes \<and>
    (\<forall>source \<in> set (sc_deleted changes). \<exists>destination. moved_file_destination source final_moves = Some destination \<and>
       destination \<noteq> source \<and> destination \<in> set (sc_added changes)) \<and>
    fst_deleted stats = 0 \<and> fst_added stats + length (sc_deleted changes) = length (sc_added changes) \<and>
    fst_modified stats = sc_modified changes + length (sc_deleted changes)"
proof -
  from assms obtain final_moves changes added modified where
    f: "reduce_moves moves = Inr final_moves"
    "name_status (split_on (CHR 0x00) output) \<lparr>sc_added = [], sc_modified = 0, sc_deleted = []\<rparr> = Inr changes"
    and a: "try_fold (account_deletion final_moves) (sc_deleted changes) (sc_added changes, sc_modified changes) = Inr (added, modified)"
    and s: "stats = \<lparr>fst_added = length added, fst_modified = modified, fst_deleted = 0\<rparr>"
    by (auto simp: staged_stats_def attempt_Inr_iff)
  have "distinct (sc_added changes)" using name_status_distinct [OF f(2)] by simp
  with account_deletions [OF a] f s show ?thesis by (intro exI [of _ final_moves] exI [of _ changes]) simp
qed

theorem staged_deletions_are_moves_witness:
  "\<exists>stats final_moves (changes :: staged_changes). staged_stats [AppliedMove [''a''] [''b'']] (concat (map (\<lambda>s. s @ [CHR 0x00]) [''D'', ''a/f'', ''A'', ''b/f''])) = Inr stats \<and>
     reduce_moves [AppliedMove [''a''] [''b'']] = Inr final_moves \<and>
     fst_added stats + length (sc_deleted changes) = length (sc_added changes) \<and> fst_modified stats = sc_modified changes + length (sc_deleted changes)"
proof -
  have run: "staged_stats [AppliedMove [''a''] [''b'']] (concat (map (\<lambda>s. s @ [CHR 0x00]) [''D'', ''a/f'', ''A'', ''b/f'']))
    = Inr \<lparr>fst_added = 0, fst_modified = 1, fst_deleted = 0\<rparr>"
    by code_simp
  obtain final_moves and changes :: staged_changes where
    "reduce_moves [AppliedMove [''a''] [''b'']] = Inr final_moves"
    "fst_added \<lparr>fst_added = 0, fst_modified = 1, fst_deleted = 0\<rparr> + length (sc_deleted changes) = length (sc_added changes)"
    "fst_modified \<lparr>fst_added = 0, fst_modified = 1, fst_deleted = 0\<rparr> = sc_modified changes + length (sc_deleted changes)"
    using staged_deletions_are_moves [OF run] by blast
  with run show ?thesis by blast
qed

end
