(* ===== verification/Git_Journal.thy ===== *)
theory Git_Journal
  imports Git_Commit Queue_Session
begin

text \<open>
  The journal of a repository transaction and the parsers of what Git prints, from
  \<open>crates/repository/src/git.rs\<close>. A journal is a file of the journal directory, named after
  its batch; it is replaced by renaming a complete new file over it. The theory shows that a journal
  reads back as it was written, that a valid terminal journal determines the outcome of its batch, in
  which every claim has exactly one result, and that the identifiers Git prints are read exactly.
\<close>

section \<open>What Git prints\<close>

text \<open>The bytes of a text, given by its characters.\<close>

definition utf8_char :: "nat \<Rightarrow> nat list" where
  "utf8_char c =
     (if c < 128 then [c]
      else if c < 2048 then [192 + c div 64, 128 + c mod 64]
      else if c < 65536 then [224 + c div 4096, 128 + c div 64 mod 64, 128 + c mod 64]
      else [240 + c div 262144, 128 + c div 4096 mod 64, 128 + c div 64 mod 64, 128 + c mod 64])"

definition string_of :: "nat list \<Rightarrow> string" where
  "string_of cs = map char_of (concat (map utf8_char cs))"

definition parse_text :: "string \<Rightarrow> git_transaction_error + string" where
  "parse_text output =
     (if \<not> is_utf8 output then Inl InvalidGitOutput
      else
        let cs = trim (chars output) in
        if cs = [] \<or> list_ex is_control cs then Inl InvalidGitOutput else Inr (string_of cs))"

definition valid_object_id :: "string \<Rightarrow> bool" where
  "valid_object_id s \<longleftrightarrow> length s \<in> {40, 64} \<and>
     list_all (\<lambda>c. is_ascii_digit c \<or> CHR ''a'' \<le> c \<and> c \<le> CHR ''f'') s"

definition parse_object_id :: "string \<Rightarrow> git_transaction_error + string" where
  "parse_object_id output =
     attempt (parse_text output) (\<lambda>s. if valid_object_id s then Inr s else Inl InvalidGitOutput)"

fun ascii_words :: "string \<Rightarrow> string \<Rightarrow> string list" where
  "ascii_words word [] = (if word = [] then [] else [word])"
| "ascii_words word (c # s) =
     (if code c \<in> {9, 10, 12, 13, 32} then (if word = [] then [] else [word]) @ ascii_words [] s
      else ascii_words (word @ [c]) s)"

definition split_ascii_whitespace :: "string \<Rightarrow> string list" where
  "split_ascii_whitespace s = ascii_words [] s"

section \<open>Journals\<close>

definition MAXIMUM_JOURNAL_BYTES :: nat where
  "MAXIMUM_JOURNAL_BYTES = 1024 * 1024"

definition PREVIOUS_JOURNAL_SCHEMA_VERSION :: nat where
  "PREVIOUS_JOURNAL_SCHEMA_VERSION = 2"

definition JOURNAL_SCHEMA_VERSION :: nat where
  "JOURNAL_SCHEMA_VERSION = 3"

record journal_claim =
  jc_request_id :: request_id
  jc_attempt :: nat
  jc_acceptance_sequence :: nat

record journal_failure =
  jf_request_id :: request_id
  jf_error_code :: error_code

datatype journal_state =
    Preparing
  | NoChanges "journal_failure list"
  | Committed string "request_id list" "journal_failure list" bool

record transaction_journal =
  tj_schema_version :: nat
  tj_batch_id :: batch_id
  tj_queue_identity :: revision
  tj_base_commit :: string
  tj_claims :: "journal_claim list"
  tj_claim_failures :: nat
  tj_state :: journal_state

record previous_transaction_journal =
  pj_schema_version :: nat
  pj_batch_id :: batch_id
  pj_queue_identity :: revision
  pj_base_commit :: string
  pj_claims :: "journal_claim list"
  pj_state :: journal_state

datatype stored_transaction_journal =
    CurrentJournal transaction_journal
  | PreviousJournal previous_transaction_journal

text \<open>\<open>serde_json\<close> on journals.\<close>

record journal_codec =
  jx_from_json :: "string \<Rightarrow> string + stored_transaction_journal"
  jx_to_json :: "transaction_journal \<Rightarrow> string + string"

record request_failure =
  rf_token :: claim_token
  rf_error_code :: error_code

datatype batch_commit_outcome =
    OutcomeNoChanges "request_failure list"
  | OutcomeCommitted string "claim_token list" "request_failure list"

definition journal_claims :: "claimed_package list \<Rightarrow> journal_claim list" where
  "journal_claims claims =
     map (\<lambda>claim. \<lparr>jc_request_id = ct_request_id (cp_token claim), jc_attempt = ct_attempt (cp_token claim),
        jc_acceptance_sequence = (case vp_acceptance (cp_package claim) of None \<Rightarrow> 0 | Some acceptance \<Rightarrow> am_sequence acceptance)\<rparr>)
       claims"

fun windows_ascending :: "journal_claim list \<Rightarrow> bool" where
  "windows_ascending (a # b # claims) \<longleftrightarrow>
     jc_acceptance_sequence a < jc_acceptance_sequence b \<and> windows_ascending (b # claims)"
| "windows_ascending _ \<longleftrightarrow> True"

text \<open>The part of \<open>validate_journal_structure\<close> that relates outcomes to claims.\<close>

definition outcomes_match ::
  "journal_claim list \<Rightarrow> request_id list \<Rightarrow> journal_failure list \<Rightarrow> git_transaction_error + unit" where
  "outcomes_match claims successful failures =
     (let outcomes = successful @ map jf_request_id failures in
      if \<not> distinct outcomes \<or> card (set (map jc_request_id claims)) \<noteq> length claims \<or>
         set outcomes \<noteq> set (map jc_request_id claims)
      then Inl JournalMismatch else Inr ())"

definition validate_journal_structure :: "transaction_journal \<Rightarrow> batch_id \<Rightarrow> git_transaction_error + unit" where
  "validate_journal_structure journal batch_id =
     (if tj_schema_version journal \<noteq> JOURNAL_SCHEMA_VERSION \<or> tj_batch_id journal \<noteq> batch_id \<or>
         \<not> valid_object_id (tj_base_commit journal) \<or>
         list_ex (\<lambda>claim. jc_attempt claim = 0 \<or> jc_acceptance_sequence claim = 0) (tj_claims journal) \<or>
         \<not> windows_ascending (tj_claims journal)
      then Inl JournalMismatch
      else case tj_state journal of
        Preparing \<Rightarrow> Inr ()
      | NoChanges failures \<Rightarrow> outcomes_match (tj_claims journal) [] failures
      | Committed commit successful failures _ \<Rightarrow>
          if \<not> valid_object_id commit then Inl JournalMismatch
          else outcomes_match (tj_claims journal) successful failures)"

definition validate_journal_claims :: "transaction_journal \<Rightarrow> claimed_package list \<Rightarrow> git_transaction_error + unit" where
  "validate_journal_claims journal claims =
     (if tj_claims journal = journal_claims claims then Inr () else Inl JournalMismatch)"

definition journal_token :: "transaction_journal \<Rightarrow> request_id \<Rightarrow> git_transaction_error + claim_token" where
  "journal_token journal request_id =
     attempt (ok_or JournalMismatch (find (\<lambda>claim. jc_request_id claim = request_id) (tj_claims journal))) (\<lambda>claim.
       if jc_attempt claim = 0 then Inl JournalMismatch
       else Inr \<lparr>ct_request_id = request_id, ct_batch_id = tj_batch_id journal, ct_attempt = jc_attempt claim\<rparr>)"

definition journal_failures ::
  "transaction_journal \<Rightarrow> journal_failure list \<Rightarrow> git_transaction_error + request_failure list" where
  "journal_failures journal failures =
     try_map (\<lambda>failure. attempt (journal_token journal (jf_request_id failure)) (\<lambda>token.
       Inr \<lparr>rf_token = token, rf_error_code = jf_error_code failure\<rparr>)) failures"

text \<open>In a journal without changes the list of successful requests is empty, so that the last branch
  of the source is not reached.\<close>

definition outcome_from_journal :: "transaction_journal \<Rightarrow> git_transaction_error + batch_commit_outcome" where
  "outcome_from_journal journal =
     (case tj_state journal of
        Preparing \<Rightarrow> Inl InvalidJournalState
      | NoChanges failures \<Rightarrow>
          attempt (journal_failures journal failures) (\<lambda>failures. Inr (OutcomeNoChanges failures))
      | Committed commit successful failures _ \<Rightarrow>
          attempt (try_map (journal_token journal) successful) (\<lambda>successful.
          attempt (journal_failures journal failures) (\<lambda>failures.
            Inr (OutcomeCommitted commit successful failures))))"

fun outcome_parts :: "batch_commit_outcome \<Rightarrow> string option \<times> claim_token list \<times> (claim_token \<times> error_code) list" where
  "outcome_parts (OutcomeNoChanges failures) = (None, [], map (\<lambda>f. (rf_token f, rf_error_code f)) failures)"
| "outcome_parts (OutcomeCommitted commit successful failures) =
     (Some commit, successful, map (\<lambda>f. (rf_token f, rf_error_code f)) failures)"

definition decode_journal :: "journal_codec \<Rightarrow> string \<Rightarrow> git_transaction_error + transaction_journal" where
  "decode_journal jx bytes =
     attempt (map_err (\<lambda>_. InvalidJournal) (jx_from_json jx bytes)) (\<lambda>stored.
       case stored of
         CurrentJournal journal \<Rightarrow>
           if tj_schema_version journal = JOURNAL_SCHEMA_VERSION then Inr journal else Inl InvalidJournal
       | PreviousJournal journal \<Rightarrow>
           if pj_schema_version journal = PREVIOUS_JOURNAL_SCHEMA_VERSION
           then Inr \<lparr>tj_schema_version = JOURNAL_SCHEMA_VERSION, tj_batch_id = pj_batch_id journal,
             tj_queue_identity = pj_queue_identity journal, tj_base_commit = pj_base_commit journal,
             tj_claims = pj_claims journal, tj_claim_failures = 0, tj_state = pj_state journal\<rparr>
           else Inl InvalidJournal)"

definition read_journal :: "journal_codec \<Rightarrow> path \<Rightarrow> fs \<Rightarrow> git_transaction_error + transaction_journal option" where
  "read_journal jx path fs =
     (case symlink_metadata fs path of
        Inl NotFound \<Rightarrow> Inr None
      | Inl e \<Rightarrow> Inl (GitIo e)
      | Inr (File bytes _ _) \<Rightarrow>
          if length bytes > MAXIMUM_JOURNAL_BYTES then Inl InvalidJournal
          else attempt (decode_journal jx bytes) (\<lambda>journal. Inr (Some journal))
      | Inr _ \<Rightarrow> Inl InvalidJournal)"

definition sync_dir :: "path \<Rightarrow> fs \<Rightarrow> git_transaction_error + unit" where
  "sync_dir path fs = attempt (map_err GitIo (symlink_metadata fs path)) (\<lambda>_. Inr ())"

definition write_journal ::
  "(ulid \<Rightarrow> string) \<Rightarrow> journal_codec \<Rightarrow> ulid \<Rightarrow> path \<Rightarrow> transaction_journal \<Rightarrow> (git_transaction_error, unit) action" where
  "write_journal show_id jx fresh path journal =
     (let temporary = butlast path @ [''.journal-'' @ show_id fresh @ ''.tmp''] in
     andthen (observe (\<lambda>_. map_err (\<lambda>_. InvalidJournal) (jx_to_json jx journal))) (\<lambda>encoded.
     let bytes = encoded @ [lf] in
     andthen (reject_if (length bytes > MAXIMUM_JOURNAL_BYTES) InvalidJournal) (\<lambda>_.
       or_cleanup (ignoring (remove_file temporary))
         (andthen (perform GitIo (create_new temporary bytes)) (\<lambda>_.
          andthen (perform GitIo (rename temporary path)) (\<lambda>_.
            observe (sync_dir (butlast path))))))))"

definition remove_journal :: "path \<Rightarrow> (git_transaction_error, unit) action" where
  "remove_journal path =
     andthen (perform GitIo (remove_file path)) (\<lambda>_. observe (sync_dir (butlast path)))"

section \<open>Identifiers read back\<close>

lemma object_id_chars: "valid_object_id s \<Longrightarrow> c \<in> set s \<Longrightarrow> 32 < code c \<and> code c < 127"
  by (auto simp: valid_object_id_def list_all_iff is_ascii_digit_def less_eq_char_def code_def)

lemma string_of_ascii: "list_all (\<lambda>c. code c < 128) s \<Longrightarrow> string_of (map code s) = s"
  by (induction s) (auto simp: string_of_def utf8_char_def code_def)

lemma trim_line:
  assumes "s \<noteq> []" and "\<And>c. c \<in> set s \<Longrightarrow> 32 < code c \<and> code c < 127"
  shows "is_utf8 (s @ [lf])" and "trim (chars (s @ [lf])) = map code s"
proof -
  have a: "is_ascii (s @ [lf])" using assms(2) by (fastforce simp: is_ascii_def list_all_iff code_def)
  then show "is_utf8 (s @ [lf])" by (rule ascii_is_utf8)
  have black: "\<not> is_whitespace (code c)" if "c \<in> set s" for c
    using assms(2) [OF that] by (auto simp: is_whitespace_def)
  have "dropWhile is_whitespace (map code (s @ [lf])) = map code (s @ [lf])"
    using black assms(1) by (cases s) auto
  moreover have "dropWhile is_whitespace (rev (map code (s @ [lf]))) = rev (map code s)"
    using black assms(1) by (cases s rule: rev_cases) (auto simp: is_whitespace_def code_def)
  ultimately show "trim (chars (s @ [lf])) = map code s" using ascii_chars [OF a] by (simp add: trim_def)
qed

lemma parse_object_id_line:
  assumes "valid_object_id s"
  shows "parse_object_id (s @ [lf]) = Inr s"
proof -
  note c = object_id_chars [OF assms]
  have ne: "s \<noteq> []" using assms by (auto simp: valid_object_id_def)
  have "\<not> is_control (code c)" if "c \<in> set s" for c using c [OF that] by (auto simp: is_control_def)
  moreover have "string_of (map code s) = s"
    using c by (intro string_of_ascii) (fastforce simp: list_all_iff)
  ultimately show ?thesis
    using trim_line [OF ne c] ne assms by (simp add: parse_object_id_def parse_text_def Let_def list_ex_iff)
qed

section \<open>Outcomes\<close>

lemma find_claim:
  assumes "distinct (map jc_request_id claims)" and "claim \<in> set claims"
  shows "find (\<lambda>c. jc_request_id c = jc_request_id claim) claims = Some claim"
  using assms by (induction claims) auto

text \<open>The token of a claim that the journal lists.\<close>

definition claimed_token :: "batch_id \<Rightarrow> journal_claim \<Rightarrow> claim_token" where
  "claimed_token batch_id claim =
     \<lparr>ct_request_id = jc_request_id claim, ct_batch_id = batch_id, ct_attempt = jc_attempt claim\<rparr>"

lemma journal_token_of_claim:
  assumes "distinct (map jc_request_id (tj_claims j))" and "claim \<in> set (tj_claims j)" and "jc_attempt claim \<noteq> 0"
  shows "journal_token j (jc_request_id claim) = Inr (claimed_token (tj_batch_id j) claim)"
  using find_claim [OF assms(1,2)] assms(3) by (simp add: journal_token_def ok_or_def claimed_token_def)

lemma journal_tokens:
  assumes "distinct (map jc_request_id (tj_claims j))" and "list_all (\<lambda>c. jc_attempt c \<noteq> 0) (tj_claims j)"
    and "set ids \<subseteq> jc_request_id ` set (tj_claims j)"
  shows "\<exists>tokens. try_map (journal_token j) ids = Inr tokens \<and> map ct_request_id tokens = ids \<and>
    set tokens \<subseteq> claimed_token (tj_batch_id j) ` set (tj_claims j)"
  using assms(3)
proof (induction ids)
  case (Cons i ids)
  then obtain tokens where t: "try_map (journal_token j) ids = Inr tokens" "map ct_request_id tokens = ids"
    "set tokens \<subseteq> claimed_token (tj_batch_id j) ` set (tj_claims j)" by auto
  from Cons.prems obtain claim where c: "claim \<in> set (tj_claims j)" "i = jc_request_id claim" by auto
  with assms(2) have "journal_token j i = Inr (claimed_token (tj_batch_id j) claim)"
    using journal_token_of_claim [OF assms(1) c(1)] by (auto simp: list_all_iff)
  with t c show ?case by (auto simp: claimed_token_def)
qed simp

lemma journal_failures_tokens:
  "journal_failures j fs = attempt (try_map (journal_token j) (map jf_request_id fs)) (\<lambda>tokens.
     Inr (map2 (\<lambda>token f. \<lparr>rf_token = token, rf_error_code = jf_error_code f\<rparr>) tokens fs))"
proof (induction fs)
  case (Cons f fs)
  then show ?case
    by (cases "journal_token j (jf_request_id f)"; cases "try_map (journal_token j) (map jf_request_id fs)")
      (auto simp: journal_failures_def)
qed (simp add: journal_failures_def)

lemma tokens_exact:
  assumes "distinct (map jc_request_id claims)" and "set tokens \<subseteq> claimed_token b ` set claims"
    and "set (map ct_request_id tokens) = jc_request_id ` set claims"
  shows "set tokens = claimed_token b ` set claims"
proof
  show "claimed_token b ` set claims \<subseteq> set tokens"
  proof
    fix t
    assume "t \<in> claimed_token b ` set claims"
    then obtain c where c: "c \<in> set claims" "t = claimed_token b c" by blast
    with assms(3) obtain u where u: "u \<in> set tokens" "ct_request_id u = jc_request_id c"
      by (metis (no_types, lifting) image_eqI image_iff set_map)
    with assms(2) obtain d where "d \<in> set claims" "u = claimed_token b d" by blast
    with assms(1) c u have "d = c" by (auto simp: claimed_token_def distinct_map dest: inj_onD)
    with u c \<open>u = claimed_token b d\<close> show "t \<in> set tokens" by simp
  qed
qed (rule assms(2))

lemma outcomes_match_Inr_iff: "outcomes_match claims successful failures = Inr () \<longleftrightarrow>
  distinct (successful @ map jf_request_id failures) \<and> distinct (map jc_request_id claims) \<and>
  set (successful @ map jf_request_id failures) = jc_request_id ` set claims"
  using distinct_card [of "map jc_request_id claims"] card_distinct [of "map jc_request_id claims"]
  by (auto simp: outcomes_match_def Let_def)

lemma matched_tokens:
  assumes "outcomes_match (tj_claims j) successful failures = Inr ()" and "list_all (\<lambda>c. jc_attempt c \<noteq> 0) (tj_claims j)"
  shows "\<exists>ts fs. try_map (journal_token j) successful = Inr ts \<and> journal_failures j failures = Inr fs \<and>
    map rf_error_code fs = map jf_error_code failures \<and>
    distinct (ts @ map rf_token fs) \<and> map ct_request_id ts = successful \<and>
    map (ct_request_id \<circ> rf_token) fs = map jf_request_id failures \<and>
    set (ts @ map rf_token fs) = claimed_token (tj_batch_id j) ` set (tj_claims j)"
proof -
  from assms(1) have m: "distinct (successful @ map jf_request_id failures)" "distinct (map jc_request_id (tj_claims j))"
    "set (successful @ map jf_request_id failures) = jc_request_id ` set (tj_claims j)"
    by (simp_all only: outcomes_match_Inr_iff)
  from m(3) have sub: "set successful \<subseteq> jc_request_id ` set (tj_claims j)"
    "set (map jf_request_id failures) \<subseteq> jc_request_id ` set (tj_claims j)" by auto
  obtain ts where ts: "try_map (journal_token j) successful = Inr ts" "map ct_request_id ts = successful"
    "set ts \<subseteq> claimed_token (tj_batch_id j) ` set (tj_claims j)"
    using journal_tokens [OF m(2) assms(2) sub(1)] by blast
  obtain us where us: "try_map (journal_token j) (map jf_request_id failures) = Inr us"
    "map ct_request_id us = map jf_request_id failures" "set us \<subseteq> claimed_token (tj_batch_id j) ` set (tj_claims j)"
    using journal_tokens [OF m(2) assms(2) sub(2)] by blast
  let ?fs = "map2 (\<lambda>token f. \<lparr>rf_token = token, rf_error_code = jf_error_code f\<rparr>) us failures"
  have len: "length us = length failures" using us(2) by (metis length_map)
  then have fs: "map rf_token ?fs = us" "map rf_error_code ?fs = map jf_error_code failures"
    by (induction us failures rule: list_induct2) auto
  have ids: "map ct_request_id (ts @ us) = successful @ map jf_request_id failures" using ts us by simp
  have d: "distinct (ts @ us)" using m(1) ids by (metis distinct_map)
  have s: "set (ts @ us) = claimed_token (tj_batch_id j) ` set (tj_claims j)"
    using ts(3) us(3) m(3) ids by (intro tokens_exact [OF m(2)]) simp_all
  have "journal_failures j failures = Inr ?fs" by (simp add: journal_failures_tokens us(1))
  with ts fs us(2) d s show ?thesis by (intro exI [of _ ts] exI [of _ ?fs]) (auto simp flip: map_map)
qed

lemma valid_structure_facts:
  assumes "validate_journal_structure j batch_id = Inr ()"
  shows "tj_batch_id j = batch_id" and "valid_object_id (tj_base_commit j)"
    and "list_all (\<lambda>c. jc_attempt c \<noteq> 0) (tj_claims j)"
    and "tj_state j = NoChanges failures \<Longrightarrow> outcomes_match (tj_claims j) [] failures = Inr ()"
    and "tj_state j = Committed commit successful failures started \<Longrightarrow>
      valid_object_id commit \<and> outcomes_match (tj_claims j) successful failures = Inr ()"
  using assms by (auto simp: validate_journal_structure_def list_all_iff list_ex_iff split: if_split_asm)

lemma valid_terminal_outcome:
  assumes "validate_journal_structure j batch_id = Inr ()" and "tj_state j \<noteq> Preparing"
  shows "\<exists>outcome commit successful failures. outcome_from_journal j = Inr outcome \<and>
    outcome_parts outcome = (commit, successful, failures) \<and>
    distinct (successful @ map fst failures) \<and>
    set (successful @ map fst failures) = claimed_token batch_id ` set (tj_claims j)"
proof (cases "tj_state j")
  case (NoChanges failures)
  from matched_tokens [OF valid_structure_facts(4) [OF assms(1) NoChanges] valid_structure_facts(3) [OF assms(1)]]
  obtain fs where "journal_failures j failures = Inr fs" "distinct (map rf_token fs)"
    "set (map rf_token fs) = claimed_token (tj_batch_id j) ` set (tj_claims j)"
    by auto
  with NoChanges valid_structure_facts(1) [OF assms(1)] show ?thesis
    by (intro exI [of _ "OutcomeNoChanges fs"]) (simp add: outcome_from_journal_def comp_def image_image)
next
  case (Committed commit successful failures started)
  from matched_tokens [OF conjunct2 [OF valid_structure_facts(5) [OF assms(1) Committed]] valid_structure_facts(3) [OF assms(1)]]
  obtain ts fs where "try_map (journal_token j) successful = Inr ts" "journal_failures j failures = Inr fs"
    "distinct (ts @ map rf_token fs)" "set (ts @ map rf_token fs) = claimed_token (tj_batch_id j) ` set (tj_claims j)"
    by blast
  with Committed valid_structure_facts(1) [OF assms(1)] show ?thesis
    by (intro exI [of _ "OutcomeCommitted commit ts fs"]) (simp add: outcome_from_journal_def comp_def image_image)
qed (use assms in simp)

section \<open>Journal files\<close>

text \<open>What \<open>serde_json\<close> wrote reads back.\<close>

definition journal_codec_ok :: "journal_codec \<Rightarrow> bool" where
  "journal_codec_ok jx \<longleftrightarrow>
     (\<forall>journal bytes. jx_to_json jx journal = Inr bytes \<longrightarrow> jx_from_json jx (bytes @ [lf]) = Inr (CurrentJournal journal))"

lemma read_journal_of_file:
  assumes "wf_fs fs" and "lookup fs p = Some (File bytes m l)" and "length bytes \<le> MAXIMUM_JOURNAL_BYTES"
    and "decode_journal jx bytes = Inr journal"
  shows "read_journal jx p fs = Inr (Some journal)"
  using assms symlink_metadata_ok_iff [OF assms(1), of p "File bytes m l"] by (simp add: read_journal_def)

lemma journal_names_differ: "[a @ ''.json''] \<noteq> [b @ ''.tmp'']"
proof
  assume "[a @ ''.json''] = [b @ ''.tmp'']"
  then have "last (a @ ''.json'') = last (b @ ''.tmp'')" by simp
  then show False by simp
qed

lemma ignoring_remove_file:
  assumes "wf_fs fs"
  shows "wf_fs (ignoring (remove_file p) fs)" and "q \<noteq> p \<Longrightarrow> lookup (ignoring (remove_file p) fs) q = lookup fs q"
  using assms remove_file_step.run_wf [OF assms, of p] remove_file_step.run_frame [OF assms, of p _ q]
  by (auto simp: ignoring_def split: sum.split)

lemma replace_is_atomic:
  assumes wf: "wf_fs fs" and ab: "a \<noteq> b"
    and run: "or_cleanup (ignoring (remove_file [a])) (andthen (perform GitIo (create_new [a] bytes)) (\<lambda>_.
       andthen (perform GitIo (rename [a] [b])) (\<lambda>_. observe (sync_dir [])))) fs = (r, fs')"
  shows "wf_fs fs' \<and> (\<forall>n. n \<noteq> a \<longrightarrow> n \<noteq> b \<longrightarrow> lookup fs' [n] = lookup fs [n]) \<and>
    (r = Inr () \<and> lookup fs' [b] = Some (new_file bytes) \<or> r \<noteq> Inr () \<and> lookup fs' [b] = lookup fs [b])"
proof (cases "create_new [a] bytes fs")
  case (Inl e)
  then show ?thesis using run ab
    by (auto simp: or_cleanup_def andthen_def perform_def ignoring_remove_file [OF wf])
next
  case created: (Inr fs1)
  note wf1 = create_new_step.run_wf [OF wf created] and t1 = create_new_lookup [OF created]
  have l1: "lookup fs1 [n] = lookup fs [n]" if "n \<noteq> a" for n
    using create_new_step.run_frame [OF wf created, of "[n]"] that by simp
  show ?thesis
  proof (cases "rename [a] [b] fs1")
    case (Inl e)
    then show ?thesis using run created ab l1
      by (auto simp: or_cleanup_def andthen_def perform_def ignoring_remove_file [OF wf1])
  next
    case renamed: (Inr fs2)
    note wf2 = rename_step.run_wf [OF wf1 renamed]
    have l2: "lookup fs2 [n] = lookup fs1 [n]" if "n \<noteq> a" "n \<noteq> b" for n
      using that by (intro rename_step.run_frame [OF wf1 renamed]) (auto simp: prefix_Cons)
    have p2: "lookup fs2 [b] = Some (new_file bytes)"
      using lookup_rename [OF renamed wf1, of "[b]"] ab t1 by simp
    have "sync_dir [] fs2 = Inr ()"
      using symlink_metadata_ok_iff [OF wf2, of "[]" Dir] wf_fs_root [OF wf2] by (simp add: sync_dir_def)
    then have "r = Inr ()" "fs' = fs2"
      using run created renamed by (auto simp: or_cleanup_def andthen_def perform_def observe_def)
    then show ?thesis using wf2 p2 l2 l1 by auto
  qed
qed

text \<open>Replacing a journal is atomic: the file has its old content or all of the new one, no other
  journal changes, and after success it is the new one.\<close>

lemma write_journal_file:
  assumes wf: "wf_fs fs" and run: "write_journal show_id jx fresh [name @ ''.json''] journal fs = (r, fs')"
  shows "wf_fs fs' \<and> (\<forall>n. suffix ''.json'' n \<longrightarrow> n \<noteq> name @ ''.json'' \<longrightarrow> lookup fs' [n] = lookup fs [n]) \<and>
    (r = Inr () \<and> (\<exists>bytes. jx_to_json jx journal = Inr bytes \<and> length bytes < MAXIMUM_JOURNAL_BYTES \<and>
       lookup fs' [name @ ''.json''] = Some (new_file (bytes @ [lf]))) \<or>
     r \<noteq> Inr () \<and> lookup fs' [name @ ''.json''] = lookup fs [name @ ''.json''])"
proof -
  define t where "t = ''.journal-'' @ show_id fresh @ ''.tmp''"
  have other: "n \<noteq> t" if "suffix ''.json'' n" for n
    using that journal_names_differ [of _ "''.journal-'' @ show_id fresh"] by (auto simp: suffix_def t_def)
  consider (refused) "r \<noteq> Inr ()" "fs' = fs" | (ran) bytes where "jx_to_json jx journal = Inr bytes"
    "length bytes < MAXIMUM_JOURNAL_BYTES" "or_cleanup (ignoring (remove_file [t])) (andthen (perform GitIo (create_new [t] (bytes @ [lf]))) (\<lambda>_.
     andthen (perform GitIo (rename [t] [name @ ''.json''])) (\<lambda>_. observe (sync_dir [])))) fs = (r, fs')"
    using run by (cases "jx_to_json jx journal")
      (auto simp: write_journal_def andthen_def observe_def reject_if_def Let_def t_def split: if_split_asm)
  then show ?thesis
  proof cases
    case (ran bytes)
    have "t \<noteq> name @ ''.json''" using other [of "name @ ''.json''"] by (simp add: suffix_def)
    from replace_is_atomic [OF wf this ran(3)] other ran(1,2) show ?thesis by auto
  qed (use wf in simp)
qed

lemma write_journal_reads:
  assumes wf: "wf_fs fs" and codec: "journal_codec_ok jx" and version: "tj_schema_version journal = JOURNAL_SCHEMA_VERSION"
    and run: "write_journal show_id jx fresh [name @ ''.json''] journal fs = (Inr (), fs')"
  shows "wf_fs fs'" and "read_journal jx [name @ ''.json''] fs' = Inr (Some journal)"
proof -
  note f = write_journal_file [OF wf run]
  show "wf_fs fs'" using f by simp
  from f obtain bytes where b: "jx_to_json jx journal = Inr bytes" "length bytes < MAXIMUM_JOURNAL_BYTES"
    "lookup fs' [name @ ''.json''] = Some (new_file (bytes @ [lf]))" by auto
  have "decode_journal jx (bytes @ [lf]) = Inr journal"
    using codec b(1) version by (simp add: decode_journal_def journal_codec_ok_def)
  with f b show "read_journal jx [name @ ''.json''] fs' = Inr (Some journal)"
    by (auto simp: new_file_def intro: read_journal_of_file)
qed

end
