(* ===== verification/Git_Transaction.thy ===== *)
theory Git_Transaction
  imports Git_Journal
begin

text \<open>
  The repository transaction of \<open>crates/repository/src/git.rs\<close>: how a claimed batch becomes
  one commit on the official branch. The state is what Git keeps, the tree of the batch worktrees,
  the tree of the canonical worktree and the tree of the journals. Git is an argument: a function
  from a call to its output and the new state. It is given the worktrees, so that it may change
  them, and not the journals, which lie outside every repository. Every operation of the source is a
  step on this state, so that an operation that stops leaves behind exactly what it had done.
\<close>

section \<open>Git and the state it works on\<close>

record git_output =
  go_success :: bool
  go_code :: "nat option"
  go_stdout :: string
  go_stderr :: string

record git_call =
  gc_environment :: "(string \<times> string) option"
  gc_options :: "string list"
  gc_arguments :: "string list"
  gc_input :: string

record 'g git_files =
  gf_git :: 'g
  gf_worktrees :: fs
  gf_canonical :: fs

record ('g, 'x) repo_world =
  rw_files :: "'g git_files"
  rw_journals :: fs
  rw_outside :: 'x

record git_identity =
  gi_name :: string
  gi_email :: string

record git_repository =
  gr_git_directory :: string
  gr_canonical_worktree :: string
  gr_worktree_root :: string
  gr_official_ref :: string
  gr_identity :: git_identity

text \<open>The code outside the model: the Git executable, the checks that the directories are still the
  ones that were opened, the lock on the canonical worktree, \<open>serde_json\<close> and the clocks of the
  content scans.\<close>

record 'g git_externals =
  gx_run :: "git_call \<Rightarrow> 'g git_files \<Rightarrow> (io_error + git_output) \<times> 'g git_files"
  gx_live_storage :: "'g git_files \<Rightarrow> fs \<Rightarrow> git_transaction_error + unit"
  gx_canonical_lock :: "io_error + unit"
  gx_canonicalize :: "string \<Rightarrow> 'g git_files \<Rightarrow> io_error + string"
  gx_journal :: journal_codec
  gx_before :: "request_id \<Rightarrow> scan_point \<Rightarrow> nat"
  gx_after :: "request_id \<Rightarrow> scan_point \<Rightarrow> nat"

text \<open>The Worker session a transaction works for, with the queue it holds.\<close>

record transaction_worker =
  tw_externals :: worker_externals
  tw_queue :: file_queue
  tw_session :: worker_session
  tw_tree :: fs

type_synonym ('g, 'x, 'a) transaction = "(('g, 'x) repo_world, git_transaction_error, 'a) step"

definition with_journals :: "(git_transaction_error, 'a) action \<Rightarrow> ('g, 'x, 'a) transaction" where
  "with_journals m w = (case m (rw_journals w) of (r, fs') \<Rightarrow> (r, w\<lparr>rw_journals := fs'\<rparr>))"

definition with_files :: "('g git_files \<Rightarrow> (git_transaction_error + 'a) \<times> 'g git_files) \<Rightarrow> ('g, 'x, 'a) transaction" where
  "with_files m w = (case m (rw_files w) of (r, files') \<Rightarrow> (r, w\<lparr>rw_files := files'\<rparr>))"

definition with_worktrees :: "(git_transaction_error, 'a) action \<Rightarrow> ('g, 'x, 'a) transaction" where
  "with_worktrees m = with_files (\<lambda>files. case m (gf_worktrees files) of (r, fs') \<Rightarrow> (r, files\<lparr>gf_worktrees := fs'\<rparr>))"

text \<open>The callbacks a caller gives to a transaction work on the batch worktrees and on what lies outside the
  repository: a release store, for one.\<close>

type_synonym ('x, 'a) callback = "(fs \<times> 'x, git_transaction_error, 'a) step"

definition with_callback :: "('x, 'a) callback \<Rightarrow> ('g, 'x, 'a) transaction" where
  "with_callback m w = (case m (gf_worktrees (rw_files w), rw_outside w) of (r, fs', x') \<Rightarrow>
     (r, w\<lparr>rw_files := (rw_files w)\<lparr>gf_worktrees := fs'\<rparr>, rw_outside := x'\<rparr>))"

definition live_storage :: "'g git_externals \<Rightarrow> ('g, 'x) repo_world \<Rightarrow> git_transaction_error + unit" where
  "live_storage gx w = gx_live_storage gx (rw_files w) (rw_journals w)"

section \<open>Running Git\<close>

definition MAXIMUM_DIAGNOSTIC_BYTES :: nat where
  "MAXIMUM_DIAGNOSTIC_BYTES = 8 * 1024"

definition diagnostic :: "string \<Rightarrow> string" where
  "diagnostic stderr = take MAXIMUM_DIAGNOSTIC_BYTES stderr"

definition git_directory_argument :: "string \<Rightarrow> string" where
  "git_directory_argument git_directory = ''--git-dir='' @ git_directory"

definition add_safe_directory :: "string \<Rightarrow> string list" where
  "add_safe_directory directory = [''-c'', ''safe.directory='' @ directory]"

definition select_working_directory :: "string \<Rightarrow> string list" where
  "select_working_directory working_directory = add_safe_directory working_directory @ [''-C'', working_directory]"

definition select_git_directory :: "string \<Rightarrow> string list" where
  "select_git_directory git_directory = add_safe_directory git_directory @ [git_directory_argument git_directory]"

text \<open>One process, and its exit status turned into an error.\<close>

definition git_process :: "'g git_externals \<Rightarrow> git_call \<Rightarrow> ('g, 'x, git_output) transaction" where
  "git_process gx call = with_files (\<lambda>files. case gx_run gx call files of (r, files') \<Rightarrow> (map_err GitIo r, files'))"

definition run_git_with_input_and_environment ::
  "'g git_externals \<Rightarrow> string option \<Rightarrow> string option \<Rightarrow> string list \<Rightarrow> string \<Rightarrow> (string \<times> string) option \<Rightarrow>
   ('g, 'x, git_output) transaction" where
  "run_git_with_input_and_environment gx working_directory git_directory arguments input environment =
     andthen (git_process gx \<lparr>gc_environment = environment,
         gc_options = (case working_directory of None \<Rightarrow> [] | Some d \<Rightarrow> select_working_directory d) @
           (case git_directory of None \<Rightarrow> [] | Some d \<Rightarrow> select_git_directory d),
         gc_arguments = arguments, gc_input = input\<rparr>) (\<lambda>output.
       observe (\<lambda>_. if go_success output then Inr output
         else Inl (GitCommand arguments (diagnostic (go_stderr output)))))"

definition run_git ::
  "'g git_externals \<Rightarrow> string option \<Rightarrow> string option \<Rightarrow> string list \<Rightarrow> ('g, 'x, git_output) transaction" where
  "run_git gx working_directory git_directory arguments =
     run_git_with_input_and_environment gx working_directory git_directory arguments [] None"

definition resolve_commit :: "'g git_externals \<Rightarrow> git_repository \<Rightarrow> string \<Rightarrow> ('g, 'x, string) transaction" where
  "resolve_commit gx repo revision =
     andthen (run_git gx None (Some (gr_git_directory repo)) [''rev-parse'', ''--verify'', revision @ ''^{commit}'']) (\<lambda>output.
       observe (\<lambda>_. parse_object_id (go_stdout output)))"

definition resolve_optional_commit ::
  "'g git_externals \<Rightarrow> git_repository \<Rightarrow> string \<Rightarrow> ('g, 'x, string option) transaction" where
  "resolve_optional_commit gx repo revision =
     (let arguments = [''rev-parse'', ''--verify'', ''--quiet'', revision @ ''^{commit}''] in
     andthen (git_process gx \<lparr>gc_environment = None, gc_options = [git_directory_argument (gr_git_directory repo)],
         gc_arguments = arguments, gc_input = []\<rparr>) (\<lambda>output.
       observe (\<lambda>_.
         if go_success output then attempt (parse_object_id (go_stdout output)) (\<lambda>commit. Inr (Some commit))
         else if go_code output = Some 1 \<and> go_stderr output = [] then Inr None
         else Inl (GitCommand arguments (diagnostic (go_stderr output))))))"

definition resolve_in_worktree :: "'g git_externals \<Rightarrow> string \<Rightarrow> string \<Rightarrow> ('g, 'x, string) transaction" where
  "resolve_in_worktree gx worktree revision =
     andthen (run_git gx (Some worktree) None [''rev-parse'', ''--verify'', revision]) (\<lambda>output.
       observe (\<lambda>_. parse_object_id (go_stdout output)))"

section \<open>Names\<close>

definition transaction_ref :: "(ulid \<Rightarrow> string) \<Rightarrow> batch_id \<Rightarrow> string" where
  "transaction_ref show_id batch_id = ''refs/agent-knowledge/transactions/'' @ batch_id_to_string show_id batch_id"

definition journal_path :: "(ulid \<Rightarrow> string) \<Rightarrow> batch_id \<Rightarrow> path" where
  "journal_path show_id batch_id = [batch_id_to_string show_id batch_id @ ''.json'']"

text \<open>The worktree of a batch, by its path below the worktree directory and as the text Git gets.\<close>

definition worktree_path :: "(ulid \<Rightarrow> string) \<Rightarrow> batch_id \<Rightarrow> path" where
  "worktree_path show_id batch_id = [''batch-'' @ batch_id_to_string show_id batch_id]"

definition worktree_text :: "git_repository \<Rightarrow> (ulid \<Rightarrow> string) \<Rightarrow> batch_id \<Rightarrow> string" where
  "worktree_text repo show_id batch_id = gr_worktree_root repo @ ''/batch-'' @ batch_id_to_string show_id batch_id"

section \<open>References\<close>

definition create_transaction_ref ::
  "'g git_externals \<Rightarrow> git_repository \<Rightarrow> (ulid \<Rightarrow> string) \<Rightarrow> batch_id \<Rightarrow> string \<Rightarrow> ('g, 'x, unit) transaction" where
  "create_transaction_ref gx repo show_id batch_id commit =
     andthen (run_git gx None (Some (gr_git_directory repo))
       [''update-ref'', transaction_ref show_id batch_id, commit, replicate (length commit) (CHR ''0'')]) (\<lambda>_. finish ())"

definition ensure_transaction_ref ::
  "'g git_externals \<Rightarrow> git_repository \<Rightarrow> (ulid \<Rightarrow> string) \<Rightarrow> batch_id \<Rightarrow> string \<Rightarrow> ('g, 'x, unit) transaction" where
  "ensure_transaction_ref gx repo show_id batch_id commit =
     andthen (resolve_optional_commit gx repo (transaction_ref show_id batch_id)) (\<lambda>found.
       reject_if (found \<noteq> Some commit) JournalMismatch)"

definition compare_and_swap_official ::
  "'g git_externals \<Rightarrow> git_repository \<Rightarrow> string \<Rightarrow> string \<Rightarrow> ('g, 'x, unit) transaction" where
  "compare_and_swap_official gx repo expected commit =
     (let arguments = [''update-ref'', gr_official_ref repo, commit, expected] in
     andthen (git_process gx \<lparr>gc_environment = None, gc_options = [git_directory_argument (gr_git_directory repo)],
         gc_arguments = arguments, gc_input = []\<rparr>) (\<lambda>output.
       if go_success output then finish ()
       else andthen (resolve_commit gx repo (gr_official_ref repo)) (\<lambda>actual.
         observe (\<lambda>_. Inl (if actual \<noteq> expected then OfficialBranchChanged expected actual
           else GitCommand arguments (diagnostic (go_stderr output)))))))"

definition remove_transaction_ref ::
  "'g git_externals \<Rightarrow> git_repository \<Rightarrow> (ulid \<Rightarrow> string) \<Rightarrow> batch_id \<Rightarrow> string option \<Rightarrow> ('g, 'x, unit) transaction" where
  "remove_transaction_ref gx repo show_id batch_id expected_commit =
     andthen (resolve_optional_commit gx repo (transaction_ref show_id batch_id)) (\<lambda>found.
       case found of
         None \<Rightarrow> finish ()
       | Some actual \<Rightarrow>
           andthen (reject_if (expected_commit \<noteq> None \<and> expected_commit \<noteq> Some actual) JournalMismatch) (\<lambda>_.
           andthen (run_git gx None (Some (gr_git_directory repo))
             [''update-ref'', ''-d'', transaction_ref show_id batch_id, actual]) (\<lambda>_. finish ())))"

definition commit_parents :: "'g git_externals \<Rightarrow> git_repository \<Rightarrow> string \<Rightarrow> ('g, 'x, string list) transaction" where
  "commit_parents gx repo commit =
     andthen (run_git gx None (Some (gr_git_directory repo)) [''rev-list'', ''--parents'', ''-n'', ''1'', commit]) (\<lambda>output.
       observe (\<lambda>_. attempt (parse_text (go_stdout output)) (\<lambda>parents. Inr (split_ascii_whitespace parents))))"

definition remove_preparing_ref ::
  "'g git_externals \<Rightarrow> git_repository \<Rightarrow> (ulid \<Rightarrow> string) \<Rightarrow> batch_id \<Rightarrow> string \<Rightarrow> ('g, 'x, unit) transaction" where
  "remove_preparing_ref gx repo show_id batch_id base =
     andthen (resolve_optional_commit gx repo (transaction_ref show_id batch_id)) (\<lambda>found.
       case found of
         None \<Rightarrow> finish ()
       | Some commit \<Rightarrow>
           andthen (commit_parents gx repo commit) (\<lambda>parents.
           andthen (run_git gx None (Some (gr_git_directory repo))
             [''show'', ''-s'', ''--format=%(trailers:key=Batch-ID,valueonly)'', commit]) (\<lambda>trailers.
           andthen (reject_if (parents \<noteq> [commit, base]) JournalMismatch) (\<lambda>_.
           andthen (observe (\<lambda>_. parse_text (go_stdout trailers))) (\<lambda>trailer.
           andthen (reject_if (trailer \<noteq> batch_id_to_string show_id batch_id) JournalMismatch) (\<lambda>_.
             remove_transaction_ref gx repo show_id batch_id (Some commit)))))))"

section \<open>Worktrees\<close>

definition path_exists :: "path \<Rightarrow> fs \<Rightarrow> git_transaction_error + bool" where
  "path_exists path fs =
     (case symlink_metadata fs path of Inr _ \<Rightarrow> Inr True | Inl NotFound \<Rightarrow> Inr False | Inl e \<Rightarrow> Inl (GitIo e))"

definition ensure_real_directory :: "path \<Rightarrow> fs \<Rightarrow> git_transaction_error + unit" where
  "ensure_real_directory path fs =
     attempt (map_err GitIo (symlink_metadata fs path)) (\<lambda>node. if node \<noteq> Dir then Inl (InvalidDirectory path) else Inr ())"

definition is_registered_worktree ::
  "'g git_externals \<Rightarrow> git_repository \<Rightarrow> string \<Rightarrow> ('g, 'x, bool) transaction" where
  "is_registered_worktree gx repo worktree =
     andthen (run_git gx None (Some (gr_git_directory repo)) [''worktree'', ''list'', ''--porcelain'', ''-z'']) (\<lambda>output.
     andthen (observe (\<lambda>w. map_err GitIo (gx_canonicalize gx worktree (rw_files w)))) (\<lambda>canonical.
       finish (list_ex (\<lambda>field. case strip_prefix ''worktree '' field of
           None \<Rightarrow> False
         | Some registered \<Rightarrow> registered = worktree \<or> registered = canonical)
         (split_on (CHR 0x00) (go_stdout output)))))"

definition valid_batch_name :: "worker_externals \<Rightarrow> path \<Rightarrow> bool" where
  "valid_batch_name wx worktree =
     (case Option.bind (file_name worktree) (\<lambda>name. if is_utf8 name then strip_prefix ''batch-'' name else None) of
        None \<Rightarrow> False
      | Some identifier \<Rightarrow>
          (case id_from_str (qx_ulid_parse wx) (show_ulid wx) identifier of Inl _ \<Rightarrow> False | Inr ulid \<Rightarrow> show_ulid wx ulid = identifier))"

definition remove_unregistered_worktree :: "worker_externals \<Rightarrow> path \<Rightarrow> (git_transaction_error, unit) action" where
  "remove_unregistered_worktree wx worktree =
     andthen (reject_if (parent worktree \<noteq> Some [] \<or> \<not> valid_batch_name wx worktree) (InvalidDirectory worktree)) (\<lambda>_.
     andthen (observe (ensure_real_directory worktree)) (\<lambda>_.
     andthen (perform GitIo (remove_dir_all worktree)) (\<lambda>_.
       observe (sync_dir []))))"

definition handle_failed_worktree_removal ::
  "'g git_externals \<Rightarrow> worker_externals \<Rightarrow> git_repository \<Rightarrow> path \<Rightarrow> string \<Rightarrow> git_transaction_error \<Rightarrow>
   ('g, 'x, unit) transaction" where
  "handle_failed_worktree_removal gx wx repo worktree text error =
     andthen (is_registered_worktree gx repo text) (\<lambda>registered.
       if registered then observe (\<lambda>_. Inl error) else with_worktrees (remove_unregistered_worktree wx worktree))"

text \<open>\<open>if let Err(error) = result\<close>.\<close>

definition or_else :: "('s, 'e, 'a) step \<Rightarrow> ('e \<Rightarrow> ('s, 'e, 'a) step) \<Rightarrow> ('s, 'e, 'a) step" where
  "or_else m h s = (case m s of (Inl e, s') \<Rightarrow> h e s' | (Inr x, s') \<Rightarrow> (Inr x, s'))"

definition remove_worktree ::
  "'g git_externals \<Rightarrow> worker_externals \<Rightarrow> git_repository \<Rightarrow> batch_id \<Rightarrow> ('g, 'x, unit) transaction" where
  "remove_worktree gx wx repo batch_id =
     (let worktree = worktree_path (show_ulid wx) batch_id; text = worktree_text repo (show_ulid wx) batch_id in
     andthen (observe (\<lambda>w. path_exists worktree (gf_worktrees (rw_files w)))) (\<lambda>exists.
     andthen (if exists
         then or_else (andthen (run_git gx None (Some (gr_git_directory repo)) [''worktree'', ''remove'', ''--force'', text]) (\<lambda>_. finish ()))
           (handle_failed_worktree_removal gx wx repo worktree text)
         else finish ()) (\<lambda>_.
     andthen (run_git gx None (Some (gr_git_directory repo)) [''worktree'', ''prune'', ''--expire=now'']) (\<lambda>_.
       observe (\<lambda>w. sync_dir [] (gf_worktrees (rw_files w)))))))"

text \<open>The paths of both listings, in order and without repetition; a path keeps the text Git printed.\<close>

fun collect_paths :: "string list \<Rightarrow> string list \<Rightarrow> git_transaction_error + string list" where
  "collect_paths [] paths = Inr paths"
| "collect_paths (name # names) paths =
     (if name = [] then collect_paths names paths
      else if \<not> is_utf8 name then Inl InvalidGitOutput
      else if path_from_str name \<in> set (map path_from_str paths) then collect_paths names paths
      else collect_paths names (paths @ [name]))"

definition untracked_files :: "'g git_externals \<Rightarrow> string \<Rightarrow> ('g, 'x, string list) transaction" where
  "untracked_files gx worktree =
     andthen (run_git gx (Some worktree) None [''ls-files'', ''--others'', ''-z'', ''--exclude-standard'']) (\<lambda>others.
     andthen (observe (\<lambda>_. collect_paths (split_on (CHR 0x00) (go_stdout others)) [])) (\<lambda>paths.
     andthen (run_git gx (Some worktree) None [''ls-files'', ''--others'', ''--ignored'', ''-z'', ''--exclude-standard'']) (\<lambda>ignored.
       observe (\<lambda>_. collect_paths (split_on (CHR 0x00) (go_stdout ignored)) paths))))"

definition ensure_prepared_worktree_unchanged ::
  "'g git_externals \<Rightarrow> string \<Rightarrow> string \<Rightarrow> ('g, 'x, unit) transaction" where
  "ensure_prepared_worktree_unchanged gx worktree expected_tree =
     andthen (run_git gx (Some worktree) None [''diff'', ''--name-only'', ''-z'']) (\<lambda>unstaged.
     andthen (untracked_files gx worktree) (\<lambda>untracked.
     andthen (run_git gx (Some worktree) None [''write-tree'']) (\<lambda>actual_tree.
     andthen (reject_if (go_stdout unstaged \<noteq> [] \<or> untracked \<noteq> []) TrialBuildMutatedWorktree) (\<lambda>_.
     andthen (observe (\<lambda>_. parse_object_id (go_stdout actual_tree))) (\<lambda>tree.
       reject_if (tree \<noteq> expected_tree) TrialBuildMutatedWorktree)))))"

definition reset_worktree :: "'g git_externals \<Rightarrow> string \<Rightarrow> string \<Rightarrow> ('g, 'x, unit) transaction" where
  "reset_worktree gx worktree tree =
     andthen (run_git gx (Some worktree) None [''read-tree'', ''--reset'', ''-u'', tree]) (\<lambda>_.
     andthen (run_git gx (Some worktree) None [''clean'', ''-d'', ''-f'', ''-x'']) (\<lambda>_. finish ()))"

section \<open>The canonical worktree\<close>

definition ensure_canonical_clean :: "'g git_externals \<Rightarrow> git_repository \<Rightarrow> ('g, 'x, unit) transaction" where
  "ensure_canonical_clean gx repo =
     andthen (run_git_with_input_and_environment gx (Some (gr_canonical_worktree repo)) None
       [''status'', ''--porcelain=v1'', ''-z'', ''--untracked-files=all'', ''--ignored=matching''] []
       (Some (''GIT_OPTIONAL_LOCKS'', ''0''))) (\<lambda>output.
     reject_if (go_stdout output \<noteq> []) CanonicalWorktreeDirty)"

text \<open>One record of \<open>git ls-tree -z\<close>.\<close>

definition tree_record :: "string \<Rightarrow> string \<Rightarrow> git_transaction_error + string" where
  "tree_record path record_text =
     (if \<not> is_utf8 record_text then Inl InvalidGitOutput
      else case split_on (CHR 0x09) record_text of
        metadata # found # rest \<Rightarrow>
          if path_from_str (join_with (CHR 0x09) (found # rest)) \<noteq> path_from_str path then Inl InvalidGitOutput
          else (case split_ascii_whitespace metadata of
              [_, kind, object] \<Rightarrow>
                if kind = ''blob'' \<and> valid_object_id object then Inr object else Inl InvalidGitOutput
            | _ \<Rightarrow> Inl InvalidGitOutput)
      | _ \<Rightarrow> Inl InvalidGitOutput)"

definition resolve_tree_path ::
  "'g git_externals \<Rightarrow> git_repository \<Rightarrow> string \<Rightarrow> string \<Rightarrow> ('g, 'x, string option) transaction" where
  "resolve_tree_path gx repo tree path =
     andthen (run_git gx None (Some (gr_git_directory repo)) [''ls-tree'', ''-z'', ''--full-tree'', tree, ''--'', path]) (\<lambda>output.
       observe (\<lambda>_. case filter (\<lambda>r. r \<noteq> []) (split_on (CHR 0x00) (go_stdout output)) of
           [] \<Rightarrow> Inr None
         | [record_text] \<Rightarrow> attempt (tree_record path record_text) (\<lambda>object. Inr (Some object))
         | _ \<Rightarrow> Inl InvalidGitOutput))"

definition hash_worktree_file :: "'g git_externals \<Rightarrow> string \<Rightarrow> string \<Rightarrow> ('g, 'x, string) transaction" where
  "hash_worktree_file gx worktree path =
     andthen (run_git gx (Some worktree) None [''hash-object'', ''--no-filters'', ''--'', path]) (\<lambda>output.
       observe (\<lambda>_. parse_object_id (go_stdout output)))"

definition ensure_canonical_repairable :: "'g git_externals \<Rightarrow> git_repository \<Rightarrow> string \<Rightarrow> ('g, 'x, unit) transaction" where
  "ensure_canonical_repairable gx repo base =
     andthen (untracked_files gx (gr_canonical_worktree repo)) (\<lambda>paths.
       act_each (\<lambda>path.
         andthen (resolve_tree_path gx repo base path) (\<lambda>base_object.
           case base_object of
             None \<Rightarrow> observe (\<lambda>_. Inl CanonicalWorktreeDirty)
           | Some base_object \<Rightarrow>
               andthen (hash_worktree_file gx (gr_canonical_worktree repo) path) (\<lambda>current_object.
                 reject_if (current_object \<noteq> base_object) CanonicalWorktreeDirty))) paths)"

lemma try_each_fundef_cong [fundef_cong]:
  "xs = ys \<Longrightarrow> (\<And>x. x \<in> set ys \<Longrightarrow> f x = g x) \<Longrightarrow> try_each f xs = try_each g ys"
  using try_each_cong by blast

lemma child_is_longer: "c \<in> set (children fs p) \<Longrightarrow> length p < Max (insert 0 (length ` fst ` set fs))"
proof -
  assume "c \<in> set (children fs p)"
  then obtain q n where q: "(q, n) \<in> set fs" "q \<noteq> []" "butlast q = p" by (auto simp: children_def)
  then have "length p < length q" by (cases q rule: rev_cases) auto
  also have "length q \<le> Max (insert 0 (length ` fst ` set fs))" using q(1) by (intro Max_ge) force+
  finally show ?thesis .
qed

function sync_tree :: "fs \<Rightarrow> path \<Rightarrow> git_transaction_error + unit" where
  "sync_tree fs path =
     attempt (map_err GitIo (read_dir fs path)) (\<lambda>names.
     attempt (try_each (\<lambda>name.
       attempt (map_err GitIo (symlink_metadata fs (path @ [name]))) (\<lambda>node.
         case node of
           Dir \<Rightarrow> sync_tree fs (path @ [name])
         | File _ _ _ \<Rightarrow> Inr ()
         | OtherNode \<Rightarrow> Inl (InvalidDirectory (path @ [name])))) names) (\<lambda>_.
       sync_dir path fs))"
  by pat_completeness auto

termination
  by (relation "measure (\<lambda>(fs, p). Max (insert 0 (length ` fst ` set fs)) - length p)")
    (auto dest!: child_is_longer simp: map_err_Inr_iff read_dir_Inr_iff)

declare sync_tree.simps [simp del]

definition sync_canonical :: "'g git_externals \<Rightarrow> git_repository \<Rightarrow> string \<Rightarrow> ('g, 'x, unit) transaction" where
  "sync_canonical gx repo commit w =
     (case (andthen (run_git gx (Some (gr_canonical_worktree repo)) None [''reset'', ''--hard'', commit]) (\<lambda>_.
            andthen (run_git gx (Some (gr_canonical_worktree repo)) None [''clean'', ''-d'', ''-f'', ''-x'']) (\<lambda>_.
              observe (\<lambda>w. sync_tree (gf_canonical (rw_files w)) [])))) w of
        (r, w') \<Rightarrow> (map_err (CanonicalWorktreeSync commit) r, w'))"

section \<open>The Worker\<close>

definition tw_show :: "transaction_worker \<Rightarrow> ulid \<Rightarrow> string" where
  "tw_show worker = show_ulid (tw_externals worker)"

definition worker_queue_identity :: "transaction_worker \<Rightarrow> git_transaction_error + revision" where
  "worker_queue_identity worker =
     map_err (GitQueue \<circ> WorkerQueue) (current_identity_locked (tw_queue worker) (tw_tree worker))"

definition ensure_transaction_ready :: "transaction_worker \<Rightarrow> git_transaction_error + unit" where
  "ensure_transaction_ready worker =
     attempt (worker_queue_identity worker) (\<lambda>_. map_err GitQueue (ensure_no_active_scan (tw_session worker)))"

definition worker_validate_claimed :: "transaction_worker \<Rightarrow> claimed_package \<Rightarrow> git_transaction_error + unit" where
  "worker_validate_claimed worker claim =
     map_err GitQueue (session_validate_claimed (tw_externals worker) (tw_queue worker) claim (tw_session worker) (tw_tree worker))"

definition validate_worker_identity :: "transaction_journal \<Rightarrow> transaction_worker \<Rightarrow> git_transaction_error + unit" where
  "validate_worker_identity journal worker =
     attempt (worker_queue_identity worker) (\<lambda>identity.
       if identity = tj_queue_identity journal then Inr () else Inl JournalMismatch)"

fun validate_claims_from ::
  "transaction_worker \<Rightarrow> batch_id \<Rightarrow> claimed_package list \<Rightarrow> request_id list \<Rightarrow> nat option \<Rightarrow> git_transaction_error + unit" where
  "validate_claims_from worker batch_id [] request_ids previous_order = Inr ()"
| "validate_claims_from worker batch_id (claim # claims) request_ids previous_order =
     (let token = cp_token claim in
      if ct_batch_id token \<noteq> batch_id \<or> ct_request_id token \<in> set request_ids then Inl InvalidClaims
      else
        attempt (worker_validate_claimed worker claim) (\<lambda>_.
        attempt (ok_or InvalidClaims (vp_acceptance (cp_package claim))) (\<lambda>acceptance.
          if (case previous_order of None \<Rightarrow> False | Some previous \<Rightarrow> am_sequence acceptance \<le> previous) then Inl InvalidClaims
          else validate_claims_from worker batch_id claims (ct_request_id token # request_ids) (Some (am_sequence acceptance)))))"

definition validate_batch_claims :: "transaction_worker \<Rightarrow> batch_id \<Rightarrow> claimed_package list \<Rightarrow> git_transaction_error + unit" where
  "validate_batch_claims worker batch_id claims = validate_claims_from worker batch_id claims [] None"

section \<open>Journals of the repository\<close>

definition ensure_no_other_journal :: "(ulid \<Rightarrow> string) \<Rightarrow> batch_id \<Rightarrow> fs \<Rightarrow> git_transaction_error + unit" where
  "ensure_no_other_journal show_id batch_id fs =
     attempt (map_err GitIo (read_dir fs [])) (\<lambda>names.
       try_each (\<lambda>name.
         if \<not> is_utf8 name then Inl InvalidJournal
         else if suffix ''.json'' name \<and> name \<noteq> batch_id_to_string show_id batch_id @ ''.json'' then Inl UnfinishedTransaction
         else Inr ()) names)"

definition validate_committed_journal ::
  "'g git_externals \<Rightarrow> git_repository \<Rightarrow> (ulid \<Rightarrow> string) \<Rightarrow> transaction_journal \<Rightarrow> ('g, 'x, unit) transaction" where
  "validate_committed_journal gx repo show_id journal =
     (case tj_state journal of
        Committed commit successful _ _ \<Rightarrow>
          andthen (resolve_commit gx repo commit) (\<lambda>resolved.
          andthen (reject_if (resolved \<noteq> commit) JournalMismatch) (\<lambda>_.
          andthen (commit_parents gx repo commit) (\<lambda>parents.
          andthen (reject_if (parents \<noteq> [commit, tj_base_commit journal]) JournalMismatch) (\<lambda>_.
          andthen (run_git gx None (Some (gr_git_directory repo)) [''show'', ''-s'', ''--format=%B'', commit]) (\<lambda>message.
            observe (\<lambda>_. check_committed_message show_id (tj_batch_id journal) successful (go_stdout message)))))))
      | _ \<Rightarrow> observe (\<lambda>_. Inl InvalidJournalState))"

definition lock_writer :: "'g git_externals \<Rightarrow> git_transaction_error + unit \<Rightarrow> ('g, 'x, unit) transaction" where
  "lock_writer gx locked = andthen (observe (\<lambda>_. locked)) (\<lambda>_. observe (live_storage gx))"

definition read_batch_journal ::
  "'g git_externals \<Rightarrow> (ulid \<Rightarrow> string) \<Rightarrow> batch_id \<Rightarrow> ('g, 'x, transaction_journal option) transaction" where
  "read_batch_journal gx show_id batch_id =
     observe (\<lambda>w. read_journal (gx_journal gx) (journal_path show_id batch_id) (rw_journals w))"

definition write_batch_journal ::
  "'g git_externals \<Rightarrow> (ulid \<Rightarrow> string) \<Rightarrow> ulid \<Rightarrow> batch_id \<Rightarrow> transaction_journal \<Rightarrow> ('g, 'x, unit) transaction" where
  "write_batch_journal gx show_id fresh batch_id journal =
     with_journals (write_journal show_id (gx_journal gx) fresh (journal_path show_id batch_id) journal)"

text \<open>Reading the journal of a batch that must have one, with the checks every operation makes.\<close>

definition require_journal ::
  "'g git_externals \<Rightarrow> transaction_worker \<Rightarrow> batch_id \<Rightarrow> ('g, 'x, transaction_journal) transaction" where
  "require_journal gx worker batch_id =
     andthen (read_batch_journal gx (tw_show worker) batch_id) (\<lambda>stored.
     andthen (observe (\<lambda>_. ok_or JournalMissing stored)) (\<lambda>journal.
     andthen (observe (\<lambda>_. validate_journal_structure journal batch_id)) (\<lambda>_.
     andthen (observe (\<lambda>_. validate_worker_identity journal worker)) (\<lambda>_. finish journal))))"

definition ensure_official_at :: "'g git_externals \<Rightarrow> git_repository \<Rightarrow> string \<Rightarrow> ('g, 'x, unit) transaction" where
  "ensure_official_at gx repo base =
     andthen (resolve_commit gx repo (gr_official_ref repo)) (\<lambda>actual.
       reject_if (actual \<noteq> base) (OfficialBranchChanged base actual))"

section \<open>Applying a batch\<close>

record prepared_batch =
  pr_tree :: string
  pr_successful :: "claim_token list"
  pr_failures :: "request_failure list"
  pr_moves :: "applied_move list"

text \<open>One request, applied to the tree of the batch worktree. A failure is a result here, because the
  batch goes on.\<close>

definition graft :: "path \<Rightarrow> fs \<Rightarrow> fs \<Rightarrow> fs" where
  "graft p content fs = filter (\<lambda>(q, _). \<not> prefix p q) fs @ map (\<lambda>(q, n). (p @ q, n)) content"

definition apply_to_worktree ::
  "'g git_externals \<Rightarrow> transaction_worker \<Rightarrow> content_policy \<Rightarrow> package_policy \<Rightarrow> path \<Rightarrow> claimed_package \<Rightarrow>
   ('g, 'x, apply_error + applied_move list) transaction" where
  "apply_to_worktree gx worker policy package_policy worktree claim =
     with_worktrees (\<lambda>fs.
       case apply_claimed (qx_base (tw_externals worker)) (gx_before gx (ct_request_id (cp_token claim)))
           (gx_after gx (ct_request_id (cp_token claim))) (subtree (cp_package_root claim) (tw_tree worker))
           (cp_package claim) policy package_policy (subtree worktree fs) of
         (r, content) \<Rightarrow> (Inr r, graft worktree content fs))"

definition stage_success ::
  "'g git_externals \<Rightarrow> string \<Rightarrow> claim_token \<Rightarrow> applied_move list \<Rightarrow> prepared_batch \<Rightarrow> ('g, 'x, prepared_batch) transaction" where
  "stage_success gx worktree token moves prepared =
     andthen (run_git gx (Some worktree) None [''add'', ''--all'', ''--force'']) (\<lambda>_.
     andthen (run_git gx (Some worktree) None [''write-tree'']) (\<lambda>staged_tree.
     andthen (observe (\<lambda>_. parse_object_id (go_stdout staged_tree))) (\<lambda>tree.
       finish (prepared\<lparr>pr_tree := tree, pr_successful := pr_successful prepared @ [token],
         pr_moves := pr_moves prepared @ moves\<rparr>))))"

definition stage_failure ::
  "'g git_externals \<Rightarrow> string \<Rightarrow> claim_token \<Rightarrow> apply_error \<Rightarrow> prepared_batch \<Rightarrow> ('g, 'x, prepared_batch) transaction" where
  "stage_failure gx worktree token error prepared =
     andthen (reset_worktree gx worktree (pr_tree prepared)) (\<lambda>_.
       case request_error_code error of
         None \<Rightarrow> observe (\<lambda>_. Inl (GitApply (ct_request_id token) error))
       | Some error_code \<Rightarrow>
           finish (prepared\<lparr>pr_failures := pr_failures prepared @ [\<lparr>rf_token = token, rf_error_code = error_code\<rparr>]\<rparr>))"

fun apply_claims ::
  "'g git_externals \<Rightarrow> git_repository \<Rightarrow> transaction_worker \<Rightarrow> content_policy \<Rightarrow> package_policy \<Rightarrow> batch_id \<Rightarrow>
   claimed_package list \<Rightarrow> prepared_batch \<Rightarrow> ('g, 'x, prepared_batch) transaction" where
  "apply_claims gx repo worker policy package_policy batch_id [] prepared = finish prepared"
| "apply_claims gx repo worker policy package_policy batch_id (claim # claims) prepared =
     andthen (observe (\<lambda>_. worker_validate_claimed worker claim)) (\<lambda>_.
     andthen (apply_to_worktree gx worker policy package_policy (worktree_path (tw_show worker) batch_id) claim) (\<lambda>result.
     andthen (case result of
         Inr moves \<Rightarrow> stage_success gx (worktree_text repo (tw_show worker) batch_id) (cp_token claim) moves prepared
       | Inl error \<Rightarrow> stage_failure gx (worktree_text repo (tw_show worker) batch_id) (cp_token claim) error prepared)
       (\<lambda>prepared. apply_claims gx repo worker policy package_policy batch_id claims prepared)))"

definition apply_in_worktree ::
  "'g git_externals \<Rightarrow> git_repository \<Rightarrow> transaction_worker \<Rightarrow> content_policy \<Rightarrow> package_policy \<Rightarrow> batch_id \<Rightarrow>
   claimed_package list \<Rightarrow> ('g, 'x, prepared_batch) transaction" where
  "apply_in_worktree gx repo worker policy package_policy batch_id claims =
     andthen (resolve_in_worktree gx (worktree_text repo (tw_show worker) batch_id) ''HEAD^{tree}'') (\<lambda>tree.
       apply_claims gx repo worker policy package_policy batch_id claims
         \<lparr>pr_tree = tree, pr_successful = [], pr_failures = [], pr_moves = []\<rparr>)"

definition commit_tree ::
  "'g git_externals \<Rightarrow> git_repository \<Rightarrow> string \<Rightarrow> string \<Rightarrow> string \<Rightarrow> ('g, 'x, string) transaction" where
  "commit_tree gx repo tree base message =
     andthen (run_git_with_input_and_environment gx None (Some (gr_git_directory repo))
       [''-c'', ''user.name='' @ gi_name (gr_identity repo), ''-c'', ''user.email='' @ gi_email (gr_identity repo),
        ''commit-tree'', tree, ''-p'', base] message None) (\<lambda>output.
       observe (\<lambda>_. parse_object_id (go_stdout output)))"

definition stage_stats ::
  "'g git_externals \<Rightarrow> string \<Rightarrow> string \<Rightarrow> applied_move list \<Rightarrow> ('g, 'x, file_stats) transaction" where
  "stage_stats gx worktree base moves =
     andthen (observe (\<lambda>_. reduce_moves moves)) (\<lambda>_.
     andthen (run_git gx (Some worktree) None [''diff'', ''--cached'', ''--name-status'', ''--no-renames'', ''-z'', base]) (\<lambda>output.
       observe (\<lambda>_. staged_stats moves (go_stdout output))))"

section \<open>Publication\<close>

definition publish_committed ::
  "'g git_externals \<Rightarrow> git_repository \<Rightarrow> worker_externals \<Rightarrow> batch_id \<Rightarrow> string \<Rightarrow> string \<Rightarrow> bool \<Rightarrow>
   ('g, 'x, unit) transaction" where
  "publish_committed gx repo wx batch_id base commit publication_started =
     andthen (observe (live_storage gx)) (\<lambda>_.
     andthen (observe (\<lambda>_. map_err GitIo (gx_canonical_lock gx))) (\<lambda>_.
     andthen (resolve_commit gx repo (gr_official_ref repo)) (\<lambda>actual.
     andthen (if actual = base then
           andthen (ensure_canonical_clean gx repo) (\<lambda>_.
           andthen (ensure_transaction_ref gx repo (show_ulid wx) batch_id commit) (\<lambda>_.
           andthen (observe (live_storage gx)) (\<lambda>_.
             compare_and_swap_official gx repo base commit)))
         else if actual \<noteq> commit then observe (\<lambda>_. Inl (OfficialBranchChanged base actual))
         else if publication_started then ensure_canonical_repairable gx repo base
         else observe (\<lambda>_. Inl JournalMismatch)) (\<lambda>_.
     andthen (sync_canonical gx repo commit) (\<lambda>_.
     andthen (or_else (andthen (remove_worktree gx wx repo batch_id) (\<lambda>_.
           remove_transaction_ref gx repo (show_ulid wx) batch_id (Some commit)))
         (\<lambda>source. observe (\<lambda>_. Inl (PostCommitCleanup commit source)))) (\<lambda>_.
       observe (live_storage gx)))))))"

text \<open>A preparing journal of the same batch is discarded with what its transaction left behind.\<close>

definition discard_preparing ::
  "'g git_externals \<Rightarrow> git_repository \<Rightarrow> transaction_worker \<Rightarrow> batch_id \<Rightarrow> transaction_journal \<Rightarrow> ('g, 'x, unit) transaction" where
  "discard_preparing gx repo worker batch_id journal =
     andthen (remove_worktree gx (tw_externals worker) repo batch_id) (\<lambda>_.
     andthen (remove_preparing_ref gx repo (tw_show worker) batch_id (tj_base_commit journal)) (\<lambda>_.
       with_journals (remove_journal (journal_path (tw_show worker) batch_id))))"

definition restart_preparing ::
  "'g git_externals \<Rightarrow> git_repository \<Rightarrow> transaction_worker \<Rightarrow> batch_id \<Rightarrow> claimed_package list \<Rightarrow> nat \<Rightarrow>
   transaction_journal option \<Rightarrow> ('g, 'x, unit) transaction" where
  "restart_preparing gx repo worker batch_id claims claim_failures stored =
     (case stored of
        None \<Rightarrow> finish ()
      | Some journal \<Rightarrow>
          andthen (observe (\<lambda>_. validate_journal_structure journal batch_id)) (\<lambda>_.
          andthen (observe (\<lambda>_. validate_worker_identity journal worker)) (\<lambda>_.
          andthen (reject_if (tj_state journal \<noteq> Preparing) (TransactionRequiresRecovery batch_id)) (\<lambda>_.
          andthen (ensure_official_at gx repo (tj_base_commit journal)) (\<lambda>_.
          andthen (observe (\<lambda>_. validate_batch_claims worker batch_id claims)) (\<lambda>_.
          andthen (observe (\<lambda>_. validate_journal_claims journal claims)) (\<lambda>_.
          andthen (reject_if (tj_claim_failures journal \<noteq> claim_failures) JournalMismatch) (\<lambda>_.
            discard_preparing gx repo worker batch_id journal))))))))"

definition ensure_worktree_absent :: "path \<Rightarrow> fs \<Rightarrow> git_transaction_error + unit" where
  "ensure_worktree_absent worktree fs =
     attempt (path_exists worktree fs) (\<lambda>exists. if exists then Inl (WorktreeAlreadyExists worktree) else Inr ())"

definition prepared_failures :: "prepared_batch \<Rightarrow> journal_failure list" where
  "prepared_failures prepared =
     map (\<lambda>failure. \<lparr>jf_request_id = ct_request_id (rf_token failure), jf_error_code = rf_error_code failure\<rparr>)
       (pr_failures prepared)"

text \<open>The two ends of a batch: no request succeeded, or one commit is made and published.\<close>

definition conclude_without_changes ::
  "'g git_externals \<Rightarrow> git_repository \<Rightarrow> transaction_worker \<Rightarrow> (nat \<Rightarrow> ulid) \<Rightarrow> batch_id \<Rightarrow> transaction_journal \<Rightarrow>
   prepared_batch \<Rightarrow> ('g, 'x, batch_commit_outcome) transaction" where
  "conclude_without_changes gx repo worker fresh batch_id preparing prepared =
     andthen (write_batch_journal gx (tw_show worker) (fresh 1) batch_id
       (preparing\<lparr>tj_state := NoChanges (prepared_failures prepared)\<rparr>)) (\<lambda>_.
     andthen (remove_worktree gx (tw_externals worker) repo batch_id) (\<lambda>_.
     andthen (ensure_official_at gx repo (tj_base_commit preparing)) (\<lambda>_.
     andthen (observe (live_storage gx)) (\<lambda>_.
       finish (OutcomeNoChanges (pr_failures prepared))))))"

definition committed_state :: "string \<Rightarrow> prepared_batch \<Rightarrow> bool \<Rightarrow> journal_state" where
  "committed_state commit prepared publication_started =
     Committed commit (map ct_request_id (pr_successful prepared)) (prepared_failures prepared) publication_started"

definition conclude_with_commit ::
  "'g git_externals \<Rightarrow> git_repository \<Rightarrow> transaction_worker \<Rightarrow> (nat \<Rightarrow> ulid) \<Rightarrow>
   ('x, unit) callback \<Rightarrow> (string \<Rightarrow> string \<Rightarrow> ('x, unit) callback) \<Rightarrow>
   batch_id \<Rightarrow> claimed_package list \<Rightarrow> transaction_journal \<Rightarrow> prepared_batch \<Rightarrow> ('g, 'x, batch_commit_outcome) transaction" where
  "conclude_with_commit gx repo worker fresh trial_build before_publish batch_id claims preparing prepared =
     (let worktree = worktree_text repo (tw_show worker) batch_id; base = tj_base_commit preparing in
     andthen (stage_stats gx worktree base (pr_moves prepared)) (\<lambda>stats.
     andthen (with_callback trial_build) (\<lambda>_.
     andthen (ensure_prepared_worktree_unchanged gx worktree (pr_tree prepared)) (\<lambda>_.
     andthen (commit_tree gx repo (pr_tree prepared) base
       (commit_message (tw_show worker) batch_id claims (pr_successful prepared) stats)) (\<lambda>commit.
     andthen (create_transaction_ref gx repo (tw_show worker) batch_id commit) (\<lambda>_.
     let committed = preparing\<lparr>tj_state := committed_state commit prepared False\<rparr> in
     andthen (write_batch_journal gx (tw_show worker) (fresh 1) batch_id committed) (\<lambda>_.
     andthen (validate_committed_journal gx repo (tw_show worker) committed) (\<lambda>_.
     andthen (with_callback (before_publish base commit)) (\<lambda>_.
     andthen (write_batch_journal gx (tw_show worker) (fresh 2) batch_id
       (preparing\<lparr>tj_state := committed_state commit prepared True\<rparr>)) (\<lambda>_.
     andthen (publish_committed gx repo (tw_externals worker) batch_id base commit True) (\<lambda>_.
       finish (OutcomeCommitted commit (pr_successful prepared) (pr_failures prepared)))))))))))))"

text \<open>The checks before a batch starts, and the journal it starts with.\<close>

definition begin_batch ::
  "'g git_externals \<Rightarrow> git_repository \<Rightarrow> git_transaction_error + unit \<Rightarrow> transaction_worker \<Rightarrow> batch_id \<Rightarrow>
   claimed_package list \<Rightarrow> nat \<Rightarrow> ('g, 'x, transaction_journal) transaction" where
  "begin_batch gx repo locked worker batch_id claims claim_failures =
     andthen (lock_writer gx locked) (\<lambda>_.
     andthen (reject_if (claims = []) EmptyBatch) (\<lambda>_.
     andthen (observe (\<lambda>w. ensure_no_other_journal (tw_show worker) batch_id (rw_journals w))) (\<lambda>_.
     andthen (read_batch_journal gx (tw_show worker) batch_id) (\<lambda>stored.
     andthen (restart_preparing gx repo worker batch_id claims claim_failures stored) (\<lambda>_.
     andthen (observe (\<lambda>_. validate_batch_claims worker batch_id claims)) (\<lambda>_.
     andthen (ensure_canonical_clean gx repo) (\<lambda>_.
     andthen (resolve_commit gx repo (gr_official_ref repo)) (\<lambda>base.
     andthen (observe (\<lambda>w. ensure_worktree_absent (worktree_path (tw_show worker) batch_id) (gf_worktrees (rw_files w)))) (\<lambda>_.
     andthen (observe (\<lambda>_. worker_queue_identity worker)) (\<lambda>identity.
       finish \<lparr>tj_schema_version = JOURNAL_SCHEMA_VERSION, tj_batch_id = batch_id, tj_queue_identity = identity,
         tj_base_commit = base, tj_claims = journal_claims claims, tj_claim_failures = claim_failures,
         tj_state = Preparing\<rparr>))))))))))"

definition apply_batch_with_hook ::
  "'g git_externals \<Rightarrow> git_repository \<Rightarrow> git_transaction_error + unit \<Rightarrow> transaction_worker \<Rightarrow> (nat \<Rightarrow> ulid) \<Rightarrow>
   ('x, unit) callback \<Rightarrow> (string \<Rightarrow> string \<Rightarrow> ('x, unit) callback) \<Rightarrow>
   content_policy \<Rightarrow> package_policy \<Rightarrow> batch_id \<Rightarrow> claimed_package list \<Rightarrow> nat \<Rightarrow> ('g, 'x, batch_commit_outcome) transaction" where
  "apply_batch_with_hook gx repo locked worker fresh trial_build before_publish policy package_policy batch_id claims claim_failures =
     andthen (begin_batch gx repo locked worker batch_id claims claim_failures) (\<lambda>preparing.
     andthen (write_batch_journal gx (tw_show worker) (fresh 0) batch_id preparing) (\<lambda>_.
     andthen (run_git gx None (Some (gr_git_directory repo))
       [''worktree'', ''add'', ''--detach'', worktree_text repo (tw_show worker) batch_id, tj_base_commit preparing]) (\<lambda>_.
     andthen (observe (\<lambda>w. sync_dir [] (gf_worktrees (rw_files w)))) (\<lambda>_.
     andthen (apply_in_worktree gx repo worker policy package_policy batch_id claims) (\<lambda>prepared.
       if pr_successful prepared = []
       then conclude_without_changes gx repo worker fresh batch_id preparing prepared
       else conclude_with_commit gx repo worker fresh trial_build before_publish batch_id claims preparing prepared)))))"

section \<open>Recovery and the end of a transaction\<close>

definition abort_preparing_batch ::
  "'g git_externals \<Rightarrow> git_repository \<Rightarrow> git_transaction_error + unit \<Rightarrow> transaction_worker \<Rightarrow> batch_id \<Rightarrow>
   claimed_package list \<Rightarrow> ('g, 'x, unit) transaction" where
  "abort_preparing_batch gx repo locked worker batch_id claims =
     andthen (lock_writer gx locked) (\<lambda>_.
     andthen (observe (\<lambda>w. ensure_no_other_journal (tw_show worker) batch_id (rw_journals w))) (\<lambda>_.
     andthen (require_journal gx worker batch_id) (\<lambda>journal.
     andthen (reject_if (tj_state journal \<noteq> Preparing) InvalidJournalState) (\<lambda>_.
     andthen (observe (\<lambda>_. validate_batch_claims worker batch_id claims)) (\<lambda>_.
     andthen (observe (\<lambda>_. validate_journal_claims journal claims)) (\<lambda>_.
     andthen (ensure_official_at gx repo (tj_base_commit journal)) (\<lambda>_.
     andthen (discard_preparing gx repo worker batch_id journal) (\<lambda>_.
       observe (live_storage gx)))))))))"

definition recover_committed ::
  "'g git_externals \<Rightarrow> git_repository \<Rightarrow> transaction_worker \<Rightarrow> ulid \<Rightarrow>
   (string \<Rightarrow> ('x, unit) callback) \<Rightarrow> batch_id \<Rightarrow> transaction_journal \<Rightarrow>
   string \<Rightarrow> request_id list \<Rightarrow> journal_failure list \<Rightarrow> bool \<Rightarrow> ('g, 'x, unit) transaction" where
  "recover_committed gx repo worker fresh before_publish batch_id journal commit successful failures publication_started =
     andthen (validate_committed_journal gx repo (tw_show worker) journal) (\<lambda>_.
     andthen (if publication_started then finish ()
       else andthen (ensure_official_at gx repo (tj_base_commit journal)) (\<lambda>_.
         andthen (with_callback (before_publish commit)) (\<lambda>_.
           write_batch_journal gx (tw_show worker) fresh batch_id
             (journal\<lparr>tj_state := Committed commit successful failures True\<rparr>)))) (\<lambda>_.
       publish_committed gx repo (tw_externals worker) batch_id (tj_base_commit journal) commit True))"

definition resume_batch ::
  "'g git_externals \<Rightarrow> git_repository \<Rightarrow> transaction_worker \<Rightarrow> ulid \<Rightarrow>
   (string \<Rightarrow> ('x, unit) callback) \<Rightarrow> batch_id \<Rightarrow> transaction_journal \<Rightarrow> ('g, 'x, unit) transaction" where
  "resume_batch gx repo worker fresh before_publish batch_id journal =
     (case tj_state journal of
        Committed commit successful failures publication_started \<Rightarrow>
          recover_committed gx repo worker fresh before_publish batch_id journal commit successful failures publication_started
      | NoChanges failures \<Rightarrow>
          andthen (ensure_official_at gx repo (tj_base_commit journal)) (\<lambda>_.
          andthen (remove_worktree gx (tw_externals worker) repo batch_id) (\<lambda>_.
            remove_preparing_ref gx repo (tw_show worker) batch_id (tj_base_commit journal)))
      | Preparing \<Rightarrow> observe (\<lambda>_. Inl InvalidJournalState))"

definition recover_batch_with_publication ::
  "'g git_externals \<Rightarrow> git_repository \<Rightarrow> git_transaction_error + unit \<Rightarrow> transaction_worker \<Rightarrow> ulid \<Rightarrow>
   (string \<Rightarrow> ('x, unit) callback) \<Rightarrow> batch_id \<Rightarrow> ('g, 'x, batch_commit_outcome) transaction" where
  "recover_batch_with_publication gx repo locked worker fresh before_publish batch_id =
     andthen (lock_writer gx locked) (\<lambda>_.
     andthen (observe (\<lambda>_. ensure_transaction_ready worker)) (\<lambda>_.
     andthen (observe (\<lambda>w. ensure_no_other_journal (tw_show worker) batch_id (rw_journals w))) (\<lambda>_.
     andthen (require_journal gx worker batch_id) (\<lambda>journal.
     andthen (resume_batch gx repo worker fresh before_publish batch_id journal) (\<lambda>_.
     andthen (observe (live_storage gx)) (\<lambda>_.
       observe (\<lambda>_. outcome_from_journal journal)))))))"

text \<open>The release store is its answer to \<open>active_release\<close>.\<close>

definition ensure_published ::
  "'g git_externals \<Rightarrow> git_repository \<Rightarrow> string \<Rightarrow> string option \<Rightarrow> (git_transaction_error + string option) option \<Rightarrow>
   ('g, 'x, unit) transaction" where
  "ensure_published gx repo base commit release_store =
     (case (commit, release_store) of
        (Some commit, Some active_release) \<Rightarrow>
          andthen (observe (\<lambda>_. active_release)) (\<lambda>active.
          andthen (reject_if (active \<noteq> Some commit) PublicationIncomplete) (\<lambda>_.
          andthen (resolve_commit gx repo (gr_official_ref repo)) (\<lambda>actual.
            reject_if (actual \<noteq> commit) PublicationIncomplete)))
      | (None, None) \<Rightarrow>
          andthen (resolve_commit gx repo (gr_official_ref repo)) (\<lambda>actual.
            reject_if (actual \<noteq> base) PublicationIncomplete)
      | _ \<Rightarrow> observe (\<lambda>_. Inl PublicationIncomplete))"

definition finalize_batch ::
  "'g git_externals \<Rightarrow> git_repository \<Rightarrow> git_transaction_error + unit \<Rightarrow> transaction_worker \<Rightarrow> batch_id \<Rightarrow>
   batch_commit_outcome \<Rightarrow> batch_reconciliation \<Rightarrow> (git_transaction_error + string option) option \<Rightarrow> ('g, 'x, unit) transaction" where
  "finalize_batch gx repo locked worker batch_id outcome reconciliation release_store =
     andthen (lock_writer gx locked) (\<lambda>_.
     andthen (observe (\<lambda>_. ensure_transaction_ready worker)) (\<lambda>_.
     andthen (require_journal gx worker batch_id) (\<lambda>journal.
     andthen (case tj_state journal of
         Committed _ _ _ _ \<Rightarrow> validate_committed_journal gx repo (tw_show worker) journal | _ \<Rightarrow> finish ()) (\<lambda>_.
     andthen (observe (\<lambda>_. outcome_from_journal journal)) (\<lambda>journal_outcome.
     andthen (reject_if (journal_outcome \<noteq> outcome) JournalMismatch) (\<lambda>_.
     case outcome_parts outcome of (commit, successful, failures) \<Rightarrow>
     andthen (observe (\<lambda>_. worker_queue_identity worker)) (\<lambda>identity.
     andthen (reject_if (\<not> reconciliation_validates reconciliation identity batch_id successful failures) JournalMismatch) (\<lambda>_.
     andthen (ensure_published gx repo (tj_base_commit journal) commit release_store) (\<lambda>_.
     andthen (observe (\<lambda>w. path_exists (worktree_path (tw_show worker) batch_id) (gf_worktrees (rw_files w)))) (\<lambda>exists.
     andthen (reject_if exists InvalidJournalState) (\<lambda>_.
     andthen (resolve_optional_commit gx repo (transaction_ref (tw_show worker) batch_id)) (\<lambda>found.
     andthen (reject_if (found \<noteq> None) InvalidJournalState) (\<lambda>_.
       with_journals (remove_journal (journal_path (tw_show worker) batch_id)))))))))))))))"

datatype repository_transaction =
    TransactionPreparing batch_id nat
  | TransactionRecoverable batch_id nat

fun discover_from ::
  "journal_codec \<Rightarrow> transaction_worker \<Rightarrow> fs \<Rightarrow> string list \<Rightarrow> repository_transaction option \<Rightarrow>
   git_transaction_error + repository_transaction option" where
  "discover_from jx worker fs [] transaction = Inr transaction"
| "discover_from jx worker fs (name # names) transaction =
     (if \<not> is_utf8 name then Inl InvalidJournal
      else if \<not> suffix ''.json'' name then discover_from jx worker fs names transaction
      else
        let batch_text = take (length name - 5) name in
        attempt (map_err (\<lambda>_. InvalidJournal) (id_from_str (qx_ulid_parse (tw_externals worker)) (tw_show worker) batch_text)) (\<lambda>ulid.
          let batch_id = BatchId ulid in
          if batch_id_to_string (tw_show worker) batch_id \<noteq> batch_text \<or> transaction \<noteq> None then Inl UnfinishedTransaction
          else
            attempt (read_journal jx [name] fs) (\<lambda>stored.
            attempt (ok_or JournalMissing stored) (\<lambda>journal.
            attempt (validate_journal_structure journal batch_id) (\<lambda>_.
            attempt (validate_worker_identity journal worker) (\<lambda>_.
              discover_from jx worker fs names (Some
                (if tj_state journal = Preparing then TransactionPreparing batch_id (tj_claim_failures journal)
                 else TransactionRecoverable batch_id (tj_claim_failures journal)))))))))"

definition discover_unfinished_transaction ::
  "'g git_externals \<Rightarrow> git_transaction_error + unit \<Rightarrow> transaction_worker \<Rightarrow> bool \<Rightarrow>
   ('g, 'x, repository_transaction option) transaction" where
  "discover_unfinished_transaction gx locked worker require_transaction_ready =
     andthen (lock_writer gx locked) (\<lambda>_.
     andthen (observe (\<lambda>_. if require_transaction_ready then ensure_transaction_ready worker
       else attempt (worker_queue_identity worker) (\<lambda>_. Inr ()))) (\<lambda>_.
     andthen (observe (live_storage gx)) (\<lambda>_.
     andthen (observe (\<lambda>w. map_err GitIo (read_dir (rw_journals w) []))) (\<lambda>names.
       observe (\<lambda>w. discover_from (gx_journal gx) worker (rw_journals w) names None)))))"

end
