(* ===== verification/Git_Branch.thy ===== *)
theory Git_Branch
  imports Git_Transaction
begin

text \<open>
  The official branch during the calls of a repository. Given the documented behaviour of the three
  Git commands that move or read the branch, a call moves it only while the journal of its batch is in
  place and says so. Steps are sorted by what they may change: \<open>steady\<close> ones change neither
  the branch nor a journal, \<open>careful\<close> ones no branch, \<open>write_ahead\<close> ones move the branch
  only with its journal.
\<close>

section \<open>The official branch\<close>

text \<open>The commit of the official branch is an observation \<open>tip\<close> of what Git keeps. Only
  \<open>git update-ref\<close> with the current commit as the expected one and \<open>git reset --hard\<close> in the
  canonical worktree can move it; a successful \<open>update-ref\<close> has moved it; and
  \<open>git rev-parse\<close> prints it on one line.\<close>

definition official :: "('g \<Rightarrow> string) \<Rightarrow> ('g, 'x) repo_world \<Rightarrow> string" where
  "official tip w = tip (gf_git (rw_files w))"

definition official_moves :: "'g git_externals \<Rightarrow> git_repository \<Rightarrow> ('g \<Rightarrow> string) \<Rightarrow> bool" where
  "official_moves gx repo tip \<longleftrightarrow>
     (\<forall>call files r files'. gx_run gx call files = (r, files') \<longrightarrow>
        tip (gf_git files') = tip (gf_git files) \<or>
        gc_arguments call = [''update-ref'', gr_official_ref repo, tip (gf_git files'), tip (gf_git files)] \<or>
        gc_arguments call = [''reset'', ''--hard'', tip (gf_git files')])"

definition official_swaps :: "'g git_externals \<Rightarrow> git_repository \<Rightarrow> ('g \<Rightarrow> string) \<Rightarrow> bool" where
  "official_swaps gx repo tip \<longleftrightarrow>
     (\<forall>call files output files' commit expected. gx_run gx call files = (Inr output, files') \<longrightarrow> go_success output \<longrightarrow>
        gc_arguments call = [''update-ref'', gr_official_ref repo, commit, expected] \<longrightarrow> tip (gf_git files') = commit)"

definition official_reads :: "'g git_externals \<Rightarrow> git_repository \<Rightarrow> ('g \<Rightarrow> string) \<Rightarrow> bool" where
  "official_reads gx repo tip \<longleftrightarrow>
     (\<forall>call files output files'. gx_run gx call files = (Inr output, files') \<longrightarrow> go_success output \<longrightarrow>
        gc_arguments call = [''rev-parse'', ''--verify'', gr_official_ref repo @ ''^{commit}''] \<longrightarrow>
        valid_object_id (tip (gf_git files)) \<and> go_stdout output = tip (gf_git files) @ [lf])"

definition official_branch :: "'g git_externals \<Rightarrow> git_repository \<Rightarrow> ('g \<Rightarrow> string) \<Rightarrow> bool" where
  "official_branch gx repo tip \<longleftrightarrow> prefix ''refs/heads/'' (gr_official_ref repo) \<and>
     official_moves gx repo tip \<and> official_swaps gx repo tip \<and> official_reads gx repo tip"

section \<open>Steps that leave the branch and the journals alone\<close>

definition steady :: "('g \<Rightarrow> string) \<Rightarrow> ('g, 'x, 'a) transaction \<Rightarrow> bool" where
  "steady tip m \<longleftrightarrow>
     (\<forall>w r w'. m w = (r, w') \<longrightarrow> official tip w' = official tip w \<and> rw_journals w' = rw_journals w)"

named_theorems steady_intros \<open>steps that leave the official branch and the journals alone\<close>

lemma steadyD: "steady tip m \<Longrightarrow> m w = (r, w') \<Longrightarrow> official tip w' = official tip w \<and> rw_journals w' = rw_journals w"
  by (simp add: steady_def)

lemma andthen_cases:
  assumes "andthen m k w = (r, w')"
  obtains (stopped) e where "m w = (Inl e, w')" "r = Inl e" | (went) x w1 where "m w = (Inr x, w1)" "k x w1 = (r, w')"
  using assms by (auto simp: andthen_def split: prod.split_asm sum.split_asm)

lemma andthen_assoc: "andthen (andthen m k) h = andthen m (\<lambda>x. andthen (k x) h)"
  by (rule ext) (simp add: andthen_def split: prod.split sum.split)

lemma andthen_finish: "andthen (finish x) k = k x"
  by (rule ext) (simp add: andthen_def finish_def)

lemma steady_then:
  assumes "steady tip m" and "andthen m k w = (r, w')"
  obtains (stopped) e where "m w = (Inl e, w')" "r = Inl e" "official tip w' = official tip w" "rw_journals w' = rw_journals w"
  | (went) x w1 where "m w = (Inr x, w1)" "official tip w1 = official tip w" "rw_journals w1 = rw_journals w" "k x w1 = (r, w')"
  using assms(2) steadyD [OF assms(1)] by (elim andthen_cases) blast+

lemma steady_simple [steady_intros]: "steady tip (finish x)" "steady tip (observe f)" "steady tip (reject_if b e)"
  by (auto simp: steady_def finish_def observe_def reject_if_def)

lemma steady_andthen [steady_intros]: "steady tip m \<Longrightarrow> (\<And>x. steady tip (k x)) \<Longrightarrow> steady tip (andthen m k)"
  unfolding steady_def andthen_def by (fastforce split: prod.split_asm sum.split_asm)

lemma steady_or_else [steady_intros]: "steady tip m \<Longrightarrow> (\<And>e. steady tip (h e)) \<Longrightarrow> steady tip (or_else m h)"
  unfolding steady_def or_else_def by (fastforce split: prod.split_asm sum.split_asm)

lemma steady_act_each [steady_intros]: "(\<And>x. steady tip (f x)) \<Longrightarrow> steady tip (act_each f xs)"
  by (induction xs) (auto intro!: steady_intros)

lemma steady_worktrees [steady_intros]: "steady tip (with_worktrees m)"
  by (auto simp: steady_def with_worktrees_def with_files_def official_def split: prod.split_asm)

lemma steady_callback [steady_intros]: "steady tip (with_callback m)"
  by (auto simp: steady_def with_callback_def official_def split: prod.split_asm)

lemma steady_branches [steady_intros]:
  "steady tip m \<Longrightarrow> steady tip m' \<Longrightarrow> steady tip (if b then m else m')"
  "steady tip m \<Longrightarrow> (\<And>x. steady tip (k x)) \<Longrightarrow> steady tip (case y of None \<Rightarrow> m | Some x \<Rightarrow> k x)"
  "(\<And>a. steady tip (f a)) \<Longrightarrow> (\<And>b. steady tip (g b)) \<Longrightarrow> steady tip (case z of Inl a \<Rightarrow> f a | Inr b \<Rightarrow> g b)"
  "steady tip p \<Longrightarrow> (\<And>fs. steady tip (n fs)) \<Longrightarrow> (\<And>c ss fs b. steady tip (k' c ss fs b)) \<Longrightarrow>
     steady tip (case s of Preparing \<Rightarrow> p | NoChanges fs \<Rightarrow> n fs | Committed c ss fs b \<Rightarrow> k' c ss fs b)"
  "(\<And>a b. steady tip (f2 a b)) \<Longrightarrow> steady tip (case p2 of (a, b) \<Rightarrow> f2 a b)"
  by (auto split: option.split sum.split journal_state.split prod.split)

definition quiet_arguments :: "git_repository \<Rightarrow> string list \<Rightarrow> bool" where
  "quiet_arguments repo arguments \<longleftrightarrow>
     (\<forall>commit expected. arguments \<noteq> [''update-ref'', gr_official_ref repo, commit, expected]) \<and>
     (\<forall>commit. arguments \<noteq> [''reset'', ''--hard'', commit])"

lemma steady_git_process [steady_intros]:
  "official_branch gx repo tip \<Longrightarrow> quiet_arguments repo (gc_arguments call) \<Longrightarrow> steady tip (git_process gx call)"
  unfolding steady_def git_process_def with_files_def official_branch_def official_moves_def quiet_arguments_def official_def
  by (fastforce split: prod.split_asm)

lemma steady_run_git [steady_intros]:
  assumes "official_branch gx repo tip" and "quiet_arguments repo arguments"
  shows "steady tip (run_git_with_input_and_environment gx wd gd arguments input environment)"
    and "steady tip (run_git gx wd gd arguments)"
  unfolding run_git_def run_git_with_input_and_environment_def using assms by (auto intro!: steady_intros)

lemma official_ref_apart:
  assumes "official_branch gx repo tip"
  shows "gr_official_ref repo \<noteq> transaction_ref show_id batch_id" and "gr_official_ref repo \<noteq> ''-d''"
  using assms by (auto simp: official_branch_def transaction_ref_def prefix_def)

lemma steady_reads [steady_intros]:
  assumes b: "official_branch gx repo tip"
  shows "steady tip (resolve_commit gx repo revision)"
    and "steady tip (resolve_optional_commit gx repo revision)"
    and "steady tip (resolve_in_worktree gx worktree revision)"
    and "steady tip (commit_parents gx repo commit)"
    and "steady tip (ensure_transaction_ref gx repo show_id batch_id commit)"
    and "steady tip (is_registered_worktree gx repo worktree)"
    and "steady tip (untracked_files gx worktree)"
    and "steady tip (resolve_tree_path gx repo tree path)"
    and "steady tip (hash_worktree_file gx worktree path)"
    and "steady tip (ensure_canonical_clean gx repo)"
    and "steady tip (validate_committed_journal gx repo show_id journal)"
    and "steady tip (ensure_official_at gx repo base)"
    and "steady tip (stage_stats gx worktree base moves)"
  unfolding resolve_commit_def resolve_optional_commit_def resolve_in_worktree_def commit_parents_def
    ensure_transaction_ref_def is_registered_worktree_def untracked_files_def resolve_tree_path_def hash_worktree_file_def
    ensure_canonical_clean_def validate_committed_journal_def ensure_official_at_def stage_stats_def Let_def
  by (rule steady_intros b | simp add: quiet_arguments_def)+

lemma steady_changes [steady_intros]:
  assumes b: "official_branch gx repo tip"
  shows "steady tip (create_transaction_ref gx repo show_id batch_id commit)"
    and "steady tip (remove_transaction_ref gx repo show_id batch_id expected)"
    and "steady tip (reset_worktree gx worktree tree)"
    and "steady tip (commit_tree gx repo tree base message)"
    and "steady tip (apply_to_worktree gx worker policy package_policy path claim)"
    and "steady tip (handle_failed_worktree_removal gx wx repo path worktree e)"
    and "steady tip (ensure_prepared_worktree_unchanged gx worktree tree)"
    and "steady tip (ensure_canonical_repairable gx repo base)"
  unfolding create_transaction_ref_def remove_transaction_ref_def reset_worktree_def commit_tree_def
    handle_failed_worktree_removal_def ensure_prepared_worktree_unchanged_def ensure_canonical_repairable_def
    apply_to_worktree_def
  by (rule steady_intros b | simp add: quiet_arguments_def official_ref_apart [OF b, symmetric])+

lemma steady_cleanup [steady_intros]:
  assumes b: "official_branch gx repo tip"
  shows "steady tip (remove_preparing_ref gx repo show_id batch_id base)"
    and "steady tip (remove_worktree gx wx repo batch_id)"
    and "steady tip (stage_success gx worktree token moves prepared)"
    and "steady tip (stage_failure gx worktree token error prepared)"
  unfolding remove_preparing_ref_def remove_worktree_def stage_success_def stage_failure_def Let_def
  by (rule steady_intros b | simp add: quiet_arguments_def)+

lemma steady_apply [steady_intros]:
  assumes b: "official_branch gx repo tip"
  shows "steady tip (apply_claims gx repo worker policy package_policy batch_id claims prepared)"
    and "steady tip (apply_in_worktree gx repo worker policy package_policy batch_id claims)"
proof -
  show c: "steady tip (apply_claims gx repo worker policy package_policy batch_id claims prepared)" for prepared
    by (induction claims arbitrary: prepared) (simp, (rule steady_intros b | assumption)+)+
  show "steady tip (apply_in_worktree gx repo worker policy package_policy batch_id claims)"
    unfolding apply_in_worktree_def by (rule steady_intros b c)+
qed

section \<open>Publication\<close>

lemma git_process_run:
  assumes "git_process gx call w = (r, w')"
  shows "\<exists>r0 files. gx_run gx call (rw_files w) = (r0, files) \<and> map_err GitIo r0 = r \<and> w' = w\<lparr>rw_files := files\<rparr>"
  using assms by (auto simp: git_process_def with_files_def split: prod.split_asm)

lemma resolve_official:
  assumes b: "official_branch gx repo tip" and run: "resolve_commit gx repo (gr_official_ref repo) w = (Inr x, w')"
  shows "x = official tip w"
proof -
  let ?args = "[''rev-parse'', ''--verify'', gr_official_ref repo @ ''^{commit}'']"
  from run obtain out w1 where o: "run_git gx None (Some (gr_git_directory repo)) ?args w = (Inr out, w1)"
    "parse_object_id (go_stdout out) = Inr x"
    by (auto simp: resolve_commit_def observe_def elim!: andthen_cases)
  then obtain call files where "gx_run gx call (rw_files w) = (Inr out, files)" "gc_arguments call = ?args" "go_success out"
    by (auto simp: run_git_def run_git_with_input_and_environment_def observe_def elim!: andthen_cases
        dest!: git_process_run split: if_split_asm)
  with b have "valid_object_id (official tip w)" "go_stdout out = official tip w @ [lf]"
    unfolding official_branch_def official_reads_def official_def by blast+
  with o(2) parse_object_id_line [of "official tip w"] show ?thesis by simp
qed

lemma swap_official:
  assumes b: "official_branch gx repo tip" and run: "compare_and_swap_official gx repo expected commit w = (r, w')"
  shows "rw_journals w' = rw_journals w \<and>
    (official tip w' = official tip w \<and> r \<noteq> Inr () \<or> official tip w = expected \<and> official tip w' = commit \<or>
     official tip w' = official tip w \<and> official tip w' = commit)"
proof -
  let ?call = "\<lparr>gc_environment = None, gc_options = [git_directory_argument (gr_git_directory repo)],
    gc_arguments = [''update-ref'', gr_official_ref repo, commit, expected], gc_input = []\<rparr>"
  obtain r0 files where g: "gx_run gx ?call (rw_files w) = (r0, files)" by (metis surj_pair)
  have p: "git_process gx ?call w = (map_err GitIo r0, w\<lparr>rw_files := files\<rparr>)"
    by (simp add: git_process_def with_files_def g)
  have moved: "official tip (w\<lparr>rw_files := files\<rparr>) = official tip w \<or>
      official tip w = expected \<and> official tip (w\<lparr>rw_files := files\<rparr>) = commit"
    using b g unfolding official_branch_def official_moves_def official_def by fastforce
  show ?thesis
  proof (cases r0)
    case (Inl e)
    with run p moved show ?thesis by (auto simp: compare_and_swap_official_def andthen_def Let_def)
  next
    case (Inr out)
    show ?thesis
    proof (cases "go_success out")
      case True
      with b g Inr have "official tip (w\<lparr>rw_files := files\<rparr>) = commit"
        unfolding official_branch_def official_swaps_def official_def by (auto dest!: spec)
      with run p Inr True moved show ?thesis by (auto simp: compare_and_swap_official_def andthen_def finish_def Let_def)
    next
      case False
      let ?rest = "andthen (resolve_commit gx repo (gr_official_ref repo)) (\<lambda>actual.
         observe (\<lambda>_. Inl (if actual \<noteq> expected then OfficialBranchChanged expected actual
           else GitCommand [''update-ref'', gr_official_ref repo, commit, expected] (diagnostic (go_stderr out)))))"
      from run p Inr False have rest: "?rest (w\<lparr>rw_files := files\<rparr>) = (r, w')"
        by (simp add: compare_and_swap_official_def andthen_def [of "git_process gx ?call"] Let_def)
      have "steady tip ?rest" by (rule steady_intros b)+
      from steadyD [OF this rest] have "official tip w' = official tip (w\<lparr>rw_files := files\<rparr>)" "rw_journals w' = rw_journals w"
        by simp_all
      moreover have "r \<noteq> Inr ()" using rest by (auto simp: observe_def elim!: andthen_cases)
      ultimately show ?thesis using moved by auto
    qed
  qed
qed

lemma sync_official:
  assumes b: "official_branch gx repo tip" and run: "sync_canonical gx repo commit w = (r, w')"
  shows "rw_journals w' = rw_journals w \<and> official tip w' \<in> {official tip w, commit}"
proof -
  let ?reset = "run_git gx (Some (gr_canonical_worktree repo)) None [''reset'', ''--hard'', commit]"
  have reset: "rw_journals w1 = rw_journals w \<and> official tip w1 \<in> {official tip w, commit}" if "?reset w = (r1, w1)" for r1 w1
    using that b unfolding official_branch_def official_moves_def official_def
    by (fastforce simp: run_git_def run_git_with_input_and_environment_def observe_def elim!: andthen_cases dest!: git_process_run)
  let ?rest = "\<lambda>_. andthen (run_git gx (Some (gr_canonical_worktree repo)) None [''clean'', ''-d'', ''-f'', ''-x'']) (\<lambda>_.
    observe (\<lambda>w. sync_tree (gf_canonical (rw_files w)) []))"
  have rest: "steady tip (?rest x)" for x :: git_output by (rule steady_intros b | simp add: quiet_arguments_def)+
  from run obtain r1 where "andthen ?reset ?rest w = (r1, w')"
    by (auto simp: sync_canonical_def split: prod.split_asm)
  then show ?thesis
  proof (cases rule: andthen_cases)
    case (went x w1)
    then show ?thesis using reset [OF went(1)] steadyD [OF rest went(2)] by simp
  qed (use reset in blast)
qed

lemma checked_swap:
  assumes b: "official_branch gx repo tip" and "steady tip m"
    and run: "andthen m (\<lambda>_. compare_and_swap_official gx repo base commit) w = (r, w')"
  shows "rw_journals w' = rw_journals w \<and>
    (official tip w' = official tip w \<or> official tip w = base \<and> official tip w' = commit) \<and>
    (r = Inr () \<longrightarrow> official tip w' = commit)"
  using assms(2) run
proof (cases rule: steady_then)
  case (went x w1)
  then show ?thesis using swap_official [OF b went(4)] by auto
qed simp

lemma publish_moves:
  assumes b: "official_branch gx repo tip" and run: "publish_committed gx repo wx batch_id base commit started w = (r, w')"
  shows "rw_journals w' = rw_journals w \<and>
    (official tip w' = official tip w \<or> official tip w = base \<and> official tip w' = commit) \<and>
    (r = Inr () \<longrightarrow> official tip w' = commit)"
proof -
  let ?front = "andthen (observe (live_storage gx)) (\<lambda>_. andthen (observe (\<lambda>_. map_err GitIo (gx_canonical_lock gx))) (\<lambda>_.
    resolve_commit gx repo (gr_official_ref repo)))"
  let ?clean = "andthen (or_else (andthen (remove_worktree gx wx repo batch_id) (\<lambda>_.
      remove_transaction_ref gx repo (show_ulid wx) batch_id (Some commit)))
    (\<lambda>source. observe (\<lambda>_. Inl (PostCommitCleanup commit source)))) (\<lambda>_. observe (live_storage gx))"
  let ?check = "andthen (ensure_canonical_clean gx repo) (\<lambda>_.
    andthen (ensure_transaction_ref gx repo (show_ulid wx) batch_id commit) (\<lambda>_. observe (live_storage gx)))"
  let ?body = "\<lambda>actual. if actual = base then andthen ?check (\<lambda>_. compare_and_swap_official gx repo base commit)
    else if actual \<noteq> commit then observe (\<lambda>_. Inl (OfficialBranchChanged base actual))
    else if started then ensure_canonical_repairable gx repo base else observe (\<lambda>_. Inl JournalMismatch)"
  have steady: "steady tip ?front" "steady tip ?clean" "steady tip ?check" "steady tip (ensure_canonical_repairable gx repo base)"
    by (rule steady_intros b)+
  have run': "andthen ?front (\<lambda>actual. andthen (?body actual) (\<lambda>_. andthen (sync_canonical gx repo commit) (\<lambda>_. ?clean))) w = (r, w')"
    using run unfolding publish_committed_def andthen_assoc .
  from steady(1) run' show ?thesis
  proof (cases rule: steady_then)
    case (went actual w1)
    have actual: "actual = official tip w"
      using went(1) resolve_official [OF b] by (auto simp: observe_def elim!: andthen_cases)
    have body: "rw_journals w2 = rw_journals w1 \<and> (official tip w2 = official tip w \<or> official tip w = base \<and> official tip w2 = commit) \<and>
        (r2 = Inr () \<longrightarrow> official tip w2 = commit)" if "?body actual w1 = (r2, w2)" for r2 w2
      using that checked_swap [OF b steady(3), of base commit w1 r2 w2] steadyD [OF steady(4), of w1 r2 w2] actual went(2)
      by (auto simp: observe_def split: if_split_asm)
    from went(4) show ?thesis
    proof (cases rule: andthen_cases)
      case (stopped e)
      then show ?thesis using body [OF stopped(1)] went by auto
    next
      case body_done: (went x w2)
      then have at: "official tip w2 = commit" "rw_journals w2 = rw_journals w" using body [OF body_done(1)] went by auto
      have "rw_journals w' = rw_journals w \<and> official tip w' = commit"
        using body_done(2)
      proof (cases rule: andthen_cases)
        case (stopped e)
        then show ?thesis using sync_official [OF b stopped(1)] at by simp
      next
        case synced: (went y w3)
        then show ?thesis using sync_official [OF b synced(1)] steadyD [OF steady(2) synced(2)] at by simp
      qed
      then show ?thesis using at body [OF body_done(1)] by auto
    qed
  qed simp
qed

section \<open>Write-ahead journals\<close>

text \<open>Steps that may change journals but not the branch, and steps that move the branch only with the
  journal of the batch in place: its base is the old commit, its commit the new one, and it is marked
  as started.\<close>

definition careful :: "('g \<Rightarrow> string) \<Rightarrow> ('g, 'x, 'a) transaction \<Rightarrow> bool" where
  "careful tip m \<longleftrightarrow>
     (\<forall>w r w'. m w = (r, w') \<longrightarrow> wf_fs (rw_journals w) \<longrightarrow> official tip w' = official tip w \<and> wf_fs (rw_journals w'))"

definition logged ::
  "'g git_externals \<Rightarrow> (ulid \<Rightarrow> string) \<Rightarrow> ('g \<Rightarrow> string) \<Rightarrow> batch_id \<Rightarrow> ('g, 'x) repo_world \<Rightarrow> ('g, 'x) repo_world \<Rightarrow> bool" where
  "logged gx show_id tip batch_id w w' \<longleftrightarrow> official tip w' = official tip w \<or>
     (\<exists>journal successful failures.
        read_journal (gx_journal gx) (journal_path show_id batch_id) (rw_journals w') = Inr (Some journal) \<and>
        tj_base_commit journal = official tip w \<and> tj_state journal = Committed (official tip w') successful failures True)"

definition write_ahead ::
  "'g git_externals \<Rightarrow> (ulid \<Rightarrow> string) \<Rightarrow> ('g \<Rightarrow> string) \<Rightarrow> batch_id \<Rightarrow> ('g, 'x, 'a) transaction \<Rightarrow> bool" where
  "write_ahead gx show_id tip batch_id m \<longleftrightarrow>
     (\<forall>w r w'. m w = (r, w') \<longrightarrow> wf_fs (rw_journals w) \<longrightarrow> logged gx show_id tip batch_id w w')"

named_theorems careful_intros \<open>steps that leave the official branch alone\<close>

lemma carefulD:
  "careful tip m \<Longrightarrow> m w = (r, w') \<Longrightarrow> wf_fs (rw_journals w) \<Longrightarrow> official tip w' = official tip w \<and> wf_fs (rw_journals w')"
  by (simp add: careful_def)

lemma careful_steady: "steady tip m \<Longrightarrow> careful tip m"
  by (simp add: steady_def careful_def)

lemma careful_andthen [careful_intros]: "careful tip m \<Longrightarrow> (\<And>x. careful tip (k x)) \<Longrightarrow> careful tip (andthen m k)"
  unfolding careful_def andthen_def by (fastforce split: prod.split_asm sum.split_asm)

lemma careful_branches [careful_intros]:
  "careful tip m \<Longrightarrow> careful tip m' \<Longrightarrow> careful tip (if b then m else m')"
  "careful tip m \<Longrightarrow> (\<And>x. careful tip (k x)) \<Longrightarrow> careful tip (case y of None \<Rightarrow> m | Some x \<Rightarrow> k x)"
  "(\<And>a b. careful tip (f a b)) \<Longrightarrow> careful tip (case p of (a, b) \<Rightarrow> f a b)"
  by (auto split: option.split prod.split)

lemma write_journal_wf: "wf_fs fs \<Longrightarrow> wf_fs (snd (write_journal show_id jx fresh (journal_path show_id batch_id) journal fs))"
  using write_journal_file [of fs show_id jx fresh "batch_id_to_string show_id batch_id" journal]
  by (cases "write_journal show_id jx fresh (journal_path show_id batch_id) journal fs") (simp add: journal_path_def)

lemma remove_journal_wf: "wf_fs fs \<Longrightarrow> wf_fs (snd (remove_journal p fs))"
  using remove_file_step.run_wf [of fs p]
  by (auto simp: remove_journal_def andthen_def perform_def observe_def split: sum.split)

lemma careful_with_journals: "(\<And>fs. wf_fs fs \<Longrightarrow> wf_fs (snd (m fs))) \<Longrightarrow> careful tip (with_journals m)"
  unfolding careful_def with_journals_def official_def by (auto split: prod.split_asm) (metis snd_conv)

lemma careful_journals [careful_intros]:
  "careful tip (write_batch_journal gx show_id fresh batch_id journal)"
  "careful tip (with_journals (remove_journal p))"
  unfolding write_batch_journal_def
  by (rule careful_with_journals, erule write_journal_wf, rule careful_with_journals, erule remove_journal_wf)

lemma write_ahead_careful: "careful tip m \<Longrightarrow> write_ahead gx show_id tip batch_id m"
  by (auto simp: careful_def write_ahead_def logged_def)

lemma write_ahead_then:
  assumes m: "careful tip m" and p: "\<And>x w w1. m w = (Inr x, w1) \<Longrightarrow> P x"
    and k: "\<And>x. P x \<Longrightarrow> write_ahead gx show_id tip batch_id (k x)"
  shows "write_ahead gx show_id tip batch_id (andthen m k)"
  unfolding write_ahead_def
proof (intro allI impI)
  fix w r w'
  assume "andthen m k w = (r, w')" and wf: "wf_fs (rw_journals w)"
  from this(1) show "logged gx show_id tip batch_id w w'"
  proof (cases rule: andthen_cases)
    case (stopped e)
    then show ?thesis using m wf by (auto simp: careful_def logged_def)
  next
    case (went x w1)
    then have same: "official tip w1 = official tip w" "wf_fs (rw_journals w1)" using m wf by (auto simp: careful_def)
    then have "logged gx show_id tip batch_id w1 w'" using k [OF p [OF went(1)]] went(2) by (auto simp: write_ahead_def)
    with same show ?thesis by (simp add: logged_def)
  qed
qed

lemma write_ahead_andthen:
  "careful tip m \<Longrightarrow> (\<And>x. write_ahead gx show_id tip batch_id (k x)) \<Longrightarrow> write_ahead gx show_id tip batch_id (andthen m k)"
  by (rule write_ahead_then [where P = "\<lambda>_. True"]) simp_all

lemma write_ahead_if:
  "write_ahead gx show_id tip batch_id m \<Longrightarrow> write_ahead gx show_id tip batch_id m' \<Longrightarrow>
   write_ahead gx show_id tip batch_id (if b then m else m')"
  by simp

lemma publish_with_journal:
  assumes b: "official_branch gx repo tip" and k: "\<And>x. steady tip (k x)"
    and run: "andthen (publish_committed gx repo wx batch_id (tj_base_commit journal) commit started) k w = (r, w')"
    and journal: "read_journal (gx_journal gx) (journal_path show_id batch_id) (rw_journals w) = Inr (Some journal)"
    and state: "tj_state journal = Committed commit successful failures True"
  shows "logged gx show_id tip batch_id w w'"
  using run
proof (cases rule: andthen_cases)
  case (stopped e)
  then show ?thesis using publish_moves [OF b stopped(1)] journal state by (auto simp: logged_def)
next
  case (went x w1)
  then show ?thesis using publish_moves [OF b went(1)] steadyD [OF k went(2)] journal state by (auto simp: logged_def)
qed

lemma write_ahead_publish:
  assumes b: "official_branch gx repo tip" and c: "journal_codec_ok (gx_journal gx)" and k: "\<And>x. steady tip (k x)"
    and version: "tj_schema_version journal = JOURNAL_SCHEMA_VERSION"
    and state: "tj_state journal = Committed commit successful failures True" and base: "base = tj_base_commit journal"
  shows "write_ahead gx show_id tip batch_id (andthen (write_batch_journal gx show_id fresh batch_id journal) (\<lambda>_.
    andthen (publish_committed gx repo wx batch_id base commit started) k))"
  unfolding write_ahead_def
proof (intro allI impI)
  fix w r w'
  assume run: "andthen (write_batch_journal gx show_id fresh batch_id journal) (\<lambda>_.
    andthen (publish_committed gx repo wx batch_id base commit started) k) w = (r, w')" and wf: "wf_fs (rw_journals w)"
  from run show "logged gx show_id tip batch_id w w'"
  proof (cases rule: andthen_cases)
    case (stopped e)
    then show ?thesis using carefulD [OF careful_journals(1) stopped(1) wf] by (simp add: logged_def)
  next
    case (went x w1)
    then have "read_journal (gx_journal gx) (journal_path show_id batch_id) (rw_journals w1) = Inr (Some journal)"
      using write_journal_reads(2) [OF wf c version]
      by (auto simp: write_batch_journal_def with_journals_def journal_path_def split: prod.split_asm)
    from publish_with_journal [OF b k went(2) [unfolded base] this state] carefulD [OF careful_journals(1) went(1) wf]
    show ?thesis by (simp add: logged_def)
  qed
qed

section \<open>The calls\<close>

lemma careful_restart [careful_intros]:
  assumes b: "official_branch gx repo tip"
  shows "careful tip (discard_preparing gx repo worker batch_id journal)"
    and "careful tip (restart_preparing gx repo worker batch_id claims claim_failures stored)"
    and "careful tip (read_batch_journal gx show_id batch_id)" and "careful tip (lock_writer gx locked)"
    and "careful tip (require_journal gx worker batch_id)"
  unfolding discard_preparing_def restart_preparing_def read_batch_journal_def lock_writer_def require_journal_def
  by (rule careful_intros | rule careful_steady | rule steady_intros b)+

lemma write_ahead_commit:
  assumes b: "official_branch gx repo tip" and c: "journal_codec_ok (gx_journal gx)"
    and version: "tj_schema_version preparing = JOURNAL_SCHEMA_VERSION"
  shows "write_ahead gx (tw_show worker) tip batch_id
    (conclude_with_commit gx repo worker fresh trial_build before_publish batch_id claims preparing prepared)"
  unfolding conclude_with_commit_def Let_def committed_state_def
  by (rule write_ahead_publish [OF b c] write_ahead_andthen careful_intros | rule careful_steady | rule steady_intros b |
      simp add: version quiet_arguments_def)+

lemma careful_begin [careful_intros]:
  assumes b: "official_branch gx repo tip"
  shows "careful tip (begin_batch gx repo locked worker batch_id claims claim_failures)"
  unfolding begin_batch_def
  by (rule careful_intros b | rule careful_steady | rule steady_intros b)+

lemma begin_batch_result:
  assumes "begin_batch gx repo locked worker batch_id claims claim_failures w = (Inr preparing, w')"
  shows "tj_schema_version preparing = JOURNAL_SCHEMA_VERSION \<and> tj_batch_id preparing = batch_id \<and>
    tj_claims preparing = journal_claims claims \<and> validate_batch_claims worker batch_id claims = Inr ()"
  using assms by (auto simp: begin_batch_def action_Inr_iffs)

lemma write_ahead_apply:
  assumes b: "official_branch gx repo tip" and c: "journal_codec_ok (gx_journal gx)"
  shows "write_ahead gx (tw_show worker) tip batch_id
    (apply_batch_with_hook gx repo locked worker fresh trial_build before_publish policy package_policy batch_id claims claim_failures)"
  unfolding apply_batch_with_hook_def conclude_without_changes_def
  by (rule write_ahead_then [OF careful_begin [OF b] conjunct1 [OF begin_batch_result]], assumption)
    (rule write_ahead_andthen write_ahead_if write_ahead_commit [OF b c] careful_intros b | assumption | rule write_ahead_careful |
      rule careful_steady | rule steady_intros b | simp add: quiet_arguments_def)+

lemma careful_calls:
  assumes b: "official_branch gx repo tip"
  shows "careful tip (abort_preparing_batch gx repo locked worker batch_id claims)"
    and "careful tip (finalize_batch gx repo locked worker batch_id outcome reconciliation release_store)"
    and "careful tip (discover_unfinished_transaction gx locked worker ready)"
  unfolding abort_preparing_batch_def finalize_batch_def discover_unfinished_transaction_def ensure_published_def
  by (rule careful_intros b | rule careful_steady | rule steady_intros b)+

lemma require_journal_reads:
  assumes "require_journal gx worker batch_id w = (Inr journal, w')"
  shows "w' = w" and "read_journal (gx_journal gx) (journal_path (tw_show worker) batch_id) (rw_journals w) = Inr (Some journal)"
    and "validate_journal_structure journal batch_id = Inr ()"
  using assms
  by (auto simp: require_journal_def read_batch_journal_def observe_def finish_def ok_or_def elim!: andthen_cases
      split: option.split_asm)

lemma write_batch_journal_reads:
  assumes wf: "wf_fs (rw_journals w)" and c: "journal_codec_ok (gx_journal gx)"
    and version: "tj_schema_version journal = JOURNAL_SCHEMA_VERSION"
    and run: "write_batch_journal gx show_id fresh batch_id journal w = (Inr x, w')"
  shows "read_journal (gx_journal gx) (journal_path show_id batch_id) (rw_journals w') = Inr (Some journal)"
    and "wf_fs (rw_journals w')" and "rw_files w' = rw_files w"
  using run write_journal_reads [OF wf c version]
  by (auto simp: write_batch_journal_def with_journals_def journal_path_def split: prod.split_asm)

lemma recover_committed_logged:
  assumes b: "official_branch gx repo tip" and c: "journal_codec_ok (gx_journal gx)" and wf: "wf_fs (rw_journals w)"
    and run: "recover_committed gx repo worker fresh before_publish batch_id journal commit successful failures started w = (r, w')"
    and journal: "read_journal (gx_journal gx) (journal_path (tw_show worker) batch_id) (rw_journals w) = Inr (Some journal)"
    and state: "tj_state journal = Committed commit successful failures started"
    and version: "tj_schema_version journal = JOURNAL_SCHEMA_VERSION"
  shows "logged gx (tw_show worker) tip batch_id w w' \<and> (r = Inr () \<longrightarrow> official tip w' = commit \<and>
    read_journal (gx_journal gx) (journal_path (tw_show worker) batch_id) (rw_journals w') =
      Inr (Some (journal\<lparr>tj_state := Committed commit successful failures True\<rparr>)))"
proof -
  let ?j = "journal\<lparr>tj_state := Committed commit successful failures True\<rparr>"
  let ?read = "\<lambda>w. read_journal (gx_journal gx) (journal_path (tw_show worker) batch_id) (rw_journals w)"
  let ?publish = "publish_committed gx repo (tw_externals worker) batch_id (tj_base_commit journal) commit True"
  have final: ?thesis if "official tip w1 = official tip w" "?read w1 = Inr (Some ?j)" "?publish w1 = (r, w')" for w1
    using publish_moves [OF b that(3)] that by (auto simp: logged_def)
  let ?check = "validate_committed_journal gx repo (tw_show worker) journal"
  show ?thesis
  proof (cases started)
    case True
    then have "?j = journal" using state by simp
    from run True have "andthen ?check (\<lambda>_. ?publish) w = (r, w')"
      by (simp add: recover_committed_def andthen_finish)
    with steady_reads(11) [OF b] show ?thesis
    proof (cases rule: steady_then)
      case (went x w1)
      then show ?thesis using final [of w1] journal \<open>?j = journal\<close> by simp
    qed (simp add: logged_def)
  next
    case False
    let ?front = "andthen ?check (\<lambda>_. andthen (ensure_official_at gx repo (tj_base_commit journal)) (\<lambda>_. with_callback (before_publish commit)))"
    let ?put = "write_batch_journal gx (tw_show worker) fresh batch_id ?j"
    have front: "steady tip ?front" by (rule steady_intros b)+
    from run False have "andthen ?front (\<lambda>_. andthen ?put (\<lambda>_. ?publish)) w = (r, w')"
      by (simp add: recover_committed_def andthen_assoc)
    with front show ?thesis
    proof (cases rule: steady_then)
      case (went x w1)
      from went(4) show ?thesis
      proof (cases rule: andthen_cases)
        case (stopped e)
        then show ?thesis using carefulD [OF careful_journals(1) stopped(1)] wf went by (simp add: logged_def)
      next
        case written: (went y w2)
        have "?read w2 = Inr (Some ?j)" "rw_files w2 = rw_files w1"
          using write_batch_journal_reads [OF _ c _ written(1)] wf version went(3) by simp_all
        with final [of w2] written(2) went(2) show ?thesis by (simp add: official_def)
      qed
    qed (simp add: logged_def)
  qed
qed

text \<open>The journal a recovery works from, and what is left to do.\<close>

lemma recover_cases:
  assumes "recover_batch_with_publication gx repo locked worker fresh before_publish batch_id w = (r, w')"
  obtains (stopped) e where "r = Inl e" "w' = w"
  | (went) journal where
    "read_journal (gx_journal gx) (journal_path (tw_show worker) batch_id) (rw_journals w) = Inr (Some journal)"
    "validate_journal_structure journal batch_id = Inr ()"
    "andthen (resume_batch gx repo worker fresh before_publish batch_id journal) (\<lambda>_.
     andthen (observe (live_storage gx)) (\<lambda>_. observe (\<lambda>_. outcome_from_journal journal))) w = (r, w')"
proof -
  let ?front = "andthen (lock_writer gx locked) (\<lambda>_. andthen (observe (\<lambda>_. ensure_transaction_ready worker)) (\<lambda>_.
    andthen (observe (\<lambda>w. ensure_no_other_journal (tw_show worker) batch_id (rw_journals w))) (\<lambda>_.
      require_journal gx worker batch_id)))"
  let ?rest = "\<lambda>journal. andthen (resume_batch gx repo worker fresh before_publish batch_id journal) (\<lambda>_.
     andthen (observe (live_storage gx)) (\<lambda>_. observe (\<lambda>_. outcome_from_journal journal)))"
  have unchanged: "w1 = w" if "?front w = (r1, w1)" for r1 w1
    using that unfolding lock_writer_def require_journal_def read_batch_journal_def
    by (auto simp: observe_def finish_def elim!: andthen_cases)
  have "andthen ?front ?rest w = (r, w')"
    using assms unfolding recover_batch_with_publication_def andthen_assoc .
  then show ?thesis
  proof (cases rule: andthen_cases)
    case (stopped e)
    then show ?thesis using unchanged that(1) by blast
  next
    case run: (went journal w1)
    then have w1: "w1 = w" using unchanged by blast
    obtain w0 where r: "require_journal gx worker batch_id w0 = (Inr journal, w1)" and "w0 = w"
      using run(1) unfolding lock_writer_def by (auto simp: observe_def elim!: andthen_cases)
    with require_journal_reads [OF r] that(2) [of journal] run(2) w1 show ?thesis by simp
  qed
qed

lemma ensure_official_at_reads:
  assumes b: "official_branch gx repo tip" and "ensure_official_at gx repo base w = (Inr x, w')"
  shows "official tip w = base"
  using assms(2) by (auto simp: ensure_official_at_def reject_if_def observe_def elim!: andthen_cases split: if_split_asm
      dest: resolve_official [OF b])

lemma resume_batch_logged:
  assumes b: "official_branch gx repo tip" and c: "journal_codec_ok (gx_journal gx)" and wf: "wf_fs (rw_journals w)"
    and run: "resume_batch gx repo worker fresh before_publish batch_id journal w = (r, w')"
    and journal: "read_journal (gx_journal gx) (journal_path (tw_show worker) batch_id) (rw_journals w) = Inr (Some journal)"
    and valid: "validate_journal_structure journal batch_id = Inr ()"
  shows "logged gx (tw_show worker) tip batch_id w w' \<and> (r = Inr () \<longrightarrow> (case tj_state journal of
      Preparing \<Rightarrow> False
    | NoChanges _ \<Rightarrow> official tip w = tj_base_commit journal \<and> official tip w' = tj_base_commit journal
    | Committed commit _ _ _ \<Rightarrow> official tip w' = commit))"
proof (cases "tj_state journal")
  case Preparing
  with run show ?thesis by (auto simp: resume_batch_def observe_def logged_def)
next
  case (NoChanges failures)
  let ?rest = "\<lambda>_. andthen (remove_worktree gx (tw_externals worker) repo batch_id) (\<lambda>_.
    remove_preparing_ref gx repo (tw_show worker) batch_id (tj_base_commit journal))"
  have rest: "steady tip (?rest x)" for x :: unit by (rule steady_intros b)+
  from run NoChanges have "andthen (ensure_official_at gx repo (tj_base_commit journal)) ?rest w = (r, w')"
    by (simp add: resume_batch_def)
  with steady_reads(12) [OF b] show ?thesis
  proof (cases rule: steady_then)
    case (went x w1)
    with ensure_official_at_reads [OF b went(1)] steadyD [OF rest went(4)] NoChanges show ?thesis by (simp add: logged_def)
  qed (simp add: logged_def)
next
  case (Committed commit successful failures started)
  have "tj_schema_version journal = JOURNAL_SCHEMA_VERSION"
    using valid by (auto simp: validate_journal_structure_def split: if_split_asm)
  with recover_committed_logged [OF b c wf _ journal Committed] run Committed show ?thesis
    by (simp add: resume_batch_def)
qed

lemma recovered_state:
  assumes b: "official_branch gx repo tip" and c: "journal_codec_ok (gx_journal gx)" and wf: "wf_fs (rw_journals w)"
    and run: "recover_batch_with_publication gx repo locked worker fresh before_publish batch_id w = (r, w')"
  shows "logged gx (tw_show worker) tip batch_id w w' \<and> (\<forall>outcome. r = Inr outcome \<longrightarrow>
    (\<exists>journal. read_journal (gx_journal gx) (journal_path (tw_show worker) batch_id) (rw_journals w) = Inr (Some journal) \<and>
      validate_journal_structure journal batch_id = Inr () \<and> outcome_from_journal journal = Inr outcome \<and>
      (case outcome of OutcomeCommitted commit _ _ \<Rightarrow> official tip w' = commit
       | OutcomeNoChanges _ \<Rightarrow> official tip w' = tj_base_commit journal \<and> official tip w = tj_base_commit journal)))"
  using run
proof (cases rule: recover_cases)
  case (stopped e)
  then show ?thesis by (simp add: logged_def)
next
  case (went journal)
  let ?tail = "\<lambda>_. andthen (observe (live_storage gx)) (\<lambda>_. observe (\<lambda>_. outcome_from_journal journal))"
  have tail: "steady tip (?tail x)" for x :: unit by (rule steady_intros)+
  from went(3) show ?thesis
  proof (cases rule: andthen_cases)
    case (stopped e)
    then show ?thesis using resume_batch_logged [OF b c wf stopped(1) went(1,2)] by simp
  next
    case resumed: (went x w1)
    note l = resume_batch_logged [OF b c wf resumed(1) went(1,2)]
    have same: "official tip w' = official tip w1" "rw_journals w' = rw_journals w1" using steadyD [OF tail resumed(2)] by simp_all
    have out: "r = Inr outcome \<Longrightarrow> outcome_from_journal journal = Inr outcome" for outcome
      using resumed(2) by (auto simp: observe_def elim!: andthen_cases)
    have "logged gx (tw_show worker) tip batch_id w w'" using l same by (simp add: logged_def)
    moreover have "case outcome of OutcomeCommitted commit _ _ \<Rightarrow> official tip w' = commit
       | OutcomeNoChanges _ \<Rightarrow> official tip w' = tj_base_commit journal \<and> official tip w = tj_base_commit journal"
      if "outcome_from_journal journal = Inr outcome" for outcome
      using that l same by (auto simp: outcome_from_journal_def attempt_Inr_iff split: journal_state.split_asm)
    ultimately show ?thesis using went(1,2) out by blast
  qed
qed

lemma write_ahead_recover:
  assumes b: "official_branch gx repo tip" and c: "journal_codec_ok (gx_journal gx)"
  shows "write_ahead gx (tw_show worker) tip batch_id
    (recover_batch_with_publication gx repo locked worker fresh before_publish batch_id)"
  unfolding write_ahead_def using recovered_state [OF b c] by blast

text \<open>One call of the repository, whatever its arguments and however it ends.\<close>

inductive repository_call ::
  "'g git_externals \<Rightarrow> git_repository \<Rightarrow> transaction_worker \<Rightarrow> batch_id \<Rightarrow> ('g, 'x) repo_world \<Rightarrow> ('g, 'x) repo_world \<Rightarrow> bool"
  for gx :: "'g git_externals" and repo :: git_repository and worker :: transaction_worker and batch_id :: batch_id where
  applied: "apply_batch_with_hook gx repo locked worker fresh trial_build before_publish policy package_policy batch_id claims
      claim_failures w = (r, w') \<Longrightarrow> repository_call gx repo worker batch_id w w'"
| aborted: "abort_preparing_batch gx repo locked worker batch_id claims w = (r', w') \<Longrightarrow> repository_call gx repo worker batch_id w w'"
| recovered: "recover_batch_with_publication gx repo locked worker fresh' before_publish' batch_id w = (r, w') \<Longrightarrow>
    repository_call gx repo worker batch_id w w'"
| finalized: "finalize_batch gx repo locked worker batch_id outcome reconciliation release_store w = (r', w') \<Longrightarrow>
    repository_call gx repo worker batch_id w w'"
| discovered: "discover_unfinished_transaction gx locked worker ready w = (found, w') \<Longrightarrow>
    repository_call gx repo worker batch_id w w'"

inductive_cases repository_callE: "repository_call gx repo worker batch_id w w'"

end
