(* ===== verification/Git_Outcome.thy ===== *)
theory Git_Outcome
  imports Git_Branch "HOL-Library.Multiset"
begin

text \<open>
  The outcome of a batch. A batch that ends leaves a journal behind that validates and gives the
  outcome it returned, in which every claim has one result; recovery reads the same outcome from the
  journal; and the journal is removed only when branch, release and queue agree with it.
\<close>

section \<open>The outcome of a batch\<close>

text \<open>The attempt and the sequence number of a claim are not zero; their types in the source say so.\<close>

definition nonzero_claim :: "claimed_package \<Rightarrow> bool" where
  "nonzero_claim claim \<longleftrightarrow> ct_attempt (cp_token claim) \<noteq> 0 \<and>
     (\<forall>acceptance. vp_acceptance (cp_package claim) = Some acceptance \<longrightarrow> am_sequence acceptance \<noteq> 0)"

definition settled_tokens :: "prepared_batch \<Rightarrow> claim_token multiset" where
  "settled_tokens prepared = mset (pr_successful prepared) + mset (map rf_token (pr_failures prepared))"

lemma staged_tokens:
  "stage_success gx worktree token moves prepared w = (Inr prepared', w') \<Longrightarrow>
     settled_tokens prepared' = add_mset token (settled_tokens prepared)"
  "stage_failure gx worktree token error prepared w = (Inr prepared', w') \<Longrightarrow>
     settled_tokens prepared' = add_mset token (settled_tokens prepared)"
  by (auto simp: stage_success_def stage_failure_def action_Inr_iffs settled_tokens_def split: option.split_asm)

lemma apply_claims_tokens:
  "apply_claims gx repo worker policy package_policy batch_id claims prepared w = (Inr prepared', w') \<Longrightarrow>
     settled_tokens prepared' = settled_tokens prepared + mset (map cp_token claims)"
proof (induction claims arbitrary: prepared w)
  case (Cons claim claims)
  from Cons.prems obtain result p1 w1 w2 where
    s: "(case result of
         Inr moves \<Rightarrow> stage_success gx (worktree_text repo (tw_show worker) batch_id) (cp_token claim) moves prepared
       | Inl error \<Rightarrow> stage_failure gx (worktree_text repo (tw_show worker) batch_id) (cp_token claim) error prepared) w1 = (Inr p1, w2)"
    and rest: "apply_claims gx repo worker policy package_policy batch_id claims p1 w2 = (Inr prepared', w')"
    by (auto simp: action_Inr_iffs)
  have "settled_tokens p1 = add_mset (cp_token claim) (settled_tokens prepared)"
    using s by (cases result) (auto dest: staged_tokens)
  with Cons.IH [OF rest] show ?case by simp
qed (simp add: finish_def)

lemma apply_in_worktree_tokens:
  "apply_in_worktree gx repo worker policy package_policy batch_id claims w = (Inr prepared, w') \<Longrightarrow>
     settled_tokens prepared = mset (map cp_token claims)"
  by (auto simp: apply_in_worktree_def action_Inr_iffs settled_tokens_def dest: apply_claims_tokens)

text \<open>What a validated batch looks like.\<close>

lemma validate_claims_from_facts:
  assumes "validate_claims_from worker batch_id claims request_ids previous = Inr ()"
  shows "(\<forall>claim \<in> set claims. ct_batch_id (cp_token claim) = batch_id \<and> vp_acceptance (cp_package claim) \<noteq> None) \<and>
    distinct (map (ct_request_id \<circ> cp_token) claims) \<and>
    set (map (ct_request_id \<circ> cp_token) claims) \<inter> set request_ids = {} \<and>
    windows_ascending (journal_claims claims) \<and>
    (\<forall>claim rest p. claims = claim # rest \<longrightarrow> previous = Some p \<longrightarrow> p < jc_acceptance_sequence (hd (journal_claims claims)))"
  using assms
proof (induction claims arbitrary: request_ids previous)
  case (Cons claim claims)
  from Cons.prems obtain acceptance where a: "ct_batch_id (cp_token claim) = batch_id" "ct_request_id (cp_token claim) \<notin> set request_ids"
    "vp_acceptance (cp_package claim) = Some acceptance" "\<And>p. previous = Some p \<Longrightarrow> p < am_sequence acceptance"
    and rest: "validate_claims_from worker batch_id claims (ct_request_id (cp_token claim) # request_ids) (Some (am_sequence acceptance)) = Inr ()"
    by (auto simp: Let_def attempt_Inr_iff ok_or_def split: if_split_asm option.split_asm)
  note ih = Cons.IH [OF rest]
  have w: "windows_ascending (journal_claims (claim # claims))"
    using ih a(3) by (cases claims) (auto simp: journal_claims_def)
  show ?case using ih w a by (auto simp: journal_claims_def)
qed (simp add: journal_claims_def)

lemma valid_claims:
  assumes "validate_batch_claims worker batch_id claims = Inr ()"
  shows "\<And>claim. claim \<in> set claims \<Longrightarrow> ct_batch_id (cp_token claim) = batch_id \<and> vp_acceptance (cp_package claim) \<noteq> None"
    and "distinct (map (ct_request_id \<circ> cp_token) claims)" and "windows_ascending (journal_claims claims)"
  using validate_claims_from_facts [OF assms [unfolded validate_batch_claims_def]] by auto

lemma journal_claims_ids: "map jc_request_id (journal_claims claims) = map (ct_request_id \<circ> cp_token) claims"
  by (simp add: journal_claims_def comp_def)

lemma journal_token_of_batch:
  assumes "distinct (map (ct_request_id \<circ> cp_token) claims)" and "tj_claims j = journal_claims claims"
    and "claim \<in> set claims" and "nonzero_claim claim" and "ct_batch_id (cp_token claim) = tj_batch_id j"
  shows "journal_token j (ct_request_id (cp_token claim)) = Inr (cp_token claim)"
proof -
  let ?c = "hd (journal_claims [claim])"
  have c: "?c \<in> set (tj_claims j)" "jc_request_id ?c = ct_request_id (cp_token claim)" "jc_attempt ?c = ct_attempt (cp_token claim)"
    using assms(2,3) by (auto simp: journal_claims_def)
  have "distinct (map jc_request_id (tj_claims j))" using assms(1,2) by (simp add: journal_claims_ids)
  from journal_token_of_claim [OF this c(1)] c(2,3) assms(4,5) show ?thesis
    by (simp add: nonzero_claim_def claimed_token_def)
qed

lemma batch_tokens:
  assumes "distinct (map (ct_request_id \<circ> cp_token) claims)" and "tj_claims j = journal_claims claims"
    and "\<And>claim. claim \<in> set claims \<Longrightarrow> nonzero_claim claim \<and> ct_batch_id (cp_token claim) = tj_batch_id j"
    and "set tokens \<subseteq> cp_token ` set claims"
  shows "try_map (journal_token j) (map ct_request_id tokens) = Inr tokens"
  using assms(4)
proof (induction tokens)
  case (Cons token tokens)
  then obtain claim where "claim \<in> set claims" "token = cp_token claim" by auto
  with Cons journal_token_of_batch [OF assms(1,2), of claim] assms(3) show ?case by simp
qed simp

lemma batch_failures:
  assumes "try_map (journal_token j) (map ct_request_id (map rf_token failures)) = Inr (map rf_token failures)"
  shows "journal_failures j (map (\<lambda>f. \<lparr>jf_request_id = ct_request_id (rf_token f), jf_error_code = rf_error_code f\<rparr>) failures) = Inr failures"
proof -
  have "map2 (\<lambda>token f. \<lparr>rf_token = token, rf_error_code = jf_error_code f\<rparr>) (map rf_token failures)
      (map (\<lambda>f. \<lparr>jf_request_id = ct_request_id (rf_token f), jf_error_code = rf_error_code f\<rparr>) failures) = failures"
    by (induction failures) auto
  with assms show ?thesis by (simp add: journal_failures_tokens comp_def)
qed

lemma batch_outcomes_match:
  assumes "distinct (map (ct_request_id \<circ> cp_token) claims)"
    and "mset successful + mset (map rf_token failures) = mset (map cp_token claims)"
  shows "outcomes_match (journal_claims claims) (map ct_request_id successful)
    (map (\<lambda>f. \<lparr>jf_request_id = ct_request_id (rf_token f), jf_error_code = rf_error_code f\<rparr>) failures) = Inr ()"
proof -
  let ?ids = "map ct_request_id successful @ map ct_request_id (map rf_token failures)"
  have "mset ?ids = image_mset ct_request_id (mset successful + mset (map rf_token failures))"
    by (simp add: image_mset.compositionality)
  also have "\<dots> = mset (map (ct_request_id \<circ> cp_token) claims)" unfolding assms(2) by (simp add: image_mset.compositionality)
  finally have m: "mset ?ids = mset (map jc_request_id (journal_claims claims))" by (simp add: journal_claims_ids)
  have "distinct (map jc_request_id (journal_claims claims))" using assms(1) by (simp add: journal_claims_ids)
  with mset_eq_imp_distinct_iff [OF m] mset_eq_setD [OF m] show ?thesis by (simp add: outcomes_match_Inr_iff comp_def)
qed

text \<open>The journals a batch ends with: they validate, and give the outcome of the batch.\<close>

lemma terminal_journal:
  assumes v: "validate_batch_claims worker batch_id claims = Inr ()" and n: "\<And>claim. claim \<in> set claims \<Longrightarrow> nonzero_claim claim"
    and j: "tj_schema_version j = JOURNAL_SCHEMA_VERSION" "tj_batch_id j = batch_id" "tj_claims j = journal_claims claims"
      "valid_object_id (tj_base_commit j)"
    and t: "settled_tokens prepared = mset (map cp_token claims)"
    and s: "tj_state j = NoChanges (prepared_failures prepared) \<and> pr_successful prepared = [] \<and> outcome = OutcomeNoChanges (pr_failures prepared) \<or>
      valid_object_id commit \<and> tj_state j = committed_state commit prepared started \<and>
        outcome = OutcomeCommitted commit (pr_successful prepared) (pr_failures prepared)"
  shows "validate_journal_structure j batch_id = Inr ()" and "outcome_from_journal j = Inr outcome"
proof -
  note c = valid_claims [OF v]
  have tokens: "set (pr_successful prepared) \<subseteq> cp_token ` set claims" "set (map rf_token (pr_failures prepared)) \<subseteq> cp_token ` set claims"
    using arg_cong [OF t, of set_mset] by (auto simp: settled_tokens_def)
  have read: "try_map (journal_token j) (map ct_request_id (pr_successful prepared)) = Inr (pr_successful prepared)"
    "journal_failures j (prepared_failures prepared) = Inr (pr_failures prepared)"
    using batch_tokens [OF c(2) j(3) _ tokens(1)] batch_failures [OF batch_tokens [OF c(2) j(3) _ tokens(2)]] n c(1) j(2)
    by (auto simp: prepared_failures_def)
  with s show "outcome_from_journal j = Inr outcome" by (auto simp: outcome_from_journal_def committed_state_def)
  have m: "outcomes_match (tj_claims j) (map ct_request_id (pr_successful prepared)) (prepared_failures prepared) = Inr ()"
    using batch_outcomes_match [OF c(2) t [unfolded settled_tokens_def]] j(3) by (simp add: prepared_failures_def)
  have "\<not> list_ex (\<lambda>claim. jc_attempt claim = 0 \<or> jc_acceptance_sequence claim = 0) (tj_claims j)"
    using n c(1) j(3) by (fastforce simp: journal_claims_def list_ex_iff nonzero_claim_def split: option.split_asm)
  with s m j c(3) show "validate_journal_structure j batch_id = Inr ()"
    by (auto simp: validate_journal_structure_def committed_state_def)
qed

lemma parse_object_id_valid: "parse_object_id s = Inr x \<Longrightarrow> valid_object_id x"
  by (auto simp: parse_object_id_def attempt_Inr_iff split: if_split_asm)

lemma without_changes_state:
  assumes b: "official_branch gx repo tip" and c: "journal_codec_ok (gx_journal gx)" and wf: "wf_fs (rw_journals w)"
    and v: "tj_schema_version preparing = JOURNAL_SCHEMA_VERSION"
    and run: "conclude_without_changes gx repo worker fresh batch_id preparing prepared w = (Inr outcome, w')"
  shows "read_journal (gx_journal gx) (journal_path (tw_show worker) batch_id) (rw_journals w') =
      Inr (Some (preparing\<lparr>tj_state := NoChanges (prepared_failures prepared)\<rparr>)) \<and>
    official tip w' = official tip w \<and> outcome = OutcomeNoChanges (pr_failures prepared)"
proof -
  let ?put = "write_batch_journal gx (tw_show worker) (fresh 1) batch_id (preparing\<lparr>tj_state := NoChanges (prepared_failures prepared)\<rparr>)"
  let ?rest = "\<lambda>_. andthen (remove_worktree gx (tw_externals worker) repo batch_id) (\<lambda>_.
     andthen (ensure_official_at gx repo (tj_base_commit preparing)) (\<lambda>_.
     andthen (observe (live_storage gx)) (\<lambda>_. finish (OutcomeNoChanges (pr_failures prepared)))))"
  have rest: "steady tip (?rest x)" for x :: unit by (rule steady_intros b)+
  from run obtain w1 where w: "?put w = (Inr (), w1)" and r: "?rest () w1 = (Inr outcome, w')"
    unfolding conclude_without_changes_def by (auto simp: andthen_Inr_iff)
  have "outcome = OutcomeNoChanges (pr_failures prepared)" using r by (auto simp: action_Inr_iffs)
  with write_batch_journal_reads [OF wf c _ w] v steadyD [OF rest r] show ?thesis by (simp add: official_def)
qed

lemma with_commit_state:
  assumes b: "official_branch gx repo tip" and c: "journal_codec_ok (gx_journal gx)" and wf: "wf_fs (rw_journals w)"
    and v: "tj_schema_version preparing = JOURNAL_SCHEMA_VERSION"
    and run: "conclude_with_commit gx repo worker fresh trial_build before_publish batch_id claims preparing prepared w = (Inr outcome, w')"
  shows "\<exists>commit. valid_object_id commit \<and> outcome = OutcomeCommitted commit (pr_successful prepared) (pr_failures prepared) \<and>
    official tip w' = commit \<and> read_journal (gx_journal gx) (journal_path (tw_show worker) batch_id) (rw_journals w') =
      Inr (Some (preparing\<lparr>tj_state := committed_state commit prepared True\<rparr>))"
proof -
  let ?text = "worktree_text repo (tw_show worker) batch_id" and ?base = "tj_base_commit preparing"
  let ?make = "andthen (stage_stats gx ?text ?base (pr_moves prepared)) (\<lambda>stats.
     andthen (with_callback trial_build) (\<lambda>_.
     andthen (ensure_prepared_worktree_unchanged gx ?text (pr_tree prepared)) (\<lambda>_.
       commit_tree gx repo (pr_tree prepared) ?base
         (commit_message (tw_show worker) batch_id claims (pr_successful prepared) stats))))"
  let ?check = "\<lambda>commit. andthen (create_transaction_ref gx repo (tw_show worker) batch_id commit) (\<lambda>_.
     andthen (write_batch_journal gx (tw_show worker) (fresh 1) batch_id (preparing\<lparr>tj_state := committed_state commit prepared False\<rparr>)) (\<lambda>_.
     andthen (validate_committed_journal gx repo (tw_show worker) (preparing\<lparr>tj_state := committed_state commit prepared False\<rparr>)) (\<lambda>_.
       with_callback (before_publish ?base commit))))"
  have careful: "careful tip ?make" "careful tip (?check commit)" for commit
    by (rule careful_intros | rule careful_steady | rule steady_intros b)+
  from run obtain commit w1 w2 w3 where m: "?make w = (Inr commit, w1)" and k: "?check commit w1 = (Inr (), w2)"
    and started: "write_batch_journal gx (tw_show worker) (fresh 2) batch_id (preparing\<lparr>tj_state := committed_state commit prepared True\<rparr>) w2 = (Inr (), w3)"
    and publish: "publish_committed gx repo (tw_externals worker) batch_id ?base commit True w3 = (Inr (), w')"
    and out: "outcome = OutcomeCommitted commit (pr_successful prepared) (pr_failures prepared)"
    unfolding conclude_with_commit_def Let_def by (auto simp: andthen_Inr_iff finish_Inr_iff)
  have "valid_object_id commit" using m by (auto simp: action_Inr_iffs commit_tree_def dest: parse_object_id_valid)
  moreover have wf2: "wf_fs (rw_journals w2)" using carefulD [OF careful(2) k] carefulD [OF careful(1) m wf] by simp
  ultimately show ?thesis
    using write_batch_journal_reads [OF wf2 c _ started] v publish_moves [OF b publish] out by simp
qed

lemma begin_batch_base:
  assumes b: "official_branch gx repo tip" and wf: "wf_fs (rw_journals w)"
    and run: "begin_batch gx repo locked worker batch_id claims claim_failures w = (Inr preparing, w')"
  shows "tj_base_commit preparing = official tip w \<and> valid_object_id (tj_base_commit preparing)"
proof -
  let ?front = "\<lambda>stored. andthen (restart_preparing gx repo worker batch_id claims claim_failures stored) (\<lambda>_.
     andthen (observe (\<lambda>_. validate_batch_claims worker batch_id claims)) (\<lambda>_. ensure_canonical_clean gx repo))"
  have front: "careful tip (?front stored)" for stored
    by (rule careful_intros b | rule careful_steady | rule steady_intros b)+
  from run obtain stored w1 w2 where f: "?front stored w = (Inr (), w1)"
    and r: "resolve_commit gx repo (gr_official_ref repo) w1 = (Inr (tj_base_commit preparing), w2)"
    by (auto simp: begin_batch_def lock_writer_def read_batch_journal_def action_Inr_iffs) blast
  have "valid_object_id (tj_base_commit preparing)" using r by (auto simp: resolve_commit_def action_Inr_iffs dest: parse_object_id_valid)
  with resolve_official [OF b r] carefulD [OF front f wf] show ?thesis by simp
qed

lemma applied_state:
  assumes b: "official_branch gx repo tip" and c: "journal_codec_ok (gx_journal gx)" and wf: "wf_fs (rw_journals w)"
    and n: "\<And>claim. claim \<in> set claims \<Longrightarrow> nonzero_claim claim"
    and run: "apply_batch_with_hook gx repo locked worker fresh trial_build before_publish policy package_policy batch_id claims
      claim_failures w = (Inr outcome, w')"
  shows "\<exists>journal. read_journal (gx_journal gx) (journal_path (tw_show worker) batch_id) (rw_journals w') = Inr (Some journal) \<and>
    validate_journal_structure journal batch_id = Inr () \<and> outcome_from_journal journal = Inr outcome \<and>
    tj_base_commit journal = official tip w \<and>
    (case outcome of
       OutcomeCommitted commit successful failures \<Rightarrow> official tip w' = commit \<and> successful \<noteq> [] \<and>
         mset (successful @ map rf_token failures) = mset (map cp_token claims)
     | OutcomeNoChanges failures \<Rightarrow> official tip w' = official tip w \<and> mset (map rf_token failures) = mset (map cp_token claims))"
proof -
  let ?work = "\<lambda>preparing. andthen (write_batch_journal gx (tw_show worker) (fresh 0) batch_id preparing) (\<lambda>_.
     andthen (run_git gx None (Some (gr_git_directory repo))
       [''worktree'', ''add'', ''--detach'', worktree_text repo (tw_show worker) batch_id, tj_base_commit preparing]) (\<lambda>_.
     andthen (observe (\<lambda>w. sync_dir [] (gf_worktrees (rw_files w)))) (\<lambda>_.
       apply_in_worktree gx repo worker policy package_policy batch_id claims)))"
  have work: "careful tip (?work preparing)" for preparing
    by (rule careful_intros | rule careful_steady | rule steady_intros b | simp add: quiet_arguments_def)+
  from run obtain preparing prepared w1 w2 where
    bg: "begin_batch gx repo locked worker batch_id claims claim_failures w = (Inr preparing, w1)"
    and w: "?work preparing w1 = (Inr prepared, w2)"
    and e: "(if pr_successful prepared = [] then conclude_without_changes gx repo worker fresh batch_id preparing prepared
       else conclude_with_commit gx repo worker fresh trial_build before_publish batch_id claims preparing prepared) w2 = (Inr outcome, w')"
    unfolding apply_batch_with_hook_def by (auto simp: andthen_Inr_iff)
  note p = begin_batch_result [OF bg]
  have base: "tj_base_commit preparing = official tip w" "valid_object_id (tj_base_commit preparing)"
    using begin_batch_base [OF b wf bg] by blast+
  note c1 = carefulD [OF careful_begin [OF b] bg wf]
  have c2: "official tip w2 = official tip w" "wf_fs (rw_journals w2)" using carefulD [OF work w] c1 by simp_all
  have t: "settled_tokens prepared = mset (map cp_token claims)"
    using w by (auto simp: andthen_Inr_iff dest: apply_in_worktree_tokens)
  show ?thesis
  proof (cases "pr_successful prepared = []")
    case True
    let ?j = "preparing\<lparr>tj_state := NoChanges (prepared_failures prepared)\<rparr>"
    from e True have "conclude_without_changes gx repo worker fresh batch_id preparing prepared w2 = (Inr outcome, w')" by simp
    note s = without_changes_state [OF b c c2(2) conjunct1 [OF p] this]
    have "validate_journal_structure ?j batch_id = Inr ()" "outcome_from_journal ?j = Inr outcome"
      using s p base t True n
      by (intro terminal_journal [of worker batch_id claims ?j prepared outcome "[]" False]; simp)+
    then show ?thesis using s base c2 t True by (intro exI [of _ ?j]) (simp add: settled_tokens_def)
  next
    case False
    from e False have "conclude_with_commit gx repo worker fresh trial_build before_publish batch_id claims preparing prepared w2 = (Inr outcome, w')"
      by simp
    from with_commit_state [OF b c c2(2) conjunct1 [OF p] this] obtain commit where s: "valid_object_id commit"
      "outcome = OutcomeCommitted commit (pr_successful prepared) (pr_failures prepared)" "official tip w' = commit"
      "read_journal (gx_journal gx) (journal_path (tw_show worker) batch_id) (rw_journals w') =
        Inr (Some (preparing\<lparr>tj_state := committed_state commit prepared True\<rparr>))" by blast
    let ?j = "preparing\<lparr>tj_state := committed_state commit prepared True\<rparr>"
    have "validate_journal_structure ?j batch_id = Inr ()" "outcome_from_journal ?j = Inr outcome"
      using s p base t n
      by (intro terminal_journal [of worker batch_id claims ?j prepared outcome commit True]; simp)+
    then show ?thesis using s base t False by (intro exI [of _ ?j]) (simp add: settled_tokens_def)
  qed
qed

section \<open>The end of a transaction\<close>

definition keeps_on_error :: "('g, 'x, 'a) transaction \<Rightarrow> bool" where
  "keeps_on_error m \<longleftrightarrow> (\<forall>w e w'. m w = (Inl e, w') \<longrightarrow> wf_fs (rw_journals w) \<longrightarrow> rw_journals w' = rw_journals w)"

lemma keeps_on_errorD:
  "keeps_on_error m \<Longrightarrow> m w = (Inl e, w') \<Longrightarrow> wf_fs (rw_journals w) \<Longrightarrow> rw_journals w' = rw_journals w"
  by (simp add: keeps_on_error_def)

lemma keeps_on_error_steady: "steady tip m \<Longrightarrow> keeps_on_error m"
  by (simp add: steady_def keeps_on_error_def)

lemma keeps_on_error_andthen:
  assumes "steady tip m" and "\<And>x. keeps_on_error (k x)"
  shows "keeps_on_error (andthen m k)"
  unfolding keeps_on_error_def
proof (intro allI impI)
  fix w e w'
  assume "andthen m k w = (Inl e, w')" and wf: "wf_fs (rw_journals w)"
  with assms(1) show "rw_journals w' = rw_journals w"
  proof (cases rule: steady_then)
    case (went x w1)
    then show ?thesis using assms(2) [of x] wf by (auto simp: keeps_on_error_def)
  qed simp
qed

lemma keeps_on_error_prod: "(\<And>a b. keeps_on_error (f a b)) \<Longrightarrow> keeps_on_error (case p of (a, b) \<Rightarrow> f a b)"
  by (auto split: prod.split)

lemma remove_journal_removes:
  assumes "wf_fs fs" and "remove_journal [name] fs = (r, fs')"
  shows "case r of Inl e \<Rightarrow> fs' = fs | Inr _ \<Rightarrow> wf_fs fs' \<and> read_journal jx [name] fs' = Inr None"
proof (cases "remove_file [name] fs")
  case (Inl e)
  with assms(2) show ?thesis by (auto simp: remove_journal_def andthen_def perform_def)
next
  case (Inr fs1)
  note wf1 = remove_file_step.run_wf [OF assms(1) Inr]
  have "sync_dir [] fs1 = Inr ()"
    using symlink_metadata_ok_iff [OF wf1, of "[]" Dir] wf_fs_root [OF wf1] by (simp add: sync_dir_def)
  with assms(2) Inr have r: "r = Inr ()" "fs' = fs1" by (auto simp: remove_journal_def andthen_def perform_def observe_def)
  have "lookup fs1 [name] = None"
    using Inr lookup_filter [of "\<lambda>q. q \<noteq> [name]" fs "[name]"] by (auto simp: remove_file_def attempt_Inr_iff split: if_split_asm)
  moreover have "resolve_parent fs1 [name] = Inr ()"
    using wf_fs_root [OF wf1] by (auto simp: resolve_parent_ok_iff strict_prefix_def prefix_Cons)
  ultimately have "symlink_metadata fs1 [name] = Inl NotFound" by (simp add: symlink_metadata_def ok_or_def)
  with r wf1 show ?thesis by (simp add: read_journal_def)
qed

lemma remove_journal_error: "remove_journal [name] fs = (Inl e, fs') \<Longrightarrow> wf_fs fs \<Longrightarrow> fs' = fs"
  using remove_journal_removes [of fs name "Inl e" fs'] by simp

lemma keeps_on_error_remove: "keeps_on_error (with_journals (remove_journal (journal_path show_id batch_id)))"
  unfolding keeps_on_error_def with_journals_def journal_path_def
  by (auto split: prod.split_asm) (rule remove_journal_error)

lemma finalize_keeps_on_error:
  assumes b: "official_branch gx repo tip"
  shows "keeps_on_error (finalize_batch gx repo locked worker batch_id outcome reconciliation release_store)"
  unfolding finalize_batch_def ensure_published_def require_journal_def read_batch_journal_def lock_writer_def
  by (rule keeps_on_error_andthen [where tip = tip] keeps_on_error_prod keeps_on_error_remove | rule steady_intros b)+

lemma finalized_state:
  assumes b: "official_branch gx repo tip" and wf: "wf_fs (rw_journals w)"
    and run: "finalize_batch gx repo locked worker batch_id outcome reconciliation release_store w = (Inr (), w')"
  shows "\<exists>journal identity. read_journal (gx_journal gx) (journal_path (tw_show worker) batch_id) (rw_journals w) = Inr (Some journal) \<and>
    validate_journal_structure journal batch_id = Inr () \<and> outcome_from_journal journal = Inr outcome \<and>
    worker_queue_identity worker = Inr identity \<and>
    (case outcome_parts outcome of (commit, successful, failures) \<Rightarrow>
       reconciliation_validates reconciliation identity batch_id successful failures \<and>
       (case commit of Some commit \<Rightarrow> official tip w = commit \<and> release_store = Some (Inr (Some commit))
        | None \<Rightarrow> official tip w = tj_base_commit journal \<and> release_store = None)) \<and>
    official tip w' = official tip w \<and>
    read_journal (gx_journal gx) (journal_path (tw_show worker) batch_id) (rw_journals w') = Inr None"
proof -
  obtain commit successful failures where parts: "outcome_parts outcome = (commit, successful, failures)" by (metis surj_pair)
  from run obtain journal identity w1 w2 w3 w4 where
    j: "require_journal gx worker batch_id w = (Inr journal, w1)"
    and check: "(case tj_state journal of
         Committed _ _ _ _ \<Rightarrow> validate_committed_journal gx repo (tw_show worker) journal | _ \<Rightarrow> finish ()) w1 = (Inr (), w2)"
    and out: "outcome_from_journal journal = Inr outcome" and identity: "worker_queue_identity worker = Inr identity"
    and validates: "reconciliation_validates reconciliation identity batch_id successful failures"
    and published: "ensure_published gx repo (tj_base_commit journal) commit release_store w2 = (Inr (), w3)"
    and ref: "resolve_optional_commit gx repo (transaction_ref (tw_show worker) batch_id) w3 = (Inr None, w4)"
    and removed: "with_journals (remove_journal (journal_path (tw_show worker) batch_id)) w4 = (Inr (), w')"
    by (auto simp: finalize_batch_def action_Inr_iffs lock_writer_def parts)
  note r = require_journal_reads [OF j]
  have st: "steady tip (case tj_state journal of
         Committed _ _ _ _ \<Rightarrow> validate_committed_journal gx repo (tw_show worker) journal | _ \<Rightarrow> finish ())"
    "steady tip (ensure_published gx repo (tj_base_commit journal) commit release_store)"
    unfolding ensure_published_def by (rule steady_intros b)+
  have w2: "official tip w2 = official tip w" "rw_journals w2 = rw_journals w" using steadyD [OF st(1) check] r(1) by simp_all
  have w4: "official tip w4 = official tip w" "rw_journals w4 = rw_journals w"
    using steadyD [OF st(2) published] steadyD [OF steady_reads(2) [OF b] ref] w2 by simp_all
  have tip: "case commit of Some commit \<Rightarrow> official tip w = commit \<and> release_store = Some (Inr (Some commit))
        | None \<Rightarrow> official tip w = tj_base_commit journal \<and> release_store = None"
    using published w2(1)
    by (auto simp: ensure_published_def action_Inr_iffs split: option.split_asm option.split dest!: resolve_official [OF b])
  obtain fs' where fs': "remove_journal (journal_path (tw_show worker) batch_id) (rw_journals w4) = (Inr (), fs')" "w' = w4\<lparr>rw_journals := fs'\<rparr>"
    using removed by (auto simp: with_journals_def split: prod.split_asm)
  have "read_journal (gx_journal gx) (journal_path (tw_show worker) batch_id) fs' = Inr None"
    using remove_journal_removes [OF _ fs'(1) [unfolded journal_path_def]] wf w4(2) by (simp add: journal_path_def)
  moreover have "official tip w' = official tip w" using fs'(2) w4(1) by (simp add: official_def)
  ultimately show ?thesis using r out identity validates tip fs' parts by auto
qed

section \<open>The journal directory\<close>

text \<open>No call damages the tree of the journals, whatever it does to them.\<close>

definition tidy :: "('g, 'x, 'a) transaction \<Rightarrow> bool" where
  "tidy m \<longleftrightarrow> (\<forall>w r w'. m w = (r, w') \<longrightarrow> wf_fs (rw_journals w) \<longrightarrow> wf_fs (rw_journals w'))"

named_theorems tidy_intros \<open>steps that keep the tree of the journals well formed\<close>

lemma tidy_careful: "careful tip m \<Longrightarrow> tidy m"
  by (simp add: careful_def tidy_def)

lemma tidy_andthen [tidy_intros]: "tidy m \<Longrightarrow> (\<And>x. tidy (k x)) \<Longrightarrow> tidy (andthen m k)"
  unfolding tidy_def andthen_def by (fastforce split: prod.split_asm sum.split_asm)

lemma tidy_branches [tidy_intros]:
  "tidy m \<Longrightarrow> tidy m' \<Longrightarrow> tidy (if b then m else m')"
  "(\<And>a b c d. tidy (f a b c d)) \<Longrightarrow> (\<And>a. tidy (g a)) \<Longrightarrow> tidy h \<Longrightarrow>
     tidy (case s of Committed a b c d \<Rightarrow> f a b c d | NoChanges a \<Rightarrow> g a | Preparing \<Rightarrow> h)"
  by (auto split: journal_state.split)

lemma tidy_publish:
  assumes b: "official_branch gx repo tip"
  shows "tidy (publish_committed gx repo wx batch_id base commit started)"
  unfolding tidy_def using publish_moves [OF b] by metis

lemma tidy_calls:
  assumes b: "official_branch gx repo tip"
  shows "tidy (apply_batch_with_hook gx repo locked worker fresh trial_build before_publish policy package_policy batch_id claims claim_failures)"
    and "tidy (recover_batch_with_publication gx repo locked worker fresh' before_publish' batch_id)"
  unfolding apply_batch_with_hook_def conclude_with_commit_def conclude_without_changes_def Let_def
    recover_batch_with_publication_def resume_batch_def recover_committed_def
  by (rule tidy_intros | rule tidy_publish [OF b] | rule tidy_careful [where tip = tip],
      ((rule careful_intros b | rule careful_steady | rule steady_intros b | simp add: quiet_arguments_def)+) [1])+

lemma repository_call_wf:
  assumes b: "official_branch gx repo tip" and "repository_call gx repo worker batch_id w w'" and wf: "wf_fs (rw_journals w)"
  shows "wf_fs (rw_journals w')"
  using assms(2)
proof cases
  case applied
  with tidy_calls(1) [OF b] wf show ?thesis unfolding tidy_def by blast
next
  case aborted
  with carefulD [OF careful_calls(1) [OF b]] wf show ?thesis by blast
next
  case recovered
  with tidy_calls(2) [OF b] wf show ?thesis unfolding tidy_def by blast
next
  case finalized
  with carefulD [OF careful_calls(2) [OF b]] wf show ?thesis by blast
next
  case discovered
  with carefulD [OF careful_calls(3) [OF b]] wf show ?thesis by blast
qed

lemma repository_call_logged:
  assumes b: "official_branch gx repo tip" and c: "journal_codec_ok (gx_journal gx)"
    and "repository_call gx repo worker batch_id w w'" and wf: "wf_fs (rw_journals w)"
  shows "logged gx (tw_show worker) tip batch_id w w'"
  using assms(3)
proof cases
  case applied
  with write_ahead_apply [OF b c] wf show ?thesis unfolding write_ahead_def by blast
next
  case aborted
  with carefulD [OF careful_calls(1) [OF b]] wf show ?thesis unfolding logged_def by blast
next
  case recovered
  with write_ahead_recover [OF b c] wf show ?thesis unfolding write_ahead_def by blast
next
  case finalized
  with carefulD [OF careful_calls(2) [OF b]] wf show ?thesis unfolding logged_def by blast
next
  case discovered
  with carefulD [OF careful_calls(3) [OF b]] wf show ?thesis unfolding logged_def by blast
qed

end
