(* ===== verification/Git_Example.thy ===== *)
theory Git_Example
  imports Git_Outcome Queue_Example
begin

text \<open>
  A sample repository: a Git that knows the official branch and one transaction reference, the sample
  queue with its claimed request, and the journals of a batch without changes and of a committed one.
  The statements about transactions are applied to it.
\<close>

definition base_id :: string where "base_id = replicate 40 (CHR ''a'')"

definition commit_id :: string where "commit_id = replicate 40 (CHR ''b'')"

definition git_says :: "string \<Rightarrow> io_error + git_output" where
  "git_says s = Inr \<lparr>go_success = True, go_code = Some 0, go_stdout = s, go_stderr = []\<rparr>"

definition git_refuses :: "io_error + git_output" where
  "git_refuses = Inr \<lparr>go_success = False, go_code = Some 1, go_stdout = [], go_stderr = []\<rparr>"

definition sample_message :: string where
  "sample_message = ''Batch-ID: 7'' @ [lf] @ ''Knowledge-Request: 1'' @ [lf]"

type_synonym sample_refs = "string \<times> string option"

definition sample_git :: "git_call \<Rightarrow> sample_refs git_files \<Rightarrow> (io_error + git_output) \<times> sample_refs git_files" where
  "sample_git call files =
     (case gc_arguments call of
        [a, b, c] \<Rightarrow>
          if a = ''reset'' \<and> b = ''--hard'' then (git_says [], files\<lparr>gf_git := (c, snd (gf_git files))\<rparr>)
          else if a = ''rev-parse'' then
            (if c = ''refs/heads/main^{commit}'' then
               if valid_object_id (fst (gf_git files)) then git_says (fst (gf_git files) @ [lf]) else git_refuses
             else git_says (commit_id @ [lf]), files)
          else (git_says [], files)
      | [a, b, c, d] \<Rightarrow>
          if a = ''update-ref'' then
            if b = ''refs/heads/main'' then
              if fst (gf_git files) = d then (git_says [], files\<lparr>gf_git := (c, snd (gf_git files))\<rparr>) else (git_refuses, files)
            else (git_says [], files\<lparr>gf_git := (fst (gf_git files), if b = ''-d'' then None else Some c)\<rparr>)
          else if a = ''rev-parse'' then
            (case snd (gf_git files) of None \<Rightarrow> git_refuses | Some r \<Rightarrow> git_says (r @ [lf]), files)
          else if a = ''worktree'' then (git_says [], files\<lparr>gf_worktrees := [([], Dir)]\<rparr>)
          else if a = ''show'' then (git_says sample_message, files)
          else (git_says [], files)
      | [a, b, c, d, e] \<Rightarrow>
          if a = ''worktree'' then (git_says [], files\<lparr>gf_worktrees := [([], Dir), ([''batch-7''], Dir)]\<rparr>)
          else if a = ''rev-list'' then (git_says (commit_id @ '' '' @ base_id @ [lf]), files)
          else (git_says [], files)
      | _ \<Rightarrow> (git_says [], files))"

definition sample_repository :: git_repository where
  "sample_repository = \<lparr>gr_git_directory = ''g'', gr_canonical_worktree = ''c'', gr_worktree_root = ''w'',
     gr_official_ref = ''refs/heads/main'', gr_identity = \<lparr>gi_name = ''n'', gi_email = ''e''\<rparr>\<rparr>"

definition sample_journal :: "journal_state \<Rightarrow> transaction_journal" where
  "sample_journal state = \<lparr>tj_schema_version = JOURNAL_SCHEMA_VERSION, tj_batch_id = BatchId 7, tj_queue_identity = queue_identity,
     tj_base_commit = base_id, tj_claims = [\<lparr>jc_request_id = RequestId 1, jc_attempt = 1, jc_acceptance_sequence = 1\<rparr>],
     tj_claim_failures = 0, tj_state = state\<rparr>"

definition unchanged_state :: journal_state where
  "unchanged_state = NoChanges [\<lparr>jf_request_id = RequestId 1, jf_error_code = InvalidRequest\<rparr>]"

definition published_state :: journal_state where
  "published_state = Committed commit_id [RequestId 1] [] True"

definition sample_codec :: journal_codec where
  "sample_codec = \<lparr>jx_from_json = (\<lambda>s. if s = ''p'' @ [lf] then Inr (CurrentJournal (sample_journal Preparing))
       else if s = ''n'' @ [lf] then Inr (CurrentJournal (sample_journal unchanged_state))
       else if s = ''c'' @ [lf] then Inr (CurrentJournal (sample_journal published_state)) else Inl ''''),
     jx_to_json = (\<lambda>j. if j = sample_journal Preparing then Inr ''p'' else if j = sample_journal unchanged_state then Inr ''n''
       else if j = sample_journal published_state then Inr ''c'' else Inl '''')\<rparr>"

definition sample_gx :: "sample_refs git_externals" where
  "sample_gx = \<lparr>gx_run = sample_git, gx_live_storage = (\<lambda>_ _. Inr ()), gx_canonical_lock = Inr (),
     gx_canonicalize = (\<lambda>text _. Inr text), gx_journal = sample_codec,
     gx_before = (\<lambda>_ _. 0), gx_after = (\<lambda>_ _. 0)\<rparr>"

definition sample_worker :: transaction_worker where
  "sample_worker = \<lparr>tw_externals = queue_sample, tw_queue = queue_of, tw_session = sample_session, tw_tree = processing_tree\<rparr>"

definition sample_claimed :: claimed_package where
  "sample_claimed = \<lparr>cp_token = sample_token, cp_package = valid_result\<lparr>vp_acceptance := Some sample_acceptance\<rparr>,
     cp_package_root = [''processing'', ''1'']\<rparr>"

lemma object_ids: "valid_object_id base_id" "valid_object_id commit_id" "base_id \<noteq> commit_id"
  by (simp_all add: valid_object_id_def base_id_def commit_id_def list_all_iff is_ascii_digit_def less_eq_char_def replicate_eq_replicate)

lemma sample_branch: "official_branch sample_gx sample_repository fst"
proof -
  have "official_moves sample_gx sample_repository fst"
    unfolding official_moves_def sample_gx_def sample_repository_def sample_git_def
    by (auto split: list.split_asm if_split_asm)
  moreover have "official_swaps sample_gx sample_repository fst"
    unfolding official_swaps_def sample_gx_def sample_repository_def sample_git_def git_says_def git_refuses_def
    by (auto split: if_split_asm)
  moreover have "official_reads sample_gx sample_repository fst"
    unfolding official_reads_def sample_gx_def sample_repository_def sample_git_def git_says_def git_refuses_def
    by (auto split: if_split_asm)
  ultimately show ?thesis by (simp add: official_branch_def sample_repository_def)
qed

lemma sample_codec_ok: "journal_codec_ok sample_codec"
  by (auto simp: journal_codec_ok_def sample_codec_def)


section \<open>The steps of a call on the sample repository\<close>

definition sample_world :: "'x \<Rightarrow> string \<Rightarrow> string option \<Rightarrow> fs \<Rightarrow> fs \<Rightarrow> (sample_refs, 'x) repo_world" where
  "sample_world x tip ref worktrees journals =
     \<lparr>rw_files = \<lparr>gf_git = (tip, ref), gf_worktrees = worktrees, gf_canonical = [([], Dir)]\<rparr>, rw_journals = journals, rw_outside = x\<rparr>"

lemmas sample_step_defs = run_git_def run_git_with_input_and_environment_def git_process_def with_files_def sample_gx_def sample_git_def
  git_says_def git_refuses_def andthen_def observe_def finish_def reject_if_def sample_world_def sample_repository_def

lemma sample_names:
  "tw_show sample_worker (7 :: ulid) = ''7''" "show_ulid queue_sample 7 = ''7''" "show_ulid queue_sample 1 = ''1''"
  by (simp_all add: tw_show_def sample_worker_def show_ulid_def queue_sample_def valid_externals_def sample_externals_def show_nat.simps)

lemma other_revision: "commit_id @ s \<noteq> ''refs/heads/main^{commit}''"
  by (simp add: commit_id_def numeral_eq_Suc)

lemma sample_resolves:
  "valid_object_id tip \<Longrightarrow> resolve_commit sample_gx sample_repository (gr_official_ref sample_repository) (sample_world x tip ref worktrees journals) =
     (Inr tip, sample_world x tip ref worktrees journals)"
  "resolve_commit sample_gx sample_repository commit_id (sample_world x tip ref worktrees journals) =
     (Inr commit_id, sample_world x tip ref worktrees journals)"
  "resolve_optional_commit sample_gx sample_repository revision (sample_world x tip (Some commit_id) worktrees journals) =
     (Inr (Some commit_id), sample_world x tip (Some commit_id) worktrees journals)"
  "resolve_optional_commit sample_gx sample_repository revision (sample_world x tip None worktrees journals) =
     (Inr None, sample_world x tip None worktrees journals)"
  unfolding resolve_commit_def resolve_optional_commit_def
  by (auto simp: sample_step_defs parse_object_id_line other_revision object_ids split: option.split)

lemma sample_calls:
  "ensure_canonical_clean sample_gx sample_repository (sample_world x tip ref worktrees journals) =
     (Inr (), sample_world x tip ref worktrees journals)"
  "compare_and_swap_official sample_gx sample_repository tip commit (sample_world x tip ref worktrees journals) =
     (Inr (), sample_world x commit ref worktrees journals)"
  "create_transaction_ref sample_gx sample_repository show_id batch_id commit (sample_world x tip ref worktrees journals) =
     (Inr (), sample_world x tip (Some commit) worktrees journals)"
  unfolding ensure_canonical_clean_def compare_and_swap_official_def create_transaction_ref_def
  by (auto simp: sample_step_defs object_ids transaction_ref_def)

lemma sample_ref_removed:
  "remove_transaction_ref sample_gx sample_repository show_id batch_id (Some commit_id) (sample_world x tip (Some commit_id) worktrees journals) =
     (Inr (), sample_world x tip None worktrees journals)"
  by (simp add: remove_transaction_ref_def andthen_def sample_resolves) (simp add: sample_step_defs transaction_ref_def)

lemma root_directory: "symlink_metadata [([], Dir)] [] = Inr Dir" "read_dir [([], Dir)] [] = Inr []"
  "sync_dir [] [([], Dir)] = Inr ()" "path_exists [name] [([], Dir)] = Inr False"
  by (simp_all add: symlink_metadata_def lookup_def resolve_parent_def strict_prefixes_def read_dir_def children_def sync_dir_def
      path_exists_def)

lemma root_synced: "sync_tree [([], Dir)] [] = Inr ()"
  by (subst sync_tree.simps) (simp add: root_directory)

lemma sample_worktree_removed:
  "remove_worktree sample_gx queue_sample sample_repository (BatchId 7) (sample_world x tip ref [([], Dir)] journals) =
     (Inr (), sample_world x tip ref [([], Dir)] journals)"
  by (simp add: remove_worktree_def worktree_path_def Let_def sample_step_defs root_directory)

lemma sample_canonical_synced:
  "sync_canonical sample_gx sample_repository commit (sample_world x commit ref worktrees journals) =
     (Inr (), sample_world x commit ref worktrees journals)"
  by (simp add: sync_canonical_def sample_step_defs root_synced)

lemma sample_worker_ready:
  "worker_queue_identity sample_worker = Inr queue_identity" "ensure_transaction_ready sample_worker = Inr ()"
  using ready_identity [OF queue_trees_ready(3)]
  by (simp_all add: worker_queue_identity_def ensure_transaction_ready_def sample_worker_def queue_of_def sample_session_def
      ensure_no_active_scan_def ensure_recovery_complete_def new_worker_session_def default_batch_scan_def default_observation_def)

definition journals_with :: "string \<Rightarrow> fs" where
  "journals_with s = [([], Dir), ([''7.json''], new_file (s @ [lf]))]"

lemma journals_with_wf: "wf_fs (journals_with s)"
  by (auto simp: wf_fs_def journals_with_def lookup_def split: if_split_asm)

lemma sample_journal_read:
  "read_batch_journal sample_gx (tw_show sample_worker) (BatchId 7) (sample_world x tip ref worktrees (journals_with ''n'')) =
     (Inr (Some (sample_journal unchanged_state)), sample_world x tip ref worktrees (journals_with ''n''))"
  "read_batch_journal sample_gx (tw_show sample_worker) (BatchId 7) (sample_world x tip ref worktrees (journals_with ''c'')) =
     (Inr (Some (sample_journal published_state)), sample_world x tip ref worktrees (journals_with ''c''))"
proof -
  have f: "lookup (journals_with s) [''7.json''] = Some (File (s @ [lf]) 420 1)" for s
    by (simp add: journals_with_def lookup_def new_file_def)
  have d: "decode_journal sample_codec (''n'' @ [lf]) = Inr (sample_journal unchanged_state)"
    "decode_journal sample_codec (''c'' @ [lf]) = Inr (sample_journal published_state)"
    by (simp_all add: decode_journal_def sample_codec_def) (simp_all add: sample_journal_def)
  have r: "read_journal sample_codec [''7.json''] (journals_with s) = Inr (Some journal)"
    if "decode_journal sample_codec (s @ [lf]) = Inr journal" "length s \<le> 1" for s journal
    using read_journal_of_file [OF journals_with_wf f _ that(1)] that(2) by (simp add: MAXIMUM_JOURNAL_BYTES_def)
  have g: "gx_journal sample_gx = sample_codec" by (simp add: sample_gx_def)
  show "read_batch_journal sample_gx (tw_show sample_worker) (BatchId 7) (sample_world x tip ref worktrees (journals_with ''n'')) =
     (Inr (Some (sample_journal unchanged_state)), sample_world x tip ref worktrees (journals_with ''n''))"
    "read_batch_journal sample_gx (tw_show sample_worker) (BatchId 7) (sample_world x tip ref worktrees (journals_with ''c'')) =
     (Inr (Some (sample_journal published_state)), sample_world x tip ref worktrees (journals_with ''c''))"
    using r [OF d(1)] r [OF d(2)]
    by (simp_all add: read_batch_journal_def observe_def sample_world_def journal_path_def batch_id_to_string_def sample_names g)
qed

lemma no_other_journal: "ensure_no_other_journal (tw_show sample_worker) (BatchId 7) (journals_with s) = Inr ()"
  using ascii_is_utf8 [of "''7.json''"]
  by (simp add: ensure_no_other_journal_def read_dir_def symlink_metadata_def lookup_def resolve_parent_def strict_prefixes_def
      children_def journals_with_def batch_id_to_string_def sample_names is_ascii_def code_def)

lemma sample_valid:
  "validate_journal_structure (sample_journal unchanged_state) (BatchId 7) = Inr ()"
  "validate_journal_structure (sample_journal published_state) (BatchId 7) = Inr ()"
  "validate_worker_identity (sample_journal state) sample_worker = Inr ()"
  by (simp_all add: validate_journal_structure_def validate_worker_identity_def sample_worker_ready sample_journal_def unchanged_state_def
      published_state_def object_ids outcomes_match_def)

lemma sample_required:
  "require_journal sample_gx sample_worker (BatchId 7) (sample_world x tip ref worktrees (journals_with ''n'')) =
     (Inr (sample_journal unchanged_state), sample_world x tip ref worktrees (journals_with ''n''))"
  "require_journal sample_gx sample_worker (BatchId 7) (sample_world x tip ref worktrees (journals_with ''c'')) =
     (Inr (sample_journal published_state), sample_world x tip ref worktrees (journals_with ''c''))"
  by (simp_all add: require_journal_def andthen_def sample_journal_read observe_def finish_def sample_valid)

lemma sample_message_checked:
  "check_committed_message (tw_show sample_worker) (BatchId 7) [RequestId 1] sample_message = Inr ()"
proof -
  have "str_lines sample_message = [''Batch-ID: 7'', ''Knowledge-Request: 1'']" "is_utf8 sample_message"
    unfolding sample_message_def by code_simp+
  moreover have "tw_show sample_worker 1 = ''1''" by (simp add: tw_show_def sample_worker_def sample_names)
  ultimately show ?thesis
    by (simp add: check_committed_message_def Let_def batch_id_to_string_def request_id_to_string_def sample_names)
qed

lemma parse_text_line:
  assumes "s \<noteq> []" and c: "\<And>c. c \<in> set s \<Longrightarrow> 32 \<le> code c \<and> code c < 127"
    and "32 < code (hd s)" and "32 < code (last s)"
  shows "parse_text (s @ [lf]) = Inr s"
proof -
  have a: "is_ascii (s @ [lf])" using c by (fastforce simp: is_ascii_def list_all_iff code_def)
  have "\<not> is_whitespace (code (hd s))" "\<not> is_whitespace (code (last s))" "is_whitespace (code lf)"
    using assms(3,4) c [of "hd s"] c [of "last s"] assms(1) by (auto simp: is_whitespace_def code_def)
  note blank = this
  have "dropWhile is_whitespace (map code (s @ [lf])) = map code (s @ [lf])" using blank assms(1) by (cases s) auto
  moreover have "dropWhile is_whitespace (rev (map code (s @ [lf]))) = rev (map code s)"
    using blank assms(1) by (cases s rule: rev_cases) auto
  ultimately have t: "trim (chars (s @ [lf])) = map code s" using ascii_chars [OF a] by (simp add: trim_def)
  have "string_of (map code s) = s" using c by (intro string_of_ascii) (fastforce simp: list_all_iff)
  moreover have "\<not> list_ex is_control (map code s)" using c by (fastforce simp: list_ex_iff is_control_def)
  ultimately show ?thesis using ascii_is_utf8 [OF a] assms(1) t by (simp add: parse_text_def Let_def)
qed

lemma ascii_words_word: "list_all (\<lambda>c. 32 < code c) w \<Longrightarrow> ascii_words acc (w @ s) = ascii_words (acc @ w) s"
  by (induction w arbitrary: acc) auto

lemma parents_text:
  "parse_text (commit_id @ CHR '' '' # base_id @ [lf]) = Inr (commit_id @ '' '' @ base_id)"
  "split_ascii_whitespace (commit_id @ CHR '' '' # base_id) = [commit_id, base_id]"
proof -
  have set_ids: "set commit_id = {CHR ''b''}" "set base_id = {CHR ''a''}" "hd commit_id = CHR ''b''" "last base_id = CHR ''a''"
    "commit_id \<noteq> []" "base_id \<noteq> []"
    by (simp_all add: commit_id_def base_id_def)
  have "parse_text ((commit_id @ '' '' @ base_id) @ [lf]) = Inr (commit_id @ '' '' @ base_id)"
    by (rule parse_text_line; simp add: set_ids code_def) (elim disjE; simp)
  then show "parse_text (commit_id @ CHR '' '' # base_id @ [lf]) = Inr (commit_id @ '' '' @ base_id)" by simp
  have "ascii_words [] (commit_id @ CHR '' '' # base_id @ []) = [commit_id, base_id]"
    by (simp add: ascii_words_word set_ids list_all_iff code_def del: append_Nil2)
  then show "split_ascii_whitespace (commit_id @ CHR '' '' # base_id) = [commit_id, base_id]"
    by (simp add: split_ascii_whitespace_def)
qed

lemma sample_commit_valid:
  "validate_committed_journal sample_gx sample_repository (tw_show sample_worker) (sample_journal published_state)
     (sample_world x tip ref worktrees journals) = (Inr (), sample_world x tip ref worktrees journals)"
proof -
  have p: "commit_parents sample_gx sample_repository commit_id (sample_world x tip ref worktrees journals) =
    (Inr [commit_id, base_id], sample_world x tip ref worktrees journals)"
    by (simp add: commit_parents_def sample_step_defs parents_text)
  have m: "run_git sample_gx None (Some (gr_git_directory sample_repository)) [''show'', ''-s'', ''--format=%B'', commit_id]
    (sample_world x tip ref worktrees journals) =
    (Inr \<lparr>go_success = True, go_code = Some 0, go_stdout = sample_message, go_stderr = []\<rparr>, sample_world x tip ref worktrees journals)"
    by (simp add: sample_step_defs)
  show ?thesis
    by (simp add: validate_committed_journal_def sample_journal_def published_state_def andthen_def sample_resolves p m
        reject_if_def observe_def sample_message_checked)
qed

lemma sample_live: "gx_canonical_lock sample_gx = Inr ()" "live_storage sample_gx w = Inr ()" "lock_writer sample_gx (Inr ()) w = (Inr (), w)"
  by (simp_all add: sample_gx_def live_storage_def lock_writer_def andthen_def observe_def)

lemma sample_published:
  "publish_committed sample_gx sample_repository queue_sample (BatchId 7) base_id commit_id True
     (sample_world x base_id (Some commit_id) [([], Dir)] journals) = (Inr (), sample_world x commit_id None [([], Dir)] journals)"
  by (simp add: publish_committed_def andthen_def observe_def sample_live sample_resolves sample_calls object_ids ensure_transaction_ref_def
      reject_if_def sample_canonical_synced or_else_def sample_worktree_removed sample_ref_removed)

lemma sample_outcomes:
  "outcome_from_journal (sample_journal published_state) = Inr (OutcomeCommitted commit_id [sample_token] [])"
  "outcome_from_journal (sample_journal unchanged_state) = Inr (OutcomeNoChanges [\<lparr>rf_token = sample_token, rf_error_code = InvalidRequest\<rparr>])"
  by (simp_all add: outcome_from_journal_def sample_journal_def published_state_def unchanged_state_def journal_token_def
      journal_failures_def sample_token_def)

lemma sample_recovered:
  "recover_batch_with_publication sample_gx sample_repository (Inr ()) sample_worker 9 (\<lambda>_. finish ()) (BatchId 7)
     (sample_world x base_id (Some commit_id) [([], Dir)] (journals_with ''c'')) =
     (Inr (OutcomeCommitted commit_id [sample_token] []), sample_world x commit_id None [([], Dir)] (journals_with ''c''))"
proof -
  let ?j = "sample_journal published_state"
  have "resume_batch sample_gx sample_repository sample_worker 9 (\<lambda>_. finish ()) (BatchId 7) ?j
    (sample_world x base_id (Some commit_id) [([], Dir)] (journals_with ''c'')) =
    (Inr (), sample_world x commit_id None [([], Dir)] (journals_with ''c''))"
  proof -
    have "tj_state ?j = Committed commit_id [RequestId 1] [] True" "tj_base_commit ?j = base_id" "tw_externals sample_worker = queue_sample"
      by (simp_all add: sample_journal_def published_state_def sample_worker_def)
    then show ?thesis
      by (simp add: resume_batch_def recover_committed_def andthen_def sample_commit_valid finish_def sample_published)
  qed
  moreover have "rw_journals (sample_world x tip ref worktrees journals) = journals" for tip ref worktrees journals
    by (simp add: sample_world_def)
  ultimately show ?thesis
    by (simp add: recover_batch_with_publication_def andthen_def sample_live sample_worker_ready no_other_journal observe_def
        sample_required sample_outcomes)
qed

section \<open>A claim that the repository rejects\<close>

text \<open>The claimed request of the sample queue was created after it was accepted.\<close>

definition claim_tree :: fs where
  "claim_tree = accepted_package @ [([PHASE_FILE_NAME], new_file (''p'' @ [lf]))]"

lemma claim_subtree: "subtree [''processing'', ''1''] processing_tree = claim_tree"
  by (simp add: subtree_def claim_tree_def processing_tree_def queue_trees)

lemma claim_tree_lookups:
  "lookup claim_tree [] = Some Dir" "lookup claim_tree [''request.json''] = Some (new_file ''{}'')"
  "lookup claim_tree [''payload''] = Some Dir" "lookup claim_tree [''payload'', ''a.md''] = Some (new_file sample_document)"
  "lookup claim_tree [DIGEST_FILE_NAME] = Some (new_file (valid_digest_text @ [lf]))"
  "lookup claim_tree [ACCEPTANCE_FILE_NAME] = Some (new_file (''{}'' @ [lf]))"
  "lookup claim_tree [PHASE_FILE_NAME] = Some (new_file (''p'' @ [lf]))"
  "children claim_tree [] = [''request.json'', ''payload'', DIGEST_FILE_NAME, ACCEPTANCE_FILE_NAME, PHASE_FILE_NAME]"
  "children claim_tree [''payload''] = [''a.md'']"
  by (simp_all add: lookup_def children_def claim_tree_def queue_trees)

lemma claim_tree_metadata:
  "lookup claim_tree [a] = Some n \<Longrightarrow> symlink_metadata claim_tree [a] = Inr n"
  "symlink_metadata claim_tree [] = Inr Dir"
  "symlink_metadata claim_tree [''payload'', ''a.md''] = Inr (new_file sample_document)"
  by (simp_all add: symlink_metadata_def resolve_parent_def strict_prefixes_def claim_tree_lookups)

lemma claim_holds: "holds_package claim_tree"
  by (simp add: holds_package_def claim_tree_lookups claim_tree_metadata)

lemma claim_root: "validate_package_root claim_tree True None = Inr ()"
proof -
  let ?names = "[REQUEST_FILE_NAME, PAYLOAD_DIRECTORY_NAME, DIGEST_FILE_NAME, ACCEPTANCE_FILE_NAME, PHASE_FILE_NAME]"
  have names: "try_fold (check_root_entry True None) (List.enumerate 0 ?names) [] = Inr (rev ?names)" by code_simp
  have regular: "check_regular claim_tree name = Inr ()" if "lookup claim_tree [name] = Some (new_file bytes)" for name bytes
    using claim_tree_metadata(1) [OF that] by (simp add: check_regular_def validate_regular_file_def new_file_def)
  have "lookup claim_tree [REQUEST_FILE_NAME] = Some (new_file ''{}'')" by (simp add: claim_tree_lookups file_names(1))
  then have files: "check_regular claim_tree REQUEST_FILE_NAME = Inr ()" "check_regular claim_tree DIGEST_FILE_NAME = Inr ()"
    "check_regular claim_tree ACCEPTANCE_FILE_NAME = Inr ()" "check_regular claim_tree PHASE_FILE_NAME = Inr ()"
    using regular claim_tree_lookups by blast+
  have entries: "children claim_tree [] = ?names" "symlink_metadata claim_tree [PAYLOAD_DIRECTORY_NAME] = Inr Dir" "RESULT_FILE_NAME \<notin> set ?names"
    by (simp_all add: claim_tree_lookups claim_tree_metadata) (simp_all add: claim_tree_lookups claim_tree_metadata file_names)
  then show ?thesis
    using names files
    by (simp add: validate_package_root_def ensure_operation_active_def claim_tree_metadata read_dir_def
        del: enumerate_simps cong: attempt_weak_cong)
qed

lemma claim_digest: "read_digest_file claim_tree [DIGEST_FILE_NAME] = Inr (vp_digest valid_result)"
proof -
  obtain r where r: "vp_digest valid_result = PackageDigest r" by (cases "vp_digest valid_result")
  then have wf: "wf_revision r" using valid_digest_wf by simp
  have "read_file claim_tree [DIGEST_FILE_NAME] = Inr (display_revision r @ [lf])"
    using claim_tree_metadata(1) [OF claim_tree_lookups(5)] by (simp add: read_file_def new_file_def valid_digest_text_def r)
  then show ?thesis
    using display_revision_line [of r] display_revision_length [OF wf] revision_text.from_str_to_str [OF wf]
    by (simp add: read_digest_file_def Let_def MAXIMUM_DIGEST_FILE_BYTES_def strip_suffix_snoc r)
qed

lemma claim_acceptance: "read_acceptance_file valid_externals claim_tree [ACCEPTANCE_FILE_NAME] = Inr sample_acceptance"
proof -
  note m = claim_tree_metadata(1) [OF claim_tree_lookups(6)]
  then have "read_file claim_tree [ACCEPTANCE_FILE_NAME] = Inr (''{}'' @ [lf])" by (simp add: read_file_def new_file_def)
  with m show ?thesis
    by (simp add: read_acceptance_file_def validate_regular_file_def new_file_def read_limited_file_until_def
        ensure_operation_active_def enforce_file_size_def read_loop_total node_length_def saturating_add_u64_def u64_max_def
        MAXIMUM_ACCEPTANCE_FILE_BYTES_def valid_externals_def sample_externals_def)
qed

lemma claim_validated:
  "validate_accepted_package valid_externals claim_tree sample_policy = Inr (valid_result\<lparr>vp_acceptance := Some sample_acceptance\<rparr>)"
  by (simp add: validate_accepted_package_def claim_root claim_digest claim_acceptance valid_contents [OF claim_holds])

lemma empty_build: "cp_scan_deadline policy = None \<Longrightarrow> build ex now [([], Dir)] policy package_policy = Inr \<lparr>ci_documents = [], ci_attachments = []\<rparr>"
  by (simp add: build_def build_validated_def index_loop.simps [of _ _ _ _ _ "[[]]"] index_loop.simps [of _ _ _ _ _ "[]"] read_dir_def
      symlink_metadata_def resolve_parent_def strict_prefixes_def lookup_def children_def check_scan_deadline_def
      validate_attachment_locations_def)

lemma claim_rejected:
  assumes "cp_scan_deadline policy = None"
  shows "apply_claimed valid_externals now after claim_tree (valid_result\<lparr>vp_acceptance := Some sample_acceptance\<rparr>) policy sample_policy
    [([], Dir)] = (Inl RequestCreatedAfterAcceptance, [([], Dir)])"
proof -
  have "cr_created_at (vp_request valid_result) = sample_datetime"
    by (simp add: valid_result_def decoded_request_def)
  then show ?thesis
    by (simp add: apply_claimed_def claim_validated apply_request_with_policy_def empty_build [OF assms]
        build_plan_def operation_time_def before_instant_def same_package_def same_request_def same_acceptance_def same_instant_def
        sample_acceptance_def sample_datetime_def Let_def)
qed

lemma claim_valid: "session_validate_claimed queue_sample queue_of \<lparr>cp_token = sample_token,
    cp_package = valid_result\<lparr>vp_acceptance := Some sample_acceptance\<rparr>, cp_package_root = [''processing'', ''1'']\<rparr>
    sample_session processing_tree = Inr ()"
proof -
  have "find_existing queue_sample (RequestId 1) processing_tree = Inr (Some (Processing, vp_digest valid_result))"
    by (rule queue_find_existing [OF processing_facts(1) queue_trees_wf(3)]) (simp add: lookup_def processing_tree_def queue_trees)
  with processing_facts(2) ready_identity [OF queue_trees_ready(3)] show ?thesis
    by (simp add: session_validate_claimed_def queue_validate_claimed_def Let_def sample_token_def queue_names sample_session_def
        ensure_no_active_scan_def ensure_recovery_complete_def new_worker_session_def default_batch_scan_def default_observation_def)
qed

section \<open>A batch without changes\<close>

lemma sample_claim_checks:
  "worker_validate_claimed sample_worker sample_claimed = Inr ()"
  "validate_batch_claims sample_worker (BatchId 7) [sample_claimed] = Inr ()"
proof -
  show v: "worker_validate_claimed sample_worker sample_claimed = Inr ()"
    using claim_valid by (simp add: worker_validate_claimed_def sample_worker_def sample_claimed_def)
  have "vp_acceptance (cp_package sample_claimed) = Some sample_acceptance" "ct_batch_id (cp_token sample_claimed) = BatchId 7"
    by (simp_all add: sample_claimed_def sample_token_def)
  with v show "validate_batch_claims sample_worker (BatchId 7) [sample_claimed] = Inr ()"
    by (simp add: validate_batch_claims_def Let_def)
qed

lemma sample_begun:
  "begin_batch sample_gx sample_repository (Inr ()) sample_worker (BatchId 7) [sample_claimed] 0
     (sample_world x base_id None [([], Dir)] [([], Dir)]) =
     (Inr (sample_journal Preparing), sample_world x base_id None [([], Dir)] [([], Dir)])"
proof -
  let ?w = "sample_world x base_id None [([], Dir)] [([], Dir)]"
  have "rw_journals ?w = [([], Dir)]" "gf_worktrees (rw_files ?w) = [([], Dir)]" by (simp_all add: sample_world_def)
  moreover have "read_batch_journal sample_gx (tw_show sample_worker) (BatchId 7) ?w = (Inr None, ?w)"
    by (simp add: read_batch_journal_def observe_def sample_world_def journal_path_def read_journal_def symlink_metadata_def
        resolve_parent_def strict_prefixes_def lookup_def)
  moreover have "ensure_no_other_journal (tw_show sample_worker) (BatchId 7) [([], Dir)] = Inr ()"
    by (simp add: ensure_no_other_journal_def root_directory)
  moreover have "journal_claims [sample_claimed] = tj_claims (sample_journal Preparing)"
    by (simp add: journal_claims_def sample_claimed_def sample_token_def sample_journal_def sample_acceptance_def)
  ultimately show ?thesis
    using sample_resolves(1) [OF object_ids(1), of x None "[([], Dir)]" "[([], Dir)]"]
    by (simp add: begin_batch_def andthen_def sample_live reject_if_def observe_def restart_preparing_def finish_def sample_claim_checks
        sample_calls ensure_worktree_absent_def worktree_path_def root_directory sample_worker_ready)
      (simp add: sample_journal_def)
qed

lemma sample_journal_written:
  assumes "journals = [([], Dir)] \<or> (\<exists>t. journals = journals_with t)" and "jx_to_json sample_codec journal = Inr s" and "length s = 1"
  shows "write_batch_journal sample_gx (tw_show sample_worker) 9 (BatchId 7) journal (sample_world x tip ref worktrees journals) =
     (Inr (), sample_world x tip ref worktrees (journals_with s))"
  using assms
  by (auto simp: write_batch_journal_def with_journals_def write_journal_def journal_path_def batch_id_to_string_def sample_names
      sample_world_def sample_gx_def andthen_def observe_def reject_if_def or_cleanup_def perform_def Let_def
      MAXIMUM_JOURNAL_BYTES_def create_new_def put_def rename_def rename_target_ok_def relocate_def journals_with_def
      symlink_metadata_def resolve_parent_def strict_prefixes_def lookup_def sync_dir_def new_file_def)

lemma sample_batch_applied:
  "apply_in_worktree sample_gx sample_repository sample_worker default_content_policy sample_policy (BatchId 7) [sample_claimed]
     (sample_world x base_id None [([], Dir), ([''batch-7''], Dir)] journals) =
     (Inr \<lparr>pr_tree = commit_id, pr_successful = [], pr_failures = [\<lparr>rf_token = sample_token, rf_error_code = InvalidRequest\<rparr>], pr_moves = []\<rparr>,
      sample_world x base_id None [([], Dir), ([''batch-7''], Dir)] journals)"
proof -
  let ?w = "sample_world x base_id None [([], Dir), ([''batch-7''], Dir)] journals"
  have tree: "resolve_in_worktree sample_gx worktree ''HEAD^{tree}'' ?w = (Inr commit_id, ?w)" for worktree
    by (simp add: resolve_in_worktree_def sample_step_defs parse_object_id_line object_ids)
  have reset: "reset_worktree sample_gx worktree tree ?w = (Inr (), ?w)" for worktree tree
    by (simp add: reset_worktree_def sample_step_defs)
  have "apply_to_worktree sample_gx sample_worker default_content_policy sample_policy (worktree_path (tw_show sample_worker) (BatchId 7))
      sample_claimed ?w = (Inr (Inl RequestCreatedAfterAcceptance), ?w)"
  proof -
    have "subtree [''batch-7''] (gf_worktrees (rw_files ?w)) = [([], Dir)]" by (simp add: sample_world_def subtree_def)
    moreover have "worktree_path (tw_show sample_worker) (BatchId 7) = [''batch-7'']"
      by (simp add: worktree_path_def batch_id_to_string_def sample_names)
    moreover have "qx_base (tw_externals sample_worker) = valid_externals" "tw_tree sample_worker = processing_tree"
      by (simp_all add: sample_worker_def queue_sample_def)
    moreover have "cp_scan_deadline default_content_policy = None" by (simp add: default_content_policy_def)
    ultimately show ?thesis
      by (simp add: apply_to_worktree_def with_worktrees_def with_files_def sample_claimed_def claim_subtree claim_rejected)
        (simp add: sample_world_def graft_def)
  qed
  then show ?thesis
    by (simp add: apply_in_worktree_def andthen_def tree observe_def sample_claim_checks stage_failure_def reset finish_def)
      (simp add: sample_claimed_def)
qed

lemma sample_worktree_forced:
  "remove_worktree sample_gx queue_sample sample_repository (BatchId 7) (sample_world x tip ref [([], Dir), ([''batch-7''], Dir)] journals) =
     (Inr (), sample_world x tip ref [([], Dir)] journals)"
proof -
  have "path_exists [''batch-7''] [([], Dir), ([''batch-7''], Dir)] = Inr True"
    by (simp add: path_exists_def symlink_metadata_def resolve_parent_def strict_prefixes_def lookup_def)
  then show ?thesis
    by (simp add: remove_worktree_def worktree_path_def batch_id_to_string_def sample_names Let_def sample_step_defs or_else_def root_directory)
qed

abbreviation sample_outcome :: batch_commit_outcome where
  "sample_outcome \<equiv> OutcomeNoChanges [\<lparr>rf_token = sample_token, rf_error_code = InvalidRequest\<rparr>]"

lemma sample_applied:
  "apply_batch_with_hook sample_gx sample_repository (Inr ()) sample_worker (\<lambda>_. 9) (finish ()) (\<lambda>_ _. finish ())
     default_content_policy sample_policy (BatchId 7) [sample_claimed] 0 (sample_world x base_id None [([], Dir)] [([], Dir)]) =
     (Inr sample_outcome, sample_world x base_id None [([], Dir)] (journals_with ''n''))"
proof -
  have j: "jx_to_json sample_codec (sample_journal Preparing) = Inr ''p''"
    "jx_to_json sample_codec (sample_journal unchanged_state) = Inr ''n''"
    by (simp_all add: sample_codec_def) (simp add: sample_journal_def unchanged_state_def)
  have n: "(sample_journal Preparing)\<lparr>tj_state := NoChanges [\<lparr>jf_request_id = RequestId 1, jf_error_code = InvalidRequest\<rparr>]\<rparr> =
    sample_journal unchanged_state" "tj_base_commit (sample_journal Preparing) = base_id"
    by (simp_all add: sample_journal_def unchanged_state_def)
  have e: "run_git sample_gx None d [''worktree'', ''add'', ''--detach'', t, b] (sample_world x base_id None [([], Dir)] journals) =
    (Inr \<lparr>go_success = True, go_code = Some 0, go_stdout = [], go_stderr = []\<rparr>,
     sample_world x base_id None [([], Dir), ([''batch-7''], Dir)] journals)" for d t b journals
    by (simp add: sample_step_defs)
  have s: "sync_dir [] (gf_worktrees (rw_files (sample_world x base_id None [([], Dir), ([''batch-7''], Dir)] journals))) = Inr ()" for journals
    by (simp add: sample_world_def sync_dir_def symlink_metadata_def resolve_parent_def strict_prefixes_def lookup_def)
  have written: "write_batch_journal sample_gx (tw_show sample_worker) 9 (BatchId 7) (sample_journal Preparing) (sample_world x tip ref worktrees [([], Dir)]) =
      (Inr (), sample_world x tip ref worktrees (journals_with ''p''))"
    "write_batch_journal sample_gx (tw_show sample_worker) 9 (BatchId 7) (sample_journal unchanged_state)
      (sample_world x tip ref worktrees (journals_with ''p'')) = (Inr (), sample_world x tip ref worktrees (journals_with ''n''))" for tip ref worktrees
    by (rule sample_journal_written; use j in auto)+
  have w: "tw_externals sample_worker = queue_sample" "ct_request_id sample_token = RequestId 1"
    by (simp_all add: sample_worker_def sample_token_def)
  show ?thesis
    by (simp add: apply_batch_with_hook_def andthen_def sample_begun written e s observe_def sample_batch_applied
        conclude_without_changes_def prepared_failures_def n w sample_worktree_forced ensure_official_at_def sample_resolves
        object_ids reject_if_def sample_live finish_def)
qed

lemma sample_unchanged_recovered:
  "recover_batch_with_publication sample_gx sample_repository (Inr ()) sample_worker 9 (\<lambda>_. finish ()) (BatchId 7)
     (sample_world x base_id None [([], Dir)] (journals_with ''n'')) =
     (Inr sample_outcome, sample_world x base_id None [([], Dir)] (journals_with ''n''))"
proof -
  let ?w = "sample_world x base_id None [([], Dir)] (journals_with ''n'')" and ?j = "sample_journal unchanged_state"
  have "resume_batch sample_gx sample_repository sample_worker 9 (\<lambda>_. finish ()) (BatchId 7) ?j ?w = (Inr (), ?w)"
    by (simp add: resume_batch_def sample_journal_def unchanged_state_def andthen_def ensure_official_at_def sample_resolves
        object_ids reject_if_def observe_def sample_worker_def sample_worktree_removed remove_preparing_ref_def finish_def)
  moreover have "rw_journals ?w = journals_with ''n''" by (simp add: sample_world_def)
  ultimately show ?thesis
    by (simp add: recover_batch_with_publication_def andthen_def sample_live sample_worker_ready no_other_journal observe_def
        sample_required sample_outcomes)
qed

lemma sample_finalized:
  "finalize_batch sample_gx sample_repository (Inr ()) sample_worker (BatchId 7) (OutcomeCommitted commit_id [sample_token] [])
     \<lparr>br_queue_identity = queue_identity, br_batch_id = BatchId 7, br_outcomes = sort_outcomes (expected_outcomes [sample_token] [])\<rparr>
     (Some (Inr (Some commit_id))) (sample_world x commit_id None [([], Dir)] (journals_with ''c'')) =
     (Inr (), sample_world x commit_id None [([], Dir)] [([], Dir)])"
proof -
  let ?w = "sample_world x commit_id None [([], Dir)] (journals_with ''c'')" and ?j = "sample_journal published_state"
  have j: "tj_state ?j = Committed commit_id [RequestId 1] [] True" by (simp add: sample_journal_def published_state_def)
  have r: "with_journals (remove_journal (journal_path (tw_show sample_worker) (BatchId 7))) ?w =
    (Inr (), sample_world x commit_id None [([], Dir)] [([], Dir)])"
    by (simp add: with_journals_def remove_journal_def journal_path_def batch_id_to_string_def sample_names andthen_def perform_def
        remove_file_def sample_world_def journals_with_def symlink_metadata_def resolve_parent_def strict_prefixes_def lookup_def
        new_file_def observe_def sync_dir_def)
  have "gf_worktrees (rw_files ?w) = [([], Dir)]" by (simp add: sample_world_def)
  with r show ?thesis
    by (simp add: finalize_batch_def andthen_def sample_live observe_def sample_worker_ready sample_required j sample_commit_valid
        sample_outcomes reject_if_def reconciliation_validates_def ensure_published_def sample_resolves object_ids
        worktree_path_def root_directory)
qed

end
