(* ===== verification/Git_Correct.thy ===== *)
theory Git_Correct
  imports Git_Example
begin

text \<open>
  The properties of the repository transaction. They speak of any Git with the documented behaviour of
  \<open>official_branch\<close>, and are applied to the sample repository.
\<close>

section \<open>The official branch moves under its journal\<close>

text \<open>C2: Whatever a call of the repository does and however it ends, the tree of the journals
  stays well formed, and the official branch stays where it was, or the journal of its batch is in place: it reads back, names the old commit as its base and the new
  one as the commit whose publication has started.\<close>

theorem branch_moves_under_journal:
  assumes "official_branch gx repo tip" and "journal_codec_ok (gx_journal gx)" and "wf_fs (rw_journals w)"
    and "repository_call gx repo worker batch_id w w'"
  shows "wf_fs (rw_journals w') \<and> (official tip w' = official tip w \<or>
    (\<exists>journal successful failures.
       read_journal (gx_journal gx) (journal_path (tw_show worker) batch_id) (rw_journals w') = Inr (Some journal) \<and>
       tj_base_commit journal = official tip w \<and> tj_state journal = Committed (official tip w') successful failures True))"
  using repository_call_wf [OF assms(1,4,3)] repository_call_logged [OF assms(1,2,4,3)] by (simp add: logged_def)

theorem branch_moves_under_journal_witness:
  "\<exists>w'. repository_call sample_gx sample_repository sample_worker (BatchId 7)
       (sample_world () base_id (Some commit_id) [([], Dir)] (journals_with ''c'')) w' \<and> official fst w' = commit_id \<and>
     (\<exists>journal successful failures.
        read_journal sample_codec (journal_path (tw_show sample_worker) (BatchId 7)) (rw_journals w') = Inr (Some journal) \<and>
        tj_base_commit journal = base_id \<and> tj_state journal = Committed commit_id successful failures True)"
proof -
  let ?w = "sample_world () base_id (Some commit_id) [([], Dir)] (journals_with ''c'')"
    and ?w' = "sample_world () commit_id None [([], Dir)] (journals_with ''c'')"
  have call: "repository_call sample_gx sample_repository sample_worker (BatchId 7) ?w ?w'"
    by (rule repository_call.recovered [OF sample_recovered [of "()"]])
  moreover have "official fst ?w = base_id" "official fst ?w' = commit_id" "gx_journal sample_gx = sample_codec" "rw_journals ?w = journals_with ''c''"
    by (simp_all add: official_def sample_world_def sample_gx_def)
  ultimately show ?thesis
    using branch_moves_under_journal [OF sample_branch _ _ call] sample_codec_ok journals_with_wf object_ids(3)
    by (intro exI [of _ ?w']) simp
qed

section \<open>What a batch leaves behind\<close>

text \<open>C4: A batch that is applied leaves a journal that validates and gives the returned outcome, based on the
  commit the branch had. Every claim is settled exactly once. The branch is at the returned commit, or where
  it was when no request succeeded.\<close>

theorem applied_batch_is_journaled:
  assumes "official_branch gx repo tip" and "journal_codec_ok (gx_journal gx)" and "wf_fs (rw_journals w)"
    and "\<And>claim. claim \<in> set claims \<Longrightarrow> nonzero_claim claim"
    and "apply_batch_with_hook gx repo locked worker fresh trial_build before_publish policy package_policy batch_id claims
      claim_failures w = (Inr outcome, w')"
  shows "\<exists>journal. read_journal (gx_journal gx) (journal_path (tw_show worker) batch_id) (rw_journals w') = Inr (Some journal) \<and>
    validate_journal_structure journal batch_id = Inr () \<and> outcome_from_journal journal = Inr outcome \<and>
    tj_base_commit journal = official tip w \<and>
    (case outcome of
       OutcomeCommitted commit successful failures \<Rightarrow> official tip w' = commit \<and> successful \<noteq> [] \<and>
         mset (successful @ map rf_token failures) = mset (map cp_token claims)
     | OutcomeNoChanges failures \<Rightarrow> official tip w' = official tip w \<and> mset (map rf_token failures) = mset (map cp_token claims))"
  using assms by (rule applied_state)

lemma sample_nonzero: "claim \<in> set [sample_claimed] \<Longrightarrow> nonzero_claim claim"
  by (simp add: nonzero_claim_def sample_claimed_def sample_token_def sample_acceptance_def)

theorem applied_batch_is_journaled_witness:
  "\<exists>w' journal. apply_batch_with_hook sample_gx sample_repository (Inr ()) sample_worker (\<lambda>_. 9) (finish ()) (\<lambda>_ _. finish ())
       default_content_policy sample_policy (BatchId 7) [sample_claimed] 0 (sample_world () base_id None [([], Dir)] [([], Dir)]) =
       (Inr sample_outcome, w') \<and>
     read_journal (gx_journal sample_gx) (journal_path (tw_show sample_worker) (BatchId 7)) (rw_journals w') = Inr (Some journal) \<and>
     outcome_from_journal journal = Inr sample_outcome \<and> tj_base_commit journal = base_id"
proof -
  have "wf_fs (rw_journals (sample_world () base_id None [([], Dir)] [([], Dir)]))" "journal_codec_ok (gx_journal sample_gx)"
    "official fst (sample_world () base_id None [([], Dir)] [([], Dir)]) = base_id"
    using sample_codec_ok by (auto simp: sample_world_def sample_gx_def official_def wf_fs_def lookup_def)
  with applied_batch_is_journaled [OF sample_branch _ _ sample_nonzero sample_applied [of "()"]] sample_applied [of "()"] show ?thesis by auto
qed

section \<open>Recovery\<close>

text \<open>C15: Recovery that succeeds returns the outcome of the journal it found and leaves the branch at its
  commit, or at its base when nothing changed; it never gives an outcome for a batch that was still
  preparing.\<close>

theorem recovery_completes:
  assumes "official_branch gx repo tip" and "journal_codec_ok (gx_journal gx)" and "wf_fs (rw_journals w)"
    and "recover_batch_with_publication gx repo locked worker fresh before_publish batch_id w = (Inr outcome, w')"
  shows "\<exists>journal. read_journal (gx_journal gx) (journal_path (tw_show worker) batch_id) (rw_journals w) = Inr (Some journal) \<and>
    validate_journal_structure journal batch_id = Inr () \<and> tj_state journal \<noteq> Preparing \<and>
    outcome_from_journal journal = Inr outcome \<and>
    (case outcome of OutcomeCommitted commit _ _ \<Rightarrow> official tip w' = commit
     | OutcomeNoChanges _ \<Rightarrow> official tip w' = tj_base_commit journal \<and> official tip w = tj_base_commit journal)"
proof -
  have "tj_state journal \<noteq> Preparing" if "outcome_from_journal journal = Inr outcome" for journal
    using that by (auto simp: outcome_from_journal_def)
  with recovered_state [OF assms] show ?thesis by blast
qed

theorem recovery_completes_witness:
  "\<exists>w'. recover_batch_with_publication sample_gx sample_repository (Inr ()) sample_worker 9 (\<lambda>_. finish ()) (BatchId 7)
       (sample_world () base_id (Some commit_id) [([], Dir)] (journals_with ''c'')) =
       (Inr (OutcomeCommitted commit_id [sample_token] []), w') \<and> official fst w' = commit_id"
proof -
  have "wf_fs (rw_journals (sample_world () base_id (Some commit_id) [([], Dir)] (journals_with ''c'')))" "journal_codec_ok (gx_journal sample_gx)"
    using sample_codec_ok journals_with_wf by (auto simp: sample_world_def sample_gx_def)
  with recovery_completes [OF sample_branch _ _ sample_recovered [of "()"]] sample_recovered [of "()"] show ?thesis by auto
qed

text \<open>C12: Recovering a batch that was applied gives the same outcome again and does not move the branch.\<close>

theorem recovery_repeats_outcome:
  assumes "official_branch gx repo tip" and "journal_codec_ok (gx_journal gx)" and "wf_fs (rw_journals w)"
    and "\<And>claim. claim \<in> set claims \<Longrightarrow> nonzero_claim claim"
    and "apply_batch_with_hook gx repo locked worker fresh trial_build before_publish policy package_policy batch_id claims
      claim_failures w = (Inr outcome, w')"
    and "recover_batch_with_publication gx repo locked' worker fresh' before_publish' batch_id w' = (Inr outcome', w'')"
  shows "outcome' = outcome \<and> official tip w'' = official tip w'"
proof -
  from applied_state [OF assms(1-5)] obtain journal where
    j: "read_journal (gx_journal gx) (journal_path (tw_show worker) batch_id) (rw_journals w') = Inr (Some journal)"
      "outcome_from_journal journal = Inr outcome" "tj_base_commit journal = official tip w"
    and tip: "case outcome of OutcomeCommitted commit _ _ \<Rightarrow> official tip w' = commit | OutcomeNoChanges _ \<Rightarrow> official tip w' = official tip w"
    by (auto split: batch_commit_outcome.split_asm)
  have "wf_fs (rw_journals w')" using tidy_calls(1) [OF assms(1)] assms(3,5) unfolding tidy_def by blast
  from recovered_state [OF assms(1,2) this assms(6)] j tip show ?thesis by (auto split: batch_commit_outcome.split_asm)
qed

theorem recovery_repeats_outcome_witness:
  "\<exists>w' w''. apply_batch_with_hook sample_gx sample_repository (Inr ()) sample_worker (\<lambda>_. 9) (finish ()) (\<lambda>_ _. finish ())
       default_content_policy sample_policy (BatchId 7) [sample_claimed] 0 (sample_world () base_id None [([], Dir)] [([], Dir)]) =
       (Inr sample_outcome, w') \<and>
     recover_batch_with_publication sample_gx sample_repository (Inr ()) sample_worker 9 (\<lambda>_. finish ()) (BatchId 7) w' =
       (Inr sample_outcome, w'') \<and> official fst w'' = official fst w'"
proof -
  have "wf_fs (rw_journals (sample_world () base_id None [([], Dir)] [([], Dir)]))" "journal_codec_ok (gx_journal sample_gx)"
    using sample_codec_ok by (auto simp: sample_world_def sample_gx_def wf_fs_def lookup_def)
  from recovery_repeats_outcome [OF sample_branch this(2,1) sample_nonzero sample_applied [of "()"] sample_unchanged_recovered [of "()"]]
  show ?thesis using sample_applied [of "()"] sample_unchanged_recovered [of "()"] by blast
qed

section \<open>One batch at a time\<close>

lemma journal_is_listed:
  assumes "wf_fs fs" and "read_journal jx [name] fs = Inr (Some journal)"
  shows "\<exists>names. read_dir fs [] = Inr names \<and> name \<in> set names"
proof -
  have "symlink_metadata fs [name] \<noteq> Inl e" for e
    using assms(2) by (cases e) (auto simp: read_journal_def)
  then obtain n where "symlink_metadata fs [name] = Inr n" by (cases "symlink_metadata fs [name]") auto
  then have "lookup fs [name] = Some n" using symlink_metadata_ok_iff [OF assms(1)] by blast
  then have "name \<in> set (children fs [])" using children_iff [of fs name "[]"] assms(1) by (simp add: wf_fs_def)
  moreover have "symlink_metadata fs [] = Inr Dir" using symlink_metadata_ok_iff [OF assms(1)] wf_fs_root [OF assms(1)] by blast
  ultimately show ?thesis by (simp add: read_dir_def)
qed

lemma begin_batch_blocked:
  assumes wf: "wf_fs (rw_journals w)" and state: "tj_state journal \<noteq> Preparing"
    and read: "read_journal (gx_journal gx) (journal_path (tw_show worker) batch_id) (rw_journals w) = Inr (Some journal)"
  shows "\<exists>e. begin_batch gx repo locked worker other_batch claims claim_failures w = (Inl e, w)"
proof (cases "ensure_no_other_journal (tw_show worker) other_batch (rw_journals w)")
  case (Inl e)
  then show ?thesis
    by (auto simp: begin_batch_def lock_writer_def andthen_def observe_def reject_if_def split: sum.split)
next
  case (Inr u)
  let ?name = "\<lambda>b. batch_id_to_string (tw_show worker) b @ ''.json''"
  from journal_is_listed [OF wf read [unfolded journal_path_def]]
  obtain names where names: "read_dir (rw_journals w) [] = Inr names" "?name batch_id \<in> set names" by blast
  have "?name batch_id = ?name other_batch"
    using Inr names by (auto simp: ensure_no_other_journal_def try_each_Inr_iff suffix_def split: if_split_asm)
  then have "read_batch_journal gx (tw_show worker) other_batch w = (Inr (Some journal), w)"
    using read by (simp add: read_batch_journal_def observe_def journal_path_def)
  moreover have "\<exists>e. restart_preparing gx repo worker other_batch claims claim_failures (Some journal) w = (Inl e, w)"
    using state by (auto simp: restart_preparing_def andthen_def observe_def reject_if_def split: sum.split)
  ultimately show ?thesis
    by (auto simp: begin_batch_def lock_writer_def andthen_def observe_def reject_if_def split: sum.split)
qed

text \<open>C9: While the journal of a finished batch is in place, applying a batch is refused before anything is
  done, whether it is the same batch or another one.\<close>

theorem unfinished_batch_blocks:
  assumes "wf_fs (rw_journals w)" and "tj_state journal \<noteq> Preparing"
    and "read_journal (gx_journal gx) (journal_path (tw_show worker) batch_id) (rw_journals w) = Inr (Some journal)"
  shows "\<exists>e. apply_batch_with_hook gx repo locked worker fresh trial_build before_publish policy package_policy other_batch claims
    claim_failures w = (Inl e, w)"
  using begin_batch_blocked [OF assms, of repo locked other_batch claims claim_failures]
  by (auto simp: apply_batch_with_hook_def andthen_def)

theorem unfinished_batch_blocks_witness:
  "\<exists>e. apply_batch_with_hook sample_gx sample_repository (Inr ()) sample_worker (\<lambda>_. 9) (finish ()) (\<lambda>_ _. finish ())
     default_content_policy sample_policy (BatchId 7) [sample_claimed] 0
     (sample_world () base_id None [([], Dir)] (journals_with ''n'')) =
     (Inl e, sample_world () base_id None [([], Dir)] (journals_with ''n''))"
proof (rule unfinished_batch_blocks)
  show "wf_fs (rw_journals (sample_world () base_id None [([], Dir)] (journals_with ''n'')))"
    by (simp add: sample_world_def journals_with_wf)
  show "tj_state (sample_journal unchanged_state) \<noteq> Preparing" by (simp add: sample_journal_def unchanged_state_def)
  show "read_journal (gx_journal sample_gx) (journal_path (tw_show sample_worker) (BatchId 7))
    (rw_journals (sample_world () base_id None [([], Dir)] (journals_with ''n''))) = Inr (Some (sample_journal unchanged_state))"
    using sample_journal_read(1) by (simp add: read_batch_journal_def observe_def)
qed

section \<open>The end of a transaction\<close>



end
