(* ===== verification/Spec2Isabelle.thy ===== *)
theory Spec2Isabelle
  imports Apply_Correct Queue_Correct Batch_Schedule Git_Correct
begin

text \<open>
  A verification of the agent-knowledge service.
\<close>

end
